(* ===== verification/Inim_Prelude.thy ===== *)
theory Inim_Prelude
  imports Complex_Main "HOL-Library.Word" "HOL-Library.Char_ord" "HOL-Library.List_Lexorder"
    "HOL-Library.Product_Lexorder" "HOL-Library.Option_ord"
    "HOL-Library.Multiset"
begin

text \<open>
  What every component of the development shares: the machine types of the Rust source, the
  parts of its standard library the code relies on (ordered maps, decimal and hexadecimal
  rendering, string splitting, IP address text, time arithmetic), the generic lemmas about
  sorting and runs of a step function, and the locales that state the shared interfaces.

  Conventions.
  \<^item> A Rust \<open>String\<close> is its UTF-8 byte sequence, a HOL \<open>string\<close>; the derived \<open>Ord\<close> of
    strings is bytewise lexicographic, the order that List_Lexorder and Char_ord give.
  \<^item> \<open>u32\<close> and \<open>u64\<close> are words; \<open>usize\<close> counters that count elements of a list in memory
    are \<open>nat\<close>.
  \<^item> A \<open>DateTime<Utc>\<close> is the number of nanoseconds since the Unix epoch, an \<open>int\<close>; a
    \<open>Duration\<close> is a difference of two, and \<open>num_seconds\<close> truncates towards zero.
  \<^item> An \<open>f64\<close> that holds whole seconds or the mean of two of them is the rational it
    denotes: such values are far below 2 to the 52 and represented exactly.
\<close>

unbundle bit_operations_syntax

type_synonym u32 = "32 word"
type_synonym u64 = "64 word"
type_synonym asn = u32
type_synonym timestamp = int
type_synonym duration = int

named_theorems inim_frame \<open>fields that a step leaves alone\<close>
named_theorems inim_inv \<open>preservation of well-formedness invariants\<close>

section \<open>Time\<close>

definition trunc_div :: "int \<Rightarrow> int \<Rightarrow> int" where
  "trunc_div a b = sgn a * sgn b * (\<bar>a\<bar> div \<bar>b\<bar>)"

definition secs :: "int \<Rightarrow> duration" where
  "secs n = n * 1000000000"

definition num_seconds :: "duration \<Rightarrow> int" where
  "num_seconds d = trunc_div d 1000000000"

lemma num_seconds_secs [simp]: "num_seconds (secs n) = n"
  by (simp add: num_seconds_def secs_def trunc_div_def abs_mult mult_sgn_abs sgn_mult)

lemma num_seconds_nonneg [simp]: "0 \<le> d \<Longrightarrow> 0 \<le> num_seconds d"
  by (simp add: num_seconds_def trunc_div_def sgn_if pos_imp_zdiv_nonneg_iff)

lemma num_seconds_mono: "a \<le> b \<Longrightarrow> num_seconds a \<le> num_seconds b"
proof (cases "0 \<le> a")
  case True
  moreover assume "a \<le> b"
  ultimately show ?thesis
    by (auto simp: num_seconds_def trunc_div_def sgn_if zdiv_mono1)
next
  case False
  moreover assume "a \<le> b"
  ultimately show ?thesis
    by (cases "0 \<le> b")
      (auto simp: num_seconds_def trunc_div_def sgn_if zdiv_mono1 pos_imp_zdiv_nonneg_iff
        intro: order_trans [of _ 0])
qed

section \<open>Text\<close>

text \<open>Decimal and lower-case hexadecimal rendering, and joining with a separator.\<close>

definition digit_char :: "nat \<Rightarrow> char" where
  "digit_char d = char_of (if d < 10 then 48 + d else 87 + d)"

fun show_base :: "nat \<Rightarrow> nat \<Rightarrow> string" where
  "show_base b n =
     (if b < 2 \<or> n < b then [digit_char n]
      else show_base b (n div b) @ [digit_char (n mod b)])"

declare show_base.simps [simp del]

definition show_nat :: "nat \<Rightarrow> string" where
  "show_nat n = show_base 10 n"

definition show_u32 :: "u32 \<Rightarrow> string" where
  "show_u32 w = show_nat (unat w)"

fun join :: "string \<Rightarrow> string list \<Rightarrow> string" where
  "join sep [] = []"
| "join sep [s] = s"
| "join sep (s # t # ts) = s @ sep @ join sep (t # ts)"

text \<open>The UTF-8 bytes of the two non-ASCII characters the source's texts use: the arrow
  U+2192 and the dash U+2014.\<close>

definition arrow_utf8 :: string where
  "arrow_utf8 = [CHR 0xE2, CHR 0x86, CHR 0x92]"

definition dash_utf8 :: string where
  "dash_utf8 = [CHR 0xE2, CHR 0x80, CHR 0x94]"

text \<open>\<open>str::split\<close> on one character: always at least one piece.\<close>

fun split_on :: "char \<Rightarrow> string \<Rightarrow> string list" where
  "split_on c [] = [[]]"
| "split_on c (x # xs) =
     (if x = c then [] # split_on c xs
      else (case split_on c xs of
              [] \<Rightarrow> [[x]]
            | p # ps \<Rightarrow> (x # p) # ps))"

lemma split_on_not_Nil [simp]: "split_on c s \<noteq> []"
  by (induction s) (auto split: list.splits)

lemma split_on_no_sep: "c \<notin> set s \<Longrightarrow> split_on c s = [s]"
  by (induction s) auto

lemma split_on_append_sep:
  "c \<notin> set s \<Longrightarrow> split_on c (s @ c # t) = s # split_on c t"
  by (induction s) auto

lemma digit_char_inj:
  assumes "digit_char a = digit_char b" and "a < 16" and "b < 16"
  shows "a = b"
proof -
  have "of_char (digit_char a) = (of_char (digit_char b) :: nat)"
    using assms(1) by simp
  with assms(2,3) show ?thesis
    by (auto simp: digit_char_def of_char_of split: if_splits)
qed

lemma digit_char_decimal: "d < 10 \<Longrightarrow> of_char (digit_char d) = 48 + d"
  by (simp add: digit_char_def of_char_of)

lemma set_show_base: "2 \<le> b \<Longrightarrow> c \<in> set (show_base b n) \<Longrightarrow> \<exists>d < b. c = digit_char d"
proof (induction n rule: less_induct)
  case (less n)
  show ?case
  proof (cases "n < b")
    case True
    with less.prems show ?thesis by (subst (asm) show_base.simps) auto
  next
    case False
    with less.prems have "c \<in> set (show_base b (n div b)) \<or> c = digit_char (n mod b)"
      by (subst (asm) show_base.simps) auto
    with False less.prems(1) less.IH [of "n div b"] show ?thesis
      by (auto intro: exI [of _ "n mod b"])
  qed
qed

lemma show_base_no_char:
  assumes "c \<in> {CHR ''.'', CHR '':''}" "2 \<le> b" "b \<le> 16"
  shows "c \<notin> set (show_base b n)"
proof
  assume "c \<in> set (show_base b n)"
  then obtain d where d: "d < b" "c = digit_char d" using set_show_base assms(2) by blast
  then have "of_char c = (if d < 10 then 48 + d else 87 + d)"
    using assms(3) by (simp add: digit_char_def of_char_of)
  with assms(1,3) d(1) show False by (auto split: if_splits)
qed

lemma show_nat_no_char: "c \<in> {CHR ''.'', CHR '':''} \<Longrightarrow> c \<notin> set (show_nat n)"
  by (simp add: show_nat_def show_base_no_char)

lemma set_join: "set (join sep ss) \<subseteq> set sep \<union> (\<Union>s \<in> set ss. set s)"
  by (induction sep ss rule: join.induct) auto

lemma hd_split_on: "hd (split_on c s) = takeWhile (\<lambda>x. x \<noteq> c) s"
  by (induction s) (auto split: list.splits)

text \<open>\<open>str::parse::<u8>\<close> restricted to what the IPv4 parser accepts: one to three decimal
  digits, no leading zero, at most 255.\<close>

definition digit_val :: "char \<Rightarrow> nat option" where
  "digit_val c = (let n = of_char c in if 48 \<le> n \<and> n < 58 then Some (n - 48) else None)"

fun parse_digits :: "nat \<Rightarrow> string \<Rightarrow> nat option" where
  "parse_digits acc [] = Some acc"
| "parse_digits acc (c # cs) =
     (case digit_val c of None \<Rightarrow> None | Some d \<Rightarrow> parse_digits (10 * acc + d) cs)"

definition parse_octet :: "string \<Rightarrow> nat option" where
  "parse_octet s =
     (if s = [] \<or> 3 < length s \<or> (1 < length s \<and> hd s = CHR ''0'') then None
      else case parse_digits 0 s of
             None \<Rightarrow> None
           | Some n \<Rightarrow> if n < 256 then Some n else None)"

section \<open>IP addresses\<close>

text \<open>\<open>std::net::IpAddr\<close>. The derived order puts V4 before V6 and compares the octets
  (segments) from the left, which is the order of the 32-bit (128-bit) numbers.\<close>

datatype ip_addr = V4 "32 word" | V6 "128 word"

instantiation ip_addr :: linorder
begin

fun less_eq_ip_addr :: "ip_addr \<Rightarrow> ip_addr \<Rightarrow> bool" where
  "less_eq_ip_addr (V4 a) (V4 b) = (a \<le> b)"
| "less_eq_ip_addr (V4 a) (V6 b) = True"
| "less_eq_ip_addr (V6 a) (V4 b) = False"
| "less_eq_ip_addr (V6 a) (V6 b) = (a \<le> b)"

definition less_ip_addr :: "ip_addr \<Rightarrow> ip_addr \<Rightarrow> bool" where
  "less_ip_addr a b = (a \<le> b \<and> \<not> b \<le> a)"

instance
proof
  fix x y z :: ip_addr
  show "(x < y) = (x \<le> y \<and> \<not> y \<le> x)" by (simp add: less_ip_addr_def)
  show "x \<le> x" by (cases x) auto
  show "x \<le> y \<Longrightarrow> y \<le> z \<Longrightarrow> x \<le> z" by (cases x; cases y; cases z) auto
  show "x \<le> y \<Longrightarrow> y \<le> x \<Longrightarrow> x = y" by (cases x; cases y) auto
  show "x \<le> y \<or> y \<le> x" by (cases x; cases y) auto
qed

end

definition octets :: "32 word \<Rightarrow> nat list" where
  "octets w = [unat w div 16777216, unat w div 65536 mod 256, unat w div 256 mod 256, unat w mod 256]"

definition segments :: "128 word \<Rightarrow> nat list" where
  "segments w = map (\<lambda>i. unat w div 2 ^ (16 * (7 - i)) mod 65536) [0..<8]"

definition ipv4_to_string :: "32 word \<Rightarrow> string" where
  "ipv4_to_string w = join ''.'' (map show_nat (octets w))"

text \<open>The longest run of zero segments, the first one on a tie: the scan of \<open>Ipv6Addr\<close>'s
  \<open>Display\<close>; a pair is (start, length).\<close>

fun zero_run :: "nat list \<Rightarrow> nat \<Rightarrow> nat \<times> nat \<Rightarrow> nat \<times> nat \<Rightarrow> nat \<times> nat" where
  "zero_run [] i cur longest = longest"
| "zero_run (s # ss) i cur longest =
     (if s = 0 then
        let cur' = (if snd cur = 0 then i else fst cur, snd cur + 1)
        in zero_run ss (i + 1) cur' (if snd longest < snd cur' then cur' else longest)
      else zero_run ss (i + 1) (0, 0) longest)"

definition ipv6_to_string :: "128 word \<Rightarrow> string" where
  "ipv6_to_string w =
     (let segs = segments w; hex = show_base 16 in
      if take 6 segs = [0, 0, 0, 0, 0, 65535]
      then ''::ffff:'' @ ipv4_to_string (ucast w)
      else case zero_run segs 0 (0, 0) (0, 0) of (start, len) \<Rightarrow>
             if 1 < len
             then join '':'' (map hex (take start segs)) @ ''::'' @
                  join '':'' (map hex (drop (start + len) segs))
             else join '':'' (map hex segs))"

fun ip_to_string :: "ip_addr \<Rightarrow> string" where
  "ip_to_string (V4 w) = ipv4_to_string w"
| "ip_to_string (V6 w) = ipv6_to_string w"

text \<open>\<open>str::parse::<IpAddr>\<close> on a text with no colon. An IPv6 text has at least two colons, so
  on such a text only the IPv4 form can be accepted.\<close>

definition parse_ip_no_colon :: "string \<Rightarrow> ip_addr option" where
  "parse_ip_no_colon s =
     (case map parse_octet (split_on CHR ''.'' s) of
        [Some a, Some b, Some c, Some d] \<Rightarrow>
          Some (V4 (of_nat (a * 16777216 + b * 65536 + c * 256 + d)))
      | _ \<Rightarrow> None)"

lemma show_nat_small:
  "n < 10 \<Longrightarrow> show_nat n = [digit_char n]"
  "10 \<le> n \<Longrightarrow> n < 100 \<Longrightarrow> show_nat n = [digit_char (n div 10), digit_char (n mod 10)]"
  "100 \<le> n \<Longrightarrow> n < 1000 \<Longrightarrow>
     show_nat n = [digit_char (n div 100), digit_char (n div 10 mod 10), digit_char (n mod 10)]"
  by (auto simp: show_nat_def show_base.simps [of 10 n] show_base.simps [of 10 "n div 10"]
      show_base.simps [of 10 "n div 100"] div_mult2_eq [symmetric])

lemma digit_val_digit_char: "d < 10 \<Longrightarrow> digit_val (digit_char d) = Some d"
  by (simp add: digit_val_def digit_char_decimal Let_def)

lemma digit_char_zero: "d < 10 \<Longrightarrow> (digit_char d = CHR ''0'') = (d = 0)"
proof -
  have "digit_char 0 = CHR ''0''" by code_simp
  then show "(digit_char d = CHR ''0'') = (d = 0)" if "d < 10"
    using that digit_char_inj [of d 0] by auto
qed

lemma decimal_3: "100 * (n div 100) + 10 * (n div 10 mod 10) + n mod 10 = (n :: nat)"
proof -
  have "n div 100 = n div 10 div 10" by (simp add: div_mult2_eq [symmetric])
  moreover have "10 * (n div 10 div 10) + n div 10 mod 10 = n div 10" by simp
  moreover have "10 * (n div 10) + n mod 10 = n" by simp
  ultimately show ?thesis by linarith
qed

lemma parse_octet_show_nat:
  assumes "n < 256"
  shows "parse_octet (show_nat n) = Some n"
proof -
  consider "n < 10" | "10 \<le> n" "n < 100" | "100 \<le> n" "n < 1000" using assms by linarith
  then show ?thesis
    by cases (use assms in \<open>auto simp: show_nat_small parse_octet_def digit_val_digit_char
        digit_char_zero decimal_3\<close>)
qed

lemma octets_lt: "n \<in> set (octets w) \<Longrightarrow> n < 256"
proof -
  have "unat w < 2 ^ LENGTH(32)" by (rule unsigned_less)
  then show "n < 256" if "n \<in> set (octets w)"
    using that by (auto simp: octets_def)
qed

lemma octets_value:
  "octets w = [a, b, c, d] \<Longrightarrow> a * 16777216 + b * 65536 + c * 256 + d = unat w"
proof -
  let ?n = "unat w"
  assume "octets w = [a, b, c, d]"
  then have "a = ?n div 256 div 256 div 256" "b = ?n div 256 div 256 mod 256"
    "c = ?n div 256 mod 256" "d = ?n mod 256"
    by (auto simp: octets_def div_mult2_eq [symmetric])
  moreover have "?n div 256 div 256 div 256 * 256 + ?n div 256 div 256 mod 256 = ?n div 256 div 256"
    "?n div 256 div 256 * 256 + ?n div 256 mod 256 = ?n div 256"
    "?n div 256 * 256 + ?n mod 256 = ?n"
    by simp_all
  ultimately show "a * 16777216 + b * 65536 + c * 256 + d = ?n" by linarith
qed

theorem parse_ipv4_to_string: "parse_ip_no_colon (ipv4_to_string w) = Some (V4 w)"
proof -
  obtain a b c d where o: "octets w = [a, b, c, d]" by (simp add: octets_def)
  have "split_on CHR ''.'' (ipv4_to_string w) = map show_nat [a, b, c, d]"
    by (simp add: ipv4_to_string_def o split_on_append_sep split_on_no_sep show_nat_no_char)
  moreover have "\<forall>n \<in> {a, b, c, d}. parse_octet (show_nat n) = Some n"
    using octets_lt [of _ w] by (auto simp: o parse_octet_show_nat)
  ultimately show ?thesis
    using octets_value [OF o] by (simp add: parse_ip_no_colon_def)
qed

lemma ipv4_to_string_no_colon: "CHR '':'' \<notin> set (ipv4_to_string w)"
  by (simp add: ipv4_to_string_def octets_def show_nat_no_char)

text \<open>The text before the first colon of an IPv6 address never parses as an address.\<close>

lemma ipv6_first_piece:
  "parse_ip_no_colon (takeWhile (\<lambda>x. x \<noteq> CHR '':'') (ipv6_to_string w)) = None"
proof -
  let ?s = "takeWhile (\<lambda>x. x \<noteq> CHR '':'') (ipv6_to_string w)"
  have hex: "CHR ''.'' \<notin> set (join '':'' (map (show_base 16) xs))" for xs
    using set_join [of "'':''" "map (show_base 16) xs"] by (auto dest!: subsetD simp: show_base_no_char)
  have "CHR ''.'' \<notin> set ?s"
    using hex by (auto simp: ipv6_to_string_def Let_def split: prod.splits dest: set_takeWhileD)
  then show ?thesis by (simp add: parse_ip_no_colon_def split_on_no_sep split: option.splits)
qed

section \<open>Ordered maps\<close>

text \<open>\<open>BTreeMap\<close>: an association list in strictly ascending key order, the order in which its
  iterators visit it. \<open>BTreeSet\<close> is the list of its keys.\<close>

type_synonym ('k, 'v) btree = "('k \<times> 'v) list"

fun bt_insert :: "'k::linorder \<Rightarrow> 'v \<Rightarrow> ('k, 'v) btree \<Rightarrow> ('k, 'v) btree" where
  "bt_insert k v [] = [(k, v)]"
| "bt_insert k v ((k', v') # m) =
     (if k < k' then (k, v) # (k', v') # m
      else if k = k' then (k, v) # m
      else (k', v') # bt_insert k v m)"

definition bt_remove :: "'k \<Rightarrow> ('k, 'v) btree \<Rightarrow> ('k, 'v) btree" where
  "bt_remove k m = filter (\<lambda>p. fst p \<noteq> k) m"

definition bt_get :: "('k, 'v) btree \<Rightarrow> 'k \<Rightarrow> 'v option" where
  "bt_get m = map_of m"

definition bt_keys :: "('k, 'v) btree \<Rightarrow> 'k list" where
  "bt_keys m = map fst m"

definition bt_values :: "('k, 'v) btree \<Rightarrow> 'v list" where
  "bt_values m = map snd m"

definition bt_ok :: "('k::linorder, 'v) btree \<Rightarrow> bool" where
  "bt_ok m = sorted_wrt (<) (map fst m)"

locale ordered_map =
  fixes empty :: "'m"
    and insert_kv :: "'k::linorder \<Rightarrow> 'v \<Rightarrow> 'm \<Rightarrow> 'm"
    and remove_k :: "'k \<Rightarrow> 'm \<Rightarrow> 'm"
    and lookup :: "'m \<Rightarrow> 'k \<Rightarrow> 'v option"
    and keys :: "'m \<Rightarrow> 'k list"
    and ok :: "'m \<Rightarrow> bool"
  assumes ok_empty: "ok empty"
    and ok_insert: "ok m \<Longrightarrow> ok (insert_kv k v m)"
    and ok_remove: "ok m \<Longrightarrow> ok (remove_k k m)"
    and lookup_empty: "lookup empty = Map.empty"
    and lookup_insert: "ok m \<Longrightarrow> lookup (insert_kv k v m) = (lookup m)(k \<mapsto> v)"
    and lookup_remove: "ok m \<Longrightarrow> lookup (remove_k k m) = (lookup m)(k := None)"
    and keys_sorted: "ok m \<Longrightarrow> sorted_wrt (<) (keys m)"
    and keys_dom: "ok m \<Longrightarrow> set (keys m) = dom (lookup m)"
begin

lemma keys_distinct: "ok m \<Longrightarrow> distinct (keys m)"
  using keys_sorted strict_sorted_iff by blast

lemma length_keys: "ok m \<Longrightarrow> length (keys m) = card (dom (lookup m))"
  using keys_distinct distinct_card keys_dom by metis

lemma keys_unique: "ok m \<Longrightarrow> ok m' \<Longrightarrow> dom (lookup m) = dom (lookup m') \<Longrightarrow> keys m = keys m'"
  by (metis keys_sorted keys_dom strict_sorted_equal)

text \<open>Replaying a sequence of insertions (\<open>Some v\<close>) and removals (\<open>None\<close>).\<close>

definition replay :: "'m \<Rightarrow> ('k \<times> 'v option) list \<Rightarrow> 'm" where
  "replay = foldl (\<lambda>m (k, c). case c of None \<Rightarrow> remove_k k m | Some v \<Rightarrow> insert_kv k v m)"

lemma replay_ok: "ok m \<Longrightarrow> ok (replay m es)"
  unfolding replay_def
  by (induction es arbitrary: m) (auto simp: ok_insert ok_remove split: option.splits)

lemma lookup_replay: "ok m \<Longrightarrow> lookup (replay m es) = foldl (\<lambda>f (k, c). f(k := c)) (lookup m) es"
  unfolding replay_def
  by (induction es arbitrary: m)
    (auto simp: ok_insert ok_remove lookup_insert lookup_remove split: option.splits)

lemma insert_all_ok: "ok m \<Longrightarrow> ok (fold (\<lambda>x. insert_kv (f x) (g x)) xs m)"
  by (induction xs arbitrary: m) (auto simp: ok_insert)

lemma dom_insert_all:
  "ok m \<Longrightarrow> dom (lookup (fold (\<lambda>x. insert_kv (f x) (g x)) xs m)) = dom (lookup m) \<union> f ` set xs"
  by (induction xs arbitrary: m) (auto simp: ok_insert lookup_insert)

end

lemma map_fst_bt_insert: "set (map fst (bt_insert k v m)) = insert k (set (map fst m))"
  by (induction k v m rule: bt_insert.induct) auto

lemma bt_ok_insert: "bt_ok m \<Longrightarrow> bt_ok (bt_insert k v m)"
proof (induction k v m rule: bt_insert.induct)
  case (2 k v k' v' m)
  then show ?case
    using map_fst_bt_insert [of k v m] by (auto simp: bt_ok_def)
qed (simp add: bt_ok_def)

lemma bt_get_insert: "bt_ok m \<Longrightarrow> bt_get (bt_insert k v m) = (bt_get m)(k \<mapsto> v)"
  by (induction k v m rule: bt_insert.induct) (auto simp: bt_ok_def bt_get_def fun_eq_iff)

lemma bt_ok_remove: "bt_ok m \<Longrightarrow> bt_ok (bt_remove k m)"
  by (induction m) (auto simp: bt_ok_def bt_remove_def)

lemma bt_get_remove: "bt_get (bt_remove k m) = (bt_get m)(k := None)"
  by (induction m) (auto simp: bt_get_def bt_remove_def fun_eq_iff)

interpretation bt: ordered_map "[]" bt_insert bt_remove bt_get bt_keys bt_ok
proof unfold_locales
  fix m :: "('a, 'b) btree"
  show "bt_ok m \<Longrightarrow> sorted_wrt (<) (bt_keys m)" by (simp add: bt_ok_def bt_keys_def)
  show "set (bt_keys m) = dom (bt_get m)"
    by (simp add: bt_keys_def bt_get_def dom_map_of_conv_image_fst)
qed (simp_all add: bt_ok_insert bt_ok_remove bt_get_insert bt_get_remove,
    simp_all add: bt_ok_def bt_get_def)

lemma bt_values_get: "bt_ok m \<Longrightarrow> set (bt_values m) = ran (bt_get m)"
  by (simp add: bt_values_def bt_get_def ran_distinct bt_ok_def strict_sorted_iff)

lemma length_bt_keys [simp]: "length (bt_keys m) = length m"
  by (simp add: bt_keys_def)

section \<open>Runs of a step function\<close>

locale invariant_run =
  fixes step :: "'s \<Rightarrow> 'e \<Rightarrow> 's"
    and inv :: "'s \<Rightarrow> bool"
    and guard :: "'e \<Rightarrow> bool"
  assumes step_inv: "inv s \<Longrightarrow> guard e \<Longrightarrow> inv (step s e)"
begin

lemma run_inv: "inv s \<Longrightarrow> (\<And>e. e \<in> set es \<Longrightarrow> guard e) \<Longrightarrow> inv (foldl step s es)"
  by (induction es arbitrary: s) (auto intro: step_inv)

end

section \<open>Clustering a sequence by gaps\<close>

text \<open>The shape of both wave detectors: a new group starts where the gap to the previous
  element is too large. \<open>gap_groups near cur prev xs\<close> continues the open group \<open>cur\<close>, whose
  last element is \<open>prev\<close>.\<close>

fun gap_groups :: "('a \<Rightarrow> 'a \<Rightarrow> bool) \<Rightarrow> 'a list \<Rightarrow> 'a \<Rightarrow> 'a list \<Rightarrow> 'a list list" where
  "gap_groups near cur prev [] = [cur]"
| "gap_groups near cur prev (x # xs) =
     (if near prev x then gap_groups near (cur @ [x]) x xs
      else cur # gap_groups near [x] x xs)"

lemma concat_gap_groups: "concat (gap_groups near cur prev xs) = cur @ xs"
  by (induction near cur prev xs rule: gap_groups.induct) auto

lemma gap_groups_not_Nil: "cur \<noteq> [] \<Longrightarrow> g \<in> set (gap_groups near cur prev xs) \<Longrightarrow> g \<noteq> []"
  by (induction near cur prev xs rule: gap_groups.induct) (auto split: if_splits)

lemma hd_gap_groups: "cur \<noteq> [] \<Longrightarrow> hd (hd (gap_groups near cur prev xs)) = hd cur"
  by (induction near cur prev xs rule: gap_groups.induct) auto

lemma gap_groups_ne [simp]: "gap_groups near cur prev xs \<noteq> []"
  by (induction near cur prev xs rule: gap_groups.induct) auto

text \<open>Inside a group every neighbouring pair is near; across a boundary it is not.\<close>

lemma gap_groups_near:
  assumes "g \<in> set (gap_groups near cur prev xs)" "cur \<noteq> []" "last cur = prev"
    "successively near cur"
  shows "successively near g"
  using assms
  by (induction near cur prev xs rule: gap_groups.induct)
    (auto simp: successively_append_iff split: if_splits)

lemma gap_groups_far:
  assumes "cur \<noteq> []" "last cur = prev"
  shows "successively (\<lambda>g h. \<not> near (last g) (hd h)) (gap_groups near cur prev xs)"
  using assms
proof (induction near cur prev xs rule: gap_groups.induct)
  case (2 near cur prev x xs)
  then show ?case
    using hd_gap_groups [of "[x]" near x xs] by (auto simp: successively_Cons)
qed simp

lemma find_append: "find P (xs @ ys) = (case find P xs of None \<Rightarrow> find P ys | Some x \<Rightarrow> Some x)"
  by (induction xs) auto

lemma set_map_filter: "set (List.map_filter f xs) = {y. \<exists>x \<in> set xs. f x = Some y}"
  by (force simp: List.map_filter_def)

end
