(* ===== verification/Observation.thy ===== *)
theory Observation
  imports Inim_Prelude
begin

text \<open>
  The normalized BGP observation model of \<open>src/src/domain/observation.rs\<close>: observations, their
  provenance, and the evidence references that are carried through the whole analysis. The
  newtypes \<open>Asn\<close>, \<open>CollectorId\<close>, \<open>Prefix\<close> and \<open>ObservationId\<close> are the type they wrap.
\<close>

type_synonym prefix = string

record communities =
  comm_values :: "string list"

definition communities_new :: communities where
  "communities_new = \<lparr>comm_values = []\<rparr>"

definition communities_from_strings :: "string list \<Rightarrow> communities" where
  "communities_from_strings v = \<lparr>comm_values = v\<rparr>"

datatype observation_source = LocalFile string

datatype ingest_role = Rib | Updates

datatype observation_kind = RibEntry | ObsAnnouncement | ObsWithdrawal | SessionBoundary

record observation_attributes =
  oa_as_path :: "u32 list"
  oa_origin_asns :: "asn list"
  oa_next_hop :: "ip_addr option"
  oa_origin :: "string option"
  oa_local_pref :: "u32 option"
  oa_med :: "u32 option"
  oa_atomic_aggregate :: bool
  oa_communities :: communities

record evidence_ref =
  ev_observation_id :: u64
  ev_source_url :: "string option"
  ev_archive_sha256 :: "string option"
  ev_collector :: string
  ev_peer_ip :: ip_addr
  ev_peer_asn :: asn
  ev_prefix :: prefix
  ev_timestamp :: timestamp
  ev_element_seq :: u64
  ev_path_id :: "u32 option"

record observation_provenance =
  pv_input :: string
  pv_source_url :: "string option"
  pv_archive_sha256 :: "string option"
  pv_role :: ingest_role
  pv_parser_representation :: string
  pv_mrt_timestamp :: rat
  pv_element_seq :: u64
  pv_archive_order :: u64

record route_observation =
  obs_id :: u64
  obs_source :: observation_source
  obs_timestamp :: timestamp
  obs_collector :: string
  obs_peer_ip :: ip_addr
  obs_peer_asn :: asn
  obs_prefix :: prefix
  obs_kind :: observation_kind
  obs_attributes :: "observation_attributes option"
  obs_path_id :: "u32 option"
  obs_provenance :: observation_provenance

definition to_evidence_ref ::
  "observation_provenance \<Rightarrow> u64 \<Rightarrow> string \<Rightarrow> ip_addr \<Rightarrow> asn \<Rightarrow> prefix \<Rightarrow> timestamp \<Rightarrow> u32 option
    \<Rightarrow> evidence_ref" where
  "to_evidence_ref pv oid collector peer_ip peer_asn prefix ts path_id =
     \<lparr>ev_observation_id = oid, ev_source_url = pv_source_url pv,
      ev_archive_sha256 = pv_archive_sha256 pv, ev_collector = collector,
      ev_peer_ip = peer_ip, ev_peer_asn = peer_asn, ev_prefix = prefix, ev_timestamp = ts,
      ev_element_seq = pv_element_seq pv, ev_path_id = path_id\<rparr>"

definition from_observation :: "route_observation \<Rightarrow> evidence_ref" where
  "from_observation obs =
     to_evidence_ref (obs_provenance obs) (obs_id obs) (obs_collector obs) (obs_peer_ip obs)
       (obs_peer_asn obs) (obs_prefix obs) (obs_timestamp obs) (obs_path_id obs)"

text \<open>The synthetic reference carries the fixed instant 2026-07-30 09:00:00 UTC.\<close>

definition synthetic_evidence :: "u64 \<Rightarrow> string \<Rightarrow> string \<Rightarrow> evidence_ref" where
  "synthetic_evidence oid url sha =
     \<lparr>ev_observation_id = oid, ev_source_url = Some url, ev_archive_sha256 = Some sha,
      ev_collector = ''test'', ev_peer_ip = V4 0, ev_peer_asn = 0, ev_prefix = ''0.0.0.0/0'',
      ev_timestamp = secs 1785402000, ev_element_seq = 0, ev_path_id = None\<rparr>"

definition synthetic_provenance :: "ingest_role \<Rightarrow> u64 \<Rightarrow> observation_provenance" where
  "synthetic_provenance role seq =
     \<lparr>pv_input = ''synthetic'', pv_source_url = None, pv_archive_sha256 = None, pv_role = role,
      pv_parser_representation = ''synthetic'', pv_mrt_timestamp = 0, pv_element_seq = seq,
      pv_archive_order = 0\<rparr>"

lemma from_observation_sel [simp]:
  "ev_timestamp (from_observation obs) = obs_timestamp obs"
  "ev_observation_id (from_observation obs) = obs_id obs"
  "ev_collector (from_observation obs) = obs_collector obs"
  "ev_peer_ip (from_observation obs) = obs_peer_ip obs"
  "ev_prefix (from_observation obs) = obs_prefix obs"
  "ev_path_id (from_observation obs) = obs_path_id obs"
  by (simp_all add: from_observation_def to_evidence_ref_def)

end
