(* ===== verification/Route.thy ===== *)
theory Route
  imports Observation
begin

text \<open>
  \<open>src/src/domain/route.rs\<close>: AS paths, route attributes, route-instance and observer-prefix
  identity, the transit predicate, evidenced states, state changes and transitions. The two
  key structs derive \<open>Ord\<close> and key ordered maps, so they are datatypes with a \<open>linorder\<close>
  instance (fields compared in declaration order); the other structs are records.
\<close>

type_synonym as_path = "u32 list"

record route_attributes =
  ra_as_path :: as_path
  ra_origin_asns :: "asn list"
  ra_next_hop :: "ip_addr option"
  ra_origin :: "string option"
  ra_med :: "u32 option"
  ra_local_pref :: "u32 option"
  ra_atomic_aggregate :: bool
  ra_communities :: "string list"

definition as_path_to_string :: "as_path \<Rightarrow> string" where
  "as_path_to_string p = join '' '' (map show_u32 p)"

definition from_as_path :: "u32 list \<Rightarrow> route_attributes" where
  "from_as_path p =
     \<lparr>ra_as_path = p, ra_origin_asns = (if p = [] then [] else [last p]), ra_next_hop = None,
      ra_origin = None, ra_med = None, ra_local_pref = None, ra_atomic_aggregate = False,
      ra_communities = []\<rparr>"

definition empty_attributes :: route_attributes where
  "empty_attributes =
     \<lparr>ra_as_path = [], ra_origin_asns = [], ra_next_hop = None, ra_origin = None, ra_med = None,
      ra_local_pref = None, ra_atomic_aggregate = False, ra_communities = []\<rparr>"

section \<open>Identity\<close>

datatype route_key =
  RouteKey (rk_collector: string) (rk_peer_ip: ip_addr) (rk_prefix: prefix)
    (rk_path_id: "u32 option")

datatype observer_prefix_key =
  ObserverPrefixKey (opk_collector: string) (opk_peer_ip: ip_addr) (opk_prefix: prefix)

instantiation route_key :: linorder
begin

definition less_eq_route_key :: "route_key \<Rightarrow> route_key \<Rightarrow> bool" where
  "a \<le> b = ((rk_collector a, rk_peer_ip a, rk_prefix a, rk_path_id a)
            \<le> (rk_collector b, rk_peer_ip b, rk_prefix b, rk_path_id b))"

definition less_route_key :: "route_key \<Rightarrow> route_key \<Rightarrow> bool" where
  "a < b = ((rk_collector a, rk_peer_ip a, rk_prefix a, rk_path_id a)
            < (rk_collector b, rk_peer_ip b, rk_prefix b, rk_path_id b))"

instance
  by standard
    (auto simp: less_eq_route_key_def less_route_key_def route_key.expand)

end

instantiation observer_prefix_key :: linorder
begin

definition less_eq_observer_prefix_key :: "observer_prefix_key \<Rightarrow> observer_prefix_key \<Rightarrow> bool" where
  "a \<le> b = ((opk_collector a, opk_peer_ip a, opk_prefix a)
            \<le> (opk_collector b, opk_peer_ip b, opk_prefix b))"

definition less_observer_prefix_key :: "observer_prefix_key \<Rightarrow> observer_prefix_key \<Rightarrow> bool" where
  "a < b = ((opk_collector a, opk_peer_ip a, opk_prefix a)
            < (opk_collector b, opk_peer_ip b, opk_prefix b))"

instance
  by standard
    (auto simp: less_eq_observer_prefix_key_def less_observer_prefix_key_def
      observer_prefix_key.expand)

end

definition route_key_new :: "string \<Rightarrow> ip_addr \<Rightarrow> prefix \<Rightarrow> route_key" where
  "route_key_new collector peer_ip prefix = RouteKey collector peer_ip prefix None"

definition with_path_id :: "string \<Rightarrow> ip_addr \<Rightarrow> prefix \<Rightarrow> u32 option \<Rightarrow> route_key" where
  "with_path_id collector peer_ip prefix path_id = RouteKey collector peer_ip prefix path_id"

definition observer_prefix_key :: "route_key \<Rightarrow> observer_prefix_key" where
  "observer_prefix_key k = ObserverPrefixKey (rk_collector k) (rk_peer_ip k) (rk_prefix k)"

record route_state =
  rs_prefix :: prefix
  rs_attributes :: route_attributes
  rs_timestamp :: timestamp
  rs_observer :: string
  rs_path_id :: "u32 option"

text \<open>The second colon-separated piece of the observer text is parsed as an address, with
  0.0.0.0 where there is none or it does not parse; a piece holds no colon.\<close>

definition to_key :: "route_state \<Rightarrow> route_key" where
  "to_key s =
     (let pieces = split_on CHR '':'' (rs_observer s);
          peer_ip = (case (if 1 < length pieces then parse_ip_no_colon (pieces ! 1) else None) of
                       None \<Rightarrow> V4 0 | Some ip \<Rightarrow> ip);
          collector = hd pieces
      in with_path_id collector peer_ip (rs_prefix s) (rs_path_id s))"

section \<open>Transitions\<close>

datatype transition_kind =
    Announcement
  | Withdrawal
  | Duplicate
  | PathReplacement as_path as_path
  | AttributeChange
  | SessionReset
  | Restoration
  | ReturnToBaseline

datatype prepend_change = PrependNone | PrependIncreasedBy | PrependReducedBy | PrependIndeterminate

record generic_transition_effects =
  ef_graceful_shutdown_added :: bool
  ef_graceful_shutdown_removed :: bool
  ef_prepend :: prepend_change
  ef_material_path_changed :: bool
  ef_communities_changed :: bool
  ef_med_changed :: bool
  ef_local_pref_changed :: bool
  ef_origin_changed :: bool
  ef_next_hop_changed :: bool

definition default_effects :: generic_transition_effects where
  "default_effects =
     \<lparr>ef_graceful_shutdown_added = False, ef_graceful_shutdown_removed = False,
      ef_prepend = PrependNone, ef_material_path_changed = False, ef_communities_changed = False,
      ef_med_changed = False, ef_local_pref_changed = False, ef_origin_changed = False,
      ef_next_hop_changed = False\<rparr>"

section \<open>The transit predicate\<close>

datatype transit_predicate = ContainsAny "u32 list" | ContainsAll "u32 list" | Adjacent u32 u32

text \<open>\<open>path.windows(2)\<close> as the list of neighbouring pairs.\<close>

fun windows2 :: "'a list \<Rightarrow> ('a \<times> 'a) list" where
  "windows2 (x # y # zs) = (x, y) # windows2 (y # zs)"
| "windows2 _ = []"

fun evaluate :: "transit_predicate \<Rightarrow> u32 list \<Rightarrow> bool" where
  "evaluate (ContainsAny asns) path = list_ex (\<lambda>a. a \<in> set path) asns"
| "evaluate (ContainsAll asns) path = list_all (\<lambda>a. a \<in> set path) asns"
| "evaluate (Adjacent a b) path =
     list_ex (\<lambda>(x, y). (x = a \<and> y = b) \<or> (x = b \<and> y = a)) (windows2 path)"

fun render_canonical :: "transit_predicate \<Rightarrow> string" where
  "render_canonical (ContainsAny asns) = ''ContainsAny { '' @ join '', '' (map show_u32 asns) @ '' }''"
| "render_canonical (ContainsAll asns) = ''ContainsAll { '' @ join '', '' (map show_u32 asns) @ '' }''"
| "render_canonical (Adjacent a b) = ''Adjacent { '' @ show_u32 a @ '', '' @ show_u32 b @ '' }''"

fun human_description :: "transit_predicate \<Rightarrow> string" where
  "human_description (ContainsAny asns) =
     (if length asns = 1
      then ''at least one route path traversed AS'' @ show_u32 (hd asns)
      else ''at least one route path traversed one of '' @
           join '', '' (map (\<lambda>a. ''AS'' @ show_u32 a) asns))"
| "human_description (ContainsAll asns) =
     ''route path contained all of '' @ join '', '' (map (\<lambda>a. ''AS'' @ show_u32 a) asns)"
| "human_description (Adjacent a b) =
     ''route path contained the adjacency AS'' @ show_u32 a @ '' '' @ arrow_utf8 @ '' AS'' @ show_u32 b"

record event_relative_effects =
  er_transit_departed :: bool
  er_transit_returned :: bool
  er_transit_retained :: bool

definition path_has :: "transit_predicate \<Rightarrow> u32 list option \<Rightarrow> bool" where
  "path_has pred p = (case p of None \<Rightarrow> False | Some path \<Rightarrow> evaluate pred path)"

definition interpret_for_event ::
  "u32 list option \<Rightarrow> u32 list option \<Rightarrow> transit_predicate \<Rightarrow> event_relative_effects" where
  "interpret_for_event from_path to_path pred =
     (let from_has = path_has pred from_path; to_has = path_has pred to_path in
      \<lparr>er_transit_departed = (from_has \<and> \<not> to_has),
       er_transit_returned = (\<not> from_has \<and> to_has),
       er_transit_retained = (from_has \<and> to_has)\<rparr>)"

section \<open>Evidenced states and state changes\<close>

record evidenced_route_state =
  es_state :: "route_state option"
  es_evidence :: evidence_ref

definition present :: "route_state \<Rightarrow> evidence_ref \<Rightarrow> evidenced_route_state" where
  "present s e = \<lparr>es_state = Some s, es_evidence = e\<rparr>"

definition absent :: "evidence_ref \<Rightarrow> evidenced_route_state" where
  "absent e = \<lparr>es_state = None, es_evidence = e\<rparr>"

definition es_prefix :: "evidenced_route_state \<Rightarrow> prefix" where
  "es_prefix e = (case es_state e of None \<Rightarrow> ''0.0.0.0/0'' | Some s \<Rightarrow> rs_prefix s)"

definition es_timestamp :: "evidenced_route_state \<Rightarrow> timestamp" where
  "es_timestamp e =
     (case es_state e of None \<Rightarrow> ev_timestamp (es_evidence e) | Some s \<Rightarrow> rs_timestamp s)"

definition es_observer :: "evidenced_route_state \<Rightarrow> string" where
  "es_observer e = (case es_state e of None \<Rightarrow> ''absent'' | Some s \<Rightarrow> rs_observer s)"

definition es_attributes :: "evidenced_route_state \<Rightarrow> route_attributes" where
  "es_attributes e =
     (case es_state e of None \<Rightarrow> empty_attributes | Some s \<Rightarrow> rs_attributes s)"

datatype continuity = Known | UnknownContinuity

datatype analysis_phase = Warmup | EventPhase | Cooldown

record state_change =
  sc_key :: route_key
  sc_event_baseline :: "evidenced_route_state option"
  sc_before :: "evidenced_route_state option"
  sc_after :: evidenced_route_state
  sc_triggering :: evidence_ref
  sc_continuity :: continuity
  sc_phase :: analysis_phase

record route_transition =
  rt_key :: route_key
  rt_event_baseline :: "evidenced_route_state option"
  rt_from :: "evidenced_route_state option"
  rt_to :: evidenced_route_state
  rt_kind :: transition_kind
  rt_effects :: generic_transition_effects
  rt_triggering :: evidence_ref
  rt_phase :: analysis_phase

text \<open>\<open>t.from.as_ref().and_then(|f| f.state.as_ref())\<close> and \<open>t.to.state.as_ref()\<close>, which the
  analysis writes out at every use.\<close>

definition rt_from_state :: "route_transition \<Rightarrow> route_state option" where
  "rt_from_state t = Option.bind (rt_from t) es_state"

definition rt_to_state :: "route_transition \<Rightarrow> route_state option" where
  "rt_to_state t = es_state (rt_to t)"

definition rt_time :: "route_transition \<Rightarrow> timestamp" where
  "rt_time t = es_timestamp (rt_to t)"

section \<open>Properties\<close>

lemma present_sel [simp]:
  "es_state (present s e) = Some s" "es_evidence (present s e) = e"
  "es_state (absent e) = None" "es_evidence (absent e) = e"
  by (simp_all add: present_def absent_def)

lemma windows2_append:
  "set (windows2 (xs @ [y])) = set (windows2 xs) \<union> (if xs = [] then {} else {(last xs, y)})"
  by (induction xs rule: windows2.induct) auto

lemma set_windows2_rev: "set (windows2 (rev p)) = (\<lambda>(x, y). (y, x)) ` set (windows2 p)"
proof (induction p rule: windows2.induct)
  case (1 x y zs)
  then show ?case
    using windows2_append [of "rev zs @ [y]" x] by auto
qed auto

lemma set_windows2_iff:
  "(a, b) \<in> set (windows2 p) \<longleftrightarrow> (\<exists>us vs. p = us @ a # b # vs)"
proof (induction p rule: windows2.induct)
  case (1 x y zs)
  then show ?case
    by (auto simp: Cons_eq_append_conv)
qed (auto simp: Cons_eq_append_conv append_eq_Cons_conv)

text \<open>The transit predicate does not depend on the direction in which a path is read.\<close>

lemma evaluate_rev: "evaluate pr (rev p) = evaluate pr p"
  by (cases pr) (auto simp: list_ex_iff set_windows2_rev image_iff Bex_def list_all_iff)

text \<open>What each form of the predicate means, in terms of the path alone.\<close>

lemma evaluate_ContainsAny: "evaluate (ContainsAny asns) p \<longleftrightarrow> set asns \<inter> set p \<noteq> {}"
  by (auto simp: list_ex_iff)

lemma evaluate_ContainsAll: "evaluate (ContainsAll asns) p \<longleftrightarrow> set asns \<subseteq> set p"
  by (auto simp: list_all_iff)

lemma evaluate_Adjacent:
  "evaluate (Adjacent a b) p \<longleftrightarrow> (\<exists>us vs. p = us @ a # b # vs \<or> p = us @ b # a # vs)"
proof -
  have "evaluate (Adjacent a b) p \<longleftrightarrow> (a, b) \<in> set (windows2 p) \<or> (b, a) \<in> set (windows2 p)"
    by (auto simp: list_ex_iff)
  then show ?thesis by (auto simp: set_windows2_iff)
qed

end
