(* ===== verification/Route_Store.thy ===== *)
theory Route_Store
  imports Route
begin

text \<open>
  Route-state reconstruction, \<open>src/src/routes.rs\<close>: the store of current route states keyed by
  route instance, the update handler, the baseline freeze and the driver loop over the whole
  observation sequence. A \<open>HashMap\<close> is a partial function: no iteration order is observable.
\<close>

record route_state_store =
  st_states :: "route_key \<rightharpoonup> route_state"
  st_event_baseline :: "route_key \<rightharpoonup> evidenced_route_state"
  st_continuity :: "string \<rightharpoonup> continuity"

definition store_new :: route_state_store where
  "store_new = \<lparr>st_states = Map.empty, st_event_baseline = Map.empty, st_continuity = Map.empty\<rparr>"

definition observation_key :: "route_observation \<Rightarrow> route_key" where
  "observation_key obs =
     with_path_id (obs_collector obs) (obs_peer_ip obs) (obs_prefix obs) (obs_path_id obs)"

definition observation_to_state :: "route_observation \<Rightarrow> route_state" where
  "observation_to_state obs =
     (let attributes =
        (case obs_attributes obs of
           Some a \<Rightarrow>
             \<lparr>ra_as_path = oa_as_path a, ra_origin_asns = oa_origin_asns a,
              ra_next_hop = oa_next_hop a, ra_origin = oa_origin a, ra_med = oa_med a,
              ra_local_pref = oa_local_pref a, ra_atomic_aggregate = oa_atomic_aggregate a,
              ra_communities = comm_values (oa_communities a)\<rparr>
         | None \<Rightarrow> from_as_path [])
      in \<lparr>rs_prefix = obs_prefix obs, rs_attributes = attributes,
          rs_timestamp = obs_timestamp obs,
          rs_observer = obs_collector obs @ '':'' @ ip_to_string (obs_peer_ip obs),
          rs_path_id = obs_path_id obs\<rparr>)"

definition seed_from_rib :: "route_state_store \<Rightarrow> route_observation \<Rightarrow> route_state_store" where
  "seed_from_rib store obs =
     store\<lparr>st_states := (st_states store)(observation_key obs \<mapsto> observation_to_state obs)\<rparr>"

definition collector_continuity :: "route_state_store \<Rightarrow> string \<Rightarrow> continuity" where
  "collector_continuity store c =
     (case st_continuity store c of None \<Rightarrow> Known | Some k \<Rightarrow> k)"

definition apply_update ::
  "route_state_store \<Rightarrow> route_observation \<Rightarrow> analysis_phase
    \<Rightarrow> route_state_store \<times> state_change option" where
  "apply_update store obs phase =
     (let key = observation_key obs; evidence = from_observation obs in
      case obs_kind obs of
        RibEntry \<Rightarrow>
          (store\<lparr>st_states := (st_states store)(key \<mapsto> observation_to_state obs)\<rparr>, None)
      | SessionBoundary \<Rightarrow>
          (store\<lparr>st_continuity :=
             (st_continuity store)(obs_collector obs \<mapsto> UnknownContinuity)\<rparr>, None)
      | ObsAnnouncement \<Rightarrow>
          (let new_state = observation_to_state obs;
               old_state = st_states store key;
               cont = collector_continuity store (obs_collector obs)
           in if (case old_state of None \<Rightarrow> False
                  | Some old \<Rightarrow> rs_attributes old = rs_attributes new_state)
              then (store, None)
              else (store\<lparr>st_states := (st_states store)(key \<mapsto> new_state)\<rparr>,
                    Some \<lparr>sc_key = key,
                          sc_event_baseline = st_event_baseline store key,
                          sc_before = map_option (\<lambda>s. present s evidence) old_state,
                          sc_after = present new_state evidence,
                          sc_triggering = evidence, sc_continuity = cont, sc_phase = phase\<rparr>))
      | ObsWithdrawal \<Rightarrow>
          (let old_state = st_states store key;
               cont = collector_continuity store (obs_collector obs)
           in (store\<lparr>st_states := (st_states store)(key := None)\<rparr>,
               map_option (\<lambda>from.
                 \<lparr>sc_key = key,
                  sc_event_baseline = st_event_baseline store key,
                  sc_before = Some (present from evidence),
                  sc_after = absent evidence,
                  sc_triggering = evidence, sc_continuity = cont, sc_phase = phase\<rparr>)
                 old_state)))"

definition freeze_event_baseline :: "route_state_store \<Rightarrow> route_state_store" where
  "freeze_event_baseline store =
     store\<lparr>st_event_baseline :=
       (\<lambda>key. map_option
          (\<lambda>state. present state (synthetic_evidence 0 ''baseline-freeze'' ''0000''))
          (st_states store key))\<rparr>"

definition current_state :: "route_state_store \<Rightarrow> route_key \<Rightarrow> route_state option" where
  "current_state store key = st_states store key"

definition mark_discontinuous :: "route_state_store \<Rightarrow> string \<Rightarrow> route_state_store" where
  "mark_discontinuous store collector =
     store\<lparr>st_continuity := (st_continuity store)(collector \<mapsto> UnknownContinuity)\<rparr>"

text \<open>The loop state of \<open>reconstruct_routes\<close>: the store, the changes emitted so far and
  \<open>baseline_frozen\<close>.\<close>

record recon =
  rc_store :: route_state_store
  rc_changes :: "state_change list"
  rc_frozen :: bool

definition freeze_once :: "recon \<Rightarrow> recon" where
  "freeze_once r =
     (if rc_frozen r then r
      else r\<lparr>rc_store := freeze_event_baseline (rc_store r), rc_frozen := True\<rparr>)"

definition phase_at :: "timestamp \<Rightarrow> timestamp \<Rightarrow> analysis_phase" where
  "phase_at event_end ts = (if ts \<le> event_end then EventPhase else Cooldown)"

definition push_change :: "state_change list \<Rightarrow> state_change option \<Rightarrow> state_change list" where
  "push_change cs change = (case change of None \<Rightarrow> cs | Some c \<Rightarrow> cs @ [c])"

definition recon_step ::
  "timestamp \<Rightarrow> timestamp \<Rightarrow> timestamp \<Rightarrow> recon \<Rightarrow> route_observation \<Rightarrow> recon" where
  "recon_step event_start event_end cooldown_end r obs =
     (case obs_kind obs of
        RibEntry \<Rightarrow> r\<lparr>rc_store := seed_from_rib (rc_store r) obs\<rparr>
      | SessionBoundary \<Rightarrow> r\<lparr>rc_store := fst (apply_update (rc_store r) obs EventPhase)\<rparr>
      | _ \<Rightarrow>
          if obs_timestamp obs < event_start
          then r\<lparr>rc_store := fst (apply_update (rc_store r) obs Warmup)\<rparr>
          else if cooldown_end < obs_timestamp obs then freeze_once r
          else (case apply_update (rc_store (freeze_once r)) obs
                       (phase_at event_end (obs_timestamp obs)) of
                  (store', change) \<Rightarrow>
                    (freeze_once r)\<lparr>rc_store := store',
                       rc_changes := push_change (rc_changes r) change\<rparr>))"

definition recon_init :: recon where
  "recon_init = \<lparr>rc_store = store_new, rc_changes = [], rc_frozen = False\<rparr>"

definition reconstruct_routes ::
  "route_observation list \<Rightarrow> timestamp \<Rightarrow> timestamp \<Rightarrow> timestamp
    \<Rightarrow> route_state_store \<times> state_change list" where
  "reconstruct_routes observations event_start event_end cooldown_end =
     (let r = foldl (recon_step event_start event_end cooldown_end) recon_init observations
      in (rc_store r, rc_changes r))"

text \<open>A concrete observation of one prefix at one session, for evaluating the definitions.\<close>

definition sample_obs :: "observation_kind \<Rightarrow> ip_addr \<Rightarrow> u32 list \<Rightarrow> timestamp \<Rightarrow> route_observation" where
  "sample_obs kind peer path ts =
     \<lparr>obs_id = 1, obs_source = LocalFile ''test.mrt'', obs_timestamp = ts, obs_collector = ''rv2'',
      obs_peer_ip = peer, obs_peer_asn = 6447, obs_prefix = ''192.0.2.0/24'', obs_kind = kind,
      obs_attributes = (if kind \<in> {RibEntry, ObsAnnouncement} then
        Some \<lparr>oa_as_path = path, oa_origin_asns = (if path = [] then [] else [last path]),
              oa_next_hop = Some peer, oa_origin = Some ''IGP'', oa_local_pref = Some 100,
              oa_med = None, oa_atomic_aggregate = False, oa_communities = communities_new\<rparr>
        else None),
      obs_path_id = None, obs_provenance = synthetic_provenance Updates 1\<rparr>"

section \<open>The store, one route instance at a time\<close>

text \<open>What one update does to the slot of its own route instance.\<close>

definition slot_update :: "route_state option \<Rightarrow> route_observation \<Rightarrow> route_state option" where
  "slot_update old obs =
     (case obs_kind obs of
        RibEntry \<Rightarrow> Some (observation_to_state obs)
      | SessionBoundary \<Rightarrow> old
      | ObsWithdrawal \<Rightarrow> None
      | ObsAnnouncement \<Rightarrow>
          (if map_option rs_attributes old = Some (rs_attributes (observation_to_state obs))
           then old else Some (observation_to_state obs)))"

text \<open>The same for one iteration of the driver loop, which skips what is after the cooldown.\<close>

definition slot_step :: "timestamp \<Rightarrow> timestamp \<Rightarrow> route_state option \<Rightarrow> route_observation
    \<Rightarrow> route_state option" where
  "slot_step event_start cooldown_end old obs =
     (if obs_kind obs \<in> {ObsAnnouncement, ObsWithdrawal} \<and> event_start \<le> obs_timestamp obs
         \<and> cooldown_end < obs_timestamp obs
      then old else slot_update old obs)"

lemma apply_update_states:
  "st_states (fst (apply_update store obs phase)) =
     (st_states store)(observation_key obs := slot_update (st_states store (observation_key obs)) obs)"
  by (auto simp: apply_update_def slot_update_def Let_def fun_eq_iff
      split: observation_kind.splits option.splits)

lemma apply_update_baseline [simp]:
  "st_event_baseline (fst (apply_update store obs phase)) = st_event_baseline store"
  by (auto simp: apply_update_def Let_def split: observation_kind.splits)

lemma freeze_states [simp]: "st_states (freeze_event_baseline store) = st_states store"
  by (simp add: freeze_event_baseline_def)

lemma freeze_once_sel [simp]:
  "rc_changes (freeze_once r) = rc_changes r"
  "st_states (rc_store (freeze_once r)) = st_states (rc_store r)"
  by (simp_all add: freeze_once_def)

lemma recon_step_update:
  assumes "obs_kind obs \<in> {ObsAnnouncement, ObsWithdrawal}" "es \<le> obs_timestamp obs"
    "obs_timestamp obs \<le> ce"
    "apply_update (rc_store (freeze_once r)) obs (phase_at ee (obs_timestamp obs)) = (store', ch)"
  shows "recon_step es ee ce r obs =
    (freeze_once r)\<lparr>rc_store := store', rc_changes := push_change (rc_changes r) ch\<rparr>"
  using assms by (cases "obs_kind obs") (simp_all add: recon_step_def)

lemma recon_step_quiet:
  assumes "\<not> (obs_kind obs \<in> {ObsAnnouncement, ObsWithdrawal} \<and> es \<le> obs_timestamp obs
    \<and> obs_timestamp obs \<le> ce)"
  shows "rc_changes (recon_step es ee ce r obs) = rc_changes r"
  using assms by (cases "obs_kind obs") (auto simp: recon_step_def)

lemma recon_step_states:
  "st_states (rc_store (recon_step es ee ce r obs)) =
     (st_states (rc_store r))
       (observation_key obs := slot_step es ce (st_states (rc_store r) (observation_key obs)) obs)"
proof (cases "obs_kind obs \<in> {ObsAnnouncement, ObsWithdrawal} \<and> es \<le> obs_timestamp obs
    \<and> obs_timestamp obs \<le> ce")
  case True
  then show ?thesis
    using recon_step_update [of obs es ce r ee, OF _ _ _ prod.collapse [symmetric]]
    by (simp add: apply_update_states slot_step_def)
next
  case False
  then show ?thesis
    by (cases "obs_kind obs")
      (auto simp: recon_step_def slot_step_def apply_update_states seed_from_rib_def
        slot_update_def)
qed

lemma recon_states_slot:
  "st_states (rc_store (foldl (recon_step es ee ce) r obs)) k =
     foldl (slot_step es ce) (st_states (rc_store r) k)
       (filter (\<lambda>o'. observation_key o' = k) obs)"
  by (induction obs arbitrary: r) (auto simp: recon_step_states)

section \<open>The emitted changes\<close>

text \<open>What a change emitted by an update says about the update and the store before it.\<close>

lemma apply_update_change:
  assumes "apply_update store obs phase = (store', Some c)"
  shows "sc_key c = observation_key obs" "sc_triggering c = from_observation obs"
    "sc_phase c = phase" "sc_event_baseline c = st_event_baseline store (observation_key obs)"
    "Option.bind (sc_before c) es_state = st_states store (observation_key obs)"
    "es_state (sc_after c) = st_states store' (observation_key obs)"
    "obs_kind obs \<in> {ObsAnnouncement, ObsWithdrawal}"
    "sc_continuity c = collector_continuity store (obs_collector obs)"
  using assms
  by (auto simp: apply_update_def Let_def split: observation_kind.splits option.splits if_splits)

lemma apply_update_no_change:
  assumes "apply_update store obs phase = (store', None)" "obs_kind obs \<noteq> RibEntry"
  shows "st_states store' = st_states store"
  using assms
  by (auto simp: apply_update_def Let_def fun_eq_iff
      split: observation_kind.splits option.splits if_splits)

text \<open>A change is a difference: a withdrawal of something that was there, or a presence whose
  attributes differ from the presence before it.\<close>

definition genuine_change :: "state_change \<Rightarrow> bool" where
  "genuine_change c =
     (map_option rs_attributes (Option.bind (sc_before c) es_state)
        \<noteq> map_option rs_attributes (es_state (sc_after c)))"

lemma apply_update_genuine:
  "apply_update store obs phase = (store', Some c) \<Longrightarrow> genuine_change c"
  by (auto simp: apply_update_def genuine_change_def Let_def
      split: observation_kind.splits option.splits if_splits)

text \<open>The window and phase of an emitted change.\<close>

definition change_in_window :: "timestamp \<Rightarrow> timestamp \<Rightarrow> timestamp \<Rightarrow> state_change \<Rightarrow> bool" where
  "change_in_window es ee ce c =
     (let ts = ev_timestamp (sc_triggering c) in
      es \<le> ts \<and> ts \<le> ce \<and> sc_phase c = (if ts \<le> ee then EventPhase else Cooldown))"

definition change_keyed :: "state_change \<Rightarrow> bool" where
  "change_keyed c =
     (let e = sc_triggering c in
      sc_key c = RouteKey (ev_collector e) (ev_peer_ip e) (ev_prefix e) (ev_path_id e))"

lemma recon_step_changes:
  obtains "rc_changes (recon_step es ee ce r obs) = rc_changes r"
  | store' c where "rc_changes (recon_step es ee ce r obs) = rc_changes r @ [c]"
      "apply_update (rc_store (freeze_once r)) obs (phase_at ee (obs_timestamp obs))
         = (store', Some c)"
      "es \<le> obs_timestamp obs" "obs_timestamp obs \<le> ce"
proof (cases "obs_kind obs \<in> {ObsAnnouncement, ObsWithdrawal} \<and> es \<le> obs_timestamp obs
    \<and> obs_timestamp obs \<le> ce")
  case True
  obtain store' ch where u:
    "apply_update (rc_store (freeze_once r)) obs (phase_at ee (obs_timestamp obs)) = (store', ch)"
    by (cases "apply_update (rc_store (freeze_once r)) obs (phase_at ee (obs_timestamp obs))")
  with True have "rc_changes (recon_step es ee ce r obs) = push_change (rc_changes r) ch"
    by (simp add: recon_step_update)
  with True u that show thesis by (cases ch) (auto simp: push_change_def)
next
  case False
  then show thesis by (intro that(1) recon_step_quiet)
qed

definition changes_ok :: "timestamp \<Rightarrow> timestamp \<Rightarrow> timestamp \<Rightarrow> recon \<Rightarrow> bool" where
  "changes_ok es ee ce r =
     (\<forall>c \<in> set (rc_changes r). genuine_change c \<and> change_in_window es ee ce c \<and> change_keyed c)"

lemma recon_step_changes_ok:
  assumes "changes_ok es ee ce r"
  shows "changes_ok es ee ce (recon_step es ee ce r obs)"
proof (cases rule: recon_step_changes [of es ee ce r obs])
  case 1
  with assms show ?thesis by (simp add: changes_ok_def)
next
  case (2 store' c)
  from apply_update_change [OF 2(2)] 2(3,4) have "change_in_window es ee ce c" "change_keyed c"
    by (auto simp: change_in_window_def change_keyed_def Let_def observation_key_def
        with_path_id_def phase_at_def)
  with assms 2 apply_update_genuine [OF 2(2)] show ?thesis
    by (auto simp: changes_ok_def)
qed

interpretation recon_ok:
  invariant_run "recon_step es ee ce" "changes_ok es ee ce" "\<lambda>_. True" for es ee ce
  by unfold_locales (rule recon_step_changes_ok)

text \<open>Replaying the journal of changes over a map of states.\<close>

definition apply_change :: "(route_key \<rightharpoonup> route_state) \<Rightarrow> state_change \<Rightarrow> (route_key \<rightharpoonup> route_state)" where
  "apply_change m c = m(sc_key c := es_state (sc_after c))"

definition in_event_order :: "timestamp \<Rightarrow> route_observation \<Rightarrow> bool" where
  "in_event_order es obs = (obs_kind obs \<noteq> RibEntry \<and> es \<le> obs_timestamp obs)"

lemma recon_step_journal:
  assumes "in_event_order es obs"
  shows "\<exists>cs. rc_changes (recon_step es ee ce r obs) = rc_changes r @ cs \<and>
    st_states (rc_store (recon_step es ee ce r obs)) =
      foldl apply_change (st_states (rc_store r)) cs"
proof (cases "obs_kind obs \<noteq> SessionBoundary \<and> obs_timestamp obs \<le> ce")
  case False
  with assms show ?thesis
    by (intro exI [of _ "[]"])
      (auto simp: recon_step_quiet recon_step_states slot_step_def slot_update_def
        in_event_order_def split: observation_kind.splits)
next
  case True
  let ?s1 = "rc_store (freeze_once r)"
  obtain store' ch where u:
    "apply_update ?s1 obs (phase_at ee (obs_timestamp obs)) = (store', ch)"
    by (cases "apply_update ?s1 obs (phase_at ee (obs_timestamp obs))")
  from True assms have "obs_kind obs \<in> {ObsAnnouncement, ObsWithdrawal}"
    by (cases "obs_kind obs") (auto simp: in_event_order_def)
  with True assms u have step: "recon_step es ee ce r obs =
      (freeze_once r)\<lparr>rc_store := store', rc_changes := push_change (rc_changes r) ch\<rparr>"
    by (intro recon_step_update) (auto simp: in_event_order_def)
  have st: "st_states store' =
      (st_states ?s1)(observation_key obs := slot_update (st_states ?s1 (observation_key obs)) obs)"
    using apply_update_states [of ?s1 obs] u by (metis fst_conv)
  show ?thesis
  proof (cases ch)
    case None
    with u assms have "st_states store' = st_states ?s1"
      by (intro apply_update_no_change) (auto simp: in_event_order_def)
    with None step show ?thesis by (intro exI [of _ "[]"]) (simp add: push_change_def)
  next
    case (Some c)
    with st apply_update_change(1,6) [OF u [unfolded Some]]
    have "st_states store' = apply_change (st_states ?s1) c" by (simp add: apply_change_def)
    with Some step show ?thesis by (intro exI [of _ "[c]"]) (simp add: push_change_def)
  qed
qed

lemma recon_run_journal:
  "(\<And>o'. o' \<in> set post \<Longrightarrow> in_event_order es o') \<Longrightarrow>
   \<exists>cs. rc_changes (foldl (recon_step es ee ce) r post) = rc_changes r @ cs \<and>
    st_states (rc_store (foldl (recon_step es ee ce) r post)) =
      foldl apply_change (st_states (rc_store r)) cs"
proof (induction post arbitrary: r)
  case (Cons x post)
  obtain cs where "rc_changes (recon_step es ee ce r x) = rc_changes r @ cs"
    "st_states (rc_store (recon_step es ee ce r x)) = foldl apply_change (st_states (rc_store r)) cs"
    using recon_step_journal [of es x ee ce r] Cons.prems by auto
  moreover obtain cs' where
    "rc_changes (foldl (recon_step es ee ce) (recon_step es ee ce r x) post) =
       rc_changes (recon_step es ee ce r x) @ cs'"
    "st_states (rc_store (foldl (recon_step es ee ce) (recon_step es ee ce r x) post)) =
       foldl apply_change (st_states (rc_store (recon_step es ee ce r x))) cs'"
    using Cons.IH [of "recon_step es ee ce r x"] Cons.prems by auto
  ultimately show ?case by (intro exI [of _ "cs @ cs'"]) simp
qed simp

section \<open>Identity\<close>

lemma to_key_observer:
  assumes "CHR '':'' \<notin> set (obs_collector obs)"
  shows "to_key (observation_to_state obs) = RouteKey (obs_collector obs)
    (case parse_ip_no_colon (takeWhile (\<lambda>x. x \<noteq> CHR '':'') (ip_to_string (obs_peer_ip obs))) of
       None \<Rightarrow> V4 0 | Some ip \<Rightarrow> ip) (obs_prefix obs) (obs_path_id obs)"
proof -
  obtain p ps where ps: "split_on CHR '':'' (ip_to_string (obs_peer_ip obs)) = p # ps"
    by (metis list.exhaust split_on_not_Nil)
  then have "p = takeWhile (\<lambda>x. x \<noteq> CHR '':'') (ip_to_string (obs_peer_ip obs))"
    using hd_split_on [of "CHR '':''"] by (metis list.sel(1))
  moreover have "split_on CHR '':'' (rs_observer (observation_to_state obs)) = obs_collector obs # p # ps"
    using assms by (simp add: observation_to_state_def Let_def split_on_append_sep ps)
  ultimately show ?thesis
    by (simp add: to_key_def Let_def with_path_id_def)
      (simp add: observation_to_state_def Let_def)
qed

text \<open>The key recovered from a stored state's observer text is the key the observation
  was stored under exactly when the peer address is IPv4: an IPv6 peer is turned into
  0.0.0.0, so two IPv6 sessions of one collector share a recovered key.\<close>

theorem to_key_roundtrip_iff_ipv4:
  assumes "CHR '':'' \<notin> set (obs_collector obs)"
  shows "to_key (observation_to_state obs) = observation_key obs \<longleftrightarrow> (\<exists>w. obs_peer_ip obs = V4 w)"
proof (cases "obs_peer_ip obs")
  case (V4 w)
  have tw: "takeWhile (\<lambda>x. x \<noteq> CHR '':'') (ipv4_to_string w) = ipv4_to_string w"
    using ipv4_to_string_no_colon [of w] by (auto simp: takeWhile_eq_all_conv)
  from V4 show ?thesis
    by (simp only: to_key_observer [OF assms] V4 ip_to_string.simps tw parse_ipv4_to_string
        observation_key_def with_path_id_def option.case) simp
next
  case (V6 w)
  then show ?thesis
    by (simp add: to_key_observer [OF assms] ipv6_first_piece observation_key_def with_path_id_def)
qed

theorem to_key_roundtrip_witness:
  "CHR '':'' \<notin> set ''rv2'' \<and>
   (to_key (observation_to_state (sample_obs ObsAnnouncement (V4 3106998337) [6447, 11537, 1101] 0))
      = observation_key (sample_obs ObsAnnouncement (V4 3106998337) [6447, 11537, 1101] 0)) \<and>
   (to_key (observation_to_state (sample_obs ObsAnnouncement (V6 1) [6447, 11537, 1101] 0))
      \<noteq> observation_key (sample_obs ObsAnnouncement (V6 1) [6447, 11537, 1101] 0))"
  using to_key_roundtrip_iff_ipv4 [of "sample_obs ObsAnnouncement (V4 3106998337) [6447, 11537, 1101] 0"]
    to_key_roundtrip_iff_ipv4 [of "sample_obs ObsAnnouncement (V6 1) [6447, 11537, 1101] 0"]
  by (simp add: sample_obs_def)

section \<open>Properties of the reconstruction\<close>

text \<open>C3: Route instances are isolated. The reconstructed state of a route instance (collector,
  peer, prefix and path identifier) is a function of the observations of that instance alone:
  dropping every other observation does not change it.\<close>

theorem reconstruct_isolates_instances:
  "current_state (fst (reconstruct_routes obs es ee ce)) k =
   current_state (fst (reconstruct_routes (filter (\<lambda>o'. observation_key o' = k) obs) es ee ce)) k"
  by (simp add: current_state_def reconstruct_routes_def Let_def recon_states_slot)

text \<open>C4: Every emitted change is genuine (a withdrawal of a present route, or a presence whose
  attributes differ from the state before it; never a duplicate), carries the key of the
  observation that triggered it, lies between the event start and the cooldown end, and is
  phased by the event end; the warm-up emits nothing.\<close>

theorem reconstruct_changes_genuine:
  "list_all (\<lambda>c. genuine_change c \<and> change_in_window es ee ce c \<and> change_keyed c)
     (snd (reconstruct_routes obs es ee ce))"
proof -
  have "changes_ok es ee ce (foldl (recon_step es ee ce) recon_init obs)"
    by (rule recon_ok.run_inv) (simp_all add: changes_ok_def recon_init_def)
  then show ?thesis by (simp add: reconstruct_routes_def Let_def changes_ok_def list_all_iff)
qed

text \<open>C2: The emitted changes are a complete journal. From the point where only event-time
  updates remain (no further RIB entry, nothing dated before the event start), replaying the
  emitted changes over the states of that point gives exactly the final states.\<close>

theorem reconstruct_journal_complete:
  assumes "list_all (in_event_order es) post"
  shows "\<exists>cs. snd (reconstruct_routes (pre @ post) es ee ce) =
      snd (reconstruct_routes pre es ee ce) @ cs \<and>
    st_states (fst (reconstruct_routes (pre @ post) es ee ce)) =
      foldl apply_change (st_states (fst (reconstruct_routes pre es ee ce))) cs"
proof -
  have "in_event_order es o'" if "o' \<in> set post" for o'
    using assms that by (simp add: list_all_iff)
  then show ?thesis
    using recon_run_journal [of post es ee ce "foldl (recon_step es ee ce) recon_init pre"]
    by (simp add: reconstruct_routes_def Let_def)
qed

theorem reconstruct_journal_witness:
  "list_all (in_event_order 0) [sample_obs ObsWithdrawal (V4 1) [] 5] \<and>
   (\<exists>cs. snd (reconstruct_routes ([sample_obs RibEntry (V4 1) [6447, 1101] (-5)] @
        [sample_obs ObsWithdrawal (V4 1) [] 5]) 0 10 20) =
      snd (reconstruct_routes [sample_obs RibEntry (V4 1) [6447, 1101] (-5)] 0 10 20) @ cs \<and>
    st_states (fst (reconstruct_routes ([sample_obs RibEntry (V4 1) [6447, 1101] (-5)] @
        [sample_obs ObsWithdrawal (V4 1) [] 5]) 0 10 20)) =
      foldl apply_change (st_states (fst (reconstruct_routes
        [sample_obs RibEntry (V4 1) [6447, 1101] (-5)] 0 10 20))) cs)"
proof -
  have h: "list_all (in_event_order 0) [sample_obs ObsWithdrawal (V4 1) [] 5]"
    by (simp add: in_event_order_def sample_obs_def)
  show ?thesis
    using h reconstruct_journal_complete [OF h, of "[sample_obs RibEntry (V4 1) [6447, 1101] (-5)]" 10 20]
    by blast
qed

end
