(* ===== verification/Path_Shape.thy ===== *)
theory Path_Shape
  imports Route
begin

text \<open>
  The path vocabulary of \<open>src/src/lifecycle.rs\<close>: collapsing prepended AS paths, the shape of a
  path change relative to the transit predicate, and semantic equality of route attributes with
  its textual fingerprint.
\<close>

fun collapse_loop :: "u32 list \<Rightarrow> u32 list \<Rightarrow> u32 list" where
  "collapse_loop collapsed [] = collapsed"
| "collapse_loop collapsed (asn # path) =
     (if collapsed \<noteq> [] \<and> last collapsed = asn then collapse_loop collapsed path
      else collapse_loop (collapsed @ [asn]) path)"

definition collapse_as_path :: "u32 list \<Rightarrow> u32 list" where
  "collapse_as_path path = collapse_loop [] path"

definition collapsed_equivalent :: "u32 list \<Rightarrow> u32 list \<Rightarrow> bool" where
  "collapsed_equivalent a b = (collapse_as_path a = collapse_as_path b)"

datatype path_shape_change =
    PrependReduced
  | PrependIncreased
  | PathChangedStillViaRequiredTransit
  | PathDepartedRequiredTransit
  | PathReturnedToRequiredTransit
  | GenericPathChange

definition state_path :: "route_state \<Rightarrow> u32 list" where
  "state_path s = ra_as_path (rs_attributes s)"

definition classify_path_change ::
  "route_state \<Rightarrow> route_state \<Rightarrow> transit_predicate \<Rightarrow> path_shape_change" where
  "classify_path_change from to pred =
     (let from_path = state_path from; to_path = state_path to;
          from_has = evaluate pred from_path; to_has = evaluate pred to_path in
      if collapsed_equivalent from_path to_path then
        (if length from_path > length to_path then PrependReduced else PrependIncreased)
      else if from_has \<and> to_has then PathChangedStillViaRequiredTransit
      else if from_has \<and> \<not> to_has then PathDepartedRequiredTransit
      else if \<not> from_has \<and> to_has then PathReturnedToRequiredTransit
      else GenericPathChange)"

definition route_semantically_equivalent :: "route_attributes \<Rightarrow> route_attributes \<Rightarrow> bool" where
  "route_semantically_equivalent a b =
     (if ra_as_path a \<noteq> ra_as_path b
         \<or> ra_origin_asns a \<noteq> ra_origin_asns b
         \<or> ra_origin a \<noteq> ra_origin b
         \<or> ra_next_hop a \<noteq> ra_next_hop b
         \<or> ra_med a \<noteq> ra_med b
         \<or> ra_local_pref a \<noteq> ra_local_pref b
         \<or> ra_atomic_aggregate a \<noteq> ra_atomic_aggregate b
      then False
      else sort (ra_communities a) = sort (ra_communities b))"

text \<open>The \<open>Debug\<close> rendering of the values a fingerprint holds. A string is quoted, with quote,
  backslash, newline, return, tab and NUL escaped and other control bytes written in hexadecimal;
  the texts that reach it (origin types, addresses, communities) are ASCII.\<close>

definition debug_char :: "char \<Rightarrow> string" where
  "debug_char c =
     (let n = (of_char c :: nat) in
      if n = 34 then [CHR 0x5C, CHR 0x22]
      else if n = 92 then [CHR 0x5C, CHR 0x5C]
      else if n = 10 then [CHR 0x5C, CHR ''n'']
      else if n = 13 then [CHR 0x5C, CHR ''r'']
      else if n = 9 then [CHR 0x5C, CHR ''t'']
      else if n = 0 then [CHR 0x5C, CHR ''0'']
      else if n < 32 \<or> n = 127 then [CHR 0x5C] @ ''u{'' @ show_base 16 n @ ''}''
      else [c])"

definition debug_string :: "string \<Rightarrow> string" where
  "debug_string s = [CHR 0x22] @ concat (map debug_char s) @ [CHR 0x22]"

definition debug_option :: "('a \<Rightarrow> string) \<Rightarrow> 'a option \<Rightarrow> string" where
  "debug_option f x = (case x of None \<Rightarrow> ''None'' | Some v \<Rightarrow> ''Some('' @ f v @ '')'')"

definition debug_list :: "('a \<Rightarrow> string) \<Rightarrow> 'a list \<Rightarrow> string" where
  "debug_list f xs = ''['' @ join '', '' (map f xs) @ '']''"

definition semantic_fingerprint :: "route_attributes \<Rightarrow> string" where
  "semantic_fingerprint a =
     join '','' (map show_u32 (ra_as_path a)) @ ''|'' @
     debug_list show_u32 (ra_origin_asns a) @ ''|'' @
     debug_option debug_string (ra_origin a) @ ''|'' @
     debug_option (\<lambda>ip. debug_string (ip_to_string ip)) (ra_next_hop a) @ ''|'' @
     debug_option show_u32 (ra_med a) @ ''|'' @
     debug_option show_u32 (ra_local_pref a) @ ''|'' @
     (if ra_atomic_aggregate a then ''true'' else ''false'') @ ''|'' @
     debug_list debug_string (sort (ra_communities a))"

section \<open>Collapsing\<close>

lemma collapse_loop_append:
  "cs \<noteq> [] \<Longrightarrow> collapse_loop cs p = butlast cs @ remdups_adj (last cs # p)"
proof (induction p arbitrary: cs)
  case (Cons x p)
  then show ?case by (cases "last cs = x") (simp_all add: butlast_append)
qed simp

lemma collapse_remdups: "collapse_as_path p = remdups_adj p"
  by (cases p) (simp_all add: collapse_as_path_def collapse_loop_append)

lemma windows2_remdups_adj:
  "x \<noteq> y \<Longrightarrow> (x, y) \<in> set (windows2 (remdups_adj p)) \<longleftrightarrow> (x, y) \<in> set (windows2 p)"
proof (induction p rule: remdups_adj.induct)
  case (3 a b xs)
  obtain ys where "remdups_adj (b # xs) = b # ys"
    by (metis list.exhaust_sel remdups_adj_Nil_iff list.distinct(1) hd_remdups_adj list.sel(1))
  with 3 show ?case by auto
qed auto

text \<open>The predicate is blind to prepending, unless it asks for an AS adjacent to itself.\<close>

definition proper_predicate :: "transit_predicate \<Rightarrow> bool" where
  "proper_predicate pred = (case pred of Adjacent a b \<Rightarrow> a \<noteq> b | _ \<Rightarrow> True)"

lemma evaluate_collapse:
  assumes "proper_predicate pr"
  shows "evaluate pr (collapse_as_path p) = evaluate pr p"
proof (cases pr)
  case (Adjacent a b)
  then have ne: "a \<noteq> b" "b \<noteq> a" using assms by (auto simp: proper_predicate_def)
  have "evaluate (Adjacent a b) q \<longleftrightarrow> (a, b) \<in> set (windows2 q) \<or> (b, a) \<in> set (windows2 q)" for q
    by (auto simp: list_ex_iff)
  with Adjacent ne show ?thesis
    by (simp only: collapse_remdups windows2_remdups_adj [OF ne(1)] windows2_remdups_adj [OF ne(2)])
qed (simp_all add: collapse_remdups)

lemma evaluate_collapsed_equivalent:
  "proper_predicate pr \<Longrightarrow> collapsed_equivalent p q \<Longrightarrow> evaluate pr p = evaluate pr q"
  unfolding collapsed_equivalent_def by (metis evaluate_collapse)

section \<open>Semantic equality\<close>

lemma semantic_equiv_iff:
  "route_semantically_equivalent a b \<longleftrightarrow>
     (\<exists>c. a = b\<lparr>ra_communities := c\<rparr> \<and> mset c = mset (ra_communities b))"
proof -
  have "sort x = sort y \<longleftrightarrow> mset x = mset y" for x y :: "string list"
    by (metis mset_sort properties_for_sort sorted_sort)
  then show ?thesis
    by (cases a; cases b) (auto simp: route_semantically_equivalent_def)
qed

lemma semantic_equiv_refl [simp]: "route_semantically_equivalent a a"
  by (simp add: route_semantically_equivalent_def)

lemma semantic_equiv_sym: "route_semantically_equivalent a b = route_semantically_equivalent b a"
  by (auto simp: route_semantically_equivalent_def)

lemma semantic_equiv_trans:
  "route_semantically_equivalent a b \<Longrightarrow> route_semantically_equivalent b c \<Longrightarrow>
   route_semantically_equivalent a c"
  by (auto simp: route_semantically_equivalent_def split: if_splits)

lemma semantic_equiv_fingerprint:
  "route_semantically_equivalent a b \<Longrightarrow> semantic_fingerprint a = semantic_fingerprint b"
  by (auto simp: route_semantically_equivalent_def semantic_fingerprint_def split: if_splits)

section \<open>Properties\<close>

text \<open>Collapsing an AS path with the accumulator loop is removing consecutive duplicates:
  the result has no two equal neighbours, visits the same ASNs, keeps the first and the last
  hop, and collapsing again changes nothing.\<close>

theorem collapse_as_path_correct:
  "collapse_as_path p = remdups_adj p \<and> distinct_adj (collapse_as_path p) \<and>
   set (collapse_as_path p) = set p \<and> collapse_as_path (collapse_as_path p) = collapse_as_path p \<and>
   hd (collapse_as_path p) = hd p \<and> last (collapse_as_path p) = last p"
proof -
  have "distinct_adj (remdups_adj p)" by (simp add: distinct_adj_remdups_adj)
  moreover have "hd (remdups_adj p) = hd p" "last (remdups_adj p) = last p"
    by (cases "p = []"; simp add: hd_remdups_adj last_remdups_adj)+
  moreover have "remdups_adj (remdups_adj p) = remdups_adj p"
    using distinct_adj_remdups_adj [of p] by (simp only: distinct_adj_altdef)
  ultimately show ?thesis by (simp add: collapse_remdups)
qed

text \<open>A change classified as a prepend change never hides a change of transit: for a
  predicate that does not ask for an AS adjacent to itself, the path satisfies the predicate
  before the change exactly when it does after it.\<close>

theorem prepend_change_keeps_transit:
  assumes "proper_predicate pred"
    and "classify_path_change from to pred \<in> {PrependReduced, PrependIncreased}"
  shows "evaluate pred (state_path from) = evaluate pred (state_path to)"
  using assms evaluate_collapsed_equivalent
  by (auto simp: classify_path_change_def Let_def split: if_splits)

theorem prepend_change_keeps_transit_witness:
  "proper_predicate (Adjacent 11537 225) \<and>
   classify_path_change
     \<lparr>rs_prefix = ''p'', rs_attributes = from_as_path [11537, 225, 225, 225], rs_timestamp = 0,
      rs_observer = ''rv2:1.1.1.1'', rs_path_id = None\<rparr>
     \<lparr>rs_prefix = ''p'', rs_attributes = from_as_path [11537, 225], rs_timestamp = 1,
      rs_observer = ''rv2:1.1.1.1'', rs_path_id = None\<rparr> (Adjacent 11537 225) = PrependReduced \<and>
   evaluate (Adjacent 11537 225) [11537, 225, 225, 225] = evaluate (Adjacent 11537 225) [11537, 225]"
proof -
  let ?from = "\<lparr>rs_prefix = ''p'', rs_attributes = from_as_path [11537, 225, 225, 225],
    rs_timestamp = 0, rs_observer = ''rv2:1.1.1.1'', rs_path_id = None\<rparr>"
  let ?to = "\<lparr>rs_prefix = ''p'', rs_attributes = from_as_path [11537, 225],
    rs_timestamp = 1, rs_observer = ''rv2:1.1.1.1'', rs_path_id = None\<rparr>"
  have h: "proper_predicate (Adjacent 11537 225)" by (simp add: proper_predicate_def)
  have c: "classify_path_change ?from ?to (Adjacent 11537 225) = PrependReduced"
    by (simp add: classify_path_change_def state_path_def from_as_path_def Let_def
        collapsed_equivalent_def collapse_as_path_def)
  then show ?thesis
    using h prepend_change_keeps_transit [OF h, of ?from ?to]
    by (simp add: state_path_def from_as_path_def)
qed

end
