(* ===== verification/Tokenize.thy ===== *)
theory Tokenize
  imports Route_Store Path_Shape
begin

text \<open>
  \<open>src/src/tokenize.rs\<close>: the single point where a kind-less state change gets its transition
  kind and its orthogonal effects, and the symbols the motif detector reads.
\<close>

definition gshut :: string where
  "gshut = ''65535:0''"

definition has_gshut_attr :: "route_attributes \<Rightarrow> bool" where
  "has_gshut_attr a = (gshut \<in> set (ra_communities a))"

definition attribute_effects :: "route_attributes \<Rightarrow> route_attributes \<Rightarrow> generic_transition_effects" where
  "attribute_effects a b =
     default_effects
       \<lparr>ef_graceful_shutdown_added := (\<not> has_gshut_attr a \<and> has_gshut_attr b),
        ef_graceful_shutdown_removed := (has_gshut_attr a \<and> \<not> has_gshut_attr b),
        ef_communities_changed := (ra_communities a \<noteq> ra_communities b),
        ef_med_changed := (ra_med a \<noteq> ra_med b),
        ef_local_pref_changed := (ra_local_pref a \<noteq> ra_local_pref b),
        ef_origin_changed := (ra_origin a \<noteq> ra_origin b)\<rparr>"

definition path_effects ::
  "as_path \<Rightarrow> as_path \<Rightarrow> generic_transition_effects \<Rightarrow> generic_transition_effects" where
  "path_effects p q effects =
     (if collapse_as_path p = collapse_as_path q
      then effects\<lparr>ef_prepend := (if length p > length q then PrependReducedBy else PrependIncreasedBy)\<rparr>
      else effects\<lparr>ef_material_path_changed := True\<rparr>)"

definition diff_states ::
  "route_state option \<Rightarrow> route_state option \<Rightarrow> route_state \<Rightarrow> continuity
    \<Rightarrow> transition_kind \<times> generic_transition_effects" where
  "diff_states baseline from to cont =
     (if cont = UnknownContinuity then (SessionReset, default_effects)
      else case from of
        None \<Rightarrow> (Announcement, default_effects)
      | Some from_state \<Rightarrow>
          (let a = rs_attributes from_state; b = rs_attributes to in
           if ra_as_path b = [] then (Withdrawal, default_effects)
           else if a = b then (Duplicate, default_effects)
           else
             (let effects = attribute_effects a b in
              if ra_as_path a \<noteq> ra_as_path b then
                ((case baseline of
                    Some bl \<Rightarrow>
                      (if ra_as_path b = ra_as_path (rs_attributes bl) then ReturnToBaseline
                       else PathReplacement (ra_as_path a) (ra_as_path b))
                  | None \<Rightarrow> PathReplacement (ra_as_path a) (ra_as_path b)),
                 path_effects (ra_as_path a) (ra_as_path b) effects)
              else (AttributeChange, effects))))"

definition tokenize_one :: "state_change \<Rightarrow> route_transition" where
  "tokenize_one sc =
     (let from_state = Option.bind (sc_before sc) es_state;
          to_state = es_state (sc_after sc);
          baseline_state = Option.bind (sc_event_baseline sc) es_state;
          (kind, effects) =
            (case to_state of
               None \<Rightarrow> (Withdrawal, default_effects)
             | Some to_rs \<Rightarrow>
                 (case from_state of
                    None \<Rightarrow> (Announcement, default_effects)
                  | Some _ \<Rightarrow> diff_states baseline_state from_state to_rs (sc_continuity sc)))
      in \<lparr>rt_key = sc_key sc, rt_event_baseline = sc_event_baseline sc, rt_from = sc_before sc,
          rt_to = sc_after sc, rt_kind = kind, rt_effects = effects,
          rt_triggering = sc_triggering sc, rt_phase = sc_phase sc\<rparr>)"

definition tokenize :: "state_change list \<Rightarrow> route_transition list" where
  "tokenize changes = map tokenize_one changes"

fun symbol_from_kind :: "transition_kind \<Rightarrow> string" where
  "symbol_from_kind Announcement = ''ANNOUNCEMENT''"
| "symbol_from_kind Withdrawal = ''WITHDRAWAL''"
| "symbol_from_kind Duplicate = ''DUPLICATE''"
| "symbol_from_kind (PathReplacement _ _) = ''PATH_REPLACEMENT''"
| "symbol_from_kind AttributeChange = ''ATTRIBUTE_CHANGE''"
| "symbol_from_kind SessionReset = ''SESSION_RESET''"
| "symbol_from_kind Restoration = ''RESTORATION''"
| "symbol_from_kind ReturnToBaseline = ''RETURN_TO_BASELINE''"

section \<open>Classification\<close>

lemma tokenize_one_sel [simp]:
  "rt_key (tokenize_one sc) = sc_key sc" "rt_from (tokenize_one sc) = sc_before sc"
  "rt_to (tokenize_one sc) = sc_after sc" "rt_phase (tokenize_one sc) = sc_phase sc"
  "rt_triggering (tokenize_one sc) = sc_triggering sc"
  "rt_event_baseline (tokenize_one sc) = sc_event_baseline sc"
  by (simp_all add: tokenize_one_def Let_def split: prod.splits)

lemma path_effects_sel [simp]:
  "ef_next_hop_changed (path_effects p q e) = ef_next_hop_changed e"
  "ef_communities_changed (path_effects p q e) = ef_communities_changed e"
  "ef_med_changed (path_effects p q e) = ef_med_changed e"
  "ef_local_pref_changed (path_effects p q e) = ef_local_pref_changed e"
  "ef_origin_changed (path_effects p q e) = ef_origin_changed e"
  "ef_graceful_shutdown_added (path_effects p q e) = ef_graceful_shutdown_added e"
  "ef_graceful_shutdown_removed (path_effects p q e) = ef_graceful_shutdown_removed e"
  by (simp_all add: path_effects_def)

lemma default_effects_sel [simp]:
  "\<not> ef_graceful_shutdown_added default_effects" "\<not> ef_graceful_shutdown_removed default_effects"
  "ef_prepend default_effects = PrependNone" "\<not> ef_material_path_changed default_effects"
  "\<not> ef_communities_changed default_effects" "\<not> ef_med_changed default_effects"
  "\<not> ef_local_pref_changed default_effects" "\<not> ef_origin_changed default_effects"
  "\<not> ef_next_hop_changed default_effects"
  by (simp_all add: default_effects_def)

lemma diff_states_kind:
  "fst (diff_states bl (Some f) t Known) =
     (let a = rs_attributes f; b = rs_attributes t in
      if ra_as_path b = [] then Withdrawal
      else if a = b then Duplicate
      else if ra_as_path a = ra_as_path b then AttributeChange
      else if \<exists>s. bl = Some s \<and> ra_as_path (rs_attributes s) = ra_as_path b then ReturnToBaseline
      else PathReplacement (ra_as_path a) (ra_as_path b))"
  by (auto simp: diff_states_def Let_def split: option.splits)

text \<open>The kinds a genuine change can get.\<close>

lemma tokenize_genuine_kind:
  assumes "genuine_change c"
  shows "rt_kind (tokenize_one c) \<notin> {Duplicate, Restoration}"
    and "rt_kind (tokenize_one c) = PathReplacement p q \<Longrightarrow>
      \<exists>f t. rt_from_state (tokenize_one c) = Some f \<and> rt_to_state (tokenize_one c) = Some t \<and>
        p = state_path f \<and> q = state_path t \<and> p \<noteq> q"
    and "rt_to_state (tokenize_one c) = None \<longrightarrow> rt_kind (tokenize_one c) = Withdrawal"
    and "rt_kind (tokenize_one c) = Announcement \<longleftrightarrow>
      rt_from_state (tokenize_one c) = None \<and> rt_to_state (tokenize_one c) \<noteq> None"
  using assms
  by (auto simp: tokenize_one_def genuine_change_def diff_states_def rt_to_state_def
      rt_from_state_def state_path_def Let_def split: option.splits if_splits prod.splits)

section \<open>Properties\<close>

text \<open>Every attribute facet of a classified change between two presences is exact: the
  graceful-shutdown, community, MED, local-preference and origin flags say precisely which of
  these attributes differ; a path change is either a prepend change or a material one, never
  both, and the flags are untouched by the primary kind.\<close>

theorem diff_states_facets_exact:
  assumes "ra_as_path (rs_attributes t) \<noteq> []" and "rs_attributes f \<noteq> rs_attributes t"
  shows "let a = rs_attributes f; b = rs_attributes t; e = snd (diff_states bl (Some f) t Known) in
    ef_communities_changed e = (ra_communities a \<noteq> ra_communities b) \<and>
    ef_med_changed e = (ra_med a \<noteq> ra_med b) \<and>
    ef_local_pref_changed e = (ra_local_pref a \<noteq> ra_local_pref b) \<and>
    ef_origin_changed e = (ra_origin a \<noteq> ra_origin b) \<and>
    ef_graceful_shutdown_added e = (gshut \<notin> set (ra_communities a) \<and> gshut \<in> set (ra_communities b)) \<and>
    ef_graceful_shutdown_removed e = (gshut \<in> set (ra_communities a) \<and> gshut \<notin> set (ra_communities b)) \<and>
    ef_material_path_changed e = (\<not> collapsed_equivalent (ra_as_path a) (ra_as_path b)) \<and>
    (ef_prepend e \<noteq> PrependNone) =
      (ra_as_path a \<noteq> ra_as_path b \<and> collapsed_equivalent (ra_as_path a) (ra_as_path b))"
  using assms
  by (auto simp: diff_states_def Let_def attribute_effects_def path_effects_def has_gshut_attr_def
      collapsed_equivalent_def)

theorem diff_states_facets_exact_witness:
  "let f = observation_to_state (sample_obs ObsAnnouncement (V4 1) [6447, 11537, 1101] 0);
       t = observation_to_state (sample_obs ObsAnnouncement (V4 1) [6447, 1101] 5) in
   ra_as_path (rs_attributes t) \<noteq> [] \<and> rs_attributes f \<noteq> rs_attributes t \<and>
   ef_material_path_changed (snd (diff_states None (Some f) t Known)) \<and>
   \<not> ef_communities_changed (snd (diff_states None (Some f) t Known))"
proof -
  let ?f = "observation_to_state (sample_obs ObsAnnouncement (V4 1) [6447, 11537, 1101] 0)"
  let ?t = "observation_to_state (sample_obs ObsAnnouncement (V4 1) [6447, 1101] 5)"
  have h: "ra_as_path (rs_attributes ?t) \<noteq> []" "rs_attributes ?f \<noteq> rs_attributes ?t"
    by (simp_all add: observation_to_state_def sample_obs_def)
  have "ra_communities (rs_attributes ?f) = ra_communities (rs_attributes ?t)"
    "\<not> collapsed_equivalent (ra_as_path (rs_attributes ?f)) (ra_as_path (rs_attributes ?t))"
    by (simp_all add: observation_to_state_def sample_obs_def collapsed_equivalent_def
        collapse_as_path_def)
  with h diff_states_facets_exact [OF h, of None] show ?thesis by (simp add: Let_def)
qed

text \<open>The next-hop facet is never computed: whatever the two states, the classifier reports
  that the next hop did not change.\<close>

theorem diff_states_never_reports_next_hop:
  "\<not> ef_next_hop_changed (snd (diff_states bl from to cont))"
  by (auto simp: diff_states_def Let_def attribute_effects_def split: option.splits)

text \<open>What the pipeline of reconstruction and classification can emit. No transition is a
  duplicate or a \<open>Restoration\<close>; a transition without an after-state is a withdrawal; an
  announcement is exactly a presence after an absence; a path replacement names the two
  different paths of its states; and every transition keeps the key and phase of its change.\<close>

theorem tokenize_reconstructed:
  "list_all (\<lambda>t. rt_kind t \<notin> {Duplicate, Restoration} \<and>
       (rt_to_state t = None \<longrightarrow> rt_kind t = Withdrawal) \<and>
       (rt_kind t = Announcement \<longleftrightarrow> rt_from_state t = None \<and> rt_to_state t \<noteq> None) \<and>
       (\<forall>p q. rt_kind t = PathReplacement p q \<longrightarrow> p \<noteq> q \<and>
          map_option state_path (rt_from_state t) = Some p \<and>
          map_option state_path (rt_to_state t) = Some q) \<and>
       rt_phase t \<noteq> Warmup)
     (tokenize (snd (reconstruct_routes obs es ee ce)))"
proof -
  have "list_all (\<lambda>c. genuine_change c \<and> sc_phase c \<noteq> Warmup)
      (snd (reconstruct_routes obs es ee ce))"
  proof -
    have "changes_ok es ee ce (foldl (recon_step es ee ce) recon_init obs)"
      by (rule recon_ok.run_inv) (simp_all add: changes_ok_def recon_init_def)
    then show ?thesis
      by (auto simp: reconstruct_routes_def changes_ok_def list_all_iff change_in_window_def Let_def)
  qed
  then show ?thesis
    unfolding tokenize_def list_all_iff
    using tokenize_genuine_kind by (fastforce simp: rt_from_state_def)
qed

theorem tokenize_reconstructed_witness:
  "let obs = [sample_obs RibEntry (V4 1) [6447, 11537, 1101] (-5),
              sample_obs ObsAnnouncement (V4 1) [6447, 237, 1101] 3] in
   map rt_kind (tokenize (snd (reconstruct_routes obs 0 10 20))) =
     [PathReplacement [6447, 11537, 1101] [6447, 237, 1101]] \<and>
   list_all (\<lambda>t. rt_kind t \<notin> {Duplicate, Restoration}) (tokenize (snd (reconstruct_routes obs 0 10 20)))"
proof -
  let ?obs = "[sample_obs RibEntry (V4 1) [6447, 11537, 1101] (-5),
    sample_obs ObsAnnouncement (V4 1) [6447, 237, 1101] 3]"
  have "map rt_kind (tokenize (snd (reconstruct_routes ?obs 0 10 20))) =
      [PathReplacement [6447, 11537, 1101] [6447, 237, 1101]]"
    by (simp add: reconstruct_routes_def recon_init_def recon_step_def sample_obs_def Let_def
        seed_from_rib_def freeze_once_def freeze_event_baseline_def phase_at_def push_change_def
        apply_update_def observation_key_def with_path_id_def observation_to_state_def store_new_def
        collector_continuity_def tokenize_def tokenize_one_def diff_states_def)
  moreover have "list_all (\<lambda>t. rt_kind t \<notin> {Duplicate, Restoration})
      (tokenize (snd (reconstruct_routes ?obs 0 10 20)))"
    using tokenize_reconstructed [of ?obs 0 10 20] by (simp add: list_all_iff)
  ultimately show ?thesis by (simp add: Let_def)
qed

end
