(* ===== verification/Cohort.thy ===== *)
theory Cohort
  imports Route_Store
begin

text \<open>
  \<open>src/src/cohort.rs\<close>: the frozen observer-prefix cohort. An observer-prefix key is admitted when
  one of its target-origin baseline instances satisfies the transit predicate; once admitted,
  every target-origin instance of the key is kept, alternates included.
\<close>

record frozen_cohort =
  fc_observer_prefixes :: "observer_prefix_key list" \<comment> \<open>a \<open>BTreeSet\<close>: ascending, distinct\<close>
  fc_baseline_instances :: "(observer_prefix_key, (route_key, route_state) btree) btree"

definition cohort_default :: frozen_cohort where
  "cohort_default = \<lparr>fc_observer_prefixes = [], fc_baseline_instances = []\<rparr>"

definition cohort_contains :: "frozen_cohort \<Rightarrow> observer_prefix_key \<Rightarrow> bool" where
  "cohort_contains c key = (key \<in> set (fc_observer_prefixes c))"

definition stream_count :: "frozen_cohort \<Rightarrow> nat" where
  "stream_count c = length (fc_observer_prefixes c)"

definition cohort_instance_count :: "frozen_cohort \<Rightarrow> nat" where
  "cohort_instance_count c = sum_list (map length (bt_values (fc_baseline_instances c)))"

text \<open>\<open>BTreeSet::insert\<close> is inserting a key with no value.\<close>

definition bset_insert :: "'k::linorder \<Rightarrow> 'k list \<Rightarrow> 'k list" where
  "bset_insert k ks = bt_keys (bt_insert k () (map (\<lambda>x. (x, ())) ks))"

definition obs_opk :: "route_observation \<Rightarrow> observer_prefix_key" where
  "obs_opk obs = ObserverPrefixKey (obs_collector obs) (obs_peer_ip obs) (obs_prefix obs)"

text \<open>The three guards of the scan: a RIB entry, with attributes, whose first origin ASN (0 where
  there is none) is a target.\<close>

definition qualifies :: "u32 list \<Rightarrow> route_observation \<Rightarrow> bool" where
  "qualifies target_origin_asns obs =
     (if obs_kind obs \<noteq> RibEntry then False
      else case obs_attributes obs of
             None \<Rightarrow> False
           | Some attrs \<Rightarrow>
               (let origin = (case oa_origin_asns attrs of [] \<Rightarrow> 0 | a # _ \<Rightarrow> a)
                in origin \<in> set target_origin_asns))"

definition collect_instance ::
  "u32 list \<Rightarrow> (observer_prefix_key, route_observation list) btree \<Rightarrow> route_observation
    \<Rightarrow> (observer_prefix_key, route_observation list) btree" where
  "collect_instance targets m obs =
     (if qualifies targets obs then
        bt_insert (obs_opk obs)
          ((case bt_get m (obs_opk obs) of None \<Rightarrow> [] | Some l \<Rightarrow> l) @ [obs]) m
      else m)"

definition instance_key :: "observer_prefix_key \<Rightarrow> route_observation \<Rightarrow> route_key" where
  "instance_key opk obs =
     with_path_id (opk_collector opk) (opk_peer_ip opk) (opk_prefix opk) (obs_path_id obs)"

definition instance_state :: "observer_prefix_key \<Rightarrow> route_observation \<Rightarrow> route_state" where
  "instance_state opk obs =
     (let attr = obs_attributes obs in
      \<lparr>rs_prefix = opk_prefix opk,
       rs_attributes =
         \<lparr>ra_as_path = (case attr of None \<Rightarrow> [] | Some a \<Rightarrow> oa_as_path a),
          ra_origin_asns = (case attr of None \<Rightarrow> [] | Some a \<Rightarrow> oa_origin_asns a),
          ra_next_hop = Option.bind attr oa_next_hop,
          ra_origin = Option.bind attr oa_origin,
          ra_med = Option.bind attr oa_med,
          ra_local_pref = Option.bind attr oa_local_pref,
          ra_atomic_aggregate = (case attr of None \<Rightarrow> False | Some a \<Rightarrow> oa_atomic_aggregate a),
          ra_communities =
            (case attr of None \<Rightarrow> [] | Some a \<Rightarrow> comm_values (oa_communities a))\<rparr>,
       rs_timestamp = obs_timestamp obs,
       rs_observer = opk_collector opk @ '':'' @ ip_to_string (opk_peer_ip opk),
       rs_path_id = obs_path_id obs\<rparr>)"

definition matches_predicate :: "transit_predicate \<Rightarrow> route_observation list \<Rightarrow> bool" where
  "matches_predicate pred instances =
     list_ex (\<lambda>obs. case obs_attributes obs of None \<Rightarrow> False
                    | Some a \<Rightarrow> evaluate pred (oa_as_path a)) instances"

definition instance_map ::
  "observer_prefix_key \<Rightarrow> route_observation list \<Rightarrow> (route_key, route_state) btree" where
  "instance_map opk instances =
     fold (\<lambda>obs. bt_insert (instance_key opk obs) (instance_state opk obs)) instances []"

definition admit ::
  "transit_predicate \<Rightarrow> frozen_cohort \<Rightarrow> observer_prefix_key \<times> route_observation list
    \<Rightarrow> frozen_cohort" where
  "admit pred cohort entry =
     (case entry of (opk, instances) \<Rightarrow>
        if matches_predicate pred instances
        then \<lparr>fc_observer_prefixes = bset_insert opk (fc_observer_prefixes cohort),
              fc_baseline_instances =
                bt_insert opk (instance_map opk instances) (fc_baseline_instances cohort)\<rparr>
        else cohort)"

definition freeze_cohort ::
  "route_observation list \<Rightarrow> u32 list \<Rightarrow> transit_predicate \<Rightarrow> frozen_cohort" where
  "freeze_cohort rib_observations target_origin_asns pred =
     (let all_instances = foldl (collect_instance target_origin_asns) [] rib_observations
      in foldl (admit pred) cohort_default all_instances)"

section \<open>Observer-prefix aggregate state\<close>

datatype add_path_continuity = Consistent | Ambiguous

record observer_prefix_state =
  ops_key :: observer_prefix_key
  ops_active_instances :: "(route_key, route_state) btree"
  ops_continuity :: add_path_continuity

definition observer_prefix_state_new :: "observer_prefix_key \<Rightarrow> observer_prefix_state" where
  "observer_prefix_state_new key =
     \<lparr>ops_key = key, ops_active_instances = [], ops_continuity = Consistent\<rparr>"

definition is_visible :: "observer_prefix_state \<Rightarrow> bool" where
  "is_visible s = (ops_active_instances s \<noteq> [])"

definition ops_instance_count :: "observer_prefix_state \<Rightarrow> nat" where
  "ops_instance_count s = length (ops_active_instances s)"

section \<open>The scan\<close>

text \<open>The scan groups the qualifying observations by observer-prefix key, in order.\<close>

definition instances_of :: "u32 list \<Rightarrow> route_observation list \<Rightarrow> observer_prefix_key \<Rightarrow> route_observation list" where
  "instances_of targets obs opk = filter (\<lambda>o'. qualifies targets o' \<and> obs_opk o' = opk) obs"

lemma collect_instance_ok [inim_inv]: "bt_ok m \<Longrightarrow> bt_ok (collect_instance targets m obs)"
  by (simp add: collect_instance_def bt_ok_insert)

interpretation collect: invariant_run "collect_instance targets" bt_ok "\<lambda>_. True" for targets
  by unfold_locales (rule collect_instance_ok)

lemma collect_instance_get:
  "bt_ok m \<Longrightarrow> bt_get (collect_instance targets m o') opk =
     (if qualifies targets o' \<and> obs_opk o' = opk
      then Some ((case bt_get m opk of None \<Rightarrow> [] | Some l \<Rightarrow> l) @ [o']) else bt_get m opk)"
  by (auto simp: collect_instance_def bt_get_insert)

lemma collect_get:
  "bt_get (foldl (collect_instance targets) [] obs) opk =
     (let l = instances_of targets obs opk in if l = [] then None else Some l)"
proof (induction obs rule: rev_induct)
  case Nil
  show ?case by (simp add: bt_get_def instances_of_def)
next
  case (snoc o' obs)
  have "bt_ok (foldl (collect_instance targets) [] obs)"
    by (rule collect.run_inv) (simp_all add: bt.ok_empty)
  with snoc show ?case
    by (auto simp: collect_instance_get instances_of_def Let_def)
qed

lemma bset_insert_set [simp]: "set (bset_insert k ks) = insert k (set ks)"
  using map_fst_bt_insert [of k "()" "map (\<lambda>x. (x, ())) ks"]
  by (simp add: bset_insert_def bt_keys_def o_def)

lemma bset_insert_sorted: "sorted_wrt (<) ks \<Longrightarrow> sorted_wrt (<) (bset_insert k ks)"
  using bt_ok_insert [of "map (\<lambda>x. (x, ())) ks" k "()"]
  by (simp add: bset_insert_def bt_keys_def bt_ok_def o_def)

text \<open>The cohort's invariant: ordered containers over the same keys.\<close>

definition cohort_ok :: "frozen_cohort \<Rightarrow> bool" where
  "cohort_ok c = (sorted_wrt (<) (fc_observer_prefixes c) \<and> bt_ok (fc_baseline_instances c) \<and>
     set (fc_observer_prefixes c) = dom (bt_get (fc_baseline_instances c)))"

lemma admit_ok [inim_inv]: "cohort_ok c \<Longrightarrow> cohort_ok (admit pred c e)"
  by (auto simp: admit_def cohort_ok_def bset_insert_sorted bt_ok_insert bt_get_insert
      split: prod.splits)

interpretation admit: invariant_run "admit pred" cohort_ok "\<lambda>_. True" for pred
  by unfold_locales (rule admit_ok)

lemma cohort_ok_default: "cohort_ok cohort_default"
  by (simp add: cohort_ok_def cohort_default_def bt.ok_empty bt_get_def)

lemma admit_get:
  "cohort_ok c \<Longrightarrow> bt_get (fc_baseline_instances (admit pred c (k, v))) opk =
     (if opk = k \<and> matches_predicate pred v then Some (instance_map k v)
      else bt_get (fc_baseline_instances c) opk)"
  by (simp add: admit_def cohort_ok_def bt_get_insert)

lemma admit_fold_get:
  "distinct (map fst es) \<Longrightarrow>
   bt_get (fc_baseline_instances (foldl (admit pred) cohort_default es)) opk =
     (case map_of es opk of
        Some instances \<Rightarrow>
          if matches_predicate pred instances then Some (instance_map opk instances) else None
      | None \<Rightarrow> None)"
proof (induction es rule: rev_induct)
  case Nil
  show ?case by (simp add: cohort_default_def bt_get_def)
next
  case (snoc e es)
  obtain k v where e: "e = (k, v)" by (cases e)
  have "cohort_ok (foldl (admit pred) cohort_default es)"
    by (rule admit.run_inv) (simp_all add: cohort_ok_default)
  moreover have "map_of es k = None" using snoc.prems e by (simp add: map_of_eq_None_iff)
  ultimately show ?case
    using snoc e by (auto simp: admit_get map_add_def split: option.splits)
qed

lemma freeze_cohort_get:
  "bt_get (fc_baseline_instances (freeze_cohort obs targets pred)) opk =
     (let l = instances_of targets obs opk in
      if matches_predicate pred l then Some (instance_map opk l) else None)"
proof -
  let ?m = "foldl (collect_instance targets) [] obs"
  have ok: "bt_ok ?m" by (rule collect.run_inv) (simp_all add: bt.ok_empty)
  then have "distinct (map fst ?m)" by (simp add: bt_ok_def strict_sorted_iff)
  then have "bt_get (fc_baseline_instances (freeze_cohort obs targets pred)) opk =
     (case bt_get ?m opk of
        Some instances \<Rightarrow>
          if matches_predicate pred instances then Some (instance_map opk instances) else None
      | None \<Rightarrow> None)"
    by (simp add: freeze_cohort_def admit_fold_get) (simp add: bt_get_def)
  then show ?thesis
    by (simp add: collect_get Let_def) (simp add: matches_predicate_def)
qed

lemma freeze_cohort_ok: "cohort_ok (freeze_cohort obs targets pred)"
  unfolding freeze_cohort_def Let_def by (rule admit.run_inv) (simp_all add: cohort_ok_default)

lemma instance_map_ok: "bt_ok (instance_map opk l)"
  unfolding instance_map_def by (rule bt.insert_all_ok) (rule bt.ok_empty)

lemma instance_map_keys: "set (bt_keys (instance_map opk l)) = instance_key opk ` set l"
  using bt.dom_insert_all [of "[]" "instance_key opk" "instance_state opk" l]
  by (simp add: bt.keys_dom instance_map_ok) (simp add: instance_map_def bt.ok_empty bt.lookup_empty)

lemma instance_key_observation_key: "obs_opk o' = opk \<Longrightarrow> instance_key opk o' = observation_key o'"
  by (auto simp: instance_key_def obs_opk_def observation_key_def)

section \<open>Properties\<close>

lemma cohort_contains_get:
  "cohort_contains (freeze_cohort obs targets pred) opk \<longleftrightarrow>
     matches_predicate pred (instances_of targets obs opk)"
  using freeze_cohort_ok [of obs targets pred]
  by (auto simp: cohort_contains_def cohort_ok_def freeze_cohort_get Let_def split: if_splits)

lemma instance_map_keys_of:
  "set (bt_keys (instance_map opk (instances_of targets obs opk))) =
     observation_key ` {o' \<in> set obs. qualifies targets o' \<and> obs_opk o' = opk}"
  by (auto simp: instance_map_keys instances_of_def instance_key_observation_key)

text \<open>C13: Cohort admission. An observer-prefix key is in the frozen cohort exactly when some RIB
  observation of that key has a target origin and a path that satisfies the predicate; and the
  baseline kept for an admitted key is keyed by exactly the route instances of all its
  target-origin RIB observations, whether or not they satisfy the predicate themselves.\<close>

theorem freeze_cohort_admission:
  "cohort_contains (freeze_cohort obs targets pred) opk =
     (\<exists>o' a. o' \<in> set obs \<and> qualifies targets o' \<and> obs_opk o' = opk \<and>
        obs_attributes o' = Some a \<and> evaluate pred (oa_as_path a)) \<and>
   map_option (set \<circ> bt_keys) (bt_get (fc_baseline_instances (freeze_cohort obs targets pred)) opk) =
     (if cohort_contains (freeze_cohort obs targets pred) opk
      then Some (observation_key ` {o' \<in> set obs. qualifies targets o' \<and> obs_opk o' = opk})
      else None)"
proof
  show "cohort_contains (freeze_cohort obs targets pred) opk =
     (\<exists>o' a. o' \<in> set obs \<and> qualifies targets o' \<and> obs_opk o' = opk \<and>
        obs_attributes o' = Some a \<and> evaluate pred (oa_as_path a))"
    by (auto simp: cohort_contains_get matches_predicate_def list_ex_iff instances_of_def
        split: option.splits)
next
  show "map_option (set \<circ> bt_keys) (bt_get (fc_baseline_instances (freeze_cohort obs targets pred)) opk) =
     (if cohort_contains (freeze_cohort obs targets pred) opk
      then Some (observation_key ` {o' \<in> set obs. qualifies targets o' \<and> obs_opk o' = opk})
      else None)"
    by (simp add: freeze_cohort_get cohort_contains_get Let_def instance_map_keys_of)
qed

text \<open>The frozen cohort is well formed for every input: its keys are strictly ascending, its
  baseline is an ordered map over exactly those keys, every admitted stream keeps at least one
  instance, and so the instance count is at least the stream count.\<close>

theorem freeze_cohort_well_formed:
  "let c = freeze_cohort obs targets pred in
   cohort_ok c \<and> list_all (\<lambda>m. bt_ok m \<and> m \<noteq> []) (bt_values (fc_baseline_instances c)) \<and>
   stream_count c \<le> cohort_instance_count c"
proof -
  let ?c = "freeze_cohort obs targets pred"
  have ok: "cohort_ok ?c" by (rule freeze_cohort_ok)
  have m: "bt_ok m \<and> m \<noteq> []" if "m \<in> set (bt_values (fc_baseline_instances ?c))" for m
  proof -
    from that ok obtain opk where "bt_get (fc_baseline_instances ?c) opk = Some m"
      by (auto simp: bt_values_get cohort_ok_def ran_def)
    then have "m = instance_map opk (instances_of targets obs opk)"
      "matches_predicate pred (instances_of targets obs opk)"
      by (auto simp: freeze_cohort_get Let_def split: if_splits)
    moreover from this(2) have "instances_of targets obs opk \<noteq> []"
      by (auto simp: matches_predicate_def)
    ultimately show ?thesis
      using instance_map_keys [of opk "instances_of targets obs opk"]
      by (auto simp: instance_map_ok bt_keys_def)
  qed
  have "stream_count ?c = length (fc_baseline_instances ?c)"
    using ok distinct_card [of "fc_observer_prefixes ?c"] bt.length_keys [of "fc_baseline_instances ?c"]
    by (simp add: stream_count_def cohort_ok_def strict_sorted_iff)
  also have "\<dots> = sum_list (map (\<lambda>_. 1) (bt_values (fc_baseline_instances ?c)))"
    by (simp add: bt_values_def o_def sum_list_triv)
  also have "\<dots> \<le> cohort_instance_count ?c"
    unfolding cohort_instance_count_def
    by (rule sum_list_mono) (use m in \<open>simp add: Suc_leI\<close>)
  finally show ?thesis using ok m by (simp add: Let_def list_all_iff)
qed

end
