(* ===== verification/Lifecycle.thy ===== *)
theory Lifecycle
  imports Tokenize Cohort
begin

text \<open>
  The per-stream lifecycle of \<open>src/src/lifecycle.rs\<close>: the simulation of one observer-prefix
  stream's route instances over its transitions (\<open>build_one_lifecycle\<close>, one substep per block of
  the loop body, in the code's order), the classification of restorations, the ADD-PATH ambiguity
  scan and the builder over the whole cohort. This theory holds the definitions; their
  properties are in \<open>Lifecycle_Facts\<close>.
\<close>

type_synonym f64 = rat

datatype restoration_kind =
    ExactInstanceRestoration
  | EquivalentRouteRestoration
  | ObserverPrefixRestoration
  | BaselineSetRestoration

record stream_restoration =
  sr_timestamp :: timestamp
  sr_old_path_ids :: "u32 option list"
  sr_new_path_ids :: "u32 option list"
  sr_exact_instance :: bool
  sr_equivalent_route :: bool
  sr_observer_prefix :: bool
  sr_baseline_set :: bool
  sr_evidence :: evidence_ref

definition restoration_kinds :: "stream_restoration \<Rightarrow> restoration_kind list" where
  "restoration_kinds r =
     (if sr_exact_instance r then [ExactInstanceRestoration] else []) @
     (if sr_equivalent_route r then [EquivalentRouteRestoration] else []) @
     (if sr_observer_prefix r then [ObserverPrefixRestoration] else []) @
     (if sr_baseline_set r then [BaselineSetRestoration] else [])"

record add_path_ambiguity =
  aa_collector :: string
  aa_peer_ip :: string
  aa_prefix :: string
  aa_first_keyed :: "evidence_ref option"
  aa_first_unkeyed :: "evidence_ref option"
  aa_archive_identities :: "string list"
  aa_affected_start :: "timestamp option"
  aa_affected_end :: "timestamp option"

datatype stream_category =
    Unchanged
  | PrependOnly
  | PathChangedStillViaTransit
  | DepartedTransitPath
  | Withdrawn

record stream_flags =
  fl_restored :: bool
  fl_not_restored :: bool
  fl_multiple_cycles :: bool
  fl_add_path_ambiguous :: bool

record lifecycle_transition =
  lt_timestamp :: timestamp
  lt_phase :: analysis_phase
  lt_kind :: string
  lt_path_id :: "u32 option"
  lt_before_path :: "u32 list"
  lt_after_path :: "u32 list"
  lt_path_shape :: "path_shape_change option"
  lt_observation_id :: u64
  lt_archive_sha256 :: "string option"
  lt_has_gshut_after :: bool

record stream_lifecycle =
  sl_collector :: string
  sl_peer_ip :: string
  sl_prefix :: string
  sl_baseline_path :: "u32 list"
  sl_baseline_instance_count :: nat
  sl_max_concurrent_instances :: nat
  sl_total_route_instances :: nat
  sl_category :: stream_category
  sl_flags :: stream_flags
  sl_first_change :: "timestamp option"
  sl_transitions :: "lifecycle_transition list"
  sl_min_absence_secs :: "f64 option"
  sl_max_absence_secs :: "f64 option"
  sl_was_withdrawn :: bool
  sl_stream_withdrawal_time :: "timestamp option"
  sl_active_before_absence :: nat
  sl_transit_at_withdrawal :: "bool option"
  sl_withdrawn_instances :: "route_key list"
  sl_stream_withdrawal_count :: nat
  sl_restorations :: "stream_restoration list"
  sl_add_path_ambiguity :: "add_path_ambiguity option"
  sl_replacement_appeared :: bool
  sl_replacement_retained_transit :: "bool option"
  sl_prepending_changed :: bool
  sl_cooldown_transitions :: "lifecycle_transition list"
  sl_final_state :: "route_state option"
  sl_baseline_restored :: bool
  sl_restoration_time :: "timestamp option"
  sl_affected_duration_secs :: "f64 option"
  sl_graceful_shutdown_seen :: bool
  sl_gshut_present_at_baseline :: bool
  sl_gshut_newly_added :: bool
  sl_gshut_removed :: bool
  sl_first_gshut_timestamp :: "timestamp option"
  sl_last_gshut_timestamp :: "timestamp option"
  sl_gshut_before_withdrawal :: bool
  sl_gshut_before_path_change :: bool
  sl_gshut_to_consequence_secs :: "f64 option"
  sl_gshut_removed_during_restoration :: bool
  sl_communities_before :: "string list"
  sl_communities_after :: "string list"

section \<open>Restorations, ambiguity, path shape\<close>

fun path_id_order :: "u32 option \<Rightarrow> 8 word \<times> u32" where
  "path_id_order None = (0, 0)"
| "path_id_order (Some i) = (1, i)"

fun path_id_key :: "u32 option \<Rightarrow> 8 word \<times> u32" where
  "path_id_key None = (0, 0)"
| "path_id_key (Some i) = (1, i)"

text \<open>The state a restoring transition brings; the sentinel where it has none.\<close>

definition restored_state :: "route_transition \<Rightarrow> timestamp \<Rightarrow> route_state" where
  "restored_state t ts =
     (case rt_to_state t of
        Some s \<Rightarrow> s
      | None \<Rightarrow>
          \<lparr>rs_prefix = rk_prefix (rt_key t), rs_attributes = empty_attributes, rs_timestamp = ts,
           rs_observer = rk_collector (rt_key t) @ '':'' @ ip_to_string (rk_peer_ip (rt_key t)),
           rs_path_id = rk_path_id (rt_key t)\<rparr>)"

text \<open>The returning instance is compared with the first withdrawn instance of the same path
  identifier (or of no identifier), and with the baseline's where none was withdrawn. The code
  writes the keyed and the unkeyed search out separately; both compare \<open>path_id\<close>.\<close>

definition exact_instance_match ::
  "route_transition \<Rightarrow> (route_key \<times> route_state) list \<Rightarrow> (route_key, route_state) btree
    \<Rightarrow> route_state \<Rightarrow> bool" where
  "exact_instance_match t withdrawn_history baseline new_state =
     (let same = (\<lambda>(k, _). rk_path_id k = rk_path_id (rt_key t)) in
      case find same withdrawn_history of
        Some (_, last_state) \<Rightarrow>
          route_semantically_equivalent (rs_attributes last_state) (rs_attributes new_state)
      | None \<Rightarrow>
          (case find same baseline of
             Some (_, base_state) \<Rightarrow>
               route_semantically_equivalent (rs_attributes base_state) (rs_attributes new_state)
           | None \<Rightarrow> False))"

definition fingerprints :: "(route_key, route_state) btree \<Rightarrow> string list" where
  "fingerprints m = sort (map (\<lambda>s. semantic_fingerprint (rs_attributes s)) (bt_values m))"

definition classify_restoration ::
  "route_transition \<Rightarrow> (route_key \<times> route_state) list \<Rightarrow> (route_key, route_state) btree
    \<Rightarrow> (route_key, route_state) btree \<Rightarrow> timestamp \<Rightarrow> stream_restoration" where
  "classify_restoration t withdrawn_history baseline active ts =
     (let new_state = restored_state t ts in
      \<lparr>sr_timestamp = ts,
       sr_old_path_ids =
         remdups_adj (sort_key path_id_key (map (\<lambda>(k, _). rk_path_id k) withdrawn_history)),
       sr_new_path_ids = [rk_path_id (rt_key t)],
       sr_exact_instance = exact_instance_match t withdrawn_history baseline new_state,
       sr_equivalent_route =
         list_ex (\<lambda>b. route_semantically_equivalent (rs_attributes b) (rs_attributes new_state))
           (bt_values baseline),
       sr_observer_prefix = True,
       sr_baseline_set = (fingerprints baseline = fingerprints active),
       sr_evidence = rt_triggering t\<rparr>)"

definition push_identity :: "string list \<Rightarrow> string option \<Rightarrow> string list" where
  "push_identity acc x =
     (case x of None \<Rightarrow> acc | Some s \<Rightarrow> if s \<in> set acc then acc else acc @ [s])"

definition detect_stream_ambiguity ::
  "observer_prefix_key \<Rightarrow> (route_key, route_state) btree \<Rightarrow> route_transition list
    \<Rightarrow> add_path_ambiguity option" where
  "detect_stream_ambiguity opk baseline transitions =
     (let first_keyed = find (\<lambda>t. rk_path_id (rt_key t) \<noteq> None) transitions;
          first_unkeyed = find (\<lambda>t. rk_path_id (rt_key t) = None) transitions;
          keyed_baseline = list_ex (\<lambda>k. rk_path_id k \<noteq> None) (bt_keys baseline);
          unkeyed_baseline = list_ex (\<lambda>k. rk_path_id k = None) (bt_keys baseline);
          has_keyed = (keyed_baseline \<or> first_keyed \<noteq> None);
          has_unkeyed = (unkeyed_baseline \<or> first_unkeyed \<noteq> None)
      in if \<not> (has_keyed \<and> has_unkeyed) then None
         else Some
           \<lparr>aa_collector = opk_collector opk, aa_peer_ip = ip_to_string (opk_peer_ip opk),
            aa_prefix = opk_prefix opk,
            aa_first_keyed = map_option rt_triggering first_keyed,
            aa_first_unkeyed = map_option rt_triggering first_unkeyed,
            aa_archive_identities =
              foldl (\<lambda>acc t. push_identity (push_identity acc (ev_source_url (rt_triggering t)))
                               (ev_archive_sha256 (rt_triggering t))) [] transitions,
            aa_affected_start =
              (case transitions of [] \<Rightarrow> None | t # _ \<Rightarrow> Some (rt_time t)),
            aa_affected_end =
              (if transitions = [] then None else Some (rt_time (last transitions)))\<rparr>)"

definition is_path_replacement :: "transition_kind \<Rightarrow> bool" where
  "is_path_replacement k = (case k of PathReplacement _ _ \<Rightarrow> True | _ \<Rightarrow> False)"

definition path_shape_from_transition ::
  "route_transition \<Rightarrow> transit_predicate \<Rightarrow> path_shape_change option" where
  "path_shape_from_transition t pred =
     (if \<not> is_path_replacement (rt_kind t) then None
      else case (rt_from_state t, rt_to_state t) of
             (Some from, Some to) \<Rightarrow>
               (if route_semantically_equivalent (rs_attributes from) (rs_attributes to) then None
                else Some (classify_path_change from to pred))
           | _ \<Rightarrow> None)"

fun transition_kind_str :: "transition_kind \<Rightarrow> string" where
  "transition_kind_str Announcement = ''Announcement''"
| "transition_kind_str Withdrawal = ''Withdrawal''"
| "transition_kind_str Duplicate = ''Duplicate''"
| "transition_kind_str (PathReplacement _ _) = ''PathReplacement''"
| "transition_kind_str AttributeChange = ''AttributeChange''"
| "transition_kind_str SessionReset = ''SessionReset''"
| "transition_kind_str Restoration = ''Restoration''"
| "transition_kind_str ReturnToBaseline = ''ReturnToBaseline''"

section \<open>The simulation of one stream\<close>

text \<open>The local variables of \<open>build_one_lifecycle\<close>.\<close>

record sim =
  active :: "(route_key, route_state) btree"
  max_concurrent :: nat
  seen_instances :: "route_key set"
  withdrawn_instances :: "route_key list"
  absence_intervals :: "f64 list"
  current_absence_start :: "timestamp option"
  stream_withdrawal_count :: nat
  stream_withdrawal_time :: "timestamp option"
  active_before_absence :: nat
  transit_at_withdrawal :: "bool option"
  restorations :: "stream_restoration list"
  withdrawn_history :: "(route_key \<times> route_state) list"
  first_change :: "timestamp option"
  seen_categories :: "stream_category set"
  prepending_changed :: bool
  replacement_appeared :: bool
  replacement_retained_transit :: "bool option"
  baseline_restored :: bool
  restoration_time :: "timestamp option"
  restoration_count :: nat
  final_state :: "route_state option"
  cooldown_transitions :: "lifecycle_transition list"
  lifecycle_transitions :: "lifecycle_transition list"
  graceful_shutdown_seen :: bool
  gshut_newly_added :: bool
  gshut_removed :: bool
  first_gshut_timestamp :: "timestamp option"
  last_gshut_timestamp :: "timestamp option"
  gshut_before_withdrawal :: bool
  gshut_before_path_change :: bool
  gshut_removed_during_restoration :: bool
  communities_before :: "string list"
  communities_after :: "string list"
  communities_captured :: bool
  last_had_gshut :: bool
  first_gshut_added_at :: "timestamp option"
  first_consequence_at :: "timestamp option"

definition or_else :: "'a option \<Rightarrow> 'a \<Rightarrow> 'a option" where
  "or_else x v = (case x of None \<Rightarrow> Some v | Some _ \<Rightarrow> x)"

definition baseline_has_gshut :: "(route_key, route_state) btree \<Rightarrow> bool" where
  "baseline_has_gshut baseline =
     (case bt_values baseline of [] \<Rightarrow> False | s # _ \<Rightarrow> has_gshut_attr (rs_attributes s))"

definition sim_init :: "(route_key, route_state) btree \<Rightarrow> sim" where
  "sim_init baseline =
     \<lparr>active = baseline, max_concurrent = length baseline,
      seen_instances = set (bt_keys baseline), withdrawn_instances = [], absence_intervals = [],
      current_absence_start = None, stream_withdrawal_count = 0, stream_withdrawal_time = None,
      active_before_absence = 0, transit_at_withdrawal = None, restorations = [],
      withdrawn_history = [], first_change = None, seen_categories = {},
      prepending_changed = False, replacement_appeared = False,
      replacement_retained_transit = None, baseline_restored = False, restoration_time = None,
      restoration_count = 0, final_state = None, cooldown_transitions = [],
      lifecycle_transitions = [], graceful_shutdown_seen = False, gshut_newly_added = False,
      gshut_removed = False, first_gshut_timestamp = None, last_gshut_timestamp = None,
      gshut_before_withdrawal = False, gshut_before_path_change = False,
      gshut_removed_during_restoration = False, communities_before = [], communities_after = [],
      communities_captured = False, last_had_gshut = baseline_has_gshut baseline,
      first_gshut_added_at = None, first_consequence_at = None\<rparr>"

definition state_has_gshut :: "route_state option \<Rightarrow> bool" where
  "state_has_gshut s = (case s of None \<Rightarrow> False | Some r \<Rightarrow> has_gshut_attr (rs_attributes r))"

definition state_communities :: "route_state option \<Rightarrow> string list" where
  "state_communities s = (case s of None \<Rightarrow> [] | Some r \<Rightarrow> ra_communities (rs_attributes r))"

definition track_gshut :: "route_transition \<Rightarrow> sim \<Rightarrow> sim" where
  "track_gshut t s =
     (let has_gshut = state_has_gshut (rt_to_state t);
          from_has_gshut = state_has_gshut (rt_from_state t);
          s1 = (if has_gshut then
                  s\<lparr>graceful_shutdown_seen := True,
                    first_gshut_timestamp := or_else (first_gshut_timestamp s) (rt_time t),
                    last_gshut_timestamp := Some (rt_time t)\<rparr>
                else s);
          s2 = (if \<not> from_has_gshut \<and> has_gshut then
                  s1\<lparr>gshut_newly_added := True,
                     first_gshut_added_at := or_else (first_gshut_added_at s1) (rt_time t)\<rparr>
                else s1)
      in if from_has_gshut \<and> \<not> has_gshut then
           s2\<lparr>gshut_removed := True,
              gshut_removed_during_restoration :=
                (gshut_removed_during_restoration s2
                 \<or> rt_kind t \<in> {Restoration, ReturnToBaseline})\<rparr>
         else s2)"

definition capture_communities :: "route_transition \<Rightarrow> sim \<Rightarrow> sim" where
  "capture_communities t s =
     (let s1 = (if \<not> communities_captured s then
                  s\<lparr>communities_before :=
                      (case rt_from_state t of
                         Some r \<Rightarrow> ra_communities (rs_attributes r)
                       | None \<Rightarrow> state_communities (rt_to_state t)),
                    communities_captured := True\<rparr>
                else s)
      in s1\<lparr>communities_after := state_communities (rt_to_state t)\<rparr>)"

definition opt_path :: "route_state option \<Rightarrow> u32 list" where
  "opt_path s = (case s of None \<Rightarrow> [] | Some r \<Rightarrow> state_path r)"

definition to_lifecycle_transition ::
  "transit_predicate \<Rightarrow> route_transition \<Rightarrow> lifecycle_transition" where
  "to_lifecycle_transition pred t =
     \<lparr>lt_timestamp = rt_time t, lt_phase = rt_phase t, lt_kind = transition_kind_str (rt_kind t),
      lt_path_id = rk_path_id (rt_key t), lt_before_path = opt_path (rt_from_state t),
      lt_after_path = opt_path (rt_to_state t),
      lt_path_shape = path_shape_from_transition t pred,
      lt_observation_id = ev_observation_id (rt_triggering t),
      lt_archive_sha256 = ev_archive_sha256 (rt_triggering t),
      lt_has_gshut_after = state_has_gshut (rt_to_state t)\<rparr>"

definition record_transition :: "transit_predicate \<Rightarrow> route_transition \<Rightarrow> sim \<Rightarrow> sim" where
  "record_transition pred t s =
     (let lct = to_lifecycle_transition pred t;
          s1 = (if rt_phase t = Cooldown
                then s\<lparr>cooldown_transitions := cooldown_transitions s @ [lct]\<rparr>
                else s\<lparr>lifecycle_transitions := lifecycle_transitions s @ [lct]\<rparr>)
      in if rt_phase t = EventPhase \<and> first_change s1 = None
         then s1\<lparr>first_change := Some (rt_time t)\<rparr> else s1)"

definition note_consequence :: "route_transition \<Rightarrow> sim \<Rightarrow> sim" where
  "note_consequence t s = s\<lparr>first_consequence_at := or_else (first_consequence_at s) (rt_time t)\<rparr>"

definition withdraw_instance :: "transit_predicate \<Rightarrow> route_transition \<Rightarrow> sim \<Rightarrow> sim" where
  "withdraw_instance pred t s =
     (let s1 = (if last_had_gshut s
                then note_consequence t (s\<lparr>gshut_before_withdrawal := True\<rparr>) else s);
          s2 = s1\<lparr>withdrawn_instances := withdrawn_instances s1 @ [rt_key t],
                  withdrawn_history :=
                    (case rt_from_state t of
                       Some last_state \<Rightarrow> withdrawn_history s1 @ [(rt_key t, last_state)]
                     | None \<Rightarrow> withdrawn_history s1),
                  active := bt_remove (rt_key t) (active s1)\<rparr>;
          s3 = (if active s2 = [] then
                  s2\<lparr>stream_withdrawal_count := stream_withdrawal_count s2 + 1,
                     current_absence_start := or_else (current_absence_start s2) (rt_time t),
                     stream_withdrawal_time := Some (rt_time t),
                     active_before_absence := length (active s2) + 1,
                     transit_at_withdrawal :=
                       map_option (\<lambda>r. evaluate pred (state_path r)) (rt_from_state t)\<rparr>
                else s2)
      in s3\<lparr>final_state := None\<rparr>)"

definition establish_instance :: "transit_predicate \<Rightarrow> route_transition \<Rightarrow> sim \<Rightarrow> sim" where
  "establish_instance pred t s =
     (case rt_to_state t of
        None \<Rightarrow> s
      | Some state \<Rightarrow>
          (let active' = bt_insert (rt_key t) state (active s) in
           s\<lparr>active := active',
             seen_instances := insert (rt_key t) (seen_instances s),
             max_concurrent := max (max_concurrent s) (length active'),
             final_state := Some state,
             replacement_appeared := True,
             replacement_retained_transit :=
               or_else (replacement_retained_transit s) (evaluate pred (state_path state))\<rparr>))"

definition apply_kind :: "transit_predicate \<Rightarrow> route_transition \<Rightarrow> sim \<Rightarrow> sim" where
  "apply_kind pred t s =
     (if rt_kind t = Withdrawal then withdraw_instance pred t s else establish_instance pred t s)"

definition restore_stream ::
  "(route_key, route_state) btree \<Rightarrow> route_transition \<Rightarrow> bool \<Rightarrow> sim \<Rightarrow> sim" where
  "restore_stream baseline t was_visible s =
     (if \<not> was_visible \<and> active s \<noteq> [] then
        (let restored_at = rt_time t;
             s1 = (case current_absence_start s of
                     None \<Rightarrow> s
                   | Some start \<Rightarrow>
                       (let dur = of_int (num_seconds (restored_at - start)) in
                        s\<lparr>absence_intervals :=
                            (if 0 < dur then absence_intervals s @ [dur] else absence_intervals s),
                          current_absence_start := None\<rparr>))
         in s1\<lparr>restoration_count := restoration_count s1 + 1,
               restoration_time := or_else (restoration_time s1) restored_at,
               restorations := restorations s1 @
                 [classify_restoration t (withdrawn_history s1) baseline (active s1) restored_at],
               withdrawn_history := []\<rparr>)
      else s)"

definition note_shape :: "route_transition \<Rightarrow> path_shape_change \<Rightarrow> sim \<Rightarrow> sim" where
  "note_shape t shape s =
     (case shape of
        PrependReduced \<Rightarrow>
          s\<lparr>prepending_changed := True, seen_categories := insert PrependOnly (seen_categories s)\<rparr>
      | PrependIncreased \<Rightarrow>
          s\<lparr>prepending_changed := True, seen_categories := insert PrependOnly (seen_categories s)\<rparr>
      | PathChangedStillViaRequiredTransit \<Rightarrow>
          s\<lparr>seen_categories := insert PathChangedStillViaTransit (seen_categories s)\<rparr>
      | PathDepartedRequiredTransit \<Rightarrow>
          s\<lparr>seen_categories := insert DepartedTransitPath (seen_categories s)\<rparr>
      | PathReturnedToRequiredTransit \<Rightarrow>
          s\<lparr>restoration_time := or_else (restoration_time s) (rt_time t)\<rparr>
      | GenericPathChange \<Rightarrow> s)"

definition classify_change :: "transit_predicate \<Rightarrow> route_transition \<Rightarrow> sim \<Rightarrow> sim" where
  "classify_change pred t s =
     (if is_path_replacement (rt_kind t) then
        (let s1 = (if last_had_gshut s
                   then note_consequence t (s\<lparr>gshut_before_path_change := True\<rparr>) else s)
         in case (rt_from_state t, rt_to_state t) of
              (Some from, Some to) \<Rightarrow>
                (if route_semantically_equivalent (rs_attributes from) (rs_attributes to) then s1
                 else note_shape t (classify_path_change from to pred) s1)
            | _ \<Rightarrow> s1)
      else s)"

definition any_matching :: "transit_predicate \<Rightarrow> (route_key, route_state) btree \<Rightarrow> bool" where
  "any_matching pred m = list_ex (\<lambda>r. evaluate pred (state_path r)) (bt_values m)"

definition track_departure :: "transit_predicate \<Rightarrow> sim \<Rightarrow> sim" where
  "track_departure pred s =
     (if active s \<noteq> [] \<and> \<not> any_matching pred (active s)
      then s\<lparr>seen_categories := insert DepartedTransitPath (seen_categories s)\<rparr> else s)"

definition close_step :: "route_transition \<Rightarrow> sim \<Rightarrow> sim" where
  "close_step t s =
     s\<lparr>baseline_restored := (baseline_restored s \<or> rt_kind t = ReturnToBaseline),
       last_had_gshut := state_has_gshut (rt_to_state t)\<rparr>"

definition lifecycle_step ::
  "(route_key, route_state) btree \<Rightarrow> transit_predicate \<Rightarrow> sim \<Rightarrow> route_transition \<Rightarrow> sim" where
  "lifecycle_step baseline pred s t =
     (let s1 = record_transition pred t (capture_communities t (track_gshut t s));
          was_visible = (active s1 \<noteq> []);
          s2 = restore_stream baseline t was_visible (apply_kind pred t s1)
      in close_step t (track_departure pred (classify_change pred t s2)))"

text \<open>After the loop.\<close>

definition opt_min :: "f64 list \<Rightarrow> f64 option" where
  "opt_min xs = (case xs of [] \<Rightarrow> None | y # ys \<Rightarrow> Some (fold min ys y))"

definition opt_max :: "f64 list \<Rightarrow> f64 option" where
  "opt_max xs = (case xs of [] \<Rightarrow> None | y # ys \<Rightarrow> Some (fold max ys y))"

definition gshut_to_consequence :: "sim \<Rightarrow> f64 option" where
  "gshut_to_consequence s =
     (case (first_gshut_added_at s, first_consequence_at s) of
        (Some added, Some c) \<Rightarrow>
          (let d = of_int (num_seconds (c - added)) in if 0 \<le> d then Some d else None)
      | _ \<Rightarrow> None)"

definition closed_absences :: "timestamp \<Rightarrow> sim \<Rightarrow> f64 list" where
  "closed_absences cooldown_end s =
     (case current_absence_start s of
        None \<Rightarrow> absence_intervals s
      | Some start \<Rightarrow>
          (let d = of_int (num_seconds (cooldown_end - start)) in
           if 0 < d then absence_intervals s @ [d] else absence_intervals s))"

definition stream_category_of :: "sim \<Rightarrow> stream_category" where
  "stream_category_of s =
     (if stream_withdrawal_count s > 0 then Withdrawn
      else if DepartedTransitPath \<in> seen_categories s then DepartedTransitPath
      else if PathChangedStillViaTransit \<in> seen_categories s then PathChangedStillViaTransit
      else if PrependOnly \<in> seen_categories s then PrependOnly
      else Unchanged)"

definition not_restored_of :: "transit_predicate \<Rightarrow> sim \<Rightarrow> bool" where
  "not_restored_of pred s =
     (let ended_absent = (active s = [] \<and> stream_withdrawal_count s > 0);
          ended_departed = (active s \<noteq> [] \<and> \<not> any_matching pred (active s)
                            \<and> DepartedTransitPath \<in> seen_categories s)
      in ended_absent \<or> ended_departed)"

definition build_one_lifecycle ::
  "observer_prefix_key \<Rightarrow> (route_key, route_state) btree \<Rightarrow> route_transition list \<Rightarrow> timestamp
    \<Rightarrow> transit_predicate \<Rightarrow> stream_lifecycle" where
  "build_one_lifecycle opk baseline transitions cooldown_end pred =
     (let s = foldl (lifecycle_step baseline pred) (sim_init baseline) transitions;
          absences = closed_absences cooldown_end s;
          not_restored = not_restored_of pred s;
          ambiguity = detect_stream_ambiguity opk baseline transitions
      in \<lparr>sl_collector = opk_collector opk,
          sl_peer_ip = ip_to_string (opk_peer_ip opk),
          sl_prefix = opk_prefix opk,
          sl_baseline_path = (case bt_values baseline of [] \<Rightarrow> [] | r # _ \<Rightarrow> state_path r),
          sl_baseline_instance_count = length baseline,
          sl_max_concurrent_instances = max_concurrent s,
          sl_total_route_instances = card (seen_instances s),
          sl_category = stream_category_of s,
          sl_flags =
            \<lparr>fl_restored = (restoration_count s > 0 \<and> \<not> not_restored),
             fl_not_restored = not_restored,
             fl_multiple_cycles =
               (stream_withdrawal_count s > 1
                \<or> (stream_withdrawal_count s > 0 \<and> restoration_count s > 1)),
             fl_add_path_ambiguous = (ambiguity \<noteq> None)\<rparr>,
          sl_first_change = first_change s,
          sl_transitions = lifecycle_transitions s,
          sl_min_absence_secs = opt_min absences,
          sl_max_absence_secs = opt_max absences,
          sl_was_withdrawn = (stream_withdrawal_count s > 0),
          sl_stream_withdrawal_time = stream_withdrawal_time s,
          sl_active_before_absence = active_before_absence s,
          sl_transit_at_withdrawal = transit_at_withdrawal s,
          sl_withdrawn_instances = withdrawn_instances s,
          sl_stream_withdrawal_count = stream_withdrawal_count s,
          sl_restorations = restorations s,
          sl_add_path_ambiguity = ambiguity,
          sl_replacement_appeared = replacement_appeared s,
          sl_replacement_retained_transit = replacement_retained_transit s,
          sl_prepending_changed = prepending_changed s,
          sl_cooldown_transitions = cooldown_transitions s,
          sl_final_state = final_state s,
          sl_baseline_restored = baseline_restored s,
          sl_restoration_time = restoration_time s,
          sl_affected_duration_secs =
            map_option (\<lambda>fc. max 0 (of_int (num_seconds
              ((case restoration_time s of None \<Rightarrow> cooldown_end | Some r \<Rightarrow> r) - fc))))
              (first_change s),
          sl_graceful_shutdown_seen = graceful_shutdown_seen s,
          sl_gshut_present_at_baseline = baseline_has_gshut baseline,
          sl_gshut_newly_added = gshut_newly_added s,
          sl_gshut_removed = gshut_removed s,
          sl_first_gshut_timestamp = first_gshut_timestamp s,
          sl_last_gshut_timestamp = last_gshut_timestamp s,
          sl_gshut_before_withdrawal = gshut_before_withdrawal s,
          sl_gshut_before_path_change = gshut_before_path_change s,
          sl_gshut_to_consequence_secs = gshut_to_consequence s,
          sl_gshut_removed_during_restoration = gshut_removed_during_restoration s,
          sl_communities_before = communities_before s,
          sl_communities_after = communities_after s\<rparr>)"

section \<open>All streams\<close>

definition rt_stream :: "route_transition \<Rightarrow> observer_prefix_key" where
  "rt_stream t = observer_prefix_key (rt_key t)"

definition transition_order :: "route_transition \<Rightarrow> timestamp \<times> 8 word \<times> u32" where
  "transition_order t = (rt_time t, path_id_order (rk_path_id (rt_key t)))"

definition stream_transitions ::
  "route_transition list \<Rightarrow> observer_prefix_key \<Rightarrow> route_transition list" where
  "stream_transitions transitions opk =
     sort_key transition_order (filter (\<lambda>t. rt_stream t = opk) transitions)"

definition lifecycle_order :: "stream_lifecycle \<Rightarrow> string \<times> string \<times> string" where
  "lifecycle_order l = (sl_collector l, sl_peer_ip l, sl_prefix l)"

text \<open>\<open>visit\<close> is the order in which the iterator of the transition map (a \<open>HashMap\<close>) visits its
  keys, which the language leaves open.\<close>

definition build_lifecycles ::
  "observer_prefix_key list \<Rightarrow> route_transition list \<Rightarrow> frozen_cohort \<Rightarrow> timestamp
    \<Rightarrow> transit_predicate \<Rightarrow> stream_lifecycle list" where
  "build_lifecycles visit transitions cohort cooldown_end pred =
     (let admitted = map (\<lambda>opk.
            build_one_lifecycle opk
              (case bt_get (fc_baseline_instances cohort) opk of None \<Rightarrow> [] | Some m \<Rightarrow> m)
              (stream_transitions transitions opk) cooldown_end pred)
            (fc_observer_prefixes cohort);
          others = map (\<lambda>opk.
            build_one_lifecycle opk [] (stream_transitions transitions opk) cooldown_end pred)
            (filter (\<lambda>opk. opk \<notin> set (fc_observer_prefixes cohort)) visit)
      in sort_key lifecycle_order (admitted @ others))"

end
