(* ===== verification/Lifecycle_Facts.thy ===== *)
theory Lifecycle_Facts
  imports Lifecycle
begin

text \<open>
  Properties of the stream simulation: frame lemmas per substep, the refinement of the set of
  active route instances to a plain set of keys, the invariants of the counters, and what the
  finished lifecycle record says.
\<close>

section \<open>Frames\<close>

text \<open>The fields that only \<open>apply_kind\<close> writes.\<close>

definition core :: "sim \<Rightarrow> (route_key, route_state) btree \<times> nat \<times> route_key set \<times> nat \<times> nat
    \<times> route_key list" where
  "core s = (active s, max_concurrent s, seen_instances s, stream_withdrawal_count s,
     active_before_absence s, withdrawn_instances s)"

lemma core_frame [inim_frame]:
  "core (track_gshut t s) = core s"
  "core (capture_communities t s) = core s"
  "core (record_transition p t s) = core s"
  "core (restore_stream b t v s) = core s"
  "core (note_consequence t s) = core s"
  "core (track_departure p s) = core s"
  "core (close_step t s) = core s"
  by (simp_all add: core_def track_gshut_def capture_communities_def record_transition_def
      restore_stream_def note_consequence_def track_departure_def close_step_def Let_def
      split: option.split)

lemma core_note_shape [inim_frame]: "core (note_shape t sh s) = core s"
  by (cases sh) (simp_all add: core_def note_shape_def)

lemma core_classify_change [inim_frame]: "core (classify_change p t s) = core s"
  by (simp add: classify_change_def Let_def inim_frame split: option.split)
    (simp add: core_def note_consequence_def)

lemma core_step: "core (lifecycle_step b p s t) =
    core (apply_kind p t (record_transition p t (capture_communities t (track_gshut t s))))"
  by (simp add: lifecycle_step_def Let_def inim_frame)

lemma core_eqD:
  assumes "core s = core s'"
  shows "active s = active s'" "max_concurrent s = max_concurrent s'"
    "seen_instances s = seen_instances s'"
    "stream_withdrawal_count s = stream_withdrawal_count s'"
    "active_before_absence s = active_before_absence s'"
    "withdrawn_instances s = withdrawn_instances s'"
  using assms by (simp_all add: core_def)

lemma core_withdraw:
  "core (withdraw_instance p t s) =
    (let act = bt_remove (rt_key t) (active s); gone = (act = []) in
     (act, max_concurrent s, seen_instances s,
      (if gone then stream_withdrawal_count s + 1 else stream_withdrawal_count s),
      (if gone then 1 else active_before_absence s),
      withdrawn_instances s @ [rt_key t]))"
  by (simp add: withdraw_instance_def core_def Let_def note_consequence_def)

lemma core_establish:
  "core (establish_instance p t s) =
    (case rt_to_state t of
       None \<Rightarrow> core s
     | Some r \<Rightarrow>
         (let act = bt_insert (rt_key t) r (active s) in
          (act, max (max_concurrent s) (length act), insert (rt_key t) (seen_instances s),
           stream_withdrawal_count s, active_before_absence s, withdrawn_instances s)))"
  by (simp add: establish_instance_def core_def Let_def split: option.split)

lemma core_lifecycle_step:
  "core (lifecycle_step b p s t) = core (apply_kind p t s)"
proof -
  let ?s = "record_transition p t (capture_communities t (track_gshut t s))"
  have c: "core ?s = core s" by (simp add: inim_frame)
  from core_eqD [OF c] c show ?thesis
    by (simp add: core_step apply_kind_def core_withdraw core_establish Let_def split: option.split)
qed

lemma step_fields:
  "active (lifecycle_step b p s t) = active (apply_kind p t s)"
  "max_concurrent (lifecycle_step b p s t) = max_concurrent (apply_kind p t s)"
  "seen_instances (lifecycle_step b p s t) = seen_instances (apply_kind p t s)"
  "stream_withdrawal_count (lifecycle_step b p s t) = stream_withdrawal_count (apply_kind p t s)"
  "active_before_absence (lifecycle_step b p s t) = active_before_absence (apply_kind p t s)"
  "withdrawn_instances (lifecycle_step b p s t) = withdrawn_instances (apply_kind p t s)"
  by (rule core_eqD [OF core_lifecycle_step])+

section \<open>The active instances as a set of keys\<close>

text \<open>The abstract view of a stream: the set of route instances that are up.\<close>

definition instance_effect :: "route_transition \<Rightarrow> (route_key \<times> route_state option) option" where
  "instance_effect t =
     (if rt_kind t = Withdrawal then Some (rt_key t, None)
      else case rt_to_state t of None \<Rightarrow> None | Some r \<Rightarrow> Some (rt_key t, Some r))"

definition alive_step :: "route_key set \<Rightarrow> route_transition \<Rightarrow> route_key set" where
  "alive_step K t =
     (case instance_effect t of
        None \<Rightarrow> K
      | Some (k, None) \<Rightarrow> K - {k}
      | Some (k, Some _) \<Rightarrow> insert k K)"

definition alive :: "route_key set \<Rightarrow> route_transition list \<Rightarrow> route_key set" where
  "alive K ts = foldl alive_step K ts"

lemma active_step:
  "active (lifecycle_step b p s t) =
     (case instance_effect t of
        None \<Rightarrow> active s
      | Some (k, None) \<Rightarrow> bt_remove k (active s)
      | Some (k, Some r) \<Rightarrow> bt_insert k r (active s))"
  by (auto simp: step_fields apply_kind_def instance_effect_def withdraw_instance_def
      establish_instance_def note_consequence_def Let_def split: option.split)

lemma active_step_ok: "bt_ok (active s) \<Longrightarrow> bt_ok (active (lifecycle_step b p s t))"
  by (auto simp: active_step bt_ok_insert bt_ok_remove split: option.split)

interpretation active_run:
  invariant_run "lifecycle_step b p" "\<lambda>s. bt_ok (active s)" "\<lambda>_. True" for b p
  by unfold_locales (rule active_step_ok)

lemma active_keys_step:
  assumes "bt_ok (active s)"
  shows "set (bt_keys (active (lifecycle_step b p s t))) = alive_step (set (bt_keys (active s))) t"
proof -
  have "bt_ok (active (lifecycle_step b p s t))" using assms by (rule active_step_ok)
  then show ?thesis
    using assms
    by (auto simp: active_step alive_step_def bt.keys_dom bt_get_insert bt_get_remove bt_ok_insert
        bt_ok_remove split: option.splits)
qed

abbreviation run_sim :: "(route_key, route_state) btree \<Rightarrow> transit_predicate \<Rightarrow> route_transition list \<Rightarrow> sim" where
  "run_sim b p ts \<equiv> foldl (lifecycle_step b p) (sim_init b) ts"

lemma run_sim_ok: "bt_ok b \<Longrightarrow> bt_ok (active (run_sim b p ts))"
  by (rule active_run.run_inv) (simp_all add: sim_init_def)

lemma run_sim_alive:
  "bt_ok b \<Longrightarrow> set (bt_keys (active (run_sim b p ts))) = alive (set (bt_keys b)) ts"
proof (induction ts rule: rev_induct)
  case Nil
  show ?case by (simp add: alive_def sim_init_def)
next
  case (snoc t ts)
  then show ?case
    using active_keys_step [OF run_sim_ok [OF snoc.prems, of p ts], of b p t]
    by (simp add: alive_def)
qed

lemma active_empty_iff: "active s = [] \<longleftrightarrow> set (bt_keys (active s)) = {}"
  by (simp add: bt_keys_def)

lemma step_withdrawal_count:
  assumes "bt_ok (active s)"
  shows "stream_withdrawal_count (lifecycle_step b p s t) =
    (if rt_kind t = Withdrawal \<and> alive_step (set (bt_keys (active s))) t = {}
     then stream_withdrawal_count s + 1 else stream_withdrawal_count s)"
proof (cases "rt_kind t = Withdrawal")
  case True
  then have "set (bt_keys (bt_remove (rt_key t) (active s))) = alive_step (set (bt_keys (active s))) t"
    using active_keys_step [OF assms, of b p t] by (simp add: active_step instance_effect_def)
  then have "alive_step (set (bt_keys (active s))) t = {} \<longleftrightarrow> bt_remove (rt_key t) (active s) = []"
    by (metis bt_keys_def list.map_disc_iff set_empty)
  with True show ?thesis
    by (simp add: step_fields apply_kind_def withdraw_instance_def Let_def note_consequence_def)
next
  case False
  then show ?thesis
    by (simp add: step_fields apply_kind_def establish_instance_def Let_def split: option.split)
qed

text \<open>The prefixes of a stream's transitions that end in a withdrawal and leave nothing up.\<close>

definition absences_of :: "route_key set \<Rightarrow> route_transition list \<Rightarrow> nat" where
  "absences_of K ts = card {i. i < length ts \<and> rt_kind (ts ! i) = Withdrawal
     \<and> alive K (take (Suc i) ts) = {}}"

lemma absences_of_snoc:
  "absences_of K (ts @ [t]) = absences_of K ts +
     (if rt_kind t = Withdrawal \<and> alive K (ts @ [t]) = {} then 1 else 0)"
proof -
  let ?A = "\<lambda>xs. {i. i < length xs \<and> rt_kind (xs ! i) = Withdrawal \<and> alive K (take (Suc i) xs) = {}}"
  have "?A (ts @ [t]) = ?A ts \<union>
      (if rt_kind t = Withdrawal \<and> alive K (ts @ [t]) = {} then {length ts} else {})"
    by (auto simp: nth_append less_Suc_eq split: if_splits)
  moreover have "finite (?A ts)" by simp
  ultimately show ?thesis by (simp add: absences_of_def)
qed

lemma run_sim_withdrawal_count:
  "bt_ok b \<Longrightarrow> stream_withdrawal_count (run_sim b p ts) = absences_of (set (bt_keys b)) ts"
proof (induction ts rule: rev_induct)
  case Nil
  show ?case by (simp add: absences_of_def sim_init_def)
next
  case (snoc t ts)
  then show ?case
    using step_withdrawal_count [OF run_sim_ok [OF snoc.prems, of p ts], of b p t]
      run_sim_alive [OF snoc.prems, of p ts]
    by (simp add: absences_of_snoc alive_def)
qed

section \<open>Counters\<close>

text \<open>The simulation's invariant: the active map is ordered, everything up has been seen, the
  peak is between what is up now and what was ever seen, and the size recorded before an
  absence is one exactly when there was an absence.\<close>

definition sim_ok :: "sim \<Rightarrow> bool" where
  "sim_ok s = (bt_ok (active s) \<and> finite (seen_instances s) \<and>
     set (bt_keys (active s)) \<subseteq> seen_instances s \<and>
     length (active s) \<le> max_concurrent s \<and> max_concurrent s \<le> card (seen_instances s) \<and>
     active_before_absence s = (if stream_withdrawal_count s = 0 then 0 else 1))"

lemma length_active_le:
  assumes "bt_ok m" "set (bt_keys m) \<subseteq> K" "finite K"
  shows "length m \<le> card K"
  using assms card_mono [of K "set (bt_keys m)"] distinct_card [OF bt.keys_distinct, of m]
  by simp

lemma sim_ok_step: "sim_ok s \<Longrightarrow> sim_ok (lifecycle_step b p s t)"
proof -
  assume ok: "sim_ok s"
  then have act: "bt_ok (active (lifecycle_step b p s t))"
    by (simp add: sim_ok_def active_step_ok)
  show ?thesis
  proof (cases "rt_kind t = Withdrawal")
    case True
    have "length (bt_remove (rt_key t) (active s)) \<le> length (active s)"
      "set (bt_keys (bt_remove (rt_key t) (active s))) \<subseteq> set (bt_keys (active s))"
      by (auto simp: bt_remove_def bt_keys_def)
    with True ok act show ?thesis
      by (auto simp: sim_ok_def step_fields apply_kind_def withdraw_instance_def Let_def
          note_consequence_def)
  next
    case False
    show ?thesis
    proof (cases "rt_to_state t")
      case None
      with False ok show ?thesis
        by (simp add: sim_ok_def step_fields apply_kind_def establish_instance_def)
    next
      case (Some r)
      let ?act = "bt_insert (rt_key t) r (active s)"
      have keys: "set (bt_keys ?act) \<subseteq> insert (rt_key t) (seen_instances s)"
        using ok map_fst_bt_insert [of "rt_key t" r "active s"]
        by (auto simp: sim_ok_def bt_keys_def)
      then have "length ?act \<le> card (insert (rt_key t) (seen_instances s))"
        using ok by (intro length_active_le) (auto simp: sim_ok_def bt_ok_insert)
      moreover have "card (seen_instances s) \<le> card (insert (rt_key t) (seen_instances s))"
        using ok by (intro card_mono) (auto simp: sim_ok_def)
      ultimately show ?thesis
        using False Some ok act keys
        by (simp add: sim_ok_def step_fields apply_kind_def establish_instance_def Let_def)
    qed
  qed
qed

interpretation sim_run: invariant_run "lifecycle_step b p" sim_ok "\<lambda>_. True" for b p
  by unfold_locales (rule sim_ok_step)

lemma sim_ok_init: "bt_ok b \<Longrightarrow> sim_ok (sim_init b)"
  using distinct_card [OF bt.keys_distinct, of b]
  by (simp add: sim_ok_def sim_init_def)

lemma run_sim_sim_ok: "bt_ok b \<Longrightarrow> sim_ok (run_sim b p ts)"
  by (rule sim_run.run_inv) (simp_all add: sim_ok_init)

lemma max_concurrent_mono: "max_concurrent s \<le> max_concurrent (lifecycle_step b p s t)"
  by (simp add: step_fields apply_kind_def withdraw_instance_def establish_instance_def Let_def
      note_consequence_def split: option.split)

lemma run_sim_max_concurrent: "length b \<le> max_concurrent (run_sim b p ts)"
proof (induction ts rule: rev_induct)
  case (snoc t ts)
  then show ?case
    using max_concurrent_mono [of "run_sim b p ts" b p t] by simp
qed (simp add: sim_init_def)

lemma run_sim_seen:
  "seen_instances (run_sim b p ts) =
     set (bt_keys b) \<union> rt_key ` {t \<in> set ts. rt_kind t \<noteq> Withdrawal \<and> rt_to_state t \<noteq> None}"
proof (induction ts rule: rev_induct)
  case (snoc t ts)
  then show ?case
    by (auto simp: step_fields apply_kind_def withdraw_instance_def establish_instance_def Let_def
        note_consequence_def split: option.split)
qed (simp add: sim_init_def)

lemma run_sim_withdrawn_instances:
  "withdrawn_instances (run_sim b p ts) = map rt_key (filter (\<lambda>t. rt_kind t = Withdrawal) ts)"
proof (induction ts rule: rev_induct)
  case (snoc t ts)
  then show ?case
    by (auto simp: step_fields apply_kind_def withdraw_instance_def establish_instance_def Let_def
        note_consequence_def split: option.split)
qed (simp add: sim_init_def)

section \<open>The journal of a stream\<close>

text \<open>The fields that only \<open>record_transition\<close> writes.\<close>

definition journal :: "sim \<Rightarrow> lifecycle_transition list \<times> lifecycle_transition list \<times> timestamp option" where
  "journal s = (lifecycle_transitions s, cooldown_transitions s, first_change s)"

lemma journal_frame [inim_frame]:
  "journal (track_gshut t s) = journal s"
  "journal (capture_communities t s) = journal s"
  "journal (restore_stream b t v s) = journal s"
  "journal (withdraw_instance p t s) = journal s"
  "journal (establish_instance p t s) = journal s"
  "journal (note_consequence t s) = journal s"
  "journal (track_departure p s) = journal s"
  "journal (close_step t s) = journal s"
  by (simp_all add: journal_def track_gshut_def capture_communities_def restore_stream_def
      withdraw_instance_def establish_instance_def note_consequence_def track_departure_def
      close_step_def Let_def split: option.split)

lemma journal_note_shape [inim_frame]: "journal (note_shape t sh s) = journal s"
  by (cases sh) (simp_all add: journal_def note_shape_def)

lemma journal_classify_change [inim_frame]: "journal (classify_change p t s) = journal s"
  by (simp add: classify_change_def Let_def inim_frame split: option.split)
    (simp add: journal_def note_consequence_def)

lemma journal_apply_kind [inim_frame]: "journal (apply_kind p t s) = journal s"
  by (simp add: apply_kind_def inim_frame)

lemma journal_step:
  "journal (lifecycle_step b p s t) =
     (let lct = to_lifecycle_transition p t in
      (if rt_phase t = Cooldown then lifecycle_transitions s else lifecycle_transitions s @ [lct],
       if rt_phase t = Cooldown then cooldown_transitions s @ [lct] else cooldown_transitions s,
       if rt_phase t = EventPhase \<and> first_change s = None then Some (rt_time t) else first_change s))"
proof -
  let ?s = "capture_communities t (track_gshut t s)"
  have "journal ?s = journal s" by (simp add: inim_frame)
  then have "lifecycle_transitions ?s = lifecycle_transitions s"
    "cooldown_transitions ?s = cooldown_transitions s" "first_change ?s = first_change s"
    by (simp_all add: journal_def)
  then show ?thesis
    by (simp add: lifecycle_step_def Let_def inim_frame)
      (simp add: journal_def record_transition_def Let_def)
qed

lemma run_sim_journal:
  "journal (run_sim b p ts) =
     (map (to_lifecycle_transition p) (filter (\<lambda>t. rt_phase t \<noteq> Cooldown) ts),
      map (to_lifecycle_transition p) (filter (\<lambda>t. rt_phase t = Cooldown) ts),
      map_option rt_time (find (\<lambda>t. rt_phase t = EventPhase) ts))"
proof (induction ts rule: rev_induct)
  case Nil
  show ?case by (simp add: journal_def sim_init_def)
next
  case (snoc t ts)
  then have "lifecycle_transitions (run_sim b p ts) =
        map (to_lifecycle_transition p) (filter (\<lambda>t. rt_phase t \<noteq> Cooldown) ts)"
    "cooldown_transitions (run_sim b p ts) =
        map (to_lifecycle_transition p) (filter (\<lambda>t. rt_phase t = Cooldown) ts)"
    "first_change (run_sim b p ts) = map_option rt_time (find (\<lambda>t. rt_phase t = EventPhase) ts)"
    by (simp_all add: journal_def)
  then show ?case by (simp add: journal_step Let_def find_append split: option.split)
qed

section \<open>Absences and restorations\<close>

definition gaps :: "sim \<Rightarrow> f64 list \<times> timestamp option \<times> nat \<times> stream_restoration list" where
  "gaps s = (absence_intervals s, current_absence_start s, restoration_count s, restorations s)"

lemma gaps_frame [inim_frame]:
  "gaps (track_gshut t s) = gaps s"
  "gaps (capture_communities t s) = gaps s"
  "gaps (record_transition p t s) = gaps s"
  "gaps (note_consequence t s) = gaps s"
  "gaps (track_departure p s) = gaps s"
  "gaps (close_step t s) = gaps s"
  by (simp_all add: gaps_def track_gshut_def capture_communities_def record_transition_def
      note_consequence_def track_departure_def close_step_def Let_def split: option.split)

lemma gaps_note_shape [inim_frame]: "gaps (note_shape t sh s) = gaps s"
  by (cases sh) (simp_all add: gaps_def note_shape_def)

lemma gaps_classify_change [inim_frame]: "gaps (classify_change p t s) = gaps s"
  by (simp add: classify_change_def Let_def inim_frame split: option.split)
    (simp add: gaps_def note_consequence_def)

text \<open>An absence is open exactly while a stream that was withdrawn or restored is down; every
  closed absence has a positive length; the restoration events are counted.\<close>

definition gaps_ok :: "sim \<Rightarrow> bool" where
  "gaps_ok s =
     ((current_absence_start s \<noteq> None \<longrightarrow> active s = []) \<and>
      (active s = [] \<and> (0 < stream_withdrawal_count s \<or> 0 < restoration_count s) \<longrightarrow>
         current_absence_start s \<noteq> None \<and> 0 < stream_withdrawal_count s) \<and>
      restoration_count s = length (restorations s) \<and>
      list_all (\<lambda>d. 0 < d) (absence_intervals s))"

lemma gaps_ok_cong:
  "gaps s = gaps s' \<Longrightarrow> core s = core s' \<Longrightarrow> gaps_ok s = gaps_ok s'"
  by (simp add: gaps_def core_def gaps_ok_def)

lemma gaps_ok_withdraw: "gaps_ok s \<Longrightarrow> gaps_ok (withdraw_instance p t s)"
  by (auto simp: gaps_ok_def withdraw_instance_def note_consequence_def or_else_def Let_def
      bt_remove_def split: option.splits)

lemma bt_insert_ne [simp]: "bt_insert k v m \<noteq> []"
  by (induction k v m rule: bt_insert.induct) auto

lemma gaps_ok_establish:
  "gaps_ok s \<Longrightarrow> v = (active s \<noteq> []) \<Longrightarrow> gaps_ok (restore_stream b t v (establish_instance p t s))"
  by (cases "rt_to_state t"; cases "current_absence_start s")
    (auto simp: gaps_ok_def establish_instance_def restore_stream_def Let_def)

lemma restore_stream_noop: "v \<or> active s = [] \<Longrightarrow> restore_stream b t v s = s"
  by (auto simp: restore_stream_def)

lemma gaps_ok_step:
  assumes "gaps_ok s"
  shows "gaps_ok (lifecycle_step b p s t)"
proof -
  let ?s1 = "record_transition p t (capture_communities t (track_gshut t s))"
  have 1: "gaps_ok ?s1"
    using assms by (subst gaps_ok_cong [of _ s]) (simp_all add: inim_frame)
  have "gaps_ok (restore_stream b t (active ?s1 \<noteq> []) (apply_kind p t ?s1))"
  proof (cases "rt_kind t = Withdrawal")
    case True
    then have "restore_stream b t (active ?s1 \<noteq> []) (apply_kind p t ?s1) = withdraw_instance p t ?s1"
      by (subst restore_stream_noop)
        (auto simp: apply_kind_def withdraw_instance_def note_consequence_def Let_def bt_remove_def)
    with gaps_ok_withdraw [OF 1] show ?thesis by simp
  next
    case False
    with gaps_ok_establish [OF 1 refl] show ?thesis by (simp add: apply_kind_def)
  qed
  then show ?thesis
    unfolding lifecycle_step_def Let_def
    by (subst gaps_ok_cong) (simp_all add: inim_frame)
qed

interpretation gaps_run: invariant_run "lifecycle_step b p" gaps_ok "\<lambda>_. True" for b p
  by unfold_locales (rule gaps_ok_step)

lemma run_sim_gaps_ok: "gaps_ok (run_sim b p ts)"
  by (rule gaps_run.run_inv) (simp_all add: gaps_ok_def sim_init_def)

lemma fold_min_le: "fold min ys y \<le> (y :: 'a::linorder)"
  by (induction ys arbitrary: y) (auto intro: order_trans [OF _ min.cobounded2])

lemma fold_max_ge: "(y :: 'a::linorder) \<le> fold max ys y"
  by (induction ys arbitrary: y) (auto intro: order_trans [OF max.cobounded2])

lemma fold_min_pos: "0 < (y :: f64) \<Longrightarrow> list_all (\<lambda>d. 0 < d) ys \<Longrightarrow> 0 < fold min ys y"
  by (induction ys arbitrary: y) auto

lemma step_departure:
  "active (lifecycle_step b p s t) \<noteq> [] \<Longrightarrow> \<not> any_matching p (active (lifecycle_step b p s t)) \<Longrightarrow>
   DepartedTransitPath \<in> seen_categories (lifecycle_step b p s t)"
  by (auto simp: lifecycle_step_def Let_def close_step_def track_departure_def split: if_splits)

section \<open>Properties of a finished lifecycle\<close>

text \<open>C5: A stream is categorised as withdrawn exactly when it lost its last route instance: some
  withdrawal in its timeline left no instance up, where the instances that are up are tracked
  as the plain set of keys (the baseline's, plus announced, minus withdrawn). The number of
  stream withdrawals is the number of such positions. Losing one instance of several never
  withdraws the stream.\<close>

theorem withdrawn_iff_final_instance_lost:
  assumes "bt_ok baseline"
  shows "let l = build_one_lifecycle opk baseline ts ce pred; K = set (bt_keys baseline) in
    (sl_category l = Withdrawn \<longleftrightarrow>
       (\<exists>us t vs. ts = us @ t # vs \<and> rt_kind t = Withdrawal \<and> alive K (us @ [t]) = {})) \<and>
    (sl_was_withdrawn l \<longleftrightarrow> sl_category l = Withdrawn) \<and>
    sl_stream_withdrawal_count l = absences_of K ts"
proof -
  let ?K = "set (bt_keys baseline)"
  let ?A = "{i. i < length ts \<and> rt_kind (ts ! i) = Withdrawal \<and> alive ?K (take (Suc i) ts) = {}}"
  have "0 < absences_of ?K ts \<longleftrightarrow> (\<exists>i. i \<in> ?A)"
    unfolding absences_of_def using card_gt_0_iff [of ?A] by auto
  also have "\<dots> \<longleftrightarrow> (\<exists>us t vs. ts = us @ t # vs \<and> rt_kind t = Withdrawal \<and> alive ?K (us @ [t]) = {})"
  proof
    assume "\<exists>i. i \<in> ?A"
    then obtain i where i: "i < length ts" "rt_kind (ts ! i) = Withdrawal"
      "alive ?K (take (Suc i) ts) = {}" by blast
    then show "\<exists>us t vs. ts = us @ t # vs \<and> rt_kind t = Withdrawal \<and> alive ?K (us @ [t]) = {}"
      by (metis id_take_nth_drop take_Suc_conv_app_nth)
  next
    assume "\<exists>us t vs. ts = us @ t # vs \<and> rt_kind t = Withdrawal \<and> alive ?K (us @ [t]) = {}"
    then obtain us t vs where "ts = us @ t # vs" "rt_kind t = Withdrawal" "alive ?K (us @ [t]) = {}"
      by blast
    then have "length us \<in> ?A" by simp
    then show "\<exists>i. i \<in> ?A" by blast
  qed
  finally show ?thesis
    using run_sim_withdrawal_count [OF assms, of pred ts]
    by (auto simp: build_one_lifecycle_def Let_def stream_category_of_def)
qed

text \<open>C12: The instance counters of a lifecycle are consistent: baseline count \<open>\<le>\<close> peak of
  concurrent instances \<open>\<le>\<close> distinct instances seen; the distinct instances are the baseline's
  and the announced ones; the withdrawn instances are the keys of the withdrawals in order.\<close>

theorem lifecycle_instance_counts:
  assumes "bt_ok baseline"
  shows "let l = build_one_lifecycle opk baseline ts ce pred in
    sl_baseline_instance_count l \<le> sl_max_concurrent_instances l \<and>
    sl_max_concurrent_instances l \<le> sl_total_route_instances l \<and>
    sl_total_route_instances l = card (set (bt_keys baseline) \<union>
      rt_key ` {t \<in> set ts. rt_kind t \<noteq> Withdrawal \<and> rt_to_state t \<noteq> None}) \<and>
    sl_withdrawn_instances l = map rt_key (filter (\<lambda>t. rt_kind t = Withdrawal) ts)"
  using run_sim_sim_ok [OF assms, of pred ts] run_sim_max_concurrent [of baseline pred ts]
  by (simp add: build_one_lifecycle_def Let_def sim_ok_def run_sim_seen run_sim_withdrawn_instances)

text \<open>The number of instances recorded as active before a stream's absence carries no
  information: it is one for every withdrawn stream, whatever was up before, and zero for
  every other.\<close>

theorem active_before_absence_is_one:
  assumes "bt_ok baseline"
  shows "sl_active_before_absence (build_one_lifecycle opk baseline ts ce pred) =
    (if sl_was_withdrawn (build_one_lifecycle opk baseline ts ce pred) then 1 else 0)"
  using run_sim_sim_ok [OF assms, of pred ts]
  by (simp add: build_one_lifecycle_def Let_def sim_ok_def)

text \<open>The record keeps every transition of the stream, in order: the event-side journal and
  the cooldown journal are the translations of the transitions outside and inside the cooldown
  phase, and the first change is the time of the first event-phase transition.\<close>

theorem lifecycle_journal_complete:
  "let l = build_one_lifecycle opk baseline ts ce pred in
   sl_transitions l = map (to_lifecycle_transition pred) (filter (\<lambda>t. rt_phase t \<noteq> Cooldown) ts) \<and>
   sl_cooldown_transitions l =
     map (to_lifecycle_transition pred) (filter (\<lambda>t. rt_phase t = Cooldown) ts) \<and>
   sl_first_change l = map_option rt_time (find (\<lambda>t. rt_phase t = EventPhase) ts)"
  using run_sim_journal [of baseline pred ts]
  by (simp add: build_one_lifecycle_def Let_def journal_def)

text \<open>The not-restored flag describes the end of the window. It is set exactly when the stream
  had transitions and ended either down after a withdrawal or up with no instance that
  satisfies the predicate; the restored flag needs a restoration event and excludes it, and a
  stream flagged restored is up at the end.\<close>

theorem lifecycle_end_state_flags:
  assumes "bt_ok baseline"
  shows "let l = build_one_lifecycle opk baseline ts ce pred; f = sl_flags l;
      up = alive (set (bt_keys baseline)) ts in
    (fl_not_restored f \<longleftrightarrow> ts \<noteq> [] \<and>
       (if up = {} then sl_was_withdrawn l
        else \<not> any_matching pred (active (run_sim baseline pred ts)))) \<and>
    (fl_restored f \<longleftrightarrow> sl_restorations l \<noteq> [] \<and> \<not> fl_not_restored f) \<and>
    (fl_restored f \<longrightarrow> up \<noteq> {})"
proof -
  let ?s = "run_sim baseline pred ts"
  have up: "alive (set (bt_keys baseline)) ts = {} \<longleftrightarrow> active ?s = []"
    using run_sim_alive [OF assms, of pred ts] by (simp add: active_empty_iff)
  have dep: "ts \<noteq> [] \<Longrightarrow> active ?s \<noteq> [] \<Longrightarrow> \<not> any_matching pred (active ?s) \<Longrightarrow>
      DepartedTransitPath \<in> seen_categories ?s"
    by (cases ts rule: rev_cases) (auto intro: step_departure)
  have nil: "ts = [] \<Longrightarrow> seen_categories ?s = {} \<and> stream_withdrawal_count ?s = 0"
    by (simp add: sim_init_def)
  have nr: "not_restored_of pred ?s \<longleftrightarrow> ts \<noteq> [] \<and>
      (if active ?s = [] then 0 < stream_withdrawal_count ?s else \<not> any_matching pred (active ?s))"
    using dep nil by (auto simp: not_restored_of_def Let_def)
  have g: "restoration_count ?s = length (restorations ?s)"
    "active ?s = [] \<Longrightarrow> restorations ?s \<noteq> [] \<Longrightarrow> 0 < stream_withdrawal_count ?s"
    using run_sim_gaps_ok [of baseline pred ts] by (simp_all add: gaps_ok_def)
  have "ts = [] \<Longrightarrow> restorations ?s = []" by (simp add: sim_init_def)
  then have "restorations ?s \<noteq> [] \<Longrightarrow> \<not> not_restored_of pred ?s \<Longrightarrow> active ?s \<noteq> []"
    using g(2) nr by auto
  then show ?thesis
    unfolding build_one_lifecycle_def Let_def up by (simp add: nr [symmetric] g(1)) (simp add: nr)
qed

text \<open>Recorded absences are real intervals: the shortest and the longest absence are both
  missing or both present, positive and in order.\<close>

theorem lifecycle_absences_positive:
  "let l = build_one_lifecycle opk baseline ts ce pred in
   case (sl_min_absence_secs l, sl_max_absence_secs l) of
     (None, None) \<Rightarrow> True
   | (Some a, Some b) \<Rightarrow> 0 < a \<and> a \<le> b
   | _ \<Rightarrow> False"
proof -
  let ?xs = "closed_absences ce (run_sim baseline pred ts)"
  have pos: "list_all (\<lambda>d. 0 < d) ?xs"
    using run_sim_gaps_ok [of baseline pred ts]
    by (auto simp: closed_absences_def gaps_ok_def Let_def split: option.split)
  show ?thesis
  proof (cases ?xs)
    case (Cons y ys)
    with pos fold_min_pos [of y ys] fold_min_le [of ys y] fold_max_ge [of y ys] show ?thesis
      by (auto simp: build_one_lifecycle_def Let_def opt_min_def opt_max_def intro: order_trans)
  qed (simp add: build_one_lifecycle_def Let_def opt_min_def opt_max_def)
qed

end
