(* ===== verification/Stream_Lifecycles.thy ===== *)
theory Stream_Lifecycles
  imports Lifecycle_Facts
begin

text \<open>
  The lifecycles of a whole cohort (\<open>build_lifecycles\<close>): one record per stream, in a
  deterministic order whatever order the hash map is visited in; concrete streams on which the
  definitions are evaluated.
\<close>

section \<open>Concrete streams\<close>

definition sample_key :: "u32 option \<Rightarrow> route_key" where
  "sample_key pid = RouteKey ''rv2'' (V4 1) ''192.0.2.0/24'' pid"

definition sample_state :: "u32 list \<Rightarrow> u32 option \<Rightarrow> route_state" where
  "sample_state path pid =
     \<lparr>rs_prefix = ''192.0.2.0/24'', rs_attributes = from_as_path path, rs_timestamp = 0,
      rs_observer = ''rv2:0.0.0.1'', rs_path_id = pid\<rparr>"

definition sample_evidence :: "timestamp \<Rightarrow> evidence_ref" where
  "sample_evidence ts = (synthetic_evidence 1 ''u'' ''s'')\<lparr>ev_timestamp := ts\<rparr>"

definition sample_withdrawal :: "u32 option \<Rightarrow> u32 list \<Rightarrow> timestamp \<Rightarrow> route_transition" where
  "sample_withdrawal pid path ts =
     \<lparr>rt_key = sample_key pid, rt_event_baseline = None,
      rt_from = Some (present (sample_state path pid) (sample_evidence ts)),
      rt_to = absent (sample_evidence ts), rt_kind = Withdrawal, rt_effects = default_effects,
      rt_triggering = sample_evidence ts, rt_phase = EventPhase\<rparr>"

definition sample_announcement :: "u32 option \<Rightarrow> u32 list \<Rightarrow> timestamp \<Rightarrow> route_transition" where
  "sample_announcement pid path ts =
     \<lparr>rt_key = sample_key pid, rt_event_baseline = None, rt_from = None,
      rt_to = present ((sample_state path pid)\<lparr>rs_timestamp := ts\<rparr>) (sample_evidence ts),
      rt_kind = Announcement, rt_effects = default_effects,
      rt_triggering = sample_evidence ts, rt_phase = EventPhase\<rparr>"

definition sample_baseline :: "(route_key, route_state) btree" where
  "sample_baseline =
     [(sample_key (Some 1), sample_state [6447, 11537, 1101] (Some 1)),
      (sample_key (Some 2), sample_state [6447, 237, 1101] (Some 2))]"

definition sample_stream :: observer_prefix_key where
  "sample_stream = ObserverPrefixKey ''rv2'' (V4 1) ''192.0.2.0/24''"

lemmas sample_defs = sample_key_def sample_state_def sample_evidence_def sample_withdrawal_def
  sample_announcement_def sample_baseline_def sample_stream_def synthetic_evidence_def

lemma sample_baseline_ok: "bt_ok sample_baseline"
  by (simp add: bt_ok_def sample_defs less_route_key_def)

lemma sample_keys: "set (bt_keys sample_baseline) = {sample_key (Some 1), sample_key (Some 2)}"
  by (simp add: bt_keys_def sample_baseline_def)

text \<open>One of two instances is lost: the stream is not withdrawn.\<close>

theorem withdrawn_iff_witness:
  "bt_ok sample_baseline \<and>
   (let l = build_one_lifecycle sample_stream sample_baseline
        [sample_withdrawal (Some 1) [6447, 11537, 1101] 5] 100 (ContainsAny [11537]) in
    sl_category l \<noteq> Withdrawn \<and> sl_stream_withdrawal_count l = 0) \<and>
   (let l = build_one_lifecycle sample_stream sample_baseline
        [sample_withdrawal (Some 1) [6447, 11537, 1101] 5,
         sample_withdrawal (Some 2) [6447, 237, 1101] 6] 100 (ContainsAny [11537]) in
    sl_category l = Withdrawn)"
proof -
  note ok = sample_baseline_ok
  let ?w1 = "sample_withdrawal (Some 1) [6447, 11537, 1101] 5"
  let ?w2 = "sample_withdrawal (Some 2) [6447, 237, 1101] 6"
  let ?K = "{sample_key (Some 1), sample_key (Some 2)}"
  have ne: "sample_key (Some 1) \<noteq> sample_key (Some 2)" by (simp add: sample_key_def)
  have k: "rt_kind ?w1 = Withdrawal" "rt_kind ?w2 = Withdrawal"
    "rt_key ?w1 = sample_key (Some 1)" "rt_key ?w2 = sample_key (Some 2)"
    by (simp_all add: sample_withdrawal_def)
  have a1: "alive ?K [?w1] = {sample_key (Some 2)}" and a2: "alive ?K [?w1, ?w2] = {}"
    using ne by (auto simp: alive_def alive_step_def instance_effect_def k)
  have c1: "absences_of ?K [?w1] = 0" and c2: "absences_of ?K [?w1, ?w2] = 1"
    using absences_of_snoc [of ?K "[]" ?w1] absences_of_snoc [of ?K "[?w1]" ?w2] a1 a2
    by (simp_all add: k absences_of_def [of _ "[]"])
  show ?thesis
    using withdrawn_iff_final_instance_lost [OF ok, of sample_stream "[?w1]" 100 "ContainsAny [11537]"]
      withdrawn_iff_final_instance_lost [OF ok, of sample_stream "[?w1, ?w2]" 100 "ContainsAny [11537]"]
      ok c1 c2
    by (simp add: Let_def sample_keys build_one_lifecycle_def stream_category_of_def)
qed

theorem lifecycle_instance_counts_witness:
  "bt_ok sample_baseline \<and>
   (let l = build_one_lifecycle sample_stream sample_baseline
        [sample_announcement (Some 3) [6447, 1101] 5] 100 (ContainsAny [11537]) in
    2 \<le> sl_max_concurrent_instances l \<and> sl_max_concurrent_instances l \<le> 3)"
proof -
  let ?a = "sample_announcement (Some 3) [6447, 1101] 5"
  have "set (bt_keys sample_baseline) \<union>
      rt_key ` {t \<in> set [?a]. rt_kind t \<noteq> Withdrawal \<and> rt_to_state t \<noteq> None} \<subseteq>
      {sample_key (Some 1), sample_key (Some 2), sample_key (Some 3)}"
    by (auto simp: sample_keys sample_announcement_def)
  from card_mono [OF _ this] have "card (set (bt_keys sample_baseline) \<union>
      rt_key ` {t \<in> set [?a]. rt_kind t \<noteq> Withdrawal \<and> rt_to_state t \<noteq> None}) \<le> 3"
    by (simp add: sample_key_def)
  then show ?thesis
    using sample_baseline_ok
      lifecycle_instance_counts [OF sample_baseline_ok, of sample_stream "[?a]" 100 "ContainsAny [11537]"]
    by (auto simp: Let_def build_one_lifecycle_def sample_baseline_def)
qed

theorem active_before_absence_witness:
  "bt_ok sample_baseline \<and>
   (let l = build_one_lifecycle sample_stream sample_baseline
        [sample_withdrawal (Some 1) [6447, 11537, 1101] 5,
         sample_withdrawal (Some 2) [6447, 237, 1101] 6] 100 (ContainsAny [11537]) in
    sl_active_before_absence l = (if sl_was_withdrawn l then 1 else 0))"
  using sample_baseline_ok
    active_before_absence_is_one [OF sample_baseline_ok, of sample_stream
      "[sample_withdrawal (Some 1) [6447, 11537, 1101] 5, sample_withdrawal (Some 2) [6447, 237, 1101] 6]"
      100 "ContainsAny [11537]"]
  by (simp add: Let_def)

theorem lifecycle_end_state_witness:
  "bt_ok sample_baseline \<and>
   \<not> fl_not_restored (sl_flags (build_one_lifecycle sample_stream sample_baseline [] 100
        (ContainsAny [11537])))"
  using sample_baseline_ok
    lifecycle_end_state_flags [OF sample_baseline_ok, of sample_stream "[]" 100 "ContainsAny [11537]"]
  by (simp add: Let_def)

section \<open>All streams\<close>

definition opk_text :: "observer_prefix_key \<Rightarrow> string \<times> string \<times> string" where
  "opk_text opk = (opk_collector opk, ip_to_string (opk_peer_ip opk), opk_prefix opk)"

lemma lifecycle_order_one [simp]:
  "lifecycle_order (build_one_lifecycle opk b ts ce p) = opk_text opk"
  by (simp add: lifecycle_order_def build_one_lifecycle_def Let_def opk_text_def)

text \<open>A visiting order of the transition map: its keys, each once.\<close>

definition visits :: "observer_prefix_key list \<Rightarrow> route_transition list \<Rightarrow> bool" where
  "visits visit transitions = (distinct visit \<and> set visit = rt_stream ` set transitions)"

lemma mset_set_streams:
  assumes "visits visit ts" "distinct ks"
  shows "mset ks + mset (filter (\<lambda>k. k \<notin> set ks) visit) = mset_set (set ks \<union> rt_stream ` set ts)"
proof -
  have "mset ks + mset (filter (\<lambda>k. k \<notin> set ks) visit) =
      mset (ks @ filter (\<lambda>k. k \<notin> set ks) visit)" by simp
  also have "\<dots> = mset_set (set (ks @ filter (\<lambda>k. k \<notin> set ks) visit))"
    using assms by (intro mset_set_set [symmetric]) (auto simp: visits_def)
  also have "set (ks @ filter (\<lambda>k. k \<notin> set ks) visit) = set ks \<union> rt_stream ` set ts"
    using assms by (auto simp: visits_def)
  finally show ?thesis .
qed

text \<open>C15: The builder yields exactly one lifecycle for every observer-prefix stream that is in
  the cohort or has a transition, sorted by collector, peer and prefix.\<close>

theorem build_lifecycles_one_per_stream:
  assumes "visits visit ts" and "cohort_ok cohort"
  shows "let ls = build_lifecycles visit ts cohort ce pred in
    sorted (map lifecycle_order ls) \<and>
    mset (map lifecycle_order ls) =
      image_mset opk_text (mset_set (set (fc_observer_prefixes cohort) \<union> rt_stream ` set ts))"
proof -
  have "distinct (fc_observer_prefixes cohort)"
    using assms(2) by (simp add: cohort_ok_def strict_sorted_iff)
  note m = mset_set_streams [OF assms(1) this]
  show ?thesis
    by (simp add: build_lifecycles_def Let_def m [symmetric] multiset.map_comp o_def)
qed

text \<open>The output of the builder does not depend on the order in which the hash map of
  transitions is visited, as long as no two streams share their printed identity.\<close>

theorem build_lifecycles_deterministic:
  assumes "visits visit ts" and "visits visit' ts"
    and "inj_on opk_text (set (fc_observer_prefixes cohort) \<union> rt_stream ` set ts)"
    and "cohort_ok cohort"
  shows "build_lifecycles visit ts cohort ce pred = build_lifecycles visit' ts cohort ce pred"
proof -
  let ?adm = "map (\<lambda>opk. build_one_lifecycle opk
      (case bt_get (fc_baseline_instances cohort) opk of None \<Rightarrow> [] | Some m \<Rightarrow> m)
      (stream_transitions ts opk) ce pred) (fc_observer_prefixes cohort)"
  let ?oth = "\<lambda>v. map (\<lambda>opk. build_one_lifecycle opk [] (stream_transitions ts opk) ce pred)
      (filter (\<lambda>opk. opk \<notin> set (fc_observer_prefixes cohort)) v)"
  have "mset visit = mset visit'"
    using assms(1,2) by (simp add: visits_def set_eq_iff_mset_eq_distinct [symmetric])
  then have "mset (?adm @ ?oth visit) = mset (?adm @ ?oth visit')"
    by (simp add: mset_filter)
  moreover have "inj_on lifecycle_order (set (?adm @ ?oth visit))"
    using assms(1,3) by (fastforce simp: inj_on_def visits_def)
  ultimately show ?thesis
    unfolding build_lifecycles_def Let_def
    by (intro sort_key_inj_key_eq) (simp_all del: mset_append mset_map)
qed

definition sample_transitions :: "route_transition list" where
  "sample_transitions = [sample_withdrawal (Some 1) [6447, 11537, 1101] 5,
     (sample_withdrawal None [6447, 237] 6)\<lparr>rt_key := RouteKey ''rv6'' (V4 9) ''198.51.100.0/24'' None\<rparr>]"

definition sample_other_stream :: observer_prefix_key where
  "sample_other_stream = ObserverPrefixKey ''rv6'' (V4 9) ''198.51.100.0/24''"

lemma sample_streams: "map rt_stream sample_transitions = [sample_stream, sample_other_stream]"
  by (simp add: sample_transitions_def sample_other_stream_def sample_defs rt_stream_def
      observer_prefix_key_def)

lemma sample_visits:
  "visits [sample_stream, sample_other_stream] sample_transitions"
  "visits [sample_other_stream, sample_stream] sample_transitions"
proof -
  have "rt_stream ` set sample_transitions = {sample_stream, sample_other_stream}"
    using arg_cong [OF sample_streams, of set] by simp
  moreover have "sample_stream \<noteq> sample_other_stream"
    by (simp add: sample_stream_def sample_other_stream_def)
  ultimately show "visits [sample_stream, sample_other_stream] sample_transitions"
    "visits [sample_other_stream, sample_stream] sample_transitions"
    by (auto simp: visits_def)
qed

theorem build_lifecycles_one_per_stream_witness:
  "visits [sample_stream, sample_other_stream] sample_transitions \<and> cohort_ok cohort_default \<and>
   sorted (map lifecycle_order (build_lifecycles [sample_stream, sample_other_stream]
     sample_transitions cohort_default 100 (ContainsAny [11537])))"
  using sample_visits(1) cohort_ok_default
    build_lifecycles_one_per_stream [OF sample_visits(1) cohort_ok_default, of 100 "ContainsAny [11537]",
      unfolded Let_def, THEN conjunct1]
  by (intro conjI)

theorem build_lifecycles_deterministic_witness:
  "build_lifecycles [sample_stream, sample_other_stream] sample_transitions cohort_default 100
     (ContainsAny [11537]) =
   build_lifecycles [sample_other_stream, sample_stream] sample_transitions cohort_default 100
     (ContainsAny [11537])"
proof -
  have "set (fc_observer_prefixes cohort_default) \<union> rt_stream ` set sample_transitions =
      {sample_stream, sample_other_stream}"
    using arg_cong [OF sample_streams, of set] by (simp add: cohort_default_def)
  moreover have "opk_text sample_stream \<noteq> opk_text sample_other_stream"
    by (simp add: opk_text_def sample_stream_def sample_other_stream_def)
  ultimately have "inj_on opk_text
      (set (fc_observer_prefixes cohort_default) \<union> rt_stream ` set sample_transitions)"
    by (auto simp: inj_on_def)
  from build_lifecycles_deterministic [OF sample_visits this cohort_ok_default] show ?thesis .
qed

end
