(* ===== verification/Withdrawal_Audit.thy ===== *)
theory Withdrawal_Audit
  imports Stream_Lifecycles
begin

text \<open>
  The withdrawal audit of \<open>src/src/lifecycle.rs\<close>: one row per withdrawn stream and the summary
  statistics over the rows.
\<close>

record withdrawal_record =
  wr_collector :: string
  wr_peer_ip :: string
  wr_prefix :: string
  wr_baseline_path :: "u32 list"
  wr_baseline_instances :: nat
  wr_active_before_absence :: nat
  wr_final_withdrawal_time :: timestamp
  wr_restoration_time :: "timestamp option"
  wr_absence_duration_secs :: "f64 option"
  wr_transit_at_withdrawal :: "bool option"
  wr_exact_restoration :: bool
  wr_equivalent_restoration :: bool
  wr_observer_prefix_restoration :: bool
  wr_baseline_set_restoration :: bool
  wr_observation_ids :: "u64 list"
  wr_archive_checksums :: "string list"

record withdrawal_audit_summary =
  ws_unique_withdrawn_streams :: nat
  ws_route_instance_withdrawals :: nat
  ws_affected_prefixes :: nat
  ws_affected_peers :: nat
  ws_median_absence_secs :: "f64 option"
  ws_max_absence_secs :: "f64 option"
  ws_restored_count :: nat
  ws_unresolved_count :: nat
  ws_exact_restorations :: nat
  ws_equivalent_restorations :: nat
  ws_observer_prefix_restorations :: nat
  ws_baseline_set_restorations :: nat

definition audited_kind :: "string \<Rightarrow> bool" where
  "audited_kind k = (k = ''Withdrawal'' \<or> k = ''Restoration'' \<or> k = ''ReturnToBaseline'')"

definition first_restoration_is :: "(stream_restoration \<Rightarrow> bool) \<Rightarrow> stream_lifecycle \<Rightarrow> bool" where
  "first_restoration_is f lc = (case sl_restorations lc of [] \<Rightarrow> False | r # _ \<Rightarrow> f r)"

definition audit_row :: "stream_lifecycle \<Rightarrow> timestamp \<Rightarrow> withdrawal_record" where
  "audit_row lc withdrawal_time =
     (let audited = filter (\<lambda>t. audited_kind (lt_kind t)) (sl_transitions lc) in
      \<lparr>wr_collector = sl_collector lc, wr_peer_ip = sl_peer_ip lc, wr_prefix = sl_prefix lc,
       wr_baseline_path = sl_baseline_path lc,
       wr_baseline_instances = sl_baseline_instance_count lc,
       wr_active_before_absence = sl_active_before_absence lc,
       wr_final_withdrawal_time = withdrawal_time,
       wr_restoration_time = sl_restoration_time lc,
       wr_absence_duration_secs =
         map_option (\<lambda>r. max 0 (of_int (num_seconds (r - withdrawal_time)))) (sl_restoration_time lc),
       wr_transit_at_withdrawal = sl_transit_at_withdrawal lc,
       wr_exact_restoration = first_restoration_is sr_exact_instance lc,
       wr_equivalent_restoration = first_restoration_is sr_equivalent_route lc,
       wr_observer_prefix_restoration = first_restoration_is sr_observer_prefix lc,
       wr_baseline_set_restoration = first_restoration_is sr_baseline_set lc,
       wr_observation_ids = map lt_observation_id audited,
       wr_archive_checksums = foldl (\<lambda>acc t. push_identity acc (lt_archive_sha256 t)) [] audited\<rparr>)"

definition audit_one :: "stream_lifecycle \<Rightarrow> withdrawal_record list" where
  "audit_one lc =
     (if \<not> sl_was_withdrawn lc then []
      else case (case sl_stream_withdrawal_time lc of None \<Rightarrow> sl_first_change lc | Some w \<Rightarrow> Some w) of
             None \<Rightarrow> []
           | Some withdrawal_time \<Rightarrow> [audit_row lc withdrawal_time])"

definition withdrawal_audit :: "stream_lifecycle list \<Rightarrow> withdrawal_record list" where
  "withdrawal_audit lifecycles = concat (map audit_one lifecycles)"

definition median :: "f64 list \<Rightarrow> f64 option" where
  "median absences =
     (let n = length absences in
      if absences = [] then None
      else if n mod 2 = 1 then Some (absences ! (n div 2))
      else Some ((absences ! (n div 2 - 1) + absences ! (n div 2)) / 2))"

definition count_rows :: "(withdrawal_record \<Rightarrow> bool) \<Rightarrow> withdrawal_record list \<Rightarrow> nat" where
  "count_rows p records = length (filter p records)"

definition summary_from_records :: "withdrawal_record list \<Rightarrow> withdrawal_audit_summary" where
  "summary_from_records records =
     (let absences = sort (List.map_filter wr_absence_duration_secs records) in
      \<lparr>ws_unique_withdrawn_streams = length records,
       ws_route_instance_withdrawals =
         foldl (\<lambda>n r. n + max (wr_active_before_absence r) 1) 0 records,
       ws_affected_prefixes = card (set (map wr_prefix records)),
       ws_affected_peers = card (set (map wr_peer_ip records)),
       ws_median_absence_secs = median absences,
       ws_max_absence_secs = (if absences = [] then None else Some (last absences)),
       ws_restored_count = count_rows (\<lambda>r. wr_restoration_time r \<noteq> None) records,
       ws_unresolved_count = count_rows (\<lambda>r. wr_restoration_time r = None) records,
       ws_exact_restorations = count_rows wr_exact_restoration records,
       ws_equivalent_restorations = count_rows wr_equivalent_restoration records,
       ws_observer_prefix_restorations = count_rows wr_observer_prefix_restoration records,
       ws_baseline_set_restorations = count_rows wr_baseline_set_restoration records\<rparr>)"

section \<open>Rows\<close>

text \<open>A withdrawn stream has a withdrawal time, so the audit never drops one.\<close>

definition stamped :: "sim \<Rightarrow> nat \<times> timestamp option" where
  "stamped s = (stream_withdrawal_count s, stream_withdrawal_time s)"

lemma stamped_frame [inim_frame]:
  "stamped (track_gshut t s) = stamped s"
  "stamped (capture_communities t s) = stamped s"
  "stamped (record_transition p t s) = stamped s"
  "stamped (restore_stream b t v s) = stamped s"
  "stamped (establish_instance p t s) = stamped s"
  "stamped (note_consequence t s) = stamped s"
  "stamped (track_departure p s) = stamped s"
  "stamped (close_step t s) = stamped s"
  by (simp_all add: stamped_def track_gshut_def capture_communities_def record_transition_def
      restore_stream_def establish_instance_def note_consequence_def track_departure_def
      close_step_def Let_def split: option.split)

lemma stamped_note_shape [inim_frame]: "stamped (note_shape t sh s) = stamped s"
  by (cases sh) (simp_all add: stamped_def note_shape_def)

lemma stamped_classify_change [inim_frame]: "stamped (classify_change p t s) = stamped s"
  by (simp add: classify_change_def Let_def inim_frame split: option.split)
    (simp add: stamped_def note_consequence_def)

definition stamped_ok :: "sim \<Rightarrow> bool" where
  "stamped_ok s = (case stamped s of (n, w) \<Rightarrow> 0 < n \<longrightarrow> w \<noteq> None)"

lemma stamped_withdraw_instance:
  "stamped (withdraw_instance p t s) = stamped s \<or>
   stamped (withdraw_instance p t s) = (Suc (fst (stamped s)), Some (rt_time t))"
  by (simp add: stamped_def withdraw_instance_def Let_def note_consequence_def)

lemma stamped_apply_kind:
  "stamped (apply_kind p t s) = stamped s \<or>
   stamped (apply_kind p t s) = (Suc (fst (stamped s)), Some (rt_time t))"
  using stamped_withdraw_instance [of p t s] by (simp add: apply_kind_def inim_frame)

lemma stamped_ok_step: "stamped_ok s \<Longrightarrow> stamped_ok (lifecycle_step b p s t)"
  using stamped_apply_kind [of p t "record_transition p t (capture_communities t (track_gshut t s))"]
  by (auto simp: stamped_ok_def lifecycle_step_def Let_def inim_frame split: prod.splits)

interpretation stamped_run: invariant_run "lifecycle_step b p" stamped_ok "\<lambda>_. True" for b p
  by unfold_locales (rule stamped_ok_step)

lemma lifecycle_withdrawal_time:
  assumes "sl_was_withdrawn (build_one_lifecycle opk b ts ce p)"
  shows "sl_stream_withdrawal_time (build_one_lifecycle opk b ts ce p) \<noteq> None"
proof -
  have "stamped_ok (run_sim b p ts)"
    by (rule stamped_run.run_inv) (simp_all add: stamped_ok_def stamped_def sim_init_def)
  with assms show ?thesis
    by (simp add: stamped_ok_def stamped_def build_one_lifecycle_def Let_def)
qed

text \<open>The lifecycles the builder makes.\<close>

definition built :: "stream_lifecycle \<Rightarrow> bool" where
  "built l = (\<exists>opk b ts ce p. bt_ok b \<and> l = build_one_lifecycle opk b ts ce p)"

lemma audit_one_built:
  "built l \<Longrightarrow> sl_was_withdrawn l \<Longrightarrow>
   \<exists>w. audit_one l = [audit_row l w] \<and> sl_stream_withdrawal_time l = Some w"
  using lifecycle_withdrawal_time by (fastforce simp: built_def audit_one_def)

lemma audit_one_not_withdrawn: "\<not> sl_was_withdrawn l \<Longrightarrow> audit_one l = []"
  by (simp add: audit_one_def)

lemma audit_row_active: "wr_active_before_absence (audit_row l w) = sl_active_before_absence l"
  by (simp add: audit_row_def Let_def)

lemma built_active:
  assumes "built l" "sl_was_withdrawn l"
  shows "sl_active_before_absence l = 1"
proof -
  from assms(1) obtain opk b ts ce p where l: "bt_ok b" "l = build_one_lifecycle opk b ts ce p"
    by (auto simp: built_def)
  with assms(2) run_sim_sim_ok [of b p ts] show ?thesis
    by (simp add: build_one_lifecycle_def Let_def sim_ok_def split: if_splits)
qed

lemma audit_rows:
  assumes "list_all built ls"
  shows "length (withdrawal_audit ls) = length (filter sl_was_withdrawn ls)"
    and "list_all (\<lambda>r. wr_active_before_absence r = 1) (withdrawal_audit ls)"
  using assms
proof (induction ls)
  case (Cons l ls)
  case 1
  then show ?case
    using Cons.IH(1) audit_one_built [of l] by (auto simp: withdrawal_audit_def audit_one_not_withdrawn)
next
  case (Cons l ls)
  case 2
  then show ?case
    using Cons.IH(2) audit_one_built [of l] built_active [of l]
    by (cases "sl_was_withdrawn l")
      (auto simp: withdrawal_audit_def audit_one_not_withdrawn audit_row_active)
qed (simp_all add: withdrawal_audit_def)

lemma foldl_count:
  "list_all (\<lambda>r. f r = 1) rs \<Longrightarrow> foldl (\<lambda>n r. n + max (f r) 1) (k :: nat) rs = k + length rs"
  by (induction rs arbitrary: k) auto

lemma count_rows_compl: "count_rows p rs + count_rows (\<lambda>r. \<not> p r) rs = length rs"
  unfolding count_rows_def by (rule sum_length_filter_compl)

section \<open>Properties\<close>

text \<open>The audit has exactly one row per withdrawn stream, and its summary splits them into
  restored and unresolved.\<close>

theorem withdrawal_audit_one_row_per_stream:
  assumes "list_all built ls"
  shows "let s = summary_from_records (withdrawal_audit ls) in
    ws_unique_withdrawn_streams s = length (filter sl_was_withdrawn ls) \<and>
    ws_restored_count s + ws_unresolved_count s = ws_unique_withdrawn_streams s"
  using audit_rows(1) [OF assms] count_rows_compl [of "\<lambda>r. wr_restoration_time r \<noteq> None" "withdrawal_audit ls"]
  by (simp add: summary_from_records_def Let_def)

text \<open>The summary's count of route-instance withdrawals, documented as all instance losses
  including the non-final ones, is always the number of withdrawn streams: however many
  instances a stream lost, it contributes one.\<close>

theorem instance_withdrawals_equal_streams:
  assumes "list_all built ls"
  shows "let s = summary_from_records (withdrawal_audit ls) in
    ws_route_instance_withdrawals s = ws_unique_withdrawn_streams s"
  using foldl_count [OF audit_rows(2) [OF assms], of 0]
  by (simp add: summary_from_records_def Let_def)

section \<open>Concrete audits\<close>

definition lost_stream :: stream_lifecycle where
  "lost_stream = build_one_lifecycle sample_stream sample_baseline
     [sample_withdrawal (Some 1) [6447, 11537, 1101] 5,
      sample_withdrawal (Some 2) [6447, 237, 1101] 6] 100 (ContainsAny [11537])"

lemma lost_stream_built: "list_all built [lost_stream]"
proof -
  have "built lost_stream" using sample_baseline_ok unfolding built_def lost_stream_def by blast
  then show ?thesis by simp
qed

theorem withdrawal_audit_one_row_witness:
  "list_all built [lost_stream] \<and>
   ws_unique_withdrawn_streams (summary_from_records (withdrawal_audit [lost_stream])) =
     length (filter sl_was_withdrawn [lost_stream])"
  using lost_stream_built withdrawal_audit_one_row_per_stream [OF lost_stream_built, unfolded Let_def]
  by blast

theorem instance_withdrawals_equal_streams_witness:
  "list_all built [lost_stream] \<and>
   ws_route_instance_withdrawals (summary_from_records (withdrawal_audit [lost_stream])) =
   ws_unique_withdrawn_streams (summary_from_records (withdrawal_audit [lost_stream]))"
  using lost_stream_built instance_withdrawals_equal_streams [OF lost_stream_built, unfolded Let_def]
  by blast

section \<open>What the audit calls restored\<close>

lemma restoration_time_frame [inim_frame]:
  "restoration_time (track_gshut t s) = restoration_time s"
  "restoration_time (capture_communities t s) = restoration_time s"
  "restoration_time (record_transition p t s) = restoration_time s"
  "restoration_time (withdraw_instance p t s) = restoration_time s"
  "restoration_time (establish_instance p t s) = restoration_time s"
  "restoration_time (note_consequence t s) = restoration_time s"
  "restoration_time (track_departure p s) = restoration_time s"
  "restoration_time (close_step t s) = restoration_time s"
  by (simp_all add: track_gshut_def capture_communities_def record_transition_def
      withdraw_instance_def establish_instance_def note_consequence_def track_departure_def
      close_step_def Let_def split: option.split)

definition returns_to_transit :: "transit_predicate \<Rightarrow> route_transition \<Rightarrow> bool" where
  "returns_to_transit p t = (path_shape_from_transition t p = Some PathReturnedToRequiredTransit)"

lemma restoration_time_note_shape:
  "restoration_time (note_shape t sh s) =
     (if sh = PathReturnedToRequiredTransit then or_else (restoration_time s) (rt_time t)
      else restoration_time s)"
  by (cases sh) (simp_all add: note_shape_def)

lemma restoration_time_classify_change:
  "restoration_time (classify_change p t s) =
     (if returns_to_transit p t then or_else (restoration_time s) (rt_time t)
      else restoration_time s)"
  by (simp add: classify_change_def Let_def inim_frame restoration_time_note_shape
      returns_to_transit_def path_shape_from_transition_def split: option.split)

lemma restoration_time_apply_kind [inim_frame]:
  "restoration_time (apply_kind p t s) = restoration_time s"
  by (simp add: apply_kind_def inim_frame)

lemma restoration_time_restore:
  "restoration_time (restore_stream b t v s) =
     (if \<not> v \<and> active s \<noteq> [] then or_else (restoration_time s) (rt_time t) else restoration_time s)"
  by (simp add: restore_stream_def Let_def split: option.split)

lemma restoration_time_step:
  "restoration_time (lifecycle_step b p s t) =
     (if active s = [] \<and> active (lifecycle_step b p s t) \<noteq> [] \<or> returns_to_transit p t
      then or_else (restoration_time s) (rt_time t) else restoration_time s)"
proof -
  let ?s1 = "record_transition p t (capture_communities t (track_gshut t s))"
  let ?s2 = "apply_kind p t ?s1"
  have "core ?s1 = core s" by (simp add: inim_frame)
  then have a: "active ?s1 = active s" by (rule core_eqD)
  have "core ?s2 = core (lifecycle_step b p s t)" by (simp add: core_step)
  then have b: "active (lifecycle_step b p s t) = active ?s2" by (rule core_eqD [symmetric])
  have "restoration_time (lifecycle_step b p s t) =
      restoration_time (classify_change p t (restore_stream b t (active s \<noteq> []) ?s2))"
    by (simp add: lifecycle_step_def Let_def inim_frame a)
  then show ?thesis
    unfolding b by (simp add: restoration_time_classify_change restoration_time_restore inim_frame
        or_else_def split: option.split)
qed

definition reappears :: "route_key set \<Rightarrow> route_transition list \<Rightarrow> bool" where
  "reappears K ts = (\<exists>i<length ts. alive K (take i ts) = {} \<and> alive K (take (Suc i) ts) \<noteq> {})"

lemma reappears_snoc:
  "reappears K (ts @ [t]) = (reappears K ts \<or> alive K ts = {} \<and> alive K (ts @ [t]) \<noteq> {})"
  by (auto simp: reappears_def less_Suc_eq)

lemma run_sim_restored:
  "bt_ok b \<Longrightarrow> (restoration_time (run_sim b p ts) \<noteq> None) =
    (reappears (set (bt_keys b)) ts \<or> list_ex (returns_to_transit p) ts)"
proof (induction ts rule: rev_induct)
  case Nil
  show ?case by (simp add: reappears_def sim_init_def)
next
  case (snoc t ts)
  have "active (run_sim b p us) = [] \<longleftrightarrow> alive (set (bt_keys b)) us = {}" for us
    using run_sim_alive [OF snoc.prems, of p us] by (simp add: active_empty_iff)
  note e = this [of ts] this [of "ts @ [t]"]
  have "restoration_time (run_sim b p (ts @ [t])) =
      (if alive (set (bt_keys b)) ts = {} \<and> alive (set (bt_keys b)) (ts @ [t]) \<noteq> {}
          \<or> returns_to_transit p t
       then or_else (restoration_time (run_sim b p ts)) (rt_time t)
       else restoration_time (run_sim b p ts))"
    unfolding e [symmetric] by (simp add: restoration_time_step)
  with snoc show ?case
    by (auto simp: reappears_snoc or_else_def split: option.splits)
qed

text \<open>The audit counts a withdrawn stream as restored exactly when, at any moment of the
  window, it reappeared after nothing was up or returned to the reviewed transit, before or after
  the withdrawal the row reports: a stream that is withdrawn again and is absent at the end of the
  window is still counted as restored, never as unresolved.\<close>

theorem audit_restored_iff_ever_returned:
  assumes "bt_ok b"
  shows "let l = build_one_lifecycle opk b ts ce p; s = summary_from_records (withdrawal_audit [l]);
      returned = (reappears (set (bt_keys b)) ts \<or> list_ex (returns_to_transit p) ts) in
    (ws_restored_count s = 1) = (sl_was_withdrawn l \<and> returned) \<and>
    (ws_unresolved_count s = 1) = (sl_was_withdrawn l \<and> \<not> returned)"
proof -
  let ?l = "build_one_lifecycle opk b ts ce p"
  have "built ?l" using assms unfolding built_def by blast
  have r: "(sl_restoration_time ?l \<noteq> None) =
      (reappears (set (bt_keys b)) ts \<or> list_ex (returns_to_transit p) ts)"
    using run_sim_restored [OF assms, of p ts] by (simp add: build_one_lifecycle_def Let_def)
  show ?thesis
  proof (cases "sl_was_withdrawn ?l")
    case True
    from audit_one_built [OF \<open>built ?l\<close> True] obtain w where "audit_one ?l = [audit_row ?l w]" by blast
    then have "ws_restored_count (summary_from_records (withdrawal_audit [?l])) =
        (if sl_restoration_time ?l \<noteq> None then 1 else 0)"
      "ws_unresolved_count (summary_from_records (withdrawal_audit [?l])) =
        (if sl_restoration_time ?l \<noteq> None then 0 else 1)"
      by (simp_all add: summary_from_records_def withdrawal_audit_def count_rows_def audit_row_def
          Let_def)
    with True show ?thesis unfolding Let_def r [symmetric] by simp
  next
    case False
    then show ?thesis
      by (simp add: summary_from_records_def withdrawal_audit_def count_rows_def
          audit_one_not_withdrawn Let_def)
  qed
qed

text \<open>A stream that is lost, comes back and is lost again.\<close>

definition flaps :: "route_transition list" where
  "flaps = [sample_withdrawal None [6447, 11537] 5000000000,
     sample_announcement None [6447, 11537] 6000000000,
     sample_withdrawal None [6447, 11537] 9000000000]"

theorem audit_restored_witness:
  "alive {sample_key None} flaps = {} \<and>
   ws_restored_count (summary_from_records (withdrawal_audit
     [build_one_lifecycle sample_stream [(sample_key None, sample_state [6447, 11537] None)]
        flaps 100000000000 (ContainsAny [11537])])) = 1"
proof -
  let ?b = "[(sample_key None, sample_state [6447, 11537] None)]"
  let ?l = "build_one_lifecycle sample_stream ?b flaps 100000000000 (ContainsAny [11537])"
  have ok: "bt_ok ?b" by (simp add: bt_ok_def)
  have k: "set (bt_keys ?b) = {sample_key None}" by (simp add: bt_keys_def)
  have e: "alive {sample_key None} (take 1 flaps) = {}"
    "alive {sample_key None} (take (Suc 1) flaps) \<noteq> {}"
    "alive {sample_key None} flaps = {}"
    by (simp_all add: flaps_def alive_def alive_step_def instance_effect_def sample_withdrawal_def
        sample_announcement_def present_def rt_to_state_def)
  then have "reappears {sample_key None} flaps"
    unfolding reappears_def by (intro exI [of _ 1]) (simp add: flaps_def)
  moreover have "absences_of {sample_key None} flaps \<noteq> 0"
    using absences_of_snoc [of "{sample_key None}" "butlast flaps" "last flaps"] e(3)
    by (simp add: flaps_def sample_withdrawal_def)
  then have "sl_was_withdrawn ?l"
    using run_sim_withdrawal_count [OF ok, of "ContainsAny [11537]" flaps]
    by (simp add: build_one_lifecycle_def Let_def bt_keys_def)
  ultimately show ?thesis
    using audit_restored_iff_ever_returned [OF ok, of sample_stream flaps 100000000000
        "ContainsAny [11537]", unfolded Let_def k] e(3)
    by blast
qed

end
