(* ===== verification/Sequitur.thy ===== *)
theory Sequitur
  imports Inim_Prelude "HOL-Library.Monad_Syntax"
begin

text \<open>
  The SEQUITUR grammar inference of \<open>src/src/sequitur/\<close>: grammars and their expansion
  (\<open>grammar.rs\<close>), the builder (\<open>builder.rs\<close>) and the invariant checks (\<open>invariants.rs\<close>).

  The hash map of rules is kept in key order. The builder looks up, inserts and removes; the two
  places where it iterates are a count, which no order changes, and the search for a reference
  to a rule that has at most one. Every operation that can panic (indexing a missing rule,
  \<open>Vec::remove\<close> and \<open>Vec::insert\<close> out of range) returns an option, \<open>None\<close> being the panic.
  Rule ids are natural numbers.
\<close>

section \<open>Grammars\<close>

datatype 'a gsymbol = Terminal 'a | NonTerminal nat

record 'a grammar =
  g_start :: "'a gsymbol list"
  g_rules :: "(nat, 'a gsymbol list) btree"
  g_next_rule_id :: nat

definition grammar_new :: "'a grammar" where
  "grammar_new = \<lparr>g_start = [], g_rules = [], g_next_rule_id = 0\<rparr>"

definition fresh_rule_id :: "'a grammar \<Rightarrow> nat \<times> 'a grammar" where
  "fresh_rule_id g = (g_next_rule_id g, g\<lparr>g_next_rule_id := g_next_rule_id g + 1\<rparr>)"

function expand_seq :: "(nat, 'a gsymbol list) btree \<Rightarrow> 'a gsymbol list \<Rightarrow> nat list \<Rightarrow> 'a list" where
  "expand_seq rules [] stack = []"
| "expand_seq rules (Terminal t # seq) stack = t # expand_seq rules seq stack"
| "expand_seq rules (NonTerminal rid # seq) stack =
     (if rid \<in> set stack then []
      else case bt_get rules rid of
             None \<Rightarrow> []
           | Some body \<Rightarrow> expand_seq rules body (stack @ [rid])) @ expand_seq rules seq stack"
  by pat_completeness auto
termination
proof (relation "measures [\<lambda>(rules, _, stack). card (set (bt_keys rules) - set stack),
    \<lambda>(_, seq, _). length seq]", goal_cases)
  case (3 rules rid seq stack body)
  then have "rid \<in> set (bt_keys rules)"
    by (auto simp: bt_get_def bt_keys_def dest: map_of_SomeD intro: rev_image_eqI)
  then have "set (bt_keys rules) - set (stack @ [rid]) \<subset> set (bt_keys rules) - set stack"
    using 3 by auto
  then show ?case by (auto intro: psubset_card_mono)
qed simp_all

definition expand :: "'a grammar \<Rightarrow> 'a list" where
  "expand g = expand_seq (g_rules g) (g_start g) []"

fun show_gsymbol :: "('a \<Rightarrow> string) \<Rightarrow> 'a gsymbol \<Rightarrow> string" where
  "show_gsymbol show_t (Terminal t) = show_t t"
| "show_gsymbol show_t (NonTerminal r) = CHR ''R'' # show_nat r"

definition render_root :: "('a \<Rightarrow> string) \<Rightarrow> 'a grammar \<Rightarrow> string" where
  "render_root show_t g = join '' '' (map (\<lambda>sy.
     case sy of
       Terminal t \<Rightarrow> show_t t
     | NonTerminal rid \<Rightarrow>
         (case bt_get (g_rules g) rid of
            Some body \<Rightarrow> ''['' @ join '' '' (map (show_gsymbol show_t) body) @ '']''
          | None \<Rightarrow> show_gsymbol show_t sy)) (g_start g))"

section \<open>The builder\<close>

type_synonym position = "nat option \<times> nat"

record 'a builder =
  b_grammar :: "'a grammar"
  b_digram_index :: "'a gsymbol \<times> 'a gsymbol \<Rightarrow> position list option"

definition builder_new :: "'a builder" where
  "builder_new = \<lparr>b_grammar = grammar_new, b_digram_index = Map.empty\<rparr>"

abbreviation rules :: "'a builder \<Rightarrow> (nat, 'a gsymbol list) btree" where
  "rules b \<equiv> g_rules (b_grammar b)"

abbreviation start :: "'a builder \<Rightarrow> 'a gsymbol list" where
  "start b \<equiv> g_start (b_grammar b)"

abbreviation next_id :: "'a builder \<Rightarrow> nat" where
  "next_id b \<equiv> g_next_rule_id (b_grammar b)"

definition set_rules :: "(nat, 'a gsymbol list) btree \<Rightarrow> 'a builder \<Rightarrow> 'a builder" where
  "set_rules m b = b\<lparr>b_grammar := (b_grammar b)\<lparr>g_rules := m\<rparr>\<rparr>"

definition set_start :: "'a gsymbol list \<Rightarrow> 'a builder \<Rightarrow> 'a builder" where
  "set_start s b = b\<lparr>b_grammar := (b_grammar b)\<lparr>g_start := s\<rparr>\<rparr>"

text \<open>The sequence a position points into.\<close>

fun seq_of :: "'a builder \<Rightarrow> nat option \<Rightarrow> 'a gsymbol list option" where
  "seq_of b None = Some (start b)"
| "seq_of b (Some rid) = bt_get (rules b) rid"

fun put_seq :: "nat option \<Rightarrow> 'a gsymbol list \<Rightarrow> 'a builder \<Rightarrow> 'a builder" where
  "put_seq None s b = set_start s b"
| "put_seq (Some rid) s b = set_rules (bt_insert rid s (rules b)) b"

definition seq_len :: "'a builder \<Rightarrow> nat option \<Rightarrow> nat option" where
  "seq_len b rule_id = map_option length (seq_of b rule_id)"

definition seq_get :: "'a builder \<Rightarrow> nat option \<Rightarrow> nat \<Rightarrow> 'a gsymbol option" where
  "seq_get b rule_id pos =
     (case seq_of b rule_id of None \<Rightarrow> None | Some s \<Rightarrow> if pos < length s then Some (s ! pos) else None)"

definition digram_at :: "'a builder \<Rightarrow> nat option \<Rightarrow> nat \<Rightarrow> ('a gsymbol \<times> 'a gsymbol) option" where
  "digram_at b rule_id pos =
     do { x \<leftarrow> seq_get b rule_id pos; y \<leftarrow> seq_get b rule_id (pos + 1); Some (x, y) }"

definition add_digram :: "nat option \<Rightarrow> nat \<Rightarrow> 'a builder \<Rightarrow> 'a builder" where
  "add_digram rule_id pos b =
     (case digram_at b rule_id pos of
        None \<Rightarrow> b
      | Some d \<Rightarrow>
          b\<lparr>b_digram_index := (b_digram_index b)
              (d \<mapsto> (case b_digram_index b d of None \<Rightarrow> [] | Some ps \<Rightarrow> ps) @ [(rule_id, pos)])\<rparr>)"

definition remove_digram :: "nat option \<Rightarrow> nat \<Rightarrow> 'a builder \<Rightarrow> 'a builder" where
  "remove_digram rule_id pos b =
     (case digram_at b rule_id pos of
        None \<Rightarrow> b
      | Some d \<Rightarrow>
          (case b_digram_index b d of
             None \<Rightarrow> b
           | Some ps \<Rightarrow>
               (let ps' = filter (\<lambda>p. p \<noteq> (rule_id, pos)) ps in
                b\<lparr>b_digram_index := (b_digram_index b)(d := if ps' = [] then None else Some ps')\<rparr>)))"

definition seq_remove :: "nat option \<Rightarrow> nat \<Rightarrow> 'a builder \<Rightarrow> 'a builder option" where
  "seq_remove rule_id pos b =
     (case seq_of b rule_id of
        None \<Rightarrow> None
      | Some s \<Rightarrow>
          if pos < length s then Some (put_seq rule_id (take pos s @ drop (Suc pos) s) b) else None)"

definition seq_insert :: "nat option \<Rightarrow> nat \<Rightarrow> 'a gsymbol \<Rightarrow> 'a builder \<Rightarrow> 'a builder option" where
  "seq_insert rule_id pos sy b =
     (case seq_of b rule_id of
        None \<Rightarrow> None
      | Some s \<Rightarrow>
          if pos \<le> length s then Some (put_seq rule_id (take pos s @ sy # drop pos s) b) else None)"

definition refs_in :: "nat \<Rightarrow> 'a gsymbol list \<Rightarrow> nat" where
  "refs_in target s = length (filter (\<lambda>sy. sy = NonTerminal target) s)"

definition count_rule_refs :: "'a builder \<Rightarrow> nat \<Rightarrow> nat" where
  "count_rule_refs b target =
     refs_in target (start b) + sum_list (map (refs_in target) (bt_values (rules b)))"

definition find_sym :: "nat \<Rightarrow> 'a gsymbol list \<Rightarrow> nat option" where
  "find_sym target s =
     (case filter (\<lambda>i. s ! i = NonTerminal target) [0..<length s] of [] \<Rightarrow> None | i # _ \<Rightarrow> Some i)"

fun find_in_rules :: "nat \<Rightarrow> (nat, 'a gsymbol list) btree \<Rightarrow> position option" where
  "find_in_rules target [] = None"
| "find_in_rules target ((rid, body) # m) =
     (case find_sym target body of
        Some pos \<Rightarrow> Some (Some rid, pos)
      | None \<Rightarrow> find_in_rules target m)"

definition find_rule_ref :: "'a builder \<Rightarrow> nat \<Rightarrow> position option" where
  "find_rule_ref b target =
     (case find_sym target (start b) of
        Some pos \<Rightarrow> Some (None, pos)
      | None \<Rightarrow> find_in_rules target (rules b))"

text \<open>A loop whose body can panic.\<close>

fun loop :: "('x \<Rightarrow> 's \<Rightarrow> 's option) \<Rightarrow> 'x list \<Rightarrow> 's \<Rightarrow> 's option" where
  "loop f [] s = Some s"
| "loop f (x # xs) s = do { s' \<leftarrow> f x s; loop f xs s' }"

text \<open>
  The enforcement functions call one another and pass a depth that grows by one per call. The
  two callees are stated over the enforcement they call back, \<open>enf\<close>, which the knot below
  instantiates with the enforcement at the caller's depth plus two.
\<close>

definition substitute_with ::
  "(nat option \<Rightarrow> nat \<Rightarrow> 'a builder \<Rightarrow> 'a builder option) \<Rightarrow>
   nat option \<Rightarrow> nat \<Rightarrow> nat \<Rightarrow> 'a builder \<Rightarrow> 'a builder option" where
  "substitute_with enf rule_id pos new_rule_id b =
     (let b1 = (if pos > 0 then remove_digram rule_id (pos - 1) b else b);
          b2 = remove_digram rule_id pos b1
      in do {
        n \<leftarrow> seq_len b2 rule_id;
        let b3 = (if pos + 2 < n then remove_digram rule_id (pos + 1) b2 else b2);
        b4 \<leftarrow> seq_remove rule_id pos b3;
        b5 \<leftarrow> seq_remove rule_id pos b4;
        b6 \<leftarrow> seq_insert rule_id pos (NonTerminal new_rule_id) b5;
        b7 \<leftarrow> (if pos > 0 then enf rule_id (pos - 1) (add_digram rule_id (pos - 1) b6) else Some b6);
        let b8 = add_digram rule_id pos b7;
        m \<leftarrow> seq_len b8 rule_id;
        (if pos + 1 < m then enf rule_id pos b8 else Some b8)
      })"

definition expand_with ::
  "(nat option \<Rightarrow> nat \<Rightarrow> 'a builder \<Rightarrow> 'a builder option) \<Rightarrow> nat \<Rightarrow> 'a builder \<Rightarrow> 'a builder option" where
  "expand_with enf rule_id b =
     (case bt_get (rules b) rule_id of
        None \<Rightarrow> Some b
      | Some body \<Rightarrow>
          (let b0 = set_rules (bt_remove rule_id (rules b)) b in
           case find_rule_ref b rule_id of
             None \<Rightarrow> Some b0
           | Some (ref_rule_id, pos) \<Rightarrow>
               (let b1 = (if pos > 0 then remove_digram ref_rule_id (pos - 1) b0 else b0);
                    b2 = remove_digram ref_rule_id pos b1;
                    span = [pos - 1..<pos + length body]
                in do {
                  b3 \<leftarrow> seq_remove ref_rule_id pos b2;
                  b4 \<leftarrow> loop (\<lambda>(i, sy). seq_insert ref_rule_id (pos + i) sy) (enumerate 0 body) b3;
                  b5 \<leftarrow> loop (\<lambda>i s. do { n \<leftarrow> seq_len s ref_rule_id;
                           Some (if i + 1 < n then add_digram ref_rule_id i s else s) }) span b4;
                  loop (\<lambda>i s. do { n \<leftarrow> seq_len s ref_rule_id;
                           (if i + 1 < n then enf ref_rule_id i s else Some s) }) span b5
                })))"

definition MAX_DEPTH :: nat where
  "MAX_DEPTH = 20"

function enforce_digram_uniqueness_depth ::
  "nat \<Rightarrow> nat option \<Rightarrow> nat \<Rightarrow> 'a builder \<Rightarrow> 'a builder option" where
  "enforce_digram_uniqueness_depth depth rule_id pos b =
     (if depth > MAX_DEPTH then Some b
      else case digram_at b rule_id pos of
        None \<Rightarrow> Some b
      | Some d \<Rightarrow>
          (case b_digram_index b d of
             None \<Rightarrow> Some b
           | Some occurrences \<Rightarrow>
               if length occurrences > 1 then
                 (let (new_rule_id, g) = fresh_rule_id (b_grammar b);
                      b0 = b\<lparr>b_grammar := g\<lparr>g_rules := bt_insert new_rule_id [fst d, snd d] (g_rules g)\<rparr>\<rparr>
                  in do {
                    b1 \<leftarrow> loop (\<lambda>(occ_rule_id, occ_pos) s.
                             if digram_at s occ_rule_id occ_pos = Some d
                             then substitute_with (enforce_digram_uniqueness_depth (depth + 2))
                                    occ_rule_id occ_pos new_rule_id s
                             else Some s) (rev occurrences) b0;
                    (if count_rule_refs b1 new_rule_id < 2
                     then expand_with (enforce_digram_uniqueness_depth (depth + 2)) new_rule_id b1
                     else Some b1)
                  })
               else Some b))"
  by pat_completeness auto
termination
  by (relation "measure (\<lambda>(depth, _). MAX_DEPTH + 1 - depth)") auto

declare enforce_digram_uniqueness_depth.simps [simp del]

definition substitute_digram_depth ::
  "nat \<Rightarrow> nat option \<Rightarrow> nat \<Rightarrow> nat \<Rightarrow> 'a builder \<Rightarrow> 'a builder option" where
  "substitute_digram_depth depth = substitute_with (enforce_digram_uniqueness_depth (depth + 1))"

definition expand_rule_depth :: "nat \<Rightarrow> nat \<Rightarrow> 'a builder \<Rightarrow> 'a builder option" where
  "expand_rule_depth depth = expand_with (enforce_digram_uniqueness_depth (depth + 1))"

definition append_symbol :: "'a gsymbol \<Rightarrow> 'a builder \<Rightarrow> 'a builder option" where
  "append_symbol sy b =
     (let pos = length (start b);
          b1 = set_start (start b @ [sy]) b
      in if pos \<ge> 1
         then enforce_digram_uniqueness_depth 0 None (pos - 1) (add_digram None (pos - 1) b1)
         else Some b1)"

definition underused :: "'a builder \<Rightarrow> nat option" where
  "underused b = find (\<lambda>rid. count_rule_refs b rid < 2) (bt_keys (rules b))"

partial_function (option) enforce_global_rule_utility :: "'a builder \<Rightarrow> 'a builder option" where
  "enforce_global_rule_utility b =
     (case underused b of
        None \<Rightarrow> Some b
      | Some rid \<Rightarrow>
          Option.bind (expand_rule_depth 0 rid b) enforce_global_rule_utility)"

declare enforce_global_rule_utility.simps [code]

definition build :: "'a list \<Rightarrow> 'a grammar option" where
  "build input = do {
     b \<leftarrow> loop (\<lambda>t. append_symbol (Terminal t)) input builder_new;
     b' \<leftarrow> enforce_global_rule_utility b;
     Some (b_grammar b')
   }"

section \<open>The invariant checks\<close>

datatype 'a invariant_error =
    ExpansionMismatch "'a list" "'a list"
  | DuplicateDigram string string
  | RuleUnderused nat nat

definition check_expansion :: "'a grammar \<Rightarrow> 'a list \<Rightarrow> 'a invariant_error option" where
  "check_expansion g input =
     (let expanded = expand g in
      if expanded \<noteq> input then Some (ExpansionMismatch input expanded) else None)"

fun debug_gsymbol :: "('a \<Rightarrow> string) \<Rightarrow> 'a gsymbol \<Rightarrow> string" where
  "debug_gsymbol dbg (Terminal t) = ''Terminal('' @ dbg t @ '')''"
| "debug_gsymbol dbg (NonTerminal r) = ''NonTerminal(RuleId('' @ show_nat r @ ''))''"

text \<open>The check keeps the digrams seen so far; \<open>Inr\<close> is the set to go on with.\<close>

fun check_seq_digrams ::
  "('a \<Rightarrow> string) \<Rightarrow> 'a gsymbol list \<Rightarrow> (string \<times> string) list \<Rightarrow> 'a invariant_error + (string \<times> string) list"
where
  "check_seq_digrams dbg (x # y # s) seen =
     (let key = (debug_gsymbol dbg x, debug_gsymbol dbg y) in
      if key \<in> set seen then Inl (DuplicateDigram (fst key) (snd key))
      else check_seq_digrams dbg (y # s) (key # seen))"
| "check_seq_digrams dbg s seen = Inr seen"

fun check_all_digrams ::
  "('a \<Rightarrow> string) \<Rightarrow> 'a gsymbol list list \<Rightarrow> (string \<times> string) list \<Rightarrow> 'a invariant_error option" where
  "check_all_digrams dbg [] seen = None"
| "check_all_digrams dbg (s # ss) seen =
     (case check_seq_digrams dbg s seen of Inl e \<Rightarrow> Some e | Inr seen' \<Rightarrow> check_all_digrams dbg ss seen')"

definition check_digram_uniqueness :: "('a \<Rightarrow> string) \<Rightarrow> 'a grammar \<Rightarrow> 'a invariant_error option" where
  "check_digram_uniqueness dbg g = check_all_digrams dbg (g_start g # bt_values (g_rules g)) []"

definition bump :: "(nat, nat) btree \<Rightarrow> 'a gsymbol \<Rightarrow> (nat, nat) btree" where
  "bump counts sy =
     (case sy of
        Terminal _ \<Rightarrow> counts
      | NonTerminal rid \<Rightarrow>
          bt_insert rid ((case bt_get counts rid of None \<Rightarrow> 0 | Some c \<Rightarrow> c) + 1) counts)"

definition count_all_refs :: "'a grammar \<Rightarrow> (nat, nat) btree" where
  "count_all_refs g =
     foldl bump (foldl (\<lambda>counts rid. bt_insert rid 0 counts) [] (bt_keys (g_rules g)))
       (g_start g @ concat (bt_values (g_rules g)))"

definition check_rule_utility :: "'a grammar \<Rightarrow> 'a invariant_error option" where
  "check_rule_utility g =
     (case find (\<lambda>p. snd p < 2) (count_all_refs g) of
        None \<Rightarrow> None
      | Some (rid, n) \<Rightarrow> Some (RuleUnderused rid n))"

definition check_invariants :: "('a \<Rightarrow> string) \<Rightarrow> 'a grammar \<Rightarrow> 'a list \<Rightarrow> 'a invariant_error option" where
  "check_invariants dbg g input =
     (case check_expansion g input of
        Some e \<Rightarrow> Some e
      | None \<Rightarrow>
          (case check_digram_uniqueness dbg g of
             Some e \<Rightarrow> Some e
           | None \<Rightarrow> check_rule_utility g))"

end
