(* ===== verification/Sequitur_Facts.thy ===== *)
theory Sequitur_Facts
  imports Sequitur
begin

text \<open>
  Correctness of the SEQUITUR builder: it never panics, its clean-up loop ends, the grammar
  expands to exactly the input, and every rule that is kept is used twice. The proof keeps one
  value per rule id that no operation changes; the size of the grammar is the measure of the
  clean-up loop. The digram uniqueness the module promises does not hold.
\<close>

section \<open>Loops and ordered maps\<close>

lemma bind_SomeI: "x = Some y \<Longrightarrow> f y = z \<Longrightarrow> Option.bind x f = z"
  by simp

lemma bt_insert_overwrite: "bt_ok m \<Longrightarrow> bt_insert k v (bt_insert k v' m) = bt_insert k v m"
  by (induction k v' m rule: bt_insert.induct) (auto simp: bt_ok_def)

lemma sum_values_insert:
  "bt_ok m \<Longrightarrow> sum_list (map f (bt_values (bt_insert k v m))) +
      (case bt_get m k of None \<Rightarrow> 0 | Some v' \<Rightarrow> f v') =
    sum_list (map f (bt_values m)) + (f v :: nat)"
proof (induction k v m rule: bt_insert.induct)
  case (2 k v k' v' m)
  then have "k < k' \<Longrightarrow> map_of m k = None"
    by (auto simp: bt_ok_def map_of_eq_None_iff)
  with 2 show ?case by (auto simp: bt_ok_def bt_values_def bt_get_def)
qed (simp add: bt_values_def bt_get_def)

lemma sum_values_remove:
  "bt_ok m \<Longrightarrow> sum_list (map f (bt_values (bt_remove k m))) +
      (case bt_get m k of None \<Rightarrow> 0 | Some v' \<Rightarrow> f v') = (sum_list (map f (bt_values m)) :: nat)"
proof (induction m)
  case (Cons p m)
  have "filter (\<lambda>q. fst q \<noteq> fst p) m = m" "map_of m (fst p) = None"
    using Cons.prems by (auto simp: bt_ok_def filter_id_conv map_of_eq_None_iff)
  with Cons show ?case
    by (cases p) (auto simp: bt_ok_def bt_values_def bt_get_def bt_remove_def)
qed (simp add: bt_values_def bt_get_def bt_remove_def)

section \<open>Frames of the sequence operations\<close>

lemma set_rules_sel [simp]:
  "rules (set_rules m b) = m" "start (set_rules m b) = start b" "next_id (set_rules m b) = next_id b"
  "b_digram_index (set_rules m b) = b_digram_index b"
  by (simp_all add: set_rules_def)

lemma set_start_sel [simp]:
  "rules (set_start s b) = rules b" "start (set_start s b) = s" "next_id (set_start s b) = next_id b"
  "b_digram_index (set_start s b) = b_digram_index b"
  by (simp_all add: set_start_def)

lemma grammar_add_digram [simp]: "b_grammar (add_digram r p b) = b_grammar b"
  by (simp add: add_digram_def split: option.split)

lemma grammar_remove_digram [simp]: "b_grammar (remove_digram r p b) = b_grammar b"
  by (simp add: remove_digram_def Let_def split: option.split)

lemma seq_of_cong: "b_grammar b = b_grammar b' \<Longrightarrow> seq_of b r = seq_of b' r"
  by (cases r) simp_all

lemma put_seq_sel [simp]:
  "next_id (put_seq r s b) = next_id b" "b_digram_index (put_seq r s b) = b_digram_index b"
  by (cases r; simp)+

lemma put_seq_cong: "b_grammar b = b_grammar b' \<Longrightarrow> b_grammar (put_seq r s b) = b_grammar (put_seq r s b')"
  by (cases r) (simp_all add: set_start_def set_rules_def)

lemma bt_ok_put_seq: "bt_ok (rules b) \<Longrightarrow> bt_ok (rules (put_seq r s b))"
  by (cases r) (simp_all add: bt_ok_insert)

lemma seq_of_put_seq: "bt_ok (rules b) \<Longrightarrow> seq_of (put_seq r s b) r = Some s"
  by (cases r) (simp_all add: bt_get_insert)

lemma put_put_seq: "bt_ok (rules b) \<Longrightarrow> put_seq r s (put_seq r s' b) = put_seq r s b"
  by (cases r) (simp_all add: bt_insert_overwrite set_start_def set_rules_def)

lemma dom_put_seq:
  "bt_ok (rules b) \<Longrightarrow> seq_of b r \<noteq> None \<Longrightarrow>
   dom (bt_get (rules (put_seq r s b))) = dom (bt_get (rules b))"
  by (cases r) (auto simp: bt_get_insert)

text \<open>What the two primitive edits do to a sequence that is split at the position.\<close>

lemma seq_remove_split:
  "seq_of b r = Some (pre @ x # post) \<Longrightarrow>
   seq_remove r (length pre) b = Some (put_seq r (pre @ post) b)"
  by (simp add: seq_remove_def)

lemma seq_insert_split:
  "seq_of b r = Some (pre @ post) \<Longrightarrow>
   seq_insert r (length pre) x b = Some (put_seq r (pre @ x # post) b)"
  by (simp add: seq_insert_def)

lemma insert_loop:
  "bt_ok (rules b) \<Longrightarrow> seq_of b r = Some (pre @ post) \<Longrightarrow>
   loop (\<lambda>(i, x). seq_insert r (pos + i) x) (enumerate n body) b =
     (if body = [] then Some b else Some (put_seq r (pre @ body @ post) b))"
  if "length pre = pos + n"
  using that
proof (induction body arbitrary: b pre n)
  case (Cons x body)
  let ?b = "put_seq r (pre @ x # post) b"
  have "seq_insert r (pos + n) x b = Some ?b"
    using seq_insert_split [OF Cons.prems(2), of x] Cons.prems(3) by simp
  moreover have "loop (\<lambda>(i, x). seq_insert r (pos + i) x) (enumerate (Suc n) body) ?b =
      (if body = [] then Some ?b else Some (put_seq r ((pre @ [x]) @ body @ post) ?b))"
    using Cons.prems by (intro Cons.IH) (simp_all add: bt_ok_put_seq seq_of_put_seq)
  ultimately show ?case
    using Cons.prems(1) by (simp add: put_put_seq)
qed simp

lemma digram_at_split:
  assumes "digram_at b r pos = Some (x, y)"
  obtains pre post where "seq_of b r = Some (pre @ x # y # post)" "length pre = pos"
proof -
  from assms obtain s where s: "seq_of b r = Some s" "Suc pos < length s" "x = s ! pos" "y = s ! Suc pos"
    by (auto simp: digram_at_def seq_get_def split: option.splits if_splits)
  then have "s = take pos s @ x # y # drop (Suc (Suc pos)) s"
    by (metis Cons_nth_drop_Suc Suc_lessD append_take_drop_id)
  with s that [of "take pos s" "drop (Suc (Suc pos)) s"] show thesis by simp
qed

section \<open>Values, weights and the invariant\<close>

fun val :: "(nat \<Rightarrow> 'a list) \<Rightarrow> 'a gsymbol \<Rightarrow> 'a list" where
  "val V (Terminal t) = [t]"
| "val V (NonTerminal r) = V r"

definition vals :: "(nat \<Rightarrow> 'a list) \<Rightarrow> 'a gsymbol list \<Rightarrow> 'a list" where
  "vals V s = concat (map (val V) s)"

lemma vals_simps [simp]:
  "vals V [] = []" "vals V (x # s) = val V x @ vals V s" "vals V (s @ s') = vals V s @ vals V s'"
  by (simp_all add: vals_def)

definition closed_seq :: "(nat, 'a gsymbol list) btree \<Rightarrow> 'a gsymbol list \<Rightarrow> bool" where
  "closed_seq m s = (\<forall>r. NonTerminal r \<in> set s \<longrightarrow> r \<in> dom (bt_get m))"

definition rule_ok :: "(nat \<Rightarrow> 'a list) \<Rightarrow> 'a builder \<Rightarrow> nat \<Rightarrow> 'a gsymbol list \<Rightarrow> bool" where
  "rule_ok V b r body = (r < next_id b \<and> body \<noteq> [] \<and> V r = vals V body \<and> V r \<noteq> [] \<and>
     closed_seq (rules b) body \<and> (\<forall>s. body = [NonTerminal s] \<longrightarrow> r < s))"

definition index_ok :: "'a builder \<Rightarrow> bool" where
  "index_ok b = (\<forall>d ps r q. b_digram_index b d = Some ps \<longrightarrow> (Some r, q) \<in> set ps \<longrightarrow> r < next_id b)"

definition seq_inv :: "(nat \<Rightarrow> 'a list) \<Rightarrow> 'a list \<Rightarrow> 'a builder \<Rightarrow> bool" where
  "seq_inv V out b = (bt_ok (rules b) \<and> closed_seq (rules b) (start b) \<and> vals V (start b) = out \<and>
     (\<forall>r body. bt_get (rules b) r = Some body \<longrightarrow> rule_ok V b r body) \<and> index_ok b)"

lemma invD:
  assumes "seq_inv V out b"
  shows "bt_ok (rules b)" "closed_seq (rules b) (start b)" "vals V (start b) = out" "index_ok b"
    "\<And>r body. bt_get (rules b) r = Some body \<Longrightarrow> rule_ok V b r body"
  using assms by (simp_all add: seq_inv_def)

lemma inv_seq_closed: "seq_inv V out b \<Longrightarrow> seq_of b r = Some s \<Longrightarrow> closed_seq (rules b) s"
  by (cases r) (auto simp: seq_inv_def rule_ok_def)

lemma inv_val_ne: "seq_inv V out b \<Longrightarrow> closed_seq (rules b) s \<Longrightarrow> x \<in> set s \<Longrightarrow> val V x \<noteq> []"
  by (cases x) (force simp: seq_inv_def closed_seq_def rule_ok_def)+

lemma inv_dom_less: "seq_inv V out b \<Longrightarrow> r \<in> dom (bt_get (rules b)) \<Longrightarrow> r < next_id b"
  by (auto simp: seq_inv_def rule_ok_def)

text \<open>The invariant reads the grammar and the index only.\<close>

lemma rule_ok_cong: "b_grammar b' = b_grammar b \<Longrightarrow> rule_ok V b' = rule_ok V b"
  unfolding rule_ok_def by simp

lemma inv_grammar_cong:
  "b_grammar b' = b_grammar b \<Longrightarrow> index_ok b' \<Longrightarrow> seq_inv V out b \<Longrightarrow> seq_inv V out b'"
  by (simp add: seq_inv_def rule_ok_cong [of b' b])

lemma index_ok_add:
  "index_ok b \<Longrightarrow> (\<And>q. r = Some q \<Longrightarrow> q < next_id b) \<Longrightarrow> index_ok (add_digram r p b)"
  by (auto simp: index_ok_def add_digram_def split: option.splits if_splits) (metis surj_pair)+

lemma index_ok_remove: "index_ok b \<Longrightarrow> index_ok (remove_digram r p b)"
  by (auto simp: index_ok_def remove_digram_def Let_def split: option.splits if_splits) blast+

lemma inv_add_digram:
  "seq_inv V out b \<Longrightarrow> seq_of b r \<noteq> None \<Longrightarrow> seq_inv V out (add_digram r p b)"
  by (rule inv_grammar_cong [of _ b]) (auto intro!: index_ok_add intro: inv_dom_less dest: invD)

lemma inv_remove_digram: "seq_inv V out b \<Longrightarrow> seq_inv V out (remove_digram r p b)"
  by (rule inv_grammar_cong [of _ b]) (auto intro!: index_ok_remove dest: invD)

text \<open>Replacing a sequence by one of the same value.\<close>

lemma inv_put_seq:
  assumes "seq_inv V out b" "seq_of b r = Some s" "vals V s' = vals V s" "closed_seq (rules b) s'" "s' \<noteq> []"
    and "\<And>q x. r = Some q \<Longrightarrow> s' = [NonTerminal x] \<Longrightarrow> q < x"
  shows "seq_inv V out (put_seq r s' b)"
proof -
  note ok = invD [OF assms(1)]
  have c: "closed_seq (rules (put_seq r s' b)) t = closed_seq (rules b) t" for t
    using dom_put_seq [OF ok(1), of r s'] assms(2) by (simp add: closed_seq_def)
  show ?thesis
  proof (cases r)
    case None
    with assms ok c show ?thesis by (auto simp: seq_inv_def rule_ok_def index_ok_def)
  next
    case (Some q)
    with assms ok c show ?thesis
      by (auto simp: seq_inv_def rule_ok_def index_ok_def bt_get_insert bt_ok_insert)
  qed
qed

definition wsum :: "('a gsymbol \<Rightarrow> nat) \<Rightarrow> 'a gsymbol list \<Rightarrow> nat" where
  "wsum w s = sum_list (map w s)"

lemma wsum_simps [simp]:
  "wsum w [] = 0" "wsum w (x # s) = w x + wsum w s" "wsum w (s @ s') = wsum w s + wsum w s'"
  by (simp_all add: wsum_def)

definition weight :: "('a gsymbol \<Rightarrow> nat) \<Rightarrow> 'a builder \<Rightarrow> nat" where
  "weight w b = wsum w (start b) + sum_list (map (wsum w) (bt_values (rules b)))"

lemma weight_cong: "b_grammar b = b_grammar b' \<Longrightarrow> weight w b = weight w b'"
  by (simp add: weight_def)

lemma weight_digram [simp]:
  "weight w (add_digram r p b) = weight w b" "weight w (remove_digram r p b) = weight w b"
  by (simp_all add: weight_def)

lemma weight_put_seq:
  assumes "bt_ok (rules b)" "seq_of b r = Some s"
  shows "weight w (put_seq r s' b) + wsum w s = weight w b + wsum w s'"
proof (cases r)
  case (Some q)
  with assms sum_values_insert [OF assms(1), of "wsum w" q s'] show ?thesis
    by (simp add: weight_def)
qed (use assms in \<open>simp add: weight_def\<close>)

definition ref_weight :: "nat \<Rightarrow> 'a gsymbol \<Rightarrow> nat" where
  "ref_weight r x = (if x = NonTerminal r then 1 else 0)"

lemma refs_in_wsum: "refs_in r s = wsum (ref_weight r) s"
  by (induction s) (simp_all add: refs_in_def ref_weight_def)

lemma count_rule_refs_weight: "count_rule_refs b r = weight (ref_weight r) b"
proof -
  have "refs_in r = (wsum (ref_weight r) :: 'a gsymbol list \<Rightarrow> nat)" by (rule ext) (rule refs_in_wsum)
  then show ?thesis by (simp add: count_rule_refs_def weight_def)
qed

lemma wsum_ref_0: "wsum (ref_weight r) s = 0 \<longleftrightarrow> NonTerminal r \<notin> set s"
  by (induction s) (auto simp: ref_weight_def)

lemma no_refs:
  assumes "weight (ref_weight r) b = 0" "bt_ok (rules b)" "seq_of b q = Some s"
  shows "NonTerminal r \<notin> set s"
proof (cases q)
  case None
  with assms show ?thesis by (simp add: weight_def wsum_ref_0)
next
  case (Some k)
  with assms have "s \<in> set (bt_values (rules b))" by (auto simp: bt_values_get ranI)
  moreover have "\<forall>t\<in>set (bt_values (rules b)). wsum (ref_weight r) t = 0"
    using assms(1) by (auto simp: weight_def)
  ultimately show ?thesis using wsum_ref_0 by blast
qed

lemma closed_no_refs: "closed_seq m s \<Longrightarrow> r \<notin> dom (bt_get m) \<Longrightarrow> wsum (ref_weight r) s = 0"
  by (auto simp: wsum_ref_0 closed_seq_def)

lemma unknown_rule_no_refs:
  assumes "seq_inv V out b" "r \<notin> dom (bt_get (rules b))"
  shows "weight (ref_weight r) b = 0"
proof -
  have "wsum (ref_weight r) s = 0" if "s \<in> set (bt_values (rules b))" for s
    using that invD [OF assms(1)] assms(2) closed_no_refs
    by (fastforce simp: bt_values_get ran_def rule_ok_def)
  then show ?thesis
    using invD [OF assms(1)] assms(2) by (simp add: weight_def closed_no_refs sum_list_eq_0_iff)
qed

section \<open>The contract of an enforcement step\<close>

text \<open>The weights the argument needs: the size, and functions that ignore the rules to come.\<close>

definition admissible :: "('a gsymbol \<Rightarrow> nat) \<Rightarrow> nat \<Rightarrow> bool" where
  "admissible w n = ((\<forall>x. w x = 1) \<or> (\<forall>m\<ge>n. w (NonTerminal m) = 0))"

lemma admissible_mono: "admissible w n \<Longrightarrow> n \<le> m \<Longrightarrow> admissible w m"
  by (auto simp: admissible_def)

lemma admissible_ref: "r < n \<Longrightarrow> admissible (ref_weight r) n"
  by (auto simp: admissible_def ref_weight_def)

lemma admissible_size: "admissible (\<lambda>_. 1) n"
  by (simp add: admissible_def)

text \<open>\<open>keeps D\<close>: values below the next id are kept, no id is reused, and the rules outside \<open>D\<close>
  are still there.\<close>

definition keeps :: "nat set \<Rightarrow> (nat \<Rightarrow> 'a list) \<Rightarrow> 'a builder \<Rightarrow> (nat \<Rightarrow> 'a list) \<Rightarrow> 'a builder \<Rightarrow> bool" where
  "keeps D V b V' b' = ((\<forall>r<next_id b. V' r = V r) \<and> next_id b \<le> next_id b' \<and>
     dom (bt_get (rules b)) - D \<subseteq> dom (bt_get (rules b')))"

definition grows :: "(nat \<Rightarrow> 'a list) \<Rightarrow> 'a builder \<Rightarrow> (nat \<Rightarrow> 'a list) \<Rightarrow> 'a builder \<Rightarrow> bool" where
  "grows V b V' b' = (keeps {} V b V' b' \<and>
     (\<forall>w. admissible w (next_id b) \<longrightarrow> weight w b' \<le> weight w b))"

lemma keeps_trans: "keeps D V b V' b' \<Longrightarrow> keeps {} V' b' V'' b'' \<Longrightarrow> keeps D V b V'' b''"
  unfolding keeps_def by (intro conjI) (simp, simp, blast)

lemma keeps_trans_fresh:
  "keeps {} V b V' b' \<Longrightarrow> keeps {N} V' b' V'' b'' \<Longrightarrow> N \<notin> dom (bt_get (rules b)) \<Longrightarrow> keeps {} V b V'' b''"
  unfolding keeps_def by (intro conjI) (simp, simp, blast)

lemma keeps_grammar: "b_grammar b' = b_grammar b \<Longrightarrow> keeps {} V b V b'"
  by (simp add: keeps_def)

lemma grows_refl: "grows V b V b"
  by (simp add: grows_def keeps_def)

lemma grows_trans: "grows V b V' b' \<Longrightarrow> grows V' b' V'' b'' \<Longrightarrow> grows V b V'' b''"
  unfolding grows_def
  by (meson keeps_trans keeps_def admissible_mono order_trans)

lemma grows_grammar: "b_grammar b' = b_grammar b \<Longrightarrow> grows V b V b'"
  by (simp add: grows_def keeps_grammar weight_cong [of b' b])

lemma keeps_seq:
  "keeps {} V b V' b' \<Longrightarrow> seq_of b r \<noteq> None \<Longrightarrow> seq_of b' r \<noteq> None"
  by (cases r) (auto simp: keeps_def)

lemma keeps_val:
  assumes "seq_inv V out b" "keeps D V b V' b'" "closed_seq (rules b) s" "z \<in> set s"
  shows "val V' z = val V z"
proof (cases z)
  case (NonTerminal r)
  then have "r < next_id b" using assms inv_dom_less unfolding closed_seq_def by blast
  then show ?thesis using assms(2) NonTerminal by (simp add: keeps_def)
qed simp

locale enforcer =
  fixes enf :: "nat option \<Rightarrow> nat \<Rightarrow> 'a builder \<Rightarrow> 'a builder option"
  assumes enf_ok: "seq_inv V out b \<Longrightarrow>
    \<exists>V' b'. enf r p b = Some b' \<and> seq_inv V' out b' \<and> grows V b V' b'"
begin

text \<open>Re-checking a range of positions.\<close>

lemma recheck_loop:
  "seq_inv V out b \<Longrightarrow> seq_of b r \<noteq> None \<Longrightarrow>
   \<exists>V' b'. loop (\<lambda>i s. do { n \<leftarrow> seq_len s r; (if i + 1 < n then enf r i s else Some s) }) is b = Some b'
     \<and> seq_inv V' out b' \<and> grows V b V' b'"
proof (induction "is" arbitrary: V b)
  case Nil
  then show ?case by (auto intro: grows_refl)
next
  case (Cons i "is")
  from Cons.prems(2) obtain s where s: "seq_of b r = Some s" by auto
  obtain V1 b1 where 1: "(if i + 1 < length s then enf r i b else Some b) = Some b1"
      "seq_inv V1 out b1" "grows V b V1 b1"
    using enf_ok [OF Cons.prems(1), of r i] Cons.prems(1) grows_refl by (cases "i + 1 < length s") auto
  then have "seq_of b1 r \<noteq> None"
    using keeps_seq [OF _ Cons.prems(2)] unfolding grows_def by blast
  from Cons.IH [OF 1(2) this] obtain V2 b2 where
    "loop (\<lambda>i s. do { n \<leftarrow> seq_len s r; (if i + 1 < n then enf r i s else Some s) }) is b1 = Some b2"
    "seq_inv V2 out b2" "grows V1 b1 V2 b2"
    by blast
  with 1 s show ?case
    by (intro exI [of _ V2] exI [of _ b2]) (auto simp: seq_len_def intro: grows_trans)
qed

text \<open>Optionally enforcing at the left neighbour.\<close>

lemma enforce_left:
  assumes "seq_inv V out b" "seq_of b r \<noteq> None"
  shows "\<exists>V' b'. (if pos > 0 then enf r (pos - 1) (add_digram r (pos - 1) b) else Some b) = Some b'
    \<and> seq_inv V' out b' \<and> grows V b V' b'"
proof (cases "pos > 0")
  case True
  let ?b = "add_digram r (pos - 1) b"
  obtain V' b' where "enf r (pos - 1) ?b = Some b'" "seq_inv V' out b'" "grows V ?b V' b'"
    using enf_ok [OF inv_add_digram [OF assms]] by blast
  moreover have "grows V b V ?b" by (simp add: grows_grammar)
  ultimately show ?thesis using True grows_trans [of V b V ?b V' b'] by auto
qed (use assms grows_refl in auto)

lemma enforce_here:
  assumes "seq_inv V out b" "seq_of b r \<noteq> None"
  shows "\<exists>V' b'. do { m \<leftarrow> seq_len (add_digram r pos b) r;
      (if pos + 1 < m then enf r pos (add_digram r pos b) else Some (add_digram r pos b)) } = Some b'
    \<and> seq_inv V' out b' \<and> grows V b V' b'"
proof -
  let ?b = "add_digram r pos b"
  have i: "seq_inv V out ?b" by (rule inv_add_digram [OF assms])
  have g: "grows V b V ?b" by (simp add: grows_grammar)
  obtain s where "seq_of ?b r = Some s" using assms(2) seq_of_cong [of ?b b r] by auto
  then show ?thesis
    using enf_ok [OF i, of r pos] i g grows_trans [OF g]
    by (cases "pos + 1 < length s") (auto simp: seq_len_def)
qed

end

section \<open>Substitution\<close>

text \<open>Removing two neighbours and inserting one symbol is one edit of the sequence.\<close>

lemma replace_two:
  assumes "bt_ok (rules b)" "seq_of b r = Some (pre @ x # y # post)"
  shows "do { b4 \<leftarrow> seq_remove r (length pre) b; b5 \<leftarrow> seq_remove r (length pre) b4;
      seq_insert r (length pre) z b5 } = Some (put_seq r (pre @ z # post) b)"
proof -
  let ?b4 = "put_seq r (pre @ y # post) b" and ?b5 = "put_seq r (pre @ post) b"
  have "seq_of ?b4 r = Some (pre @ y # post)" "seq_of ?b5 r = Some (pre @ post)"
    using assms(1) by (simp_all add: seq_of_put_seq)
  from seq_remove_split [OF this(1)] seq_insert_split [OF this(2), of z] assms(1)
  have "seq_remove r (length pre) ?b4 = Some ?b5"
    "seq_insert r (length pre) z ?b5 = Some (put_seq r (pre @ z # post) b)"
    by (simp_all add: put_put_seq)
  then show ?thesis
    using seq_remove_split [OF assms(2)] by simp
qed

lemma inv_substituted:
  assumes "seq_inv V out b" "seq_of b r = Some (pre @ x # y # post)"
    and "V N = val V x @ val V y" "N \<in> dom (bt_get (rules b))" "\<And>q. r = Some q \<Longrightarrow> q < N"
  shows "seq_inv V out (put_seq r (pre @ NonTerminal N # post) b)"
proof (rule inv_put_seq [OF assms(1,2)])
  show "closed_seq (rules b) (pre @ NonTerminal N # post)"
    using inv_seq_closed [OF assms(1,2)] assms(4) by (auto simp: closed_seq_def)
  show "q < z" if "r = Some q" "pre @ NonTerminal N # post = [NonTerminal z]" for q z
    using that assms(5) by (cases pre) auto
qed (use assms(3) in auto)

context enforcer
begin

lemma substitute_ok:
  assumes "seq_inv V out b" "digram_at b r pos = Some (x, y)"
    and "V N = val V x @ val V y" "N \<in> dom (bt_get (rules b))" "\<And>q. r = Some q \<Longrightarrow> q < N"
  shows "\<exists>V' b'. substitute_with enf r pos N b = Some b' \<and> seq_inv V' out b' \<and> keeps {} V b V' b' \<and>
    (\<forall>w. admissible w (next_id b) \<longrightarrow> weight w b' + (w x + w y) \<le> weight w b + w (NonTerminal N))"
proof -
  obtain pre post where s: "seq_of b r = Some (pre @ x # y # post)" "length pre = pos"
    using digram_at_split [OF assms(2)] by metis
  define b2 where "b2 = remove_digram r pos (if pos > 0 then remove_digram r (pos - 1) b else b)"
  define b3 where "b3 = (if pos + 2 < length (pre @ x # y # post) then remove_digram r (pos + 1) b2 else b2)"
  have g2: "b_grammar b2 = b_grammar b" by (simp add: b2_def)
  then have g3: "b_grammar b3 = b_grammar b" by (simp add: b3_def)
  have i3: "seq_inv V out b3"
    using assms(1) by (auto simp: b3_def b2_def intro!: inv_remove_digram)
  have s3: "seq_of b3 r = Some (pre @ x # y # post)" using s(1) seq_of_cong [OF g3] by simp
  let ?b6 = "put_seq r (pre @ NonTerminal N # post) b3"
  have i6: "seq_inv V out ?b6"
    using assms(3-5) i3 s3 g3 by (intro inv_substituted) auto
  have w6: "weight w ?b6 + (w x + w y) = weight w b + w (NonTerminal N)" for w
    using weight_put_seq [OF invD(1) [OF i3] s3, of w "pre @ NonTerminal N # post"] weight_cong [OF g3, of w]
    by simp
  have n6: "seq_of ?b6 r \<noteq> None" using seq_of_put_seq [OF invD(1) [OF i3]] by simp
  have k6: "keeps {} V b V ?b6"
    using dom_put_seq [OF invD(1) [OF i3], of r] s3 g3 by (simp add: keeps_def)
  obtain V7 b7 where 7: "(if pos > 0 then enf r (pos - 1) (add_digram r (pos - 1) ?b6) else Some ?b6) = Some b7"
      "seq_inv V7 out b7" "grows V ?b6 V7 b7"
    using enforce_left [OF i6 n6] by blast
  then have n7: "seq_of b7 r \<noteq> None" using keeps_seq [OF _ n6] by (auto simp: grows_def)
  obtain V8 b8 where 8: "do { m \<leftarrow> seq_len (add_digram r pos b7) r;
        (if pos + 1 < m then enf r pos (add_digram r pos b7) else Some (add_digram r pos b7)) } = Some b8"
      "seq_inv V8 out b8" "grows V7 b7 V8 b8"
    using enforce_here [OF 7(2) n7] by blast
  have g: "grows V ?b6 V8 b8" using 7(3) 8(3) by (rule grows_trans)
  have "seq_len b2 r = Some (length (pre @ x # y # post))"
    using s(1) seq_of_cong [OF g2] by (simp add: seq_len_def)
  then have "substitute_with enf r pos N b =
      do { b4 \<leftarrow> seq_remove r pos b3; b5 \<leftarrow> seq_remove r pos b4; b6 \<leftarrow> seq_insert r pos (NonTerminal N) b5;
        b7 \<leftarrow> (if pos > 0 then enf r (pos - 1) (add_digram r (pos - 1) b6) else Some b6);
        m \<leftarrow> seq_len (add_digram r pos b7) r;
        (if pos + 1 < m then enf r pos (add_digram r pos b7) else Some (add_digram r pos b7)) }"
    unfolding substitute_with_def Let_def b2_def [symmetric] by (simp add: b3_def)
  also have "\<dots> = Some b8"
  proof -
    obtain b4 b5 where "seq_remove r pos b3 = Some b4" "seq_remove r pos b4 = Some b5"
      "seq_insert r pos (NonTerminal N) b5 = Some ?b6"
      using replace_two [OF invD(1) [OF i3] s3, of "NonTerminal N"] s(2)
      by (auto simp: bind_eq_Some_conv)
    then show ?thesis by (simp only: 7(1) 8(1) Option.bind.simps)
  qed
  finally have "substitute_with enf r pos N b = Some b8" .
  moreover have "keeps {} V b V8 b8" using k6 g by (auto simp: grows_def intro: keeps_trans)
  moreover have "weight w b8 + (w x + w y) \<le> weight w b + w (NonTerminal N)"
    if "admissible w (next_id b)" for w
  proof -
    have "admissible w (next_id ?b6)" using that g3 by simp
    then have "weight w b8 \<le> weight w ?b6" using g by (simp add: grows_def)
    with w6 [of w] show ?thesis by simp
  qed
  ultimately show ?thesis using 8(2) by blast
qed

end

section \<open>Inlining a rule\<close>

lemma find_sym_Some: "find_sym t s = Some p \<Longrightarrow> \<exists>pre post. s = pre @ NonTerminal t # post \<and> length pre = p"
proof -
  assume "find_sym t s = Some p"
  then have "\<exists>is. filter (\<lambda>i. s ! i = NonTerminal t) [0..<length s] = p # is"
    by (auto simp: find_sym_def split: list.splits)
  then have "p \<in> set (filter (\<lambda>i. s ! i = NonTerminal t) [0..<length s])"
    by (metis list.set_intros(1))
  then have "p < length s" "s ! p = NonTerminal t" by auto
  then show ?thesis
    using id_take_nth_drop [of p s]
    by (intro exI [of _ "take p s"] exI [of _ "drop (Suc p) s"]) simp
qed

lemma find_sym_None: "find_sym t s = None \<Longrightarrow> wsum (ref_weight t) s = 0"
  by (auto simp: find_sym_def wsum_ref_0 filter_empty_conv in_set_conv_nth split: list.splits)

lemma find_in_rules_Some:
  "find_in_rules t m = Some (r, p) \<Longrightarrow> bt_ok m \<Longrightarrow>
   \<exists>q pre post. r = Some q \<and> bt_get m q = Some (pre @ NonTerminal t # post) \<and> length pre = p"
proof (induction t m rule: find_in_rules.induct)
  case (2 t rid body m)
  show ?case
  proof (cases "find_sym t body")
    case None
    with 2 obtain q pre post where q: "r = Some q" "bt_get m q = Some (pre @ NonTerminal t # post)" "length pre = p"
      by (auto simp: bt_ok_def)
    then have "q \<noteq> rid"
      using 2(3) by (auto simp: bt_ok_def bt_get_def dest!: map_of_SomeD)
    with q show ?thesis by (auto simp: bt_get_def)
  next
    case (Some p')
    with 2 find_sym_Some [OF Some] show ?thesis by (auto simp: bt_get_def)
  qed
qed simp

lemma find_in_rules_None:
  "find_in_rules t m = None \<Longrightarrow> sum_list (map (wsum (ref_weight t)) (bt_values m)) = 0"
  by (induction t m rule: find_in_rules.induct)
    (auto simp: bt_values_def find_sym_None split: option.splits)

lemma find_rule_ref_Some:
  assumes "find_rule_ref b t = Some (r, p)" "bt_ok (rules b)"
  obtains pre post where "seq_of b r = Some (pre @ NonTerminal t # post)" "length pre = p"
proof (cases "find_sym t (start b)")
  case None
  with assms that find_in_rules_Some [of t "rules b" r p] show ?thesis
    by (auto simp: find_rule_ref_def)
next
  case (Some q)
  with assms that find_sym_Some [OF Some] show ?thesis by (auto simp: find_rule_ref_def)
qed

lemma find_rule_ref_None: "find_rule_ref b t = None \<Longrightarrow> weight (ref_weight t) b = 0"
  using find_sym_None [of t "start b"] find_in_rules_None [of t "rules b"]
  by (simp add: find_rule_ref_def weight_def split: option.splits)

text \<open>A rule never refers to itself.\<close>

lemma no_self_ref:
  assumes "seq_inv V out b" "bt_get (rules b) N = Some (pre @ NonTerminal N # post)"
  shows False
proof -
  let ?s = "pre @ NonTerminal N # post"
  have ok: "rule_ok V b N ?s" using invD(5) [OF assms(1)] assms(2) .
  then have "length (V N) = length (vals V pre) + length (V N) + length (vals V post)"
    by (metis rule_ok_def vals_simps(2,3) val.simps(2) length_append add.assoc)
  then have "vals V pre = []" "vals V post = []" by simp_all
  moreover have "val V x \<noteq> []" if "x \<in> set ?s" for x
    using inv_val_ne [OF assms(1) _ that] ok by (simp add: rule_ok_def)
  ultimately have "pre = []" "post = []" by (auto simp: vals_def neq_Nil_conv)
  with ok show False by (auto simp: rule_ok_def)
qed

definition inlined :: "nat \<Rightarrow> nat option \<Rightarrow> 'a gsymbol list \<Rightarrow> 'a builder \<Rightarrow> 'a builder" where
  "inlined N r s b = put_seq r s (set_rules (bt_remove N (rules b)) b)"

lemma seq_of_removed:
  "r \<noteq> Some N \<Longrightarrow> seq_of (set_rules (bt_remove N (rules b)) b) r = seq_of b r"
  by (cases r) (auto simp: bt_get_remove)

lemma weight_removed:
  "bt_ok (rules b) \<Longrightarrow> bt_get (rules b) N = Some body \<Longrightarrow>
   weight w (set_rules (bt_remove N (rules b)) b) + wsum w body = weight w b"
  using sum_values_remove [of "rules b" "wsum w" N] by (simp add: weight_def)

lemma weight_inlined:
  assumes "bt_ok (rules b)" "bt_get (rules b) N = Some body" "r \<noteq> Some N"
    "seq_of b r = Some (pre @ NonTerminal N # post)"
  shows "weight w (inlined N r (pre @ body @ post) b) + w (NonTerminal N) = weight w b"
proof -
  let ?b0 = "set_rules (bt_remove N (rules b)) b"
  have "bt_ok (rules ?b0)" using assms(1) by (simp add: bt_ok_remove)
  moreover have "seq_of ?b0 r = Some (pre @ NonTerminal N # post)"
    using assms(4) seq_of_removed [OF assms(3)] by metis
  ultimately show ?thesis
    using weight_put_seq [of ?b0 r "pre @ NonTerminal N # post" w "pre @ body @ post"]
      weight_removed [OF assms(1,2), of w]
    by (simp add: inlined_def)
qed

lemma dom_inlined:
  "bt_ok (rules b) \<Longrightarrow> r \<noteq> Some N \<Longrightarrow> seq_of b r \<noteq> None \<Longrightarrow>
   dom (bt_get (rules (inlined N r s b))) = dom (bt_get (rules b)) - {N}"
  unfolding inlined_def
  by (subst dom_put_seq) (auto simp: bt_ok_remove bt_get_remove seq_of_removed)

lemma closed_after_removal:
  assumes "seq_inv V out b" "bt_ok (rules b')" "dom (bt_get (rules b')) = dom (bt_get (rules b)) - {N}"
    "weight (ref_weight N) b' = 0" "seq_of b' q = Some t" "closed_seq (rules b) t"
  shows "closed_seq (rules b') t"
  using no_refs [OF assms(4,2,5)] assms(3,6) by (auto simp: closed_seq_def)

lemma inv_removed:
  assumes "seq_inv V out b" "bt_get (rules b) N = Some body" "weight (ref_weight N) b = 0"
  shows "seq_inv V out (set_rules (bt_remove N (rules b)) b)"
proof -
  let ?b = "set_rules (bt_remove N (rules b)) b"
  note ok = invD [OF assms(1)]
  have w: "weight (ref_weight N) ?b = 0"
    using weight_removed [OF ok(1) assms(2), of "ref_weight N"] assms(3) by simp
  have o: "bt_ok (rules ?b)" using ok(1) by (simp add: bt_ok_remove)
  have d: "dom (bt_get (rules ?b)) = dom (bt_get (rules b)) - {N}" by (auto simp: bt_get_remove)
  have c: "closed_seq (rules ?b) t" if "seq_of ?b q = Some t" for q t
  proof (rule closed_after_removal [OF assms(1) o d w that])
    show "closed_seq (rules b) t"
      using that inv_seq_closed [OF assms(1), of q t] by (cases q) (auto simp: bt_get_remove split: if_splits)
  qed
  have "rule_ok V ?b r s" if "bt_get (rules ?b) r = Some s" for r s
    using ok(5) [of r s] c [of "Some r" s] that by (auto simp: rule_ok_def bt_get_remove split: if_splits)
  with ok o c [of None] show ?thesis by (auto simp: seq_inv_def index_ok_def)
qed

lemma inv_inlined:
  assumes i: "seq_inv V out b" and N: "bt_get (rules b) N = Some body"
    and w: "weight (ref_weight N) b \<le> 1" and s: "seq_of b r = Some (pre @ NonTerminal N # post)"
    and r: "r \<noteq> Some N"
  shows "seq_inv V out (inlined N r (pre @ body @ post) b)"
proof -
  let ?s = "pre @ body @ post"
  let ?b = "inlined N r ?s b"
  note ok = invD [OF i]
  have Nok: "rule_ok V b N body" using ok(5) N .
  have w0: "weight (ref_weight N) ?b = 0"
    using weight_inlined [OF ok(1) N r s, of "ref_weight N"] w by (simp add: ref_weight_def)
  have o: "bt_ok (rules ?b)" using ok(1) by (simp add: inlined_def bt_ok_put_seq bt_ok_remove)
  have d: "dom (bt_get (rules ?b)) = dom (bt_get (rules b)) - {N}"
    using dom_inlined [OF ok(1) r] s by simp
  have q: "seq_of ?b q = (if q = r then Some ?s else if q = Some N then None else seq_of b q)" for q
    using r ok(1) by (cases q; cases r) (auto simp: inlined_def bt_get_insert bt_ok_remove bt_get_remove)
  have v: "vals V ?s = vals V (pre @ NonTerminal N # post)"
    using Nok by (simp add: rule_ok_def)
  have cs: "closed_seq (rules b) ?s"
    using inv_seq_closed [OF i s] Nok by (auto simp: closed_seq_def rule_ok_def)
  have c: "closed_seq (rules ?b) t" if "seq_of ?b q = Some t" for q t
  proof (rule closed_after_removal [OF i o d w0 that])
    show "closed_seq (rules b) t"
      using that cs inv_seq_closed [OF i, of q t] by (auto simp: q split: if_splits)
  qed
  have singleton: "k < z" if "r = Some k" "?s = [NonTerminal z]" for k z
  proof -
    from that(2) Nok have "pre = []" "post = []" "body = [NonTerminal z]"
      by (auto simp: rule_ok_def append_eq_Cons_conv)
    then have "N < z" "seq_of b r = Some [NonTerminal N]" using Nok s by (auto simp: rule_ok_def)
    with ok(5) [of k "[NonTerminal N]"] that(1) show ?thesis by (auto simp: rule_ok_def)
  qed
  have n: "next_id ?b = next_id b" by (simp add: inlined_def)
  have "rule_ok V ?b k t" if "bt_get (rules ?b) k = Some t" for k t
  proof (cases "r = Some k")
    case True
    then have "t = ?s" using that q [of r] by simp
    moreover have "rule_ok V b k (pre @ NonTerminal N # post)" using ok(5) s True by simp
    ultimately show ?thesis
      using c [of "Some k" t] that singleton True v n Nok unfolding rule_ok_def by auto
  next
    case False
    then have "bt_get (rules b) k = Some t" using that q [of "Some k"] by (auto split: if_splits)
    from ok(5) [OF this] show ?thesis
      using c [of "Some k" t] that n unfolding rule_ok_def by auto
  qed
  moreover have "start ?b = (if r = None then ?s else start b)"
    using q [of None] by (cases r) auto
  then have "vals V (start ?b) = out" using ok(3) v s by auto
  moreover have "index_ok ?b" using ok(4) by (simp add: index_ok_def inlined_def)
  ultimately show ?thesis
    using o c [of None] by (simp add: seq_inv_def)
qed

lemma index_loop:
  "seq_inv V out b \<Longrightarrow> seq_of b r \<noteq> None \<Longrightarrow>
   \<exists>b'. loop (\<lambda>i s. do { n \<leftarrow> seq_len s r; Some (if i + 1 < n then add_digram r i s else s) }) is b = Some b'
     \<and> seq_inv V out b' \<and> b_grammar b' = b_grammar b"
proof (induction "is" arbitrary: b)
  case (Cons i "is")
  obtain s where s: "seq_of b r = Some s" using Cons.prems(2) by auto
  let ?b = "if i + 1 < length s then add_digram r i b else b"
  have g: "b_grammar ?b = b_grammar b" by simp
  moreover have "seq_inv V out ?b" using Cons.prems by (simp add: inv_add_digram)
  moreover have "seq_of ?b r \<noteq> None" using seq_of_cong [OF g] s by simp
  ultimately show ?case
    using Cons.IH [of ?b] s by (cases "i + 1 < length s") (simp_all add: seq_len_def)
qed simp

text \<open>Removing the reference and inserting the body symbol by symbol is one edit.\<close>

lemma inline_edit:
  assumes "bt_ok (rules b)" "seq_of b r = Some (pre @ x # post)" "body \<noteq> []"
  shows "do { b3 \<leftarrow> seq_remove r (length pre) b;
      loop (\<lambda>(i, y). seq_insert r (length pre + i) y) (enumerate 0 body) b3 } =
    Some (put_seq r (pre @ body @ post) b)"
proof -
  let ?b3 = "put_seq r (pre @ post) b"
  have "loop (\<lambda>(i, y). seq_insert r (length pre + i) y) (enumerate 0 body) ?b3 =
      Some (put_seq r (pre @ body @ post) ?b3)"
    using insert_loop [of pre "length pre" 0 ?b3 r post body] assms
    by (simp add: bt_ok_put_seq seq_of_put_seq)
  with seq_remove_split [OF assms(2)] assms(1) show ?thesis by (simp add: put_put_seq)
qed

context enforcer
begin

lemma expand_referenced:
  assumes i: "seq_inv V out b" and N: "bt_get (rules b) N = Some body"
    and w: "weight (ref_weight N) b \<le> 1" and f: "find_rule_ref b N = Some (r, pos)"
  shows "\<exists>V' b'. expand_with enf N b = Some b' \<and> seq_inv V' out b' \<and> keeps {N} V b V' b' \<and>
    (\<forall>w. admissible w (next_id b) \<longrightarrow> weight w b' + w (NonTerminal N) \<le> weight w b)"
proof -
  note ok = invD [OF i]
  obtain pre post where s: "seq_of b r = Some (pre @ NonTerminal N # post)" "length pre = pos"
    using find_rule_ref_Some [OF f ok(1)] .
  have r: "r \<noteq> Some N" using no_self_ref [OF i] s(1) by (auto simp del: append_Cons)
  define b2 where "b2 = (let b0 = set_rules (bt_remove N (rules b)) b in
    remove_digram r pos (if pos > 0 then remove_digram r (pos - 1) b0 else b0))"
  let ?b0 = "set_rules (bt_remove N (rules b)) b"
  have g2: "b_grammar b2 = b_grammar ?b0" by (simp add: b2_def Let_def)
  have s2: "seq_of b2 r = Some (pre @ NonTerminal N # post)"
    using seq_of_cong [OF g2] seq_of_removed [OF r] s(1) by metis
  have ok2: "bt_ok (rules b2)" using ok(1) g2 by (simp add: bt_ok_remove)
  let ?b4 = "put_seq r (pre @ body @ post) b2"
  have g4: "b_grammar ?b4 = b_grammar (inlined N r (pre @ body @ post) b)"
    unfolding inlined_def by (rule put_seq_cong [OF g2])
  have "index_ok b2"
    using ok(4) by (auto simp: b2_def Let_def intro!: index_ok_remove) (simp_all add: index_ok_def)
  then have "index_ok ?b4" using g2 by (simp add: index_ok_def)
  with inv_grammar_cong [OF g4] inv_inlined [OF i N w s(1) r]
  have i4: "seq_inv V out ?b4" by blast
  have n4: "seq_of ?b4 r \<noteq> None" using seq_of_put_seq [OF ok2] by simp
  have w4: "weight w ?b4 + w (NonTerminal N) = weight w b" for w
    using weight_cong [OF g4] weight_inlined [OF ok(1) N r s(1)] by simp
  have k4: "keeps {N} V b V ?b4"
    using dom_inlined [OF ok(1) r, of "pre @ body @ post"] s(1) g4
    by (simp add: keeps_def) (simp add: inlined_def)
  let ?span = "[pos - 1..<pos + length body]"
  obtain b5 where 5: "loop (\<lambda>i s. do { n \<leftarrow> seq_len s r; Some (if i + 1 < n then add_digram r i s else s) })
      ?span ?b4 = Some b5" "seq_inv V out b5" "b_grammar b5 = b_grammar ?b4"
    using index_loop [OF i4 n4] by blast
  then have "seq_of b5 r \<noteq> None" using n4 seq_of_cong [of b5 ?b4 r] by simp
  from recheck_loop [OF 5(2) this, of ?span] obtain V6 b6 where
    6: "loop (\<lambda>i s. do { n \<leftarrow> seq_len s r; (if i + 1 < n then enf r i s else Some s) }) ?span b5 = Some b6"
      "seq_inv V6 out b6" "grows V b5 V6 b6"
    by blast
  have g: "grows V ?b4 V6 b6" using grows_trans [OF grows_grammar [OF 5(3)] 6(3)] .
  have "body \<noteq> []" using ok(5) [OF N] by (simp add: rule_ok_def)
  from inline_edit [OF ok2 s2 this] obtain b3 where
    "seq_remove r pos b2 = Some b3"
    "loop (\<lambda>(i, y). seq_insert r (pos + i) y) (enumerate 0 body) b3 = Some ?b4"
    using s(2) by (auto simp: bind_eq_Some_conv)
  then have "expand_with enf N b = Some b6"
    unfolding expand_with_def N f Let_def option.case prod.case b2_def [unfolded Let_def, symmetric]
    by (simp only: 5(1) 6(1) Option.bind.simps)
  moreover have "keeps {N} V b V6 b6" using k4 g keeps_trans unfolding grows_def by blast
  moreover have "weight w b6 + w (NonTerminal N) \<le> weight w b" if "admissible w (next_id b)" for w
  proof -
    have "next_id ?b4 = next_id b" using g4 by (simp add: inlined_def)
    then have "weight w b6 \<le> weight w ?b4" using g that by (simp add: grows_def)
    with w4 [of w] show ?thesis by simp
  qed
  ultimately show ?thesis using 6(2) by blast
qed

lemma expand_ok:
  assumes i: "seq_inv V out b" and N: "bt_get (rules b) N = Some body"
    and w: "count_rule_refs b N \<le> 1"
  shows "\<exists>V' b'. expand_with enf N b = Some b' \<and> seq_inv V' out b' \<and> keeps {N} V b V' b' \<and>
    (\<forall>w. admissible w (next_id b) \<longrightarrow>
       weight w b' + (if count_rule_refs b N = 1 then w (NonTerminal N) else wsum w body) \<le> weight w b)"
proof (cases "find_rule_ref b N")
  case None
  let ?b0 = "set_rules (bt_remove N (rules b)) b"
  have z: "weight (ref_weight N) b = 0" using None by (rule find_rule_ref_None)
  have "expand_with enf N b = Some ?b0" by (simp add: expand_with_def N None)
  moreover have "seq_inv V out ?b0" using inv_removed [OF i N z] .
  moreover have "keeps {N} V b V ?b0" by (auto simp: keeps_def bt_get_remove)
  ultimately show ?thesis
    using weight_removed [OF invD(1) [OF i] N] z by (auto simp: count_rule_refs_weight intro!: exI)
next
  case (Some rp)
  obtain r pos where f: "find_rule_ref b N = Some (r, pos)" using Some by (cases rp) simp
  obtain pre post where "seq_of b r = Some (pre @ NonTerminal N # post)"
    using find_rule_ref_Some [OF f invD(1) [OF i]] .
  then have "count_rule_refs b N \<noteq> 0"
    using no_refs [OF _ invD(1) [OF i], of N r] by (fastforce simp: count_rule_refs_weight)
  with w have "count_rule_refs b N = 1" by simp
  with expand_referenced [OF i N _ f] w show ?thesis by (simp add: count_rule_refs_weight)
qed

end

section \<open>Enforcement at every depth\<close>

text \<open>A fresh rule for a digram that occurs in the grammar.\<close>

definition with_rule :: "'a gsymbol \<Rightarrow> 'a gsymbol \<Rightarrow> 'a builder \<Rightarrow> 'a builder" where
  "with_rule x y b = b\<lparr>b_grammar := (b_grammar b)
     \<lparr>g_next_rule_id := next_id b + 1, g_rules := bt_insert (next_id b) [x, y] (rules b)\<rparr>\<rparr>"

lemma with_rule_sel [simp]:
  "rules (with_rule x y b) = bt_insert (next_id b) [x, y] (rules b)"
  "start (with_rule x y b) = start b" "next_id (with_rule x y b) = next_id b + 1"
  "b_digram_index (with_rule x y b) = b_digram_index b"
  by (simp_all add: with_rule_def)

lemma inv_fresh: "seq_inv V out b \<Longrightarrow> bt_get (rules b) (next_id b) = None"
  using inv_dom_less [of V out b "next_id b"] by auto

lemma vals_fresh:
  "seq_inv V out b \<Longrightarrow> closed_seq (rules b) s \<Longrightarrow> vals (V(next_id b := l)) s = vals V s"
proof (induction s)
  case (Cons x s)
  then have "val (V(next_id b := l)) x = val V x"
    using inv_fresh [OF Cons.prems(1)] by (cases x) (auto simp: closed_seq_def)
  moreover have "closed_seq (rules b) s" using Cons.prems(2) by (simp add: closed_seq_def)
  ultimately show ?case using Cons.IH [OF Cons.prems(1)] by (simp del: fun_upd_apply)
qed simp

lemma inv_with_rule:
  assumes i: "seq_inv V out b" and c: "closed_seq (rules b) [x, y]"
  shows "seq_inv (V(next_id b := val V x @ val V y)) out (with_rule x y b)"
proof -
  note ok = invD [OF i]
  let ?V = "V(next_id b := val V x @ val V y)" and ?b = "with_rule x y b"
  have g: "bt_get (rules ?b) = (bt_get (rules b))(next_id b \<mapsto> [x, y])"
    using ok(1) by (simp add: bt_get_insert)
  have cl: "closed_seq (rules ?b) s" if "closed_seq (rules b) s" for s
    using that g by (auto simp: closed_seq_def)
  have "vals ?V [x, y] = val V x @ val V y" "val V x \<noteq> []"
    using vals_fresh [OF i c] inv_val_ne [OF i c, of x] by simp_all
  then have "rule_ok ?V ?b (next_id b) [x, y]"
    using cl [OF c] by (simp add: rule_ok_def)
  moreover have "rule_ok ?V ?b r s" if "bt_get (rules b) r = Some s" for r s
  proof -
    have "rule_ok V b r s" using ok(5) that .
    then show ?thesis using vals_fresh [OF i] cl unfolding rule_ok_def by auto
  qed
  ultimately have "rule_ok ?V ?b r s" if "bt_get (rules ?b) r = Some s" for r s
    using that g by (auto split: if_splits)
  moreover have "vals ?V (start ?b) = out" using vals_fresh [OF i ok(2)] ok(3) by simp
  moreover have "index_ok ?b" using ok(4) by (fastforce simp: index_ok_def)
  ultimately show ?thesis
    using ok(1) cl [OF ok(2)] by (simp add: seq_inv_def bt_ok_insert)
qed

lemma weight_with_rule:
  assumes "seq_inv V out b"
  shows "weight w (with_rule x y b) = weight w b + (w x + w y)"
  using sum_values_insert [OF invD(1) [OF assms], of "wsum w" "next_id b" "[x, y]"] inv_fresh [OF assms]
  by (simp add: weight_def)

context enforcer
begin

text \<open>The substitution loop: after \<open>n\<close> substitutions the weight has dropped \<open>n\<close> times.\<close>

lemma substitute_loop:
  "seq_inv V out b \<Longrightarrow> V N = val V x @ val V y \<Longrightarrow> N \<in> dom (bt_get (rules b)) \<Longrightarrow>
   closed_seq (rules b) [x, y] \<Longrightarrow> \<forall>q p. (Some q, p) \<in> set occs \<longrightarrow> q < N \<Longrightarrow>
   \<exists>V' b' n. loop (\<lambda>(r, p) s. if digram_at s r p = Some (x, y)
        then substitute_with enf r p N s else Some s) occs b = Some b' \<and>
     seq_inv V' out b' \<and> keeps {} V b V' b' \<and> (n = 0 \<longrightarrow> b' = b) \<and>
     (\<forall>w. admissible w (next_id b) \<longrightarrow>
        weight w b' + n * (w x + w y) \<le> weight w b + n * w (NonTerminal N))"
proof (induction occs arbitrary: V b)
  case Nil
  then show ?case by (intro exI [of _ V] exI [of _ b] exI [of _ 0]) (simp add: keeps_def)
next
  case (Cons o' occs)
  obtain r p where o': "o' = (r, p)" by (cases o')
  show ?case
  proof (cases "digram_at b r p = Some (x, y)")
    case False
    have "\<forall>q p. (Some q, p) \<in> set occs \<longrightarrow> q < N" using Cons.prems(5) by simp
    from Cons.IH [OF Cons.prems(1-4) this] False o' show ?thesis by simp
  next
    case True
    from substitute_ok [OF Cons.prems(1) True Cons.prems(2,3)] Cons.prems(5) o' obtain V1 b1 where
      1: "substitute_with enf r p N b = Some b1" "seq_inv V1 out b1" "keeps {} V b V1 b1"
        "\<And>w. admissible w (next_id b) \<Longrightarrow> weight w b1 + (w x + w y) \<le> weight w b + w (NonTerminal N)"
      by (metis list.set_intros(1))
    have N: "N < next_id b" "N \<in> dom (bt_get (rules b1))"
      using inv_dom_less [OF Cons.prems(1,3)] 1(3) Cons.prems(3) by (auto simp: keeps_def)
    have c: "closed_seq (rules b1) [x, y]"
      using Cons.prems(4) 1(3) unfolding closed_seq_def keeps_def by blast
    have "val V1 z = val V z" if "z \<in> set [x, y]" for z
      using keeps_val [OF Cons.prems(1) 1(3) Cons.prems(4) that] .
    then have V1: "V1 N = val V1 x @ val V1 y"
      using Cons.prems(2) N 1(3) by (simp add: keeps_def)
    have "\<forall>q p. (Some q, p) \<in> set occs \<longrightarrow> q < N" using Cons.prems(5) by simp
    from Cons.IH [OF 1(2) V1 N(2) c this] obtain V2 b2 n where
      2: "loop (\<lambda>(r, p) s. if digram_at s r p = Some (x, y) then substitute_with enf r p N s else Some s)
          occs b1 = Some b2" "seq_inv V2 out b2" "keeps {} V1 b1 V2 b2"
        "\<And>w. admissible w (next_id b1) \<Longrightarrow>
          weight w b2 + n * (w x + w y) \<le> weight w b1 + n * w (NonTerminal N)"
      by blast
    have "weight w b2 + Suc n * (w x + w y) \<le> weight w b + Suc n * w (NonTerminal N)"
      if "admissible w (next_id b)" for w
      using 1(4) [OF that] 2(4) [of w] admissible_mono [OF that, of "next_id b1"] 1(3)
      by (auto simp: keeps_def)
    with True 1(1) 2 o' keeps_trans [OF 1(3) 2(3)] show ?thesis
      by (intro exI [of _ V2] exI [of _ b2] exI [of _ "Suc n"]) simp
  qed
qed

end

lemma grows_fresh_rule:
  assumes i: "seq_inv V out b" and x: "closed_seq (rules b) [x, y]"
    and 0: "b0 = with_rule x y b" and N: "N = next_id b"
    and 1: "keeps {} V0 b0 V1 b1" "\<forall>r<N. V0 r = V r" "n = 0 \<longrightarrow> b1 = b0"
      "\<And>w. admissible w (next_id b0) \<Longrightarrow> weight w b1 + n * (w x + w y) \<le> weight w b0 + n * w (NonTerminal N)"
    and body: "bt_get (rules b1) N = Some body" "body \<noteq> []"
    and 2: "if count_rule_refs b1 N < 2
      then keeps {N} V1 b1 V2 b2 \<and> (\<forall>w. admissible w (next_id b1) \<longrightarrow>
        weight w b2 + (if count_rule_refs b1 N = 1 then w (NonTerminal N) else wsum w body) \<le> weight w b1)
      else V2 = V1 \<and> b2 = b1"
  shows "grows V b V2 b2"
proof -
  have fresh: "N \<notin> dom (bt_get (rules b))" using inv_fresh [OF i] N by auto
  have w0: "weight w b0 = weight w b + (w x + w y)" for w
    using weight_with_rule [OF i] by (simp add: 0)
  have xy: "ref_weight N x = 0" "ref_weight N y = 0"
    using closed_no_refs [OF x fresh] by simp_all
  have refs: "count_rule_refs b1 N \<le> n"
    using 1(4) [OF admissible_ref, of N] unknown_rule_no_refs [OF i fresh] w0 [of "ref_weight N"] xy
    by (simp add: 0 N count_rule_refs_weight ref_weight_def)
  have z: "count_rule_refs b1 N = 0 \<and> body = [x, y]" if "n = 0"
    using that refs 1(3) body(1) invD(1) [OF i] by (simp add: 0 N bt_get_insert)
  have b1: "next_id b < next_id b1" using 1(1) by (simp add: keeps_def 0)
  have "weight w b2 \<le> weight w b" if a: "admissible w (next_id b)" for w
  proof -
    have adm: "admissible w (next_id b0)" "admissible w (next_id b1)"
      using a b1 by (auto intro: admissible_mono simp: 0)
    note W1 = 1(4) [OF adm(1)]
    show ?thesis
    proof (cases "n = 0")
      case True
      then show ?thesis using 2 z W1 w0 [of w] adm(2) by fastforce
    next
      case False
      have "w (NonTerminal N) = 0 \<or> (\<forall>z. w z = 1)"
        using a N by (auto simp: admissible_def)
      then show ?thesis
      proof
        assume "w (NonTerminal N) = 0"
        moreover have "weight w b2 \<le> weight w b1" using 2 adm(2) by (fastforce split: if_splits)
        moreover obtain m where "n = Suc m" using False by (cases n) auto
        ultimately show ?thesis using W1 w0 [of w] by (simp add: algebra_simps)
      next
        assume one: "\<forall>z. w z = 1"
        have "wsum w body \<ge> 1" using body(2) one by (cases body) simp_all
        then have "weight w b2 + (if count_rule_refs b1 N < 2 then 1 else 0) \<le> weight w b1"
          using 2 adm(2) one by (fastforce split: if_splits)
        then show ?thesis using W1 w0 [of w] one refs False by (auto split: if_splits)
      qed
    qed
  qed
  moreover have "keeps {} V b V2 b2"
  proof -
    have "keeps {} V b V0 b0"
      using 1(2) invD(1) [OF i] by (auto simp: keeps_def 0 N bt_get_insert)
    from keeps_trans [OF this 1(1)] have k: "keeps {} V b V1 b1" .
    then show ?thesis
      using 2 keeps_trans_fresh [OF k _ fresh] by (simp split: if_splits)
  qed
  ultimately show ?thesis by (simp add: grows_def)
qed

lemma enforce_step:
  assumes e: "enforcer (enforce_digram_uniqueness_depth (depth + 2) :: nat option \<Rightarrow> nat \<Rightarrow> 'a builder \<Rightarrow> 'a builder option)"
    and i: "seq_inv V out (b :: 'a builder)" and d: "digram_at b r pos = Some (x, y)"
    and o: "b_digram_index b (x, y) = Some occs" "length occs > 1" and depth: "\<not> depth > MAX_DEPTH"
  shows "\<exists>V' b'. enforce_digram_uniqueness_depth depth r pos b = Some b' \<and> seq_inv V' out b' \<and> grows V b V' b'"
proof -
  let ?enf = "enforce_digram_uniqueness_depth (depth + 2) :: nat option \<Rightarrow> nat \<Rightarrow> 'a builder \<Rightarrow> 'a builder option"
  let ?N = "next_id b" and ?b0 = "with_rule x y b"
  let ?V0 = "V(?N := val V x @ val V y)"
  obtain pre post where s: "seq_of b r = Some (pre @ x # y # post)" using digram_at_split [OF d] by metis
  have c: "closed_seq (rules b) [x, y]" using inv_seq_closed [OF i s] by (simp add: closed_seq_def)
  have i0: "seq_inv ?V0 out ?b0" by (rule inv_with_rule [OF i c])
  have V0: "?V0 ?N = val ?V0 x @ val ?V0 y" using vals_fresh [OF i c, of "val V x @ val V y"] by simp
  have N0: "?N \<in> dom (bt_get (rules ?b0))" and c0: "closed_seq (rules ?b0) [x, y]"
    using invD(1) [OF i] c by (auto simp: bt_get_insert closed_seq_def)
  have "\<forall>q p. (Some q, p) \<in> set (rev occs) \<longrightarrow> q < ?N"
    using invD(4) [OF i] o(1) unfolding index_ok_def set_rev by blast
  from enforcer.substitute_loop [OF e i0 V0 N0 c0 this] obtain V1 b1 n where
    1: "loop (\<lambda>(r, p) s. if digram_at s r p = Some (x, y) then substitute_with ?enf r p ?N s else Some s)
        (rev occs) ?b0 = Some b1" "seq_inv V1 out b1" "keeps {} ?V0 ?b0 V1 b1" "n = 0 \<longrightarrow> b1 = ?b0"
      "\<forall>w. admissible w (next_id ?b0) \<longrightarrow>
        weight w b1 + n * (w x + w y) \<le> weight w ?b0 + n * w (NonTerminal ?N)"
    by (elim exE conjE)
  obtain body where body: "bt_get (rules b1) ?N = Some body" "body \<noteq> []"
  proof -
    have "?N \<in> dom (bt_get (rules b1))" using 1(3) N0 unfolding keeps_def by blast
    then obtain body where "bt_get (rules b1) ?N = Some body" by auto
    with that [of body] invD(5) [OF 1(2) this] show ?thesis by (simp add: rule_ok_def)
  qed
  obtain V2 b2 where
    2: "(if count_rule_refs b1 ?N < 2 then expand_with ?enf ?N b1 else Some b1) = Some b2"
      "seq_inv V2 out b2" "if count_rule_refs b1 ?N < 2
        then keeps {?N} V1 b1 V2 b2 \<and> (\<forall>w. admissible w (next_id b1) \<longrightarrow>
          weight w b2 + (if count_rule_refs b1 ?N = 1 then w (NonTerminal ?N) else wsum w body) \<le> weight w b1)
        else V2 = V1 \<and> b2 = b1"
  proof (cases "count_rule_refs b1 ?N < 2")
    case True
    with enforcer.expand_ok [OF e 1(2) body(1)] obtain V2 b2 where
      "expand_with ?enf ?N b1 = Some b2" "seq_inv V2 out b2" "keeps {?N} V1 b1 V2 b2"
      "\<forall>w. admissible w (next_id b1) \<longrightarrow>
         weight w b2 + (if count_rule_refs b1 ?N = 1 then w (NonTerminal ?N) else wsum w body) \<le> weight w b1"
      by auto
    with True that [of b2 V2] show ?thesis by simp
  qed (use 1(2) that in simp)
  have "grows V b V2 b2"
    by (rule grows_fresh_rule [OF i c refl refl 1(3) _ 1(4) _ body 2(3)]) (use 1(5) in simp_all)
  moreover have "enforce_digram_uniqueness_depth depth r pos b = Some b2"
    using depth d o 1(1) 2(1)
    by (subst enforce_digram_uniqueness_depth.simps)
      (simp add: fresh_rule_id_def with_rule_def Let_def)
  ultimately show ?thesis using 2(2) by blast
qed

lemma enforcer_depth:
  "enforcer (enforce_digram_uniqueness_depth depth :: nat option \<Rightarrow> nat \<Rightarrow> 'a builder \<Rightarrow> 'a builder option)"
proof (induction "MAX_DEPTH + 1 - depth" arbitrary: depth rule: less_induct)
  case less
  show ?case
  proof
    fix V :: "nat \<Rightarrow> 'a list" and out b r pos
    assume i: "seq_inv V out b"
    note eqn = enforce_digram_uniqueness_depth.simps [of depth r pos b]
    show "\<exists>V' b'. enforce_digram_uniqueness_depth depth r pos b = Some b' \<and> seq_inv V' out b' \<and> grows V b V' b'"
    proof (cases "\<not> depth > MAX_DEPTH \<and> (\<exists>x y occs. digram_at b r pos = Some (x, y) \<and>
        b_digram_index b (x, y) = Some occs \<and> length occs > 1)")
      case True
      then have "enforcer (enforce_digram_uniqueness_depth (depth + 2) :: nat option \<Rightarrow> nat \<Rightarrow> 'a builder \<Rightarrow> 'a builder option)"
        by (intro less) auto
      with True i show ?thesis using enforce_step by blast
    next
      case False
      then have "enforce_digram_uniqueness_depth depth r pos b = Some b"
        unfolding eqn by (auto split: option.splits prod.splits)
      then show ?thesis using i grows_refl by blast
    qed
  qed
qed

interpretation enforce: enforcer "enforce_digram_uniqueness_depth depth" for depth
  by (rule enforcer_depth)

section \<open>The whole build\<close>

lemma append_ok:
  assumes i: "seq_inv V out b"
  shows "\<exists>V' b'. append_symbol (Terminal t) b = Some b' \<and> seq_inv V' (out @ [t]) b'"
proof -
  let ?b = "set_start (start b @ [Terminal t]) b"
  have "rule_ok V ?b = rule_ok V b" unfolding rule_ok_def by simp
  then have i1: "seq_inv V (out @ [t]) ?b"
    using invD [OF i] by (auto simp: seq_inv_def index_ok_def closed_seq_def)
  then have "seq_inv V (out @ [t]) (add_digram None (length (start b) - 1) ?b)"
    by (rule inv_add_digram) simp
  from enforce.enf_ok [OF this, of 0 None "length (start b) - 1"] i1 show ?thesis
    by (auto simp: append_symbol_def Let_def)
qed

lemma append_loop:
  "seq_inv V out b \<Longrightarrow>
   \<exists>V' b'. loop (\<lambda>t. append_symbol (Terminal t)) input b = Some b' \<and> seq_inv V' (out @ input) b'"
proof (induction input arbitrary: V out b)
  case (Cons t input)
  obtain V1 b1 where "append_symbol (Terminal t) b = Some b1" "seq_inv V1 (out @ [t]) b1"
    using append_ok [OF Cons.prems] by blast
  with Cons.IH [OF this(2)] show ?case by simp
qed auto

lemma inv_new: "seq_inv V [] builder_new"
  by (simp add: seq_inv_def builder_new_def grammar_new_def bt_ok_def closed_seq_def bt_get_def index_ok_def)

lemma underused_Some:
  "underused b = Some r \<Longrightarrow> \<exists>body. bt_get (rules b) r = Some body \<and> count_rule_refs b r \<le> 1"
  by (force simp: underused_def find_Some_iff bt_keys_def bt_get_def in_set_conv_nth
      dest: nth_mem simp: map_of_eq_None_iff simp flip: not_None_eq)

lemma underused_None: "underused b = None \<Longrightarrow> r \<in> set (bt_keys (rules b)) \<Longrightarrow> 2 \<le> count_rule_refs b r"
  by (auto simp: underused_def find_None_iff)

text \<open>Every round of the clean-up loop makes the grammar smaller, so the loop ends.\<close>

lemma cleanup_ends:
  "seq_inv V out b \<Longrightarrow>
   \<exists>V' b'. enforce_global_rule_utility b = Some b' \<and> seq_inv V' out b' \<and> underused b' = None"
proof (induction "weight (\<lambda>_. 1) b" arbitrary: V b rule: less_induct)
  case less
  note eqn = enforce_global_rule_utility.simps [of b]
  show ?case
  proof (cases "underused b")
    case None
    then show ?thesis using less.prems eqn by auto
  next
    case (Some r)
    then obtain body where r: "bt_get (rules b) r = Some body" "count_rule_refs b r \<le> 1"
      using underused_Some by blast
    then obtain V1 b1 where 1: "expand_rule_depth 0 r b = Some b1" "seq_inv V1 out b1"
        "weight (\<lambda>_. 1) b1 + (if count_rule_refs b r = 1 then 1 else wsum (\<lambda>_. 1) body) \<le> weight (\<lambda>_. 1) b"
      using enforce.expand_ok [OF less.prems r] admissible_size unfolding expand_rule_depth_def by blast
    have "body \<noteq> []" using invD(5) [OF less.prems r(1)] by (simp add: rule_ok_def)
    then have "wsum (\<lambda>_. 1) body \<ge> 1" by (cases body) simp_all
    with 1(3) have "weight (\<lambda>_. 1) b1 < weight (\<lambda>_. 1) b" by (auto split: if_splits)
    from less.hyps [OF this 1(2)] show ?thesis using eqn Some 1(1) by simp
  qed
qed

text \<open>Expansion follows the values: the cycle guard never fires.\<close>

definition below :: "(nat \<Rightarrow> 'a list) \<Rightarrow> nat \<Rightarrow> nat \<Rightarrow> bool" where
  "below V s r = (length (V s) < length (V r) \<or> length (V s) = length (V r) \<and> r < s)"

lemma below_trans: "below V x y \<Longrightarrow> below V y z \<Longrightarrow> below V x z"
  by (auto simp: below_def)

lemma below_body:
  assumes i: "seq_inv V out b" and r: "bt_get (rules b) r = Some body" and s: "NonTerminal s \<in> set body"
  shows "below V s r"
proof -
  have ok: "rule_ok V b r body" using invD(5) [OF i r] .
  obtain pre post where body: "body = pre @ NonTerminal s # post" using s by (auto dest: split_list)
  then have len: "length (V r) = length (vals V pre) + length (V s) + length (vals V post)"
    using ok by (simp add: rule_ok_def)
  have ne: "val V x \<noteq> []" if "x \<in> set body" for x
    using inv_val_ne [OF i _ that] ok by (simp add: rule_ok_def)
  show ?thesis
  proof (cases "pre = [] \<and> post = []")
    case True
    then have "r < s" using ok body by (simp add: rule_ok_def)
    with True len show ?thesis by (simp add: below_def)
  next
    case False
    then have "vals V pre \<noteq> [] \<or> vals V post \<noteq> []"
      using ne body by (cases pre; cases post) auto
    with len show ?thesis by (auto simp: below_def)
  qed
qed

lemma expand_seq_vals:
  "seq_inv V out b \<Longrightarrow> closed_seq (rules b) s \<Longrightarrow>
   (\<forall>x. NonTerminal x \<in> set s \<longrightarrow> (\<forall>r\<in>set stack. below V x r)) \<Longrightarrow>
   expand_seq (rules b) s stack = vals V s"
proof (induction "rules b" s stack rule: expand_seq.induct)
  case (3 rid seq stack)
  then obtain body where body: "bt_get (rules b) rid = Some body" by (auto simp: closed_seq_def)
  have ns: "rid \<notin> set stack" using 3(5) by (auto simp: below_def)
  have ok: "rule_ok V b rid body" using invD(5) [OF 3(3) body] .
  have "below V x r" if "NonTerminal x \<in> set body" "r \<in> set (stack @ [rid])" for x r
    using below_body [OF 3(3) body that(1)] that(2) 3(5) by (auto intro: below_trans)
  then have "expand_seq (rules b) body (stack @ [rid]) = vals V body"
    using 3(1) [OF ns body 3(3)] ok by (auto simp: rule_ok_def)
  moreover have "expand_seq (rules b) seq stack = vals V seq"
    using 3(2-5) by (auto simp: closed_seq_def)
  ultimately show ?case using ns body ok by (simp add: rule_ok_def)
qed (auto simp: closed_seq_def)

lemma build_spec:
  "\<exists>b V. build input = Some (b_grammar b) \<and> seq_inv V input b \<and> underused b = None"
proof -
  obtain V b where 1: "loop (\<lambda>t. append_symbol (Terminal t)) input builder_new = Some b" "seq_inv V input b"
    using append_loop [OF inv_new [of "\<lambda>_. []"], of input] by auto
  from cleanup_ends [OF 1(2)] 1(1) show ?thesis by (auto simp: build_def)
qed

section \<open>The counts of the invariant check\<close>

definition count_of :: "(nat, nat) btree \<Rightarrow> nat \<Rightarrow> nat" where
  "count_of m r = (case bt_get m r of None \<Rightarrow> 0 | Some c \<Rightarrow> c)"

lemma bump_step:
  assumes "bt_ok m"
  shows "bt_ok (bump m x)" "count_of (bump m x) r = count_of m r + refs_in r [x]"
    "dom (bt_get (bump m x)) = dom (bt_get m) \<union> {r. x = NonTerminal r}"
  using assms by (cases x; auto simp: bump_def bt_ok_insert bt_get_insert count_of_def refs_in_def)+

lemma bump_fold:
  "bt_ok m \<Longrightarrow> bt_ok (foldl bump m s) \<and>
   (\<forall>r. count_of (foldl bump m s) r = count_of m r + refs_in r s) \<and>
   dom (bt_get (foldl bump m s)) = dom (bt_get m) \<union> {r. NonTerminal r \<in> set s}"
proof (induction s rule: rev_induct)
  case (snoc x s)
  then have ok: "bt_ok (foldl bump m s)" by simp
  from snoc show ?case
    by (auto simp: bump_step [OF ok] refs_in_def)
qed (simp add: refs_in_def)

lemma zero_fold:
  "bt_ok m \<Longrightarrow> bt_ok (foldl (\<lambda>c r. bt_insert r 0 c) m ks) \<and>
   bt_get (foldl (\<lambda>c r. bt_insert r 0 c) m ks) = (\<lambda>r. if r \<in> set ks then Some (0::nat) else bt_get m r)"
  by (induction ks rule: rev_induct) (auto simp: bt_ok_insert bt_get_insert)

lemma refs_in_concat: "refs_in r (concat ss) = sum_list (map (refs_in r) ss)"
  by (induction ss) (simp_all add: refs_in_def)

lemma refs_in_append: "refs_in r (s @ t) = refs_in r s + refs_in r t"
  by (simp add: refs_in_def)

lemma count_all_refs_entries:
  assumes i: "seq_inv V out b" and p: "(r, n) \<in> set (count_all_refs (b_grammar b))"
  shows "r \<in> set (bt_keys (rules b)) \<and> n = count_rule_refs b r"
proof -
  define z :: "(nat, nat) btree" where "z = foldl (\<lambda>c r. bt_insert r 0 c) [] (bt_keys (rules b))"
  have z: "bt_ok z" "count_of z r = 0" "dom (bt_get z) = set (bt_keys (rules b))"
    using zero_fold [of "[]" "bt_keys (rules b)"]
    by (auto simp: z_def bt_ok_def count_of_def bt_get_def split: if_splits)
  let ?s = "start b @ concat (bt_values (rules b))"
  have eq: "count_all_refs (b_grammar b) = foldl bump z ?s"
    by (simp add: count_all_refs_def z_def)
  note f = bump_fold [OF z(1), of ?s]
  have get: "bt_get (foldl bump z ?s) r = Some n"
    using p f by (simp add: eq bt_get_def bt_ok_def strict_sorted_iff)
  then have "n = count_of (foldl bump z ?s) r" by (simp add: count_of_def)
  also have "\<dots> = count_rule_refs b r"
    using f z(2) by (simp add: count_rule_refs_def refs_in_append refs_in_concat)
  finally have n: "n = count_rule_refs b r" .
  have "t \<in> dom (bt_get (rules b))" if "NonTerminal t \<in> set ?s" for t
    using that invD [OF i] by (force simp: closed_seq_def bt_values_get ran_def rule_ok_def)
  then have "r \<in> dom (bt_get (rules b))"
    using get f z(3) bt.keys_dom [OF invD(1) [OF i]] by blast
  with n show ?thesis using bt.keys_dom [OF invD(1) [OF i]] by simp
qed

section \<open>Properties\<close>


text \<open>Every grammar the builder returns passes the expansion check and the rule-utility
  check of the module: each rule that is kept is referenced at least twice.\<close>

theorem sequitur_rule_utility:
  "\<exists>g. build input = Some g \<and> check_expansion g input = None \<and> check_rule_utility g = None"
proof -
  obtain b V where b: "build input = Some (b_grammar b)" "seq_inv V input b" "underused b = None"
    using build_spec by blast
  have "expand (b_grammar b) = input"
    using expand_seq_vals [OF b(2) invD(2) [OF b(2)]] invD(3) [OF b(2)] by (simp add: expand_def)
  moreover have "find (\<lambda>p. snd p < 2) (count_all_refs (b_grammar b)) = None"
    using count_all_refs_entries [OF b(2)] underused_None [OF b(3)]
    by (fastforce simp: find_None_iff)
  ultimately show ?thesis
    using b(1) by (simp add: check_expansion_def check_rule_utility_def)
qed


end
