(* ===== verification/Waves.thy ===== *)
theory Waves
  imports Tokenize Sequitur_Facts
begin

text \<open>
  Impact waves (\<open>src/src/waves.rs\<close>, \<open>src/src/domain/wave.rs\<close>): clusters of route transitions
  separated by gaps, each with the SEQUITUR motif its streams share. The hash map of streams
  is visited in an order that the process chooses; \<open>visit\<close> is that order of the keys. A \<open>None\<close>
  is a panic, which the grammar builder could raise and does not.
\<close>

section \<open>Motif identity\<close>

definition fnv_step :: "u64 \<Rightarrow> char \<Rightarrow> u64" where
  "fnv_step hash byte = (hash XOR of_char byte) * 0x100000001b3"

definition hex16 :: "u64 \<Rightarrow> string" where
  "hex16 w = (let s = show_base 16 (unat w) in replicate (16 - length s) CHR ''0'' @ s)"

definition fnv1a_64 :: "string \<Rightarrow> string" where
  "fnv1a_64 data = hex16 (foldl fnv_step 0xcbf29ce484222325 data)"

section \<open>Data\<close>

record motif_evidence_range =
  mr_observer :: string
  mr_prefix :: string
  mr_time_start :: timestamp
  mr_time_end :: timestamp
  mr_transition_start :: nat
  mr_transition_end :: nat

record wave_motif =
  wm_id :: string
  wm_expanded :: string
  wm_structure :: "string list"
  wm_occurrences :: nat
  wm_covered_terminals :: nat
  wm_total_terminals :: nat
  wm_scopes :: "string list"
  wm_evidence_ranges :: "motif_evidence_range list"

record impact_wave =
  iw_id :: nat
  iw_label :: string
  iw_start :: timestamp
  iw_peak :: timestamp
  iw_end :: timestamp
  iw_affected_prefixes :: "prefix list"
  iw_affected_peers :: "string list"
  iw_motif :: "wave_motif option"

record group_motif =
  gm_expanded :: "string list"
  gm_structure :: "string list"
  gm_scope :: string
  gm_time_start :: timestamp
  gm_time_end :: timestamp

section \<open>Motifs\<close>

type_synonym stream_scope = "string \<times> string"

definition scope_of :: "route_transition \<Rightarrow> stream_scope" where
  "scope_of t = (es_observer (rt_to t), es_prefix (rt_to t))"

definition scope_text :: "stream_scope \<Rightarrow> string" where
  "scope_text k = fst k @ '' '' @ snd k"

definition motif_structure :: "string grammar \<Rightarrow> string list" where
  "motif_structure g =
     (''ROOT '' @ arrow_utf8 @ '' '' @ join '' '' (map (show_gsymbol id) (g_start g))) #
     map (\<lambda>(rid, body). show_gsymbol id (NonTerminal rid :: string gsymbol) @ '' '' @ arrow_utf8 @ '' '' @
            join '' '' (map (show_gsymbol id) body)) (g_rules g)"

text \<open>One stream: its transitions in time order, their symbols, and the grammar of two or more.\<close>

definition stream_motif :: "route_transition list \<Rightarrow> stream_scope \<Rightarrow> group_motif list option" where
  "stream_motif transitions k =
     (let group = sort_key rt_time (filter (\<lambda>t. scope_of t = k) transitions);
          symbols = map (\<lambda>t. symbol_from_kind (rt_kind t)) group;
          gm = (\<lambda>expanded structure.
            \<lparr>gm_expanded = expanded, gm_structure = structure, gm_scope = scope_text k,
             gm_time_start = rt_time (hd group), gm_time_end = rt_time (last group)\<rparr>)
      in if length symbols \<ge> 2 then
           (case build symbols of
              None \<Rightarrow> None
            | Some g \<Rightarrow>
                (let expanded = expand g in
                 Some (if expanded = [] then [] else [gm expanded (motif_structure g)])))
         else Some (case symbols of
                      [] \<Rightarrow> []
                    | sy # _ \<Rightarrow> [gm [sy] [''ROOT '' @ arrow_utf8 @ '' '' @ sy]]))"

fun collect :: "('x \<Rightarrow> 'y list option) \<Rightarrow> 'x list \<Rightarrow> 'y list option" where
  "collect f [] = Some []"
| "collect f (x # xs) = do { ys \<leftarrow> f x; zs \<leftarrow> collect f xs; Some (ys @ zs) }"

definition motif_key :: "group_motif \<Rightarrow> string" where
  "motif_key gm = join '' '' (gm_expanded gm)"

text \<open>The most frequent expansion; on a tie the lexicographically first.\<close>

definition support :: "group_motif list \<Rightarrow> string \<Rightarrow> nat" where
  "support gms k = length (filter (\<lambda>gm. motif_key gm = k) gms)"

definition prefer_motif :: "group_motif list \<Rightarrow> string \<Rightarrow> string \<Rightarrow> string" where
  "prefer_motif gms a b =
     (if support gms a < support gms b \<or> support gms a = support gms b \<and> b \<le> a then b else a)"

definition best_motif :: "group_motif list \<Rightarrow> string option" where
  "best_motif gms =
     (case remdups (map motif_key gms) of
        [] \<Rightarrow> None
      | k # ks \<Rightarrow> Some (foldl (prefer_motif gms) k ks))"

definition is_ws :: "char \<Rightarrow> bool" where
  "is_ws c = (c = CHR '' '' \<or> 9 \<le> (of_char c :: nat) \<and> (of_char c :: nat) \<le> 13)"

fun split_ws :: "string \<Rightarrow> string \<Rightarrow> string list" where
  "split_ws cur [] = (if cur = [] then [] else [cur])"
| "split_ws cur (c # s) =
     (if is_ws c then (if cur = [] then split_ws [] s else cur # split_ws [] s)
      else split_ws (cur @ [c]) s)"

definition split_whitespace :: "string \<Rightarrow> string list" where
  "split_whitespace s = split_ws [] s"

definition nth_word :: "nat \<Rightarrow> string \<Rightarrow> string" where
  "nth_word n s = (let ws = split_whitespace s in if n < length ws then ws ! n else ''unknown'')"

definition evidence_range :: "group_motif \<Rightarrow> motif_evidence_range" where
  "evidence_range g =
     \<lparr>mr_observer = nth_word 0 (gm_scope g), mr_prefix = nth_word 1 (gm_scope g),
      mr_time_start = gm_time_start g, mr_time_end = gm_time_end g,
      mr_transition_start = 0, mr_transition_end = length (gm_expanded g) - 1\<rparr>"

definition motif_of :: "nat \<Rightarrow> group_motif list \<Rightarrow> wave_motif option" where
  "motif_of n_total gms =
     map_option (\<lambda>expanded.
       let best = sort_key gm_scope (filter (\<lambda>gm. motif_key gm = expanded) gms) in
       \<lparr>wm_id = fnv1a_64 expanded, wm_expanded = expanded,
        wm_structure = (case best of [] \<Rightarrow> [] | g # _ \<Rightarrow> gm_structure g),
        wm_occurrences = length best,
        wm_covered_terminals = sum_list (map (\<lambda>g. length (gm_expanded g)) best),
        wm_total_terminals = n_total,
        wm_scopes = map gm_scope best,
        wm_evidence_ranges = map evidence_range (take 3 best)\<rparr>) (best_motif gms)"

definition sequitur_motif ::
  "stream_scope list \<Rightarrow> route_transition list \<Rightarrow> wave_motif option option" where
  "sequitur_motif visit transitions =
     (if transitions = [] then Some None
      else map_option (motif_of (length transitions)) (collect (stream_motif transitions) visit))"

section \<open>Waves\<close>

text \<open>The order in which each group's hash map is visited.\<close>

type_synonym visits_of = "route_transition list \<Rightarrow> stream_scope list"

definition build_wave :: "visits_of \<Rightarrow> nat \<Rightarrow> route_transition list \<Rightarrow> timestamp \<Rightarrow> impact_wave option" where
  "build_wave visit i transitions wave_start =
     map_option (\<lambda>motif.
       \<lparr>iw_id = i, iw_label = [], iw_start = wave_start,
        iw_peak = rt_time (transitions ! (length transitions div 2)),
        iw_end = (if transitions = [] then wave_start else rt_time (last transitions)),
        iw_affected_prefixes = remdups_adj (sort (map (\<lambda>t. es_prefix (rt_to t)) transitions)),
        iw_affected_peers = remdups_adj (sort (map (\<lambda>t. es_observer (rt_to t)) transitions)),
        iw_motif = motif\<rparr>) (sequitur_motif (visit transitions) transitions)"

definition gap_near :: "duration \<Rightarrow> route_transition \<Rightarrow> route_transition \<Rightarrow> bool" where
  "gap_near max_gap prev next = (rt_time next - rt_time prev \<le> max_gap)"

definition wave_groups :: "route_transition list \<Rightarrow> duration \<Rightarrow> route_transition list list" where
  "wave_groups transitions max_gap =
     (case sort_key rt_time transitions of
        [] \<Rightarrow> []
      | t # ts \<Rightarrow> gap_groups (gap_near max_gap) [t] t ts)"

definition detect_waves :: "visits_of \<Rightarrow> route_transition list \<Rightarrow> duration \<Rightarrow> impact_wave list option" where
  "detect_waves visit transitions max_gap =
     collect (\<lambda>(i, group). map_option (\<lambda>w. [w]) (build_wave visit i group (rt_time (hd group))))
       (enumerate 1 (wave_groups transitions max_gap))"

section \<open>Descriptions\<close>

datatype motif_class = DominantTransition | GenuineMotif

definition classify_motif :: "wave_motif \<Rightarrow> motif_class" where
  "classify_motif m =
     (if length (split_whitespace (wm_expanded m)) \<le> 1 \<and> \<not> length (wm_structure m) > 1
      then DominantTransition else GenuineMotif)"

fun heading :: "motif_class \<Rightarrow> string" where
  "heading DominantTransition = ''Dominant transition''"
| "heading GenuineMotif = ''Motif''"

definition str_contains :: "string \<Rightarrow> string \<Rightarrow> bool" where
  "str_contains hay needle =
     list_ex (\<lambda>i. take (length needle) (drop i hay) = needle) [0..<Suc (length hay)]"

definition describe_motif :: "wave_motif option \<Rightarrow> string" where
  "describe_motif motif =
     (case motif of
        None \<Rightarrow> ''activity''
      | Some m \<Rightarrow>
          (let has = str_contains (wm_expanded m) in
           if has ''PATH_REPLACEMENT'' \<and> has ''RETURN_TO_BASELINE'' then ''failover and restoration''
           else if has ''RETURN_TO_BASELINE'' then ''restoration''
           else if has ''PATH_REPLACEMENT'' \<and> length (wm_structure m) > 1
             then ''structured path replacement''
           else if has ''PATH_REPLACEMENT'' then ''path replacement''
           else if has ''WITHDRAWAL'' then ''withdrawal''
           else ''activity''))"

section \<open>Lemmas\<close>

lemma length_show_base: "2 \<le> b \<Longrightarrow> n < b ^ k \<Longrightarrow> 1 \<le> k \<Longrightarrow> length (show_base b n) \<le> k"
proof (induction k arbitrary: n)
  case (Suc k)
  show ?case
  proof (cases "n < b")
    case True
    then show ?thesis by (subst show_base.simps) simp
  next
    case False
    with Suc.prems have "1 \<le> k" by (cases k) auto
    moreover have "n div b < b ^ k"
      using Suc.prems by (simp add: less_mult_imp_div_less mult.commute)
    ultimately show ?thesis
      using False Suc by (subst show_base.simps) simp
  qed
qed simp

lemma length_hex16: "length (hex16 w) = 16"
proof -
  have "length (show_base 16 (unat w)) \<le> 16"
    using unsigned_less [of w] by (intro length_show_base) simp_all
  then show ?thesis by (simp add: hex16_def Let_def)
qed

lemma stream_motif_spec:
  "\<exists>gms. stream_motif ts k = Some gms \<and> length gms \<le> 1 \<and>
    (\<forall>gm\<in>set gms.
       gm_expanded gm = map (\<lambda>t. symbol_from_kind (rt_kind t)) (sort_key rt_time (filter (\<lambda>t. scope_of t = k) ts)) \<and>
       gm_scope gm = scope_text k)"
proof -
  let ?syms = "map (\<lambda>t. symbol_from_kind (rt_kind t)) (sort_key rt_time (filter (\<lambda>t. scope_of t = k) ts))"
  obtain b V where b: "build ?syms = Some (b_grammar b)" "seq_inv V ?syms b"
    using build_spec by blast
  then have "expand (b_grammar b) = ?syms"
    using expand_seq_vals [OF b(2) invD(2) [OF b(2)]] invD(3) [OF b(2)] by (simp add: expand_def)
  moreover have "length ?syms \<le> 1 \<Longrightarrow> ?syms = [] \<or> (\<exists>x. ?syms = [x])"
    by (cases ?syms) auto
  ultimately show ?thesis
    using b(1) by (cases "length ?syms \<ge> 2") (auto simp: stream_motif_def Let_def)
qed

lemma collect_spec:
  "(\<And>x. x \<in> set xs \<Longrightarrow> f x \<noteq> None) \<Longrightarrow> collect f xs = Some (concat (map (\<lambda>x. the (f x)) xs))"
proof (induction xs)
  case (Cons x xs)
  then obtain y where "f x = Some y" by (metis list.set_intros(1) not_None_eq)
  with Cons show ?case by simp
qed simp

lemma collect_streams:
  "collect (stream_motif ts) visit = Some (concat (map (\<lambda>k. the (stream_motif ts k)) visit))"
  using stream_motif_spec by (intro collect_spec) (metis option.distinct(1))

lemma build_wave_spec:
  "\<exists>w. build_wave visit i g s = Some w \<and> iw_id w = i \<and> iw_start w = s \<and>
    iw_end w = (if g = [] then s else rt_time (last g)) \<and>
    iw_affected_prefixes w = remdups_adj (sort (map (\<lambda>t. es_prefix (rt_to t)) g)) \<and>
    iw_affected_peers w = remdups_adj (sort (map (\<lambda>t. es_observer (rt_to t)) g))"
  by (simp add: build_wave_def sequitur_motif_def collect_streams)

section \<open>Clusters\<close>

lemma wave_groups_spec:
  "concat (wave_groups ts gap) = sort_key rt_time ts"
  "g \<in> set (wave_groups ts gap) \<Longrightarrow> g \<noteq> [] \<and> successively (gap_near gap) g"
  "successively (\<lambda>g h. \<not> gap_near gap (last g) (hd h)) (wave_groups ts gap)"
proof -
  show "concat (wave_groups ts gap) = sort_key rt_time ts"
    "successively (\<lambda>g h. \<not> gap_near gap (last g) (hd h)) (wave_groups ts gap)"
    by (simp_all add: wave_groups_def concat_gap_groups gap_groups_far split: list.split)
  show "g \<noteq> [] \<and> successively (gap_near gap) g" if "g \<in> set (wave_groups ts gap)"
  proof (cases "sort_key rt_time ts")
    case (Cons t us)
    with that have g: "g \<in> set (gap_groups (gap_near gap) [t] t us)" by (simp add: wave_groups_def)
    from gap_groups_not_Nil [OF _ g] gap_groups_near [OF g] show ?thesis by simp
  qed (use that in \<open>simp add: wave_groups_def\<close>)
qed

lemma collect_waves:
  "\<exists>ws. collect (\<lambda>(i, g). map_option (\<lambda>w. [w]) (build_wave visit i g (rt_time (hd g)))) (enumerate n gs) = Some ws \<and>
    map iw_id ws = [n..<n + length gs] \<and>
    list_all2 (\<lambda>g w. iw_start w = rt_time (hd g) \<and> (g \<noteq> [] \<longrightarrow> iw_end w = rt_time (last g)) \<and>
      set (iw_affected_prefixes w) = (\<lambda>t. es_prefix (rt_to t)) ` set g \<and>
      set (iw_affected_peers w) = (\<lambda>t. es_observer (rt_to t)) ` set g) gs ws"
proof (induction gs arbitrary: n)
  case (Cons g gs)
  obtain w where w: "build_wave visit n g (rt_time (hd g)) = Some w" "iw_id w = n" "iw_start w = rt_time (hd g)"
    "iw_end w = (if g = [] then rt_time (hd g) else rt_time (last g))"
    "iw_affected_prefixes w = remdups_adj (sort (map (\<lambda>t. es_prefix (rt_to t)) g))"
    "iw_affected_peers w = remdups_adj (sort (map (\<lambda>t. es_observer (rt_to t)) g))"
    using build_wave_spec by blast
  obtain ws where "collect (\<lambda>(i, g). map_option (\<lambda>w. [w]) (build_wave visit i g (rt_time (hd g))))
      (enumerate (Suc n) gs) = Some ws" "map iw_id ws = [Suc n..<Suc n + length gs]"
    "list_all2 (\<lambda>g w. iw_start w = rt_time (hd g) \<and> (g \<noteq> [] \<longrightarrow> iw_end w = rt_time (last g)) \<and>
      set (iw_affected_prefixes w) = (\<lambda>t. es_prefix (rt_to t)) ` set g \<and>
      set (iw_affected_peers w) = (\<lambda>t. es_observer (rt_to t)) ` set g) gs ws"
    using Cons.IH by blast
  with w show ?case by (simp add: upt_conv_Cons del: upt_Suc)
qed simp

section \<open>The chosen motif\<close>

text \<open>\<open>worse gms a b\<close>: the selection prefers \<open>b\<close> to \<open>a\<close>. This is a linear order on the keys.\<close>

definition worse :: "group_motif list \<Rightarrow> string \<Rightarrow> string \<Rightarrow> bool" where
  "worse gms a b = (support gms a < support gms b \<or> support gms a = support gms b \<and> b \<le> a)"

lemma worse_order:
  "worse gms a a" "worse gms a b \<Longrightarrow> worse gms b c \<Longrightarrow> worse gms a c"
  "worse gms a b \<Longrightarrow> worse gms b a \<Longrightarrow> a = b" "worse gms a b \<or> worse gms b a"
  by (auto simp: worse_def)

lemma prefer_fold:
  "foldl (prefer_motif gms) k ks \<in> set (k # ks) \<and>
   (\<forall>x\<in>set (k # ks). worse gms x (foldl (prefer_motif gms) k ks))"
proof (induction ks rule: rev_induct)
  case (snoc x ks)
  let ?k = "foldl (prefer_motif gms) k ks"
  have p: "prefer_motif gms ?k x = (if worse gms ?k x then x else ?k)"
    by (simp add: prefer_motif_def worse_def)
  show ?case
  proof (cases "worse gms ?k x")
    case True
    then have "worse gms y x" if "y \<in> set (k # ks)" for y
      using that snoc worse_order(2) by blast
    with True p worse_order(1) show ?thesis by simp
  next
    case False
    then have "worse gms x ?k" using worse_order(4) by blast
    with False p snoc show ?thesis by auto
  qed
qed (simp add: worse_order)

lemma best_motif_Some:
  "best_motif gms = Some k \<longleftrightarrow>
   k \<in> motif_key ` set gms \<and> (\<forall>gm\<in>set gms. worse gms (motif_key gm) k)"
proof (cases "remdups (map motif_key gms)")
  case Nil
  then show ?thesis by (simp add: best_motif_def)
next
  case (Cons j js)
  have s: "set (j # js) = motif_key ` set gms" using arg_cong [OF Cons, of set] by simp
  have "best_motif gms = Some k \<longleftrightarrow> foldl (prefer_motif gms) j js = k"
    using Cons by (simp add: best_motif_def)
  also have "\<dots> \<longleftrightarrow> k \<in> set (j # js) \<and> (\<forall>x\<in>set (j # js). worse gms x k)"
    using prefer_fold [of gms j js] worse_order(3) by metis
  finally show ?thesis unfolding s by blast
qed

lemma best_motif_mset:
  assumes "mset gms = mset gms'"
  shows "best_motif gms = best_motif gms'"
proof -
  have "support gms = support gms'"
    unfolding support_def fun_eq_iff using assms by (metis mset_filter size_mset)
  then have "worse gms = worse gms'" by (simp add: worse_def fun_eq_iff)
  moreover have "set gms = set gms'" using assms by (rule mset_eq_setD)
  ultimately have "best_motif gms = Some k \<longleftrightarrow> best_motif gms' = Some k" for k
    by (simp add: best_motif_Some)
  then show ?thesis by (metis not_Some_eq)
qed

lemma streams_expanded_bound:
  assumes "distinct visit"
  shows "sum_list (map (\<lambda>g. length (gm_expanded g)) (concat (map (\<lambda>k. the (stream_motif ts k)) visit)))
    \<le> length (filter (\<lambda>t. scope_of t \<in> set visit) ts)"
  using assms
proof (induction visit)
  case (Cons k visit)
  obtain gms where g: "stream_motif ts k = Some gms" "length gms \<le> 1"
    "\<forall>gm\<in>set gms. gm_expanded gm =
       map (\<lambda>t. symbol_from_kind (rt_kind t)) (sort_key rt_time (filter (\<lambda>t. scope_of t = k) ts))"
    using stream_motif_spec [of ts k] by blast
  then have "sum_list (map (\<lambda>g. length (gm_expanded g)) gms) \<le> length (filter (\<lambda>t. scope_of t = k) ts)"
    by (cases gms) auto
  moreover have "length (filter (\<lambda>t. scope_of t \<in> set (k # visit)) ts) =
      length (filter (\<lambda>t. scope_of t = k) ts) + length (filter (\<lambda>t. scope_of t \<in> set visit) ts)"
    using Cons.prems by (induction ts) auto
  ultimately show ?case using Cons g(1) by simp
qed simp

lemma sum_sort_key: "sum_list (map f (sort_key k xs)) = sum_list (map (f :: _ \<Rightarrow> nat) xs)"
  by (simp flip: sum_mset_sum_list)

lemma sum_filter_le: "sum_list (map f (filter p xs)) \<le> sum_list (map (f :: _ \<Rightarrow> nat) xs)"
  by (induction xs) auto

section \<open>Properties\<close>


text \<open>A wave made of withdrawals reports the placeholder prefix 0.0.0.0/0 and the placeholder
  peer absent instead of the prefixes and peers that lost their routes, because it reads them off
  the absent after-state.\<close>

theorem withdrawal_wave_loses_prefixes:
  assumes "g \<noteq> []" and "list_all (\<lambda>t. rt_to_state t = None) g"
  shows "\<exists>w. build_wave visit i g s = Some w \<and> iw_affected_prefixes w = [''0.0.0.0/0''] \<and>
    iw_affected_peers w = [''absent'']"
proof -
  have c: "remdups_adj (sort (map (\<lambda>t. f t) g)) = [x]" if "\<forall>t\<in>set g. f t = x" for f and x :: string
  proof -
    have "map f g = replicate (length g) x" using that by (simp add: map_replicate_const [symmetric])
    then have "sort (map f g) = replicate (length g) x" by (simp add: sorted_replicate sorted_sort_id)
    then show ?thesis using assms(1) by (simp add: remdups_adj_replicate)
  qed
  have "es_prefix (rt_to t) = ''0.0.0.0/0''" "es_observer (rt_to t) = ''absent''" if "t \<in> set g" for t
    using that assms(2) by (auto simp: list_all_iff es_prefix_def es_observer_def rt_to_state_def)
  then show ?thesis
    using build_wave_spec [of visit i g s] c [of "\<lambda>t. es_prefix (rt_to t)"]
      c [of "\<lambda>t. es_observer (rt_to t)"] by auto
qed

text \<open>The motif of a wave covers at most the wave's transitions, occurs in at least one
  stream, lists one scope per occurrence and at most three evidence ranges, and is identified by
  sixteen characters.\<close>

theorem motif_coverage_bounded:
  assumes "distinct visit" and "sequitur_motif visit ts = Some (Some m)"
  shows "wm_covered_terminals m \<le> wm_total_terminals m \<and> wm_total_terminals m = length ts \<and>
    1 \<le> wm_occurrences m \<and> length (wm_scopes m) = wm_occurrences m \<and>
    length (wm_evidence_ranges m) \<le> 3 \<and> length (wm_id m) = 16"
proof -
  let ?gms = "concat (map (\<lambda>k. the (stream_motif ts k)) visit)"
  from assms(2) have m: "motif_of (length ts) ?gms = Some m"
    by (auto simp: sequitur_motif_def collect_streams split: if_splits)
  then obtain k where k: "best_motif ?gms = Some k" by (auto simp: motif_of_def)
  let ?best = "sort_key gm_scope (filter (\<lambda>gm. motif_key gm = k) ?gms)"
  have "filter (\<lambda>gm. motif_key gm = k) ?gms \<noteq> []"
    using k by (auto simp: best_motif_Some filter_empty_conv simp del: set_concat set_map)
  then have "1 \<le> length ?best" by (simp add: Suc_le_eq)
  moreover have "sum_list (map (\<lambda>g. length (gm_expanded g)) ?best) =
      sum_list (map (\<lambda>g. length (gm_expanded g)) (filter (\<lambda>gm. motif_key gm = k) ?gms))"
    by (rule sum_sort_key)
  moreover have "\<dots> \<le> length ts"
    using sum_filter_le [of "\<lambda>g. length (gm_expanded g)" "\<lambda>gm. motif_key gm = k" ?gms]
      streams_expanded_bound [OF assms(1), of ts] length_filter_le [of "\<lambda>t. scope_of t \<in> set visit" ts]
    by linarith
  ultimately show ?thesis
    using m k by (auto simp: motif_of_def Let_def fnv1a_64_def length_hex16)
qed

lemma mset_concat_map: "mset (concat (map h v)) = (\<Sum>k\<in>#mset v. mset (h k))"
  by (induction v) simp_all

lemma streams_scope_inj:
  assumes "inj_on scope_text (set visit)"
  shows "inj_on gm_scope (set (concat (map (\<lambda>k. the (stream_motif ts k)) visit)))"
proof (rule inj_onI)
  fix g h
  assume "g \<in> set (concat (map (\<lambda>k. the (stream_motif ts k)) visit))"
    "h \<in> set (concat (map (\<lambda>k. the (stream_motif ts k)) visit))" and eq: "gm_scope g = gm_scope h"
  then obtain i j where ij: "i \<in> set visit" "j \<in> set visit"
    "g \<in> set (the (stream_motif ts i))" "h \<in> set (the (stream_motif ts j))" by auto
  have "gm_scope g = scope_text i" "gm_scope h = scope_text j"
    using stream_motif_spec [of ts i] stream_motif_spec [of ts j] ij(3,4) by auto
  with eq assms ij have "i = j" by (auto dest: inj_onD)
  moreover have "length (the (stream_motif ts i)) \<le> 1" using stream_motif_spec [of ts i] by auto
  ultimately show "g = h"
    using ij(3,4) by (cases "the (stream_motif ts i)") auto
qed

text \<open>The motif of a wave does not depend on the order in which the hash map of streams is
  visited, as long as no two streams print the same scope.\<close>

theorem motif_order_independent:
  assumes "distinct visit" and "distinct visit'" and "set visit' = set visit"
    and "inj_on scope_text (set visit)"
  shows "sequitur_motif visit ts = sequitur_motif visit' ts"
proof -
  let ?f = "\<lambda>v. concat (map (\<lambda>k. the (stream_motif ts k)) v)"
  have "mset visit' = mset visit"
    using assms(1-3) by (simp add: set_eq_iff_mset_eq_distinct [symmetric])
  then have m: "mset (?f visit) = mset (?f visit')"
    by (simp only: mset_concat_map)
  have "sort_key gm_scope (filter p (?f visit)) = sort_key gm_scope (filter p (?f visit'))" for p
  proof -
    have "mset (filter p (?f visit)) = mset (filter p (?f visit'))" using m by (simp only: mset_filter)
    moreover have "inj_on gm_scope (set (filter p (?f visit)))"
      using streams_scope_inj [OF assms(4), of ts] by (rule inj_on_subset) auto
    ultimately show ?thesis
      using sort_key_inj_key_eq [of "filter p (?f visit)" "sort_key gm_scope (filter p (?f visit'))" gm_scope]
      by (simp only: mset_sort sorted_sort_key simp_thms)
  qed
  then show ?thesis
    using best_motif_mset [OF m] by (simp add: sequitur_motif_def collect_streams motif_of_def)
qed

section \<open>Concrete waves\<close>

definition lost_route :: "string \<Rightarrow> timestamp \<Rightarrow> route_transition" where
  "lost_route pfx ts =
     \<lparr>rt_key = RouteKey ''rv2'' (V4 1) pfx None, rt_event_baseline = None, rt_from = None,
      rt_to = absent ((synthetic_evidence 1 ''u'' ''s'')\<lparr>ev_timestamp := ts\<rparr>), rt_kind = Withdrawal,
      rt_effects = default_effects, rt_triggering = synthetic_evidence 1 ''u'' ''s'',
      rt_phase = EventPhase\<rparr>"

lemma lost_route_sel:
  "rt_to_state (lost_route p ts) = None" "scope_of (lost_route p ts) = (''absent'', ''0.0.0.0/0'')"
  "rt_kind (lost_route p ts) = Withdrawal"
  by (simp_all add: lost_route_def rt_to_state_def absent_def scope_of_def es_observer_def es_prefix_def)

text \<open>Two prefixes are lost; neither is among the wave's affected prefixes.\<close>

theorem withdrawal_wave_witness:
  "let g = [lost_route ''192.0.2.0/24'' 5, lost_route ''198.51.100.0/24'' 6] in
   map (\<lambda>t. rk_prefix (rt_key t)) g = [''192.0.2.0/24'', ''198.51.100.0/24''] \<and>
   (\<exists>w. build_wave (\<lambda>_. []) 1 g 5 = Some w \<and> iw_affected_prefixes w = [''0.0.0.0/0''])"
  using withdrawal_wave_loses_prefixes [of "[lost_route ''192.0.2.0/24'' 5, lost_route ''198.51.100.0/24'' 6]"
      "\<lambda>_. []" 1 5]
  by (auto simp: lost_route_sel) (simp_all add: lost_route_def)

theorem motif_coverage_witness:
  "\<exists>m. sequitur_motif [(''absent'', ''0.0.0.0/0'')] [lost_route ''192.0.2.0/24'' 5] = Some (Some m) \<and>
     wm_covered_terminals m \<le> 1 \<and> length (wm_id m) = 16"
proof -
  let ?k = "(''absent'', ''0.0.0.0/0'')" and ?t = "lost_route ''192.0.2.0/24'' 5"
  obtain gm where "stream_motif [?t] ?k = Some [gm]"
    by (simp add: stream_motif_def lost_route_sel Let_def)
  then obtain m where m: "sequitur_motif [?k] [?t] = Some (Some m)"
    by (auto simp: sequitur_motif_def motif_of_def best_motif_def)
  from motif_coverage_bounded [OF _ m] m show ?thesis by simp
qed

theorem motif_order_witness:
  "sequitur_motif [(''absent'', ''0.0.0.0/0''), (''rv2'', ''192.0.2.0/24'')] [lost_route ''192.0.2.0/24'' 5] =
   sequitur_motif [(''rv2'', ''192.0.2.0/24''), (''absent'', ''0.0.0.0/0'')] [lost_route ''192.0.2.0/24'' 5]"
  by (rule motif_order_independent) (auto simp: scope_text_def inj_on_def)

end
