(* ===== verification/Assess.thy ===== *)
theory Assess
  imports Withdrawal_Audit Waves
begin

text \<open>
  The assessment of an event (\<open>src/src/assess.rs\<close>, \<open>src/src/domain/assessment.rs\<close>,
  \<open>src/src/domain/expectation.rs\<close>, \<open>src/src/outcome.rs\<close>): the expectation declared for the event,
  the verdict derived from transitions and stream lifecycles, and the two readings of a verdict,
  what was observed and how it compares with the expectation. The text of an instant
  (\<open>chrono\<close>) and the current time are parameters.
\<close>

section \<open>Expectations\<close>

datatype expectation_kind =
    Redundant
  | NonRedundant
  | ParticipantRelationshipUnavailable
  | PeerRelationshipUnavailable
  | UnknownExpectation

fun expectation_human_label :: "expectation_kind \<Rightarrow> string" where
  "expectation_human_label Redundant = ''redundant-attachment''"
| "expectation_human_label NonRedundant = ''loss-of-reachability''"
| "expectation_human_label ParticipantRelationshipUnavailable = ''participant-relationship-unavailable''"
| "expectation_human_label PeerRelationshipUnavailable = ''peer-relationship-unavailable''"
| "expectation_human_label UnknownExpectation = ''unknown''"

datatype ticket_lifecycle = TicketClosed | TicketOpen

record impact_expectation =
  ie_kind :: expectation_kind
  ie_description :: string
  ie_provenance :: string

definition expect_redundant :: "string option \<Rightarrow> string \<Rightarrow> impact_expectation" where
  "expect_redundant site_code provenance =
     \<lparr>ie_kind = Redundant,
      ie_description = (case site_code of
          Some code \<Rightarrow> ''Parenthesized site code ('' @ code @ '') indicates expected redundancy''
        | None \<Rightarrow> ''Redundancy expected''),
      ie_provenance = provenance\<rparr>"

definition expect_non_redundant :: "string \<Rightarrow> impact_expectation" where
  "expect_non_redundant provenance =
     \<lparr>ie_kind = NonRedundant,
      ie_description = ''No parenthesized site code '' @ dash_utf8 @ '' loss of reachability may be expected'',
      ie_provenance = provenance\<rparr>"

definition expect_unknown :: "string \<Rightarrow> impact_expectation" where
  "expect_unknown provenance =
     \<lparr>ie_kind = UnknownExpectation, ie_description = ''Unable to determine expectation'',
      ie_provenance = provenance\<rparr>"

definition expect_participant_unavailable :: "string \<Rightarrow> impact_expectation" where
  "expect_participant_unavailable provenance =
     \<lparr>ie_kind = ParticipantRelationshipUnavailable,
      ie_description = ''Non-parenthesized participant title '' @ dash_utf8
        @ '' managed-network participant relationship may be unavailable. Impact may include path departure ''
        @ ''from the reviewed transit predicate, alternate routing, or partial restorations.'',
      ie_provenance = provenance\<rparr>"

definition expect_peer_relationship_unavailable :: "string \<Rightarrow> impact_expectation" where
  "expect_peer_relationship_unavailable provenance =
     \<lparr>ie_kind = PeerRelationshipUnavailable,
      ie_description = ''Non-parenthesized peer title '' @ dash_utf8
        @ '' GRNOC peer relationship may be unavailable. No attachment qualifier indicates expected peer unavailability.'',
      ie_provenance = provenance\<rparr>"

section \<open>Verdicts\<close>

datatype verdict =
    ExpectedRedundantImpact
  | ExpectedLossOfReachability
  | ExpectedParticipantUnavailability
  | ExpectedAlternateRouting
  | PartialImpact
  | UnexpectedContinuedInternet2Path
  | PolicyChangeObserved
  | ProvisionalImpactObserved
  | ProvisionalNoImpactSoFar
  | UnexpectedWithdrawals
  | RedundancyFailureObserved
  | UnexpectedBlastRadius
  | LessImpactThanExpected
  | NoObservableBgpImpact
  | InsufficientVisibility
  | Indeterminate

fun verdict_display :: "verdict \<Rightarrow> string" where
  "verdict_display ExpectedRedundantImpact = ''EXPECTED REDUNDANT IMPACT''"
| "verdict_display ExpectedLossOfReachability = ''EXPECTED LOSS OF REACHABILITY''"
| "verdict_display ExpectedParticipantUnavailability = ''EXPECTED PARTICIPANT UNAVAILABILITY''"
| "verdict_display ExpectedAlternateRouting = ''EXPECTED ALTERNATE ROUTING''"
| "verdict_display PartialImpact = ''PARTIAL IMPACT''"
| "verdict_display UnexpectedContinuedInternet2Path = ''UNEXPECTED CONTINUED INTERNET2 PATH''"
| "verdict_display PolicyChangeObserved = ''POLICY CHANGE OBSERVED''"
| "verdict_display ProvisionalImpactObserved = ''PROVISIONAL IMPACT OBSERVED''"
| "verdict_display ProvisionalNoImpactSoFar = ''PROVISIONAL NO IMPACT SO FAR''"
| "verdict_display UnexpectedWithdrawals = ''UNEXPECTED WITHDRAWALS''"
| "verdict_display RedundancyFailureObserved = ''REDUNDANCY FAILURE''"
| "verdict_display UnexpectedBlastRadius = ''UNEXPECTED BLAST RADIUS''"
| "verdict_display LessImpactThanExpected = ''LESS IMPACT THAN EXPECTED''"
| "verdict_display NoObservableBgpImpact = ''NO OBSERVABLE BGP IMPACT''"
| "verdict_display InsufficientVisibility = ''INSUFFICIENT VISIBILITY''"
| "verdict_display Indeterminate = ''INDETERMINATE''"

fun verdict_human_label :: "verdict \<Rightarrow> string" where
  "verdict_human_label ExpectedRedundantImpact = ''Expected redundant-attachment impact observed''"
| "verdict_human_label ExpectedLossOfReachability = ''Expected loss of reachability observed''"
| "verdict_human_label ExpectedParticipantUnavailability = ''Expected participant unavailability observed''"
| "verdict_human_label ExpectedAlternateRouting = ''Expected alternate routing observed''"
| "verdict_human_label PartialImpact = ''Partial routing impact observed''"
| "verdict_human_label UnexpectedContinuedInternet2Path = ''Unexpected continued reviewed-transit path''"
| "verdict_human_label PolicyChangeObserved = ''Policy-shape change observed''"
| "verdict_human_label ProvisionalImpactObserved = ''Routing impact observed so far''"
| "verdict_human_label ProvisionalNoImpactSoFar = ''No route-state change observed so far''"
| "verdict_human_label UnexpectedWithdrawals = ''Unexpected withdrawals observed''"
| "verdict_human_label RedundancyFailureObserved = ''Redundancy failure observed''"
| "verdict_human_label UnexpectedBlastRadius = ''Unexpected blast radius observed''"
| "verdict_human_label LessImpactThanExpected = ''Less impact than expected''"
| "verdict_human_label NoObservableBgpImpact = ''No route-state change observed''"
| "verdict_human_label InsufficientVisibility = ''Insufficient visibility''"
| "verdict_human_label Indeterminate = ''Indeterminate''"

datatype observed_result =
    RouteStateChangesObserved
  | NoRouteStateChangeObserved
  | InsufficientQualifyingVisibility
  | AnalysisIncomplete

definition observed_result_kind :: "verdict \<Rightarrow> observed_result" where
  "observed_result_kind v =
     (if v \<in> {ExpectedRedundantImpact, ExpectedLossOfReachability, ExpectedParticipantUnavailability,
              ExpectedAlternateRouting, PartialImpact, PolicyChangeObserved, ProvisionalImpactObserved,
              UnexpectedWithdrawals, RedundancyFailureObserved, UnexpectedBlastRadius}
      then RouteStateChangesObserved
      else if v \<in> {UnexpectedContinuedInternet2Path, ProvisionalNoImpactSoFar, LessImpactThanExpected,
                   NoObservableBgpImpact}
      then NoRouteStateChangeObserved
      else if v = InsufficientVisibility then InsufficientQualifyingVisibility
      else AnalysisIncomplete)"

datatype expectation_assessment =
    ConsistentWithReviewedExpectation
  | PartiallyConsistentWithReviewedExpectation
  | LessExternallyVisibleChangeThanReviewedExpectation
  | MoreExternallyVisibleChangeThanReviewedExpectation
  | NotAssessableFromSelectedPublicObservers
  | NoReviewedExpectationExists
  | ProvisionalAssessment

definition expectation_assessment_kind :: "verdict \<Rightarrow> expectation_assessment" where
  "expectation_assessment_kind v =
     (if v \<in> {ExpectedRedundantImpact, ExpectedLossOfReachability, ExpectedParticipantUnavailability,
              ExpectedAlternateRouting, NoObservableBgpImpact, ProvisionalImpactObserved,
              ProvisionalNoImpactSoFar}
      then ConsistentWithReviewedExpectation
      else if v = PartialImpact then PartiallyConsistentWithReviewedExpectation
      else if v \<in> {PolicyChangeObserved, UnexpectedContinuedInternet2Path, LessImpactThanExpected}
      then LessExternallyVisibleChangeThanReviewedExpectation
      else if v \<in> {UnexpectedWithdrawals, RedundancyFailureObserved, UnexpectedBlastRadius}
      then MoreExternallyVisibleChangeThanReviewedExpectation
      else NotAssessableFromSelectedPublicObservers)"

text \<open>The frozen labels, in the order of the match.\<close>

definition deprecated_labels :: "(string \<times> verdict) list" where
  "deprecated_labels =
     [(''Expected redundant-attachment impact observed'', ExpectedRedundantImpact),
      (''Expected loss of reachability observed'', ExpectedLossOfReachability),
      (''Expected participant unavailability observed'', ExpectedParticipantUnavailability),
      (''Expected alternate routing observed'', ExpectedAlternateRouting),
      (''Partial routing impact observed'', PartialImpact),
      (''Unexpected continued reviewed-transit path'', UnexpectedContinuedInternet2Path),
      (''Policy-shape change observed'', PolicyChangeObserved),
      (''Routing impact observed so far'', ProvisionalImpactObserved),
      (''No route-state change observed so far'', ProvisionalNoImpactSoFar),
      (''Unexpected withdrawals observed'', UnexpectedWithdrawals),
      (''Redundancy failure observed'', RedundancyFailureObserved),
      (''Unexpected blast radius observed'', UnexpectedBlastRadius),
      (''Less impact than expected'', LessImpactThanExpected),
      (''No route-state change observed'', NoObservableBgpImpact),
      (''Insufficient visibility'', InsufficientVisibility),
      (''insufficient_visibility'', InsufficientVisibility),
      (''Indeterminate'', Indeterminate)]"

definition from_deprecated_label :: "string \<Rightarrow> verdict option" where
  "from_deprecated_label label = map_of deprecated_labels label"

definition is_provisional :: "verdict \<Rightarrow> bool" where
  "is_provisional v = (v = ProvisionalImpactObserved \<or> v = ProvisionalNoImpactSoFar)"

datatype assessment_posture =
  Consistent_Kind | PartiallyConsistent | Inconsistent | Indeterminate_Kind | NotAssessable

fun assessment_kind :: "verdict \<Rightarrow> assessment_posture" where
  "assessment_kind PartialImpact = PartiallyConsistent"
| "assessment_kind UnexpectedContinuedInternet2Path = Inconsistent"
| "assessment_kind PolicyChangeObserved = Inconsistent"
| "assessment_kind UnexpectedWithdrawals = Inconsistent"
| "assessment_kind RedundancyFailureObserved = Inconsistent"
| "assessment_kind UnexpectedBlastRadius = Inconsistent"
| "assessment_kind LessImpactThanExpected = Inconsistent"
| "assessment_kind InsufficientVisibility = NotAssessable"
| "assessment_kind Indeterminate = Indeterminate_Kind"
| "assessment_kind _ = Consistent_Kind"

section \<open>The verdict\<close>

definition has_kind :: "(transition_kind \<Rightarrow> bool) \<Rightarrow> route_transition list \<Rightarrow> bool" where
  "has_kind p ts = list_ex (\<lambda>t. p (rt_kind t)) ts"

definition no_transition_verdict :: "expectation_kind \<Rightarrow> verdict" where
  "no_transition_verdict k =
     (case k of
        ParticipantRelationshipUnavailable \<Rightarrow> UnexpectedContinuedInternet2Path
      | NonRedundant \<Rightarrow> LessImpactThanExpected
      | PeerRelationshipUnavailable \<Rightarrow> UnexpectedContinuedInternet2Path
      | _ \<Rightarrow> NoObservableBgpImpact)"

definition participant_verdict :: "stream_lifecycle list \<Rightarrow> verdict" where
  "participant_verdict lcs =
     (if lcs = [] then UnexpectedContinuedInternet2Path
      else
        (let strong = filter (\<lambda>l. \<not> fl_add_path_ambiguous (sl_flags l)) lcs in
         if strong = [] then InsufficientVisibility
         else
           (let withdrawn = length (filter sl_was_withdrawn strong);
                departed = length (filter (\<lambda>l. sl_category l = DepartedTransitPath) strong);
                only_prepend = list_all (\<lambda>l. sl_category l = Unchanged \<or> sl_category l = PrependOnly) strong;
                all_affected = (withdrawn + departed = length strong \<and> (withdrawn > 0 \<or> departed > 0));
                some_affected = (withdrawn > 0 \<or> departed > 0);
                v = (if only_prepend \<and> \<not> some_affected then PolicyChangeObserved
                     else if departed > 0 \<and> withdrawn = 0 then ExpectedAlternateRouting
                     else if all_affected then ExpectedParticipantUnavailability
                     else if some_affected then PartialImpact
                     else UnexpectedContinuedInternet2Path);
                any_ambiguous = list_ex (\<lambda>l. fl_add_path_ambiguous (sl_flags l)) lcs
            in if any_ambiguous \<and> (v = UnexpectedContinuedInternet2Path \<or> v = PolicyChangeObserved)
               then InsufficientVisibility else v)))"

definition departs_i2 :: "route_transition \<Rightarrow> bool" where
  "departs_i2 t =
     (is_path_replacement (rt_kind t) \<and>
      (case rt_from_state t of None \<Rightarrow> False | Some r \<Rightarrow> 11537 \<in> set (state_path r)) \<and>
      11537 \<notin> set (ra_as_path (es_attributes (rt_to t))))"

definition legacy_participant_verdict :: "route_transition list \<Rightarrow> verdict" where
  "legacy_participant_verdict ts =
     (let has_withdrawals = has_kind (\<lambda>k. k = Withdrawal) ts;
          departures_from_i2 = list_ex departs_i2 ts
      in if has_withdrawals \<and> \<not> departures_from_i2 then ExpectedParticipantUnavailability
         else if departures_from_i2 \<and> \<not> has_withdrawals then ExpectedAlternateRouting
         else if has_withdrawals \<and> departures_from_i2 then PartialImpact
         else UnexpectedContinuedInternet2Path)"

definition derive_verdict ::
  "impact_expectation \<Rightarrow> route_transition list \<Rightarrow> bool \<Rightarrow> stream_lifecycle list option \<Rightarrow> verdict" where
  "derive_verdict expectation transitions any_unknown_continuity lifecycles =
     (let has_withdrawals = has_kind (\<lambda>k. k = Withdrawal) transitions;
          has_path_changes = has_kind is_path_replacement transitions;
          has_session_resets = has_kind (\<lambda>k. k = SessionReset) transitions
      in if any_unknown_continuity \<or> has_session_resets then InsufficientVisibility
         else if transitions = [] then no_transition_verdict (ie_kind expectation)
         else case ie_kind expectation of
           Redundant \<Rightarrow>
             (if has_withdrawals then RedundancyFailureObserved
              else if has_path_changes \<and> \<not> has_withdrawals then ExpectedRedundantImpact
              else NoObservableBgpImpact)
         | NonRedundant \<Rightarrow>
             (if has_withdrawals then ExpectedLossOfReachability else LessImpactThanExpected)
         | ParticipantRelationshipUnavailable \<Rightarrow>
             (case lifecycles of
                Some lcs \<Rightarrow> participant_verdict lcs
              | None \<Rightarrow> legacy_participant_verdict transitions)
         | PeerRelationshipUnavailable \<Rightarrow>
             (if has_withdrawals then ExpectedParticipantUnavailability
              else if has_path_changes then ExpectedAlternateRouting
              else UnexpectedContinuedInternet2Path)
         | UnknownExpectation \<Rightarrow> Indeterminate)"

section \<open>Evidence\<close>

record evidence =
  evd_description :: string
  evd_source_records :: "string list"

definition warning_utf8 :: string where
  "warning_utf8 = [CHR 0xE2, CHR 0x9A, CHR 0xA0, CHR 0xEF, CHR 0xB8, CHR 0x8F]"

definition source_record :: "(timestamp \<Rightarrow> string) \<Rightarrow> route_transition \<Rightarrow> string" where
  "source_record show_time t =
     rk_collector (rt_key t) @ '':'' @ ip_to_string (rk_peer_ip (rt_key t)) @ '' '' @
     rk_prefix (rt_key t) @ '' at '' @ show_time (rt_time t)"

definition path_change_record :: "(timestamp \<Rightarrow> string) \<Rightarrow> route_transition \<Rightarrow> string" where
  "path_change_record show_time t =
     source_record show_time t @ '' ('' @
     (case rt_from_state t of None \<Rightarrow> ''none'' | Some f \<Rightarrow> as_path_to_string (state_path f)) @
     '' '' @ arrow_utf8 @ '' '' @ as_path_to_string (ra_as_path (es_attributes (rt_to t))) @ '')''"

definition is_restoration :: "transition_kind \<Rightarrow> bool" where
  "is_restoration k = (k = Restoration \<or> k = ReturnToBaseline)"

definition of_kind :: "(transition_kind \<Rightarrow> bool) \<Rightarrow> route_transition list \<Rightarrow> route_transition list" where
  "of_kind p ts = filter (\<lambda>t. p (rt_kind t)) ts"

definition transition_evidence :: "(timestamp \<Rightarrow> string) \<Rightarrow> route_transition list \<Rightarrow> evidence list" where
  "transition_evidence show_time ts =
     (let withdrawals = of_kind (\<lambda>k. k = Withdrawal) ts;
          path_changes = of_kind is_path_replacement ts;
          restorations = of_kind is_restoration ts
      in [\<lparr>evd_description = ''Total route transitions observed: '' @ show_nat (length ts),
           evd_source_records = []\<rparr>,
          \<lparr>evd_description = ''Withdrawal transitions: '' @ show_nat (length withdrawals),
           evd_source_records = map (source_record show_time) withdrawals\<rparr>,
          \<lparr>evd_description = ''Path-replacement transitions: '' @ show_nat (length path_changes),
           evd_source_records = map (path_change_record show_time) path_changes\<rparr>,
          \<lparr>evd_description = ''Restorations to baseline (transitions): '' @ show_nat (length restorations),
           evd_source_records = map (source_record show_time) restorations\<rparr>])"

definition streams_with :: "(stream_lifecycle \<Rightarrow> bool) \<Rightarrow> stream_lifecycle list \<Rightarrow> nat" where
  "streams_with p lcs = length (filter p lcs)"

definition lifecycle_evidence :: "stream_lifecycle list \<Rightarrow> evidence list" where
  "lifecycle_evidence lcs =
     (let ambiguous = streams_with (\<lambda>l. fl_add_path_ambiguous (sl_flags l)) lcs in
      \<lparr>evd_description =
         ''Stream lifecycle: total='' @ show_nat (length lcs) @
         '' unchanged='' @ show_nat (streams_with (\<lambda>l. sl_category l = Unchanged) lcs) @
         '' prepend-only='' @ show_nat (streams_with (\<lambda>l. sl_category l = PrependOnly) lcs) @
         '' withdrawn='' @ show_nat (streams_with sl_was_withdrawn lcs) @
         '' departed-transit='' @ show_nat (streams_with (\<lambda>l. sl_category l = DepartedTransitPath) lcs) @
         '' restored='' @ show_nat (streams_with (\<lambda>l. fl_restored (sl_flags l)) lcs) @
         '' not-restored='' @ show_nat (streams_with (\<lambda>l. fl_not_restored (sl_flags l)) lcs) @
         '' add-path-ambiguous='' @ show_nat ambiguous,
       evd_source_records = []\<rparr> #
      (if ambiguous > 0 then
         [\<lparr>evd_description = warning_utf8 @ ''  '' @ show_nat ambiguous @
             '' stream(s) have ambiguous ADD-PATH continuity (mixed keyed/unkeyed records). Strong stream-level assessment is suppressed for those streams.'',
           evd_source_records = []\<rparr>]
       else []))"

definition collect_evidence ::
  "(timestamp \<Rightarrow> string) \<Rightarrow> route_transition list \<Rightarrow> bool \<Rightarrow> stream_lifecycle list option \<Rightarrow> evidence list" where
  "collect_evidence show_time transitions any_unknown_continuity lifecycles =
     transition_evidence show_time transitions @
     (case lifecycles of None \<Rightarrow> [] | Some lcs \<Rightarrow> lifecycle_evidence lcs) @
     (if any_unknown_continuity then
        [\<lparr>evd_description = warning_utf8 @ ''  Observer continuity could not be confirmed '' @ dash_utf8 @
            '' verdict reliability reduced'',
          evd_source_records = []\<rparr>]
      else [])"

section \<open>The assessment\<close>

record event_assessment =
  ea_event_id :: string
  ea_expectation :: impact_expectation
  ea_verdict :: verdict
  ea_evidence :: "evidence list"
  ea_waves :: "impact_wave list"
  ea_generated_at :: timestamp

definition assess ::
  "(timestamp \<Rightarrow> string) \<Rightarrow> timestamp \<Rightarrow> string \<Rightarrow> impact_expectation \<Rightarrow> route_transition list \<Rightarrow>
   impact_wave list \<Rightarrow> bool \<Rightarrow> stream_lifecycle list option \<Rightarrow> event_assessment" where
  "assess show_time now event_id expectation transitions waves any_unknown_continuity lifecycles =
     \<lparr>ea_event_id = event_id, ea_expectation = expectation,
      ea_verdict = derive_verdict expectation transitions any_unknown_continuity lifecycles,
      ea_evidence = collect_evidence show_time transitions any_unknown_continuity lifecycles,
      ea_waves = waves, ea_generated_at = now\<rparr>"

datatype analysis_outcome =
    Completed event_assessment
  | InsufficientVisibilityOutcome string
  | Incomplete string

definition is_completed :: "analysis_outcome \<Rightarrow> bool" where
  "is_completed oc = (case oc of Completed _ \<Rightarrow> True | _ \<Rightarrow> False)"

section \<open>Lemmas\<close>

lemma built_withdrawn_category:
  "built l \<Longrightarrow> sl_was_withdrawn l = (sl_category l = Withdrawn)"
  by (auto simp: built_def build_one_lifecycle_def Let_def stream_category_of_def split: if_splits)

lemma length_filter_disjoint:
  "(\<And>x. x \<in> set xs \<Longrightarrow> \<not> (p x \<and> q x)) \<Longrightarrow>
   length (filter p xs) + length (filter q xs) = length (filter (\<lambda>x. p x \<or> q x) xs)"
  by (induction xs) auto

lemma length_filter_all: "length (filter p xs) = length xs \<longleftrightarrow> list_all p xs"
  by (metis filter_True length_filter_less list_all_iff less_irrefl)

lemma length_filter_pos: "0 < length (filter p xs) \<longleftrightarrow> list_ex p xs"
  by (induction xs) auto

section \<open>Properties\<close>

text \<open>C33: The continuity gate. With unknown continuity or any session reset the verdict is
  insufficient visibility, whatever the expectation and the findings; so a verdict that reads as no
  route-state change is only given with continuity established and no session reset.\<close>

theorem continuity_gate:
  "let v = derive_verdict expectation ts unknown lcs in
   (if unknown \<or> list_ex (\<lambda>t. rt_kind t = SessionReset) ts then v = InsufficientVisibility else True) \<and>
   (observed_result_kind v = NoRouteStateChangeObserved) =
     (\<not> unknown \<and> list_all (\<lambda>t. rt_kind t \<noteq> SessionReset) ts \<and>
      observed_result_kind v = NoRouteStateChangeObserved)"
proof -
  have "derive_verdict expectation ts unknown lcs = InsufficientVisibility"
    if "unknown \<or> list_ex (\<lambda>t. rt_kind t = SessionReset) ts"
    using that by (auto simp: derive_verdict_def Let_def has_kind_def)
  then show ?thesis
    by (auto simp: Let_def observed_result_kind_def list_all_iff list_ex_iff)
qed

text \<open>Every label written by an earlier release resolves to the verdict it was written for.\<close>

theorem deprecated_label_roundtrip: "from_deprecated_label (verdict_human_label v) = Some v"
  by (cases v) (simp_all add: from_deprecated_label_def deprecated_labels_def)

text \<open>On lifecycles the builder made, participant unavailability is the verdict exactly when
  some stream has unambiguous encoding, every such stream was withdrawn or departed from the
  transit, and at least one was withdrawn.\<close>

theorem participant_unavailability_iff_all_affected:
  assumes "list_all built lcs"
  shows "let strong = filter (\<lambda>l. \<not> fl_add_path_ambiguous (sl_flags l)) lcs in
    (participant_verdict lcs = ExpectedParticipantUnavailability) =
    (list_all (\<lambda>l. sl_was_withdrawn l \<or> sl_category l = DepartedTransitPath) strong \<and>
     list_ex sl_was_withdrawn strong)"
proof -
  let ?strong = "filter (\<lambda>l. \<not> fl_add_path_ambiguous (sl_flags l)) lcs"
  let ?w = "length (filter sl_was_withdrawn ?strong)"
  let ?d = "length (filter (\<lambda>l. sl_category l = DepartedTransitPath) ?strong)"
  have "?w + ?d = length (filter (\<lambda>l. sl_was_withdrawn l \<or> sl_category l = DepartedTransitPath) ?strong)"
    using assms built_withdrawn_category by (intro length_filter_disjoint) (auto simp: list_all_iff)
  then have all: "?w + ?d = length ?strong \<longleftrightarrow>
      list_all (\<lambda>l. sl_was_withdrawn l \<or> sl_category l = DepartedTransitPath) ?strong"
    by (simp only: length_filter_all)
  have ex: "0 < ?w \<longleftrightarrow> list_ex sl_was_withdrawn ?strong" by (rule length_filter_pos)
  have "participant_verdict lcs = ExpectedParticipantUnavailability \<longleftrightarrow> ?w + ?d = length ?strong \<and> 0 < ?w"
    by (auto simp: participant_verdict_def Let_def)
  then show ?thesis unfolding all ex Let_def .
qed

text \<open>Without withdrawals a non-redundant event is reported as no route-state change observed
  although transitions, path replacements among them, were observed; the documentation of that
  result says that no route-state transition was observed.\<close>

theorem observed_changes_reported_as_none:
  assumes "ie_kind expectation = NonRedundant" and "\<not> list_ex (\<lambda>t. rt_kind t = Withdrawal \<or> rt_kind t = SessionReset) ts"
  shows "observed_result_kind (derive_verdict expectation ts False lcs) = NoRouteStateChangeObserved"
proof -
  have "\<not> has_kind (\<lambda>k. k = Withdrawal) ts" "\<not> has_kind (\<lambda>k. k = SessionReset) ts"
    using assms(2) by (auto simp: has_kind_def list_ex_iff)
  with assms(1) have "derive_verdict expectation ts False lcs = LessImpactThanExpected"
    by (simp add: derive_verdict_def no_transition_verdict_def Let_def)
  then show ?thesis by (simp add: observed_result_kind_def)
qed

section \<open>Concrete assessments\<close>

theorem participant_unavailability_witness:
  "list_all built [lost_stream] \<and>
   (let strong = filter (\<lambda>l. \<not> fl_add_path_ambiguous (sl_flags l)) [lost_stream] in
    (participant_verdict [lost_stream] = ExpectedParticipantUnavailability) =
    (list_all (\<lambda>l. sl_was_withdrawn l \<or> sl_category l = DepartedTransitPath) strong \<and>
     list_ex sl_was_withdrawn strong))"
  using lost_stream_built participant_unavailability_iff_all_affected [OF lost_stream_built] by blast

definition moved_route :: route_transition where
  "moved_route = (sample_announcement None [6447, 237] 5)\<lparr>rt_kind := PathReplacement [6447, 11537] [6447, 237]\<rparr>"

text \<open>A path replacement was observed; the observed result says there was none.\<close>

theorem observed_changes_reported_as_none_witness:
  "is_path_replacement (rt_kind moved_route) \<and>
   observed_result_kind (derive_verdict (expect_non_redundant ''title'') [moved_route] False None) =
     NoRouteStateChangeObserved"
  using observed_changes_reported_as_none [of "expect_non_redundant ''title''" "[moved_route]" None]
  by (simp add: expect_non_redundant_def moved_route_def is_path_replacement_def)

end
