(* ===== verification/Semantic_Waves.thy ===== *)
theory Semantic_Waves
  imports Lifecycle
begin

text \<open>
  Semantic waves (\<open>src/src/lifecycle.rs\<close>, lines 503 to 838): the clusters of event-window
  transitions with the facets, the label and the peak of each. Both wave detectors share the
  clustering of the prelude.
\<close>

datatype wave_label =
    PrependReduction
  | PrependIncrease
  | StreamWithdrawal
  | TransitDeparture
  | StreamRestoration
  | TransitReturn
  | BaselinePolicyRestoration
  | MixedRouteChange

fun wave_label_str :: "wave_label \<Rightarrow> string" where
  "wave_label_str PrependReduction = ''PrependReduction''"
| "wave_label_str PrependIncrease = ''PrependIncrease''"
| "wave_label_str StreamWithdrawal = ''StreamWithdrawal''"
| "wave_label_str TransitDeparture = ''TransitDeparture''"
| "wave_label_str StreamRestoration = ''StreamRestoration''"
| "wave_label_str TransitReturn = ''TransitReturn''"
| "wave_label_str BaselinePolicyRestoration = ''BaselinePolicyRestoration''"
| "wave_label_str MixedRouteChange = ''MixedRouteChange''"

record generic_facet_counts =
  gf_communities_changed :: nat
  gf_graceful_shutdown_added :: nat
  gf_graceful_shutdown_removed :: nat
  gf_prepend_reduced :: nat
  gf_prepend_increased :: nat
  gf_material_path_changed :: nat
  gf_origin_changed :: nat
  gf_next_hop_changed :: nat
  gf_med_changed :: nat
  gf_local_pref_changed :: nat

record event_relative_counts =
  er_transit_retained :: nat
  er_transit_departed :: nat
  er_transit_returned :: nat

record semantic_wave =
  sw_id :: string
  sw_label :: wave_label
  sw_start :: timestamp
  sw_peak_start :: timestamp
  sw_peak_end :: timestamp
  sw_end :: timestamp
  sw_stream_count :: nat
  sw_route_instance_count :: nat
  sw_prefixes :: "string list"
  sw_peers :: "string list"
  sw_facets :: generic_facet_counts
  sw_event_relative :: event_relative_counts
  sw_representative_before :: "u32 list"
  sw_representative_after :: "u32 list"
  sw_evidence_refs :: "evidence_ref list"
  sw_duration_secs :: f64

section \<open>Label support\<close>

text \<open>The counter closure: bump the entry of a label, or push it with one.\<close>

fun count_label :: "wave_label \<Rightarrow> (wave_label \<times> nat) list \<Rightarrow> (wave_label \<times> nat) list" where
  "count_label l [] = [(l, 1)]"
| "count_label l ((l', n) # cs) = (if l' = l then (l', n + 1) # cs else (l', n) # count_label l cs)"

definition prepend_labels :: "route_transition \<Rightarrow> wave_label list" where
  "prepend_labels t =
     (case ef_prepend (rt_effects t) of
        PrependReducedBy \<Rightarrow> [PrependReduction]
      | PrependIncreasedBy \<Rightarrow> [PrependIncrease]
      | _ \<Rightarrow> [])"

datatype transit_effect = TransitRetained | TransitDeparted | TransitReturned | TransitNone

definition transit_effect :: "transit_predicate \<Rightarrow> route_transition \<Rightarrow> transit_effect" where
  "transit_effect pred t =
     (let from_has = (case rt_from_state t of None \<Rightarrow> False | Some r \<Rightarrow> evaluate pred (state_path r)) in
      case rt_to_state t of
        None \<Rightarrow> TransitNone
      | Some r \<Rightarrow>
          (let to_has = evaluate pred (state_path r) in
           if from_has \<and> to_has then TransitRetained
           else if from_has \<and> \<not> to_has then TransitDeparted
           else if \<not> from_has \<and> to_has then TransitReturned
           else TransitNone))"

definition transit_labels :: "transit_predicate \<Rightarrow> route_transition \<Rightarrow> wave_label list" where
  "transit_labels pred t =
     (case transit_effect pred t of
        TransitDeparted \<Rightarrow> [TransitDeparture]
      | TransitReturned \<Rightarrow> [TransitReturn]
      | _ \<Rightarrow> [])"

definition kind_labels :: "route_transition \<Rightarrow> wave_label list" where
  "kind_labels t =
     (case rt_kind t of
        Withdrawal \<Rightarrow> [StreamWithdrawal]
      | Restoration \<Rightarrow> [StreamRestoration]
      | ReturnToBaseline \<Rightarrow> [BaselinePolicyRestoration]
      | _ \<Rightarrow> [])"

definition supported_labels :: "transit_predicate \<Rightarrow> route_transition \<Rightarrow> wave_label list" where
  "supported_labels pred t = prepend_labels t @ transit_labels pred t @ kind_labels t"

definition label_counts :: "transit_predicate \<Rightarrow> route_transition list \<Rightarrow> (wave_label \<times> nat) list" where
  "label_counts pred ts =
     foldl (\<lambda>cs t. foldl (\<lambda>cs l. count_label l cs) cs (supported_labels pred t)) [] ts"

text \<open>Sorted by count, largest first, then by name.\<close>

definition label_order :: "wave_label \<times> nat \<Rightarrow> int \<times> string" where
  "label_order c = (- int (snd c), wave_label_str (fst c))"

definition choose_label :: "(wave_label \<times> nat) list \<Rightarrow> wave_label" where
  "choose_label cs =
     (case sort_key label_order cs of
        [] \<Rightarrow> MixedRouteChange
      | [best] \<Rightarrow> fst best
      | best # runner_up # _ \<Rightarrow> if snd runner_up = snd best then MixedRouteChange else fst best)"

section \<open>Facets and the peak\<close>

definition count_where :: "('a \<Rightarrow> bool) \<Rightarrow> 'a list \<Rightarrow> nat" where
  "count_where p xs = length (filter p xs)"

definition facet_counts :: "route_transition list \<Rightarrow> generic_facet_counts" where
  "facet_counts ts =
     \<lparr>gf_communities_changed = count_where (\<lambda>t. ef_communities_changed (rt_effects t)) ts,
      gf_graceful_shutdown_added = count_where (\<lambda>t. ef_graceful_shutdown_added (rt_effects t)) ts,
      gf_graceful_shutdown_removed = count_where (\<lambda>t. ef_graceful_shutdown_removed (rt_effects t)) ts,
      gf_prepend_reduced = count_where (\<lambda>t. ef_prepend (rt_effects t) = PrependReducedBy) ts,
      gf_prepend_increased = count_where (\<lambda>t. ef_prepend (rt_effects t) = PrependIncreasedBy) ts,
      gf_material_path_changed = count_where (\<lambda>t. ef_material_path_changed (rt_effects t)) ts,
      gf_origin_changed = count_where (\<lambda>t. ef_origin_changed (rt_effects t)) ts,
      gf_next_hop_changed = count_where (\<lambda>t. ef_next_hop_changed (rt_effects t)) ts,
      gf_med_changed = count_where (\<lambda>t. ef_med_changed (rt_effects t)) ts,
      gf_local_pref_changed = count_where (\<lambda>t. ef_local_pref_changed (rt_effects t)) ts\<rparr>"

definition relative_counts :: "transit_predicate \<Rightarrow> route_transition list \<Rightarrow> event_relative_counts" where
  "relative_counts pred ts =
     \<lparr>er_transit_retained = count_where (\<lambda>t. transit_effect pred t = TransitRetained) ts,
      er_transit_departed = count_where (\<lambda>t. transit_effect pred t = TransitDeparted) ts,
      er_transit_returned = count_where (\<lambda>t. transit_effect pred t = TransitReturned) ts\<rparr>"

definition in_window :: "timestamp list \<Rightarrow> timestamp \<Rightarrow> timestamp list" where
  "in_window timestamps ts = filter (\<lambda>t. t \<ge> ts \<and> t \<le> ts + secs 60) timestamps"

text \<open>The best window so far: its count, start and end.\<close>

definition peak_step ::
  "timestamp list \<Rightarrow> nat \<times> timestamp \<times> timestamp \<Rightarrow> timestamp \<Rightarrow> nat \<times> timestamp \<times> timestamp" where
  "peak_step timestamps best ts =
     (let w = in_window timestamps ts in
      if length w > fst best then (length w, ts, if w = [] then ts else Max (set w)) else best)"

definition peak :: "timestamp list \<Rightarrow> nat \<times> timestamp \<times> timestamp" where
  "peak tms =
     (let timestamps = sort tms in
      foldl (peak_step timestamps) (0, hd tms, last tms) timestamps)"

section \<open>Waves\<close>

definition stream_text :: "route_transition \<Rightarrow> string" where
  "stream_text t = rk_collector (rt_key t) @ '':'' @ ip_to_string (rk_peer_ip (rt_key t)) @ '':'' @
     rk_prefix (rt_key t)"

fun dedup_by_key :: "('a \<Rightarrow> 'k) \<Rightarrow> 'a list \<Rightarrow> 'a list" where
  "dedup_by_key f (x # y # xs) =
     (if f x = f y then dedup_by_key f (x # xs) else x # dedup_by_key f (y # xs))"
| "dedup_by_key f xs = xs"

definition build_semantic_wave :: "transit_predicate \<Rightarrow> route_transition list \<Rightarrow> semantic_wave" where
  "build_semantic_wave pred grp =
     (let start = rt_time (hd grp); end_time = rt_time (last grp);
          pk = peak (map rt_time grp)
      in \<lparr>sw_id = [], sw_label = choose_label (label_counts pred grp),
          sw_start = start, sw_peak_start = fst (snd pk), sw_peak_end = snd (snd pk), sw_end = end_time,
          sw_stream_count = card (set (map stream_text grp)),
          sw_route_instance_count = card (set (map rt_key grp)),
          sw_prefixes = sort (remdups (map (\<lambda>t. rk_prefix (rt_key t)) grp)),
          sw_peers = sort (remdups (map (\<lambda>t. ip_to_string (rk_peer_ip (rt_key t))) grp)),
          sw_facets = facet_counts grp,
          sw_event_relative = relative_counts pred grp,
          sw_representative_before = opt_path (rt_from_state (hd grp)),
          sw_representative_after = opt_path (rt_to_state (hd grp)),
          sw_evidence_refs =
            dedup_by_key ev_observation_id (sort_key ev_observation_id (map rt_triggering grp)),
          sw_duration_secs = max 0 (of_int (num_seconds (end_time - start)))\<rparr>)"

definition wave_order :: "route_transition \<Rightarrow> timestamp \<times> 8 word \<times> u32" where
  "wave_order t = (rt_time t, path_id_key (rk_path_id (rt_key t)))"

definition secs_near :: "f64 \<Rightarrow> route_transition \<Rightarrow> route_transition \<Rightarrow> bool" where
  "secs_near max_gap_secs prev next = (of_int (num_seconds (rt_time next - rt_time prev)) \<le> max_gap_secs)"

definition semantic_groups :: "route_transition list \<Rightarrow> f64 \<Rightarrow> route_transition list list" where
  "semantic_groups transitions max_gap_secs =
     (case sort_key wave_order (filter (\<lambda>t. rt_phase t = EventPhase) transitions) of
        [] \<Rightarrow> []
      | t # ts \<Rightarrow> gap_groups (secs_near max_gap_secs) [t] t ts)"

definition derive_semantic_waves ::
  "route_transition list \<Rightarrow> f64 \<Rightarrow> transit_predicate \<Rightarrow> semantic_wave list" where
  "derive_semantic_waves transitions max_gap_secs pred =
     map (\<lambda>(i, g). (build_semantic_wave pred g)\<lparr>sw_id := ''wave-'' @ show_nat (i + 1)\<rparr>)
       (enumerate 0 (semantic_groups transitions max_gap_secs))"

section \<open>Label lemmas\<close>

definition label_support :: "transit_predicate \<Rightarrow> route_transition list \<Rightarrow> wave_label \<Rightarrow> nat" where
  "label_support pred ts l = count_list (concat (map (supported_labels pred) ts)) l"

definition tallies :: "(wave_label \<times> nat) list \<Rightarrow> wave_label list \<Rightarrow> bool" where
  "tallies cs ls = (distinct (map fst cs) \<and> set cs = (\<lambda>l. (l, count_list ls l)) ` set ls)"

lemma count_label_tallies:
  "distinct (map fst cs) \<Longrightarrow>
   distinct (map fst (count_label l cs)) \<and> fst ` set (count_label l cs) = insert l (fst ` set cs) \<and>
   map_of (count_label l cs) = (map_of cs)(l \<mapsto> (case map_of cs l of None \<Rightarrow> 1 | Some n \<Rightarrow> n + 1))"
  by (induction l cs rule: count_label.induct) (auto simp: fun_eq_iff)

lemma count_labels_fold:
  "distinct (map fst (foldl (\<lambda>cs l. count_label l cs) [] ls)) \<and>
   map_of (foldl (\<lambda>cs l. count_label l cs) [] ls) =
     (\<lambda>l. if l \<in> set ls then Some (count_list ls l) else None)"
proof (induction ls rule: rev_induct)
  case (snoc l ls)
  then show ?case
    using count_label_tallies [of "foldl (\<lambda>cs l. count_label l cs) [] ls" l]
    by (auto simp: fun_eq_iff count_list_0_iff)
qed (simp add: fun_eq_iff)

lemma label_counts_concat:
  "label_counts pred ts = foldl (\<lambda>cs l. count_label l cs) [] (concat (map (supported_labels pred) ts))"
proof -
  have "foldl (\<lambda>cs t. foldl (\<lambda>cs l. count_label l cs) cs (supported_labels pred t)) cs ts =
      foldl (\<lambda>cs l. count_label l cs) cs (concat (map (supported_labels pred) ts))" for cs
    by (induction ts arbitrary: cs) simp_all
  then show ?thesis by (simp add: label_counts_def)
qed

lemma label_counts_spec:
  "distinct (map fst (label_counts pred ts)) \<and>
   ((l, n) \<in> set (label_counts pred ts) \<longleftrightarrow> n = label_support pred ts l \<and> 0 < n)"
proof -
  let ?ls = "concat (map (supported_labels pred) ts)"
  have d: "distinct (map fst (label_counts pred ts))"
    and m: "map_of (label_counts pred ts) = (\<lambda>l. if l \<in> set ?ls then Some (count_list ?ls l) else None)"
    using count_labels_fold [of ?ls] by (simp_all only: label_counts_concat)
  have "(l, n) \<in> set (label_counts pred ts) \<longleftrightarrow> map_of (label_counts pred ts) l = Some n"
    using d by simp
  then show ?thesis
    using d count_list_0_iff [of ?ls l] by (auto simp: m label_support_def simp del: set_concat)
qed

lemma mixed_not_supported: "MixedRouteChange \<notin> set (supported_labels pred t)"
  by (auto simp: supported_labels_def prepend_labels_def transit_labels_def kind_labels_def
      split: prepend_change.splits transit_effect.splits transition_kind.splits)

lemma label_str_inj: "wave_label_str a = wave_label_str b \<Longrightarrow> a = b"
  by (cases a; cases b) simp_all

text \<open>The chosen label: the head of the sorted tally unless the runner-up has the same count.\<close>

lemma choose_label_dominant:
  assumes d: "distinct (map fst cs)" and m: "MixedRouteChange \<notin> fst ` set cs" and l: "l \<noteq> MixedRouteChange"
  shows "choose_label cs = l \<longleftrightarrow> (\<exists>n. (l, n) \<in> set cs \<and> (\<forall>(l', n')\<in>set cs. l' \<noteq> l \<longrightarrow> n' < n))"
proof -
  let ?s = "sort_key label_order cs"
  have set_s: "set ?s = set cs" by simp
  have ds: "distinct (map fst ?s)"
    using d by (metis distinct_map mset_sort mset_eq_imp_distinct_iff mset_eq_setD)
  have srt: "sorted (map label_order ?s)" by simp
  show ?thesis
  proof (cases ?s)
    case Nil
    then have "cs = []" using set_s by simp
    then show ?thesis using l by (simp add: choose_label_def)
  next
    case (Cons best rest)
    obtain l0 n0 where best: "best = (l0, n0)" by (cases best)
    have le: "n' \<le> n0" if "(l', n') \<in> set rest" for l' n'
      using srt that Cons best by (auto simp: label_order_def)
    have cs: "set cs = insert (l0, n0) (set rest)" using set_s Cons best by simp
    have nt: "l' \<noteq> l0" if "(l', n') \<in> set rest" for l' n'
      using ds that Cons best by (auto simp: image_iff)
    show ?thesis
    proof (cases rest)
      case Nil
      then show ?thesis using Cons best cs by (auto simp: choose_label_def)
    next
      case c2: (Cons r rest')
      obtain rl rn where r: "r = (rl, rn)" by (cases r)
      have ln: "n' \<le> rn" if "(l', n') \<in> set rest" for l' n'
        using srt that Cons c2 best r by (auto simp: label_order_def)
      have rn: "rn \<le> n0" "rl \<noteq> l0" "(rl, rn) \<in> set rest"
        using le nt c2 r by auto
      have c: "choose_label cs = (if rn = n0 then MixedRouteChange else l0)"
        using Cons c2 best r by (simp add: choose_label_def)
      show ?thesis
      proof (cases "rn = n0")
        case True
        have "\<not> (\<exists>n. (l, n) \<in> set cs \<and> (\<forall>(l', n')\<in>set cs. l' \<noteq> l \<longrightarrow> n' < n))"
        proof
          assume "\<exists>n. (l, n) \<in> set cs \<and> (\<forall>(l', n')\<in>set cs. l' \<noteq> l \<longrightarrow> n' < n)"
          then obtain n where n: "(l, n) \<in> set cs" "\<And>l' n'. (l', n') \<in> set cs \<Longrightarrow> l' \<noteq> l \<Longrightarrow> n' < n"
            by blast
          have "n \<le> n0" using n(1) cs le by auto
          moreover have "n0 < n"
            using n(2) [of l0 n0] n(2) [of rl rn] rn cs True by (cases "l = l0") auto
          ultimately show False by simp
        qed
        with True c l show ?thesis by simp
      next
        case False
        then have "rn < n0" using rn by simp
        then have lt: "n' < n0" if "(l', n') \<in> set rest" for l' n' using ln [OF that] by simp
        show ?thesis
        proof
          assume "choose_label cs = l"
          then have "l = l0" using c False by simp
          then show "\<exists>n. (l, n) \<in> set cs \<and> (\<forall>(l', n')\<in>set cs. l' \<noteq> l \<longrightarrow> n' < n)"
            using cs lt by (intro exI [of _ n0]) auto
        next
          assume "\<exists>n. (l, n) \<in> set cs \<and> (\<forall>(l', n')\<in>set cs. l' \<noteq> l \<longrightarrow> n' < n)"
          then obtain n where n: "(l, n) \<in> set cs" "\<And>l' n'. (l', n') \<in> set cs \<Longrightarrow> l' \<noteq> l \<Longrightarrow> n' < n"
            by blast
          have "l = l0" using n(1) n(2) [of l0 n0] cs lt [of l n] by (cases "l0 = l") auto
          with c False show "choose_label cs = l" by simp
        qed
      qed
    qed
  qed
qed

section \<open>Peak lemmas\<close>

definition peak_ok :: "timestamp list \<Rightarrow> timestamp list \<Rightarrow> nat \<times> timestamp \<times> timestamp \<Rightarrow> bool" where
  "peak_ok tms seen pk = (case pk of (n, s, e) \<Rightarrow>
     s \<in> set seen \<and> n = length (in_window tms s) \<and> e = Max (set (in_window tms s)) \<and>
     list_all (\<lambda>t. length (in_window tms t) \<le> n) seen)"

lemma in_window_self: "t \<in> set tms \<Longrightarrow> t \<in> set (in_window tms t)"
  by (simp add: in_window_def secs_def)

lemma peak_fold:
  "seen \<noteq> [] \<Longrightarrow> set seen \<subseteq> set tms \<Longrightarrow> peak_ok tms seen (foldl (peak_step tms) (0, d) seen)"
proof (induction seen rule: rev_nonempty_induct)
  case (single t)
  then show ?case using in_window_self [of t tms]
    by (auto simp: peak_ok_def peak_step_def Let_def)
next
  case (snoc t seen)
  obtain n s e where p: "foldl (peak_step tms) (0, d) seen = (n, s, e)" by (metis prod_cases3)
  have ok: "peak_ok tms seen (n, s, e)" using snoc p by simp
  have ne: "in_window tms t \<noteq> []" using snoc.prems in_window_self [of t tms] by force
  show ?case
  proof (cases "length (in_window tms t) > n")
    case True
    then have "foldl (peak_step tms) (0, d) (seen @ [t]) =
        (length (in_window tms t), t, Max (set (in_window tms t)))"
      using p ne by (simp add: peak_step_def Let_def)
    with ok True show ?thesis by (auto simp: peak_ok_def list_all_iff intro: order_trans)
  next
    case False
    then have "foldl (peak_step tms) (0, d) (seen @ [t]) = (n, s, e)"
      using p by (simp add: peak_step_def Let_def)
    with ok False show ?thesis by (auto simp: peak_ok_def)
  qed
qed

lemma peak_spec:
  assumes "tms \<noteq> []"
  shows "peak_ok (sort tms) (sort tms) (peak tms)"
proof -
  have "sort tms \<noteq> []" using assms by (metis length_0_conv length_sort)
  from peak_fold [OF this subset_refl, of "(hd tms, last tms)"] show ?thesis
    by (simp add: peak_def Let_def)
qed

lemma peak_bounds:
  assumes "peak_ok tms seen (n, s, e)" "set seen \<subseteq> set tms"
  shows "s \<in> set tms \<and> e \<in> set tms \<and> s \<le> e \<and> e \<le> s + secs 60"
proof -
  have s: "s \<in> set (in_window tms s)"
    using assms by (intro in_window_self) (auto simp: peak_ok_def)
  have "e \<in> set (in_window tms s)"
  proof -
    have "Max (set (in_window tms s)) \<in> set (in_window tms s)" using s by (intro Max_in) auto
    with assms(1) show ?thesis by (simp add: peak_ok_def)
  qed
  then show ?thesis using s by (auto simp: in_window_def)
qed

lemma semantic_groups_spec:
  "concat (semantic_groups ts gap) = sort_key wave_order (filter (\<lambda>t. rt_phase t = EventPhase) ts)"
  "successively (\<lambda>g h. \<not> secs_near gap (last g) (hd h)) (semantic_groups ts gap)"
  "list_all (\<lambda>g. g \<noteq> [] \<and> successively (secs_near gap) g) (semantic_groups ts gap)"
proof -
  let ?s = "sort_key wave_order (filter (\<lambda>t. rt_phase t = EventPhase) ts)"
  show "concat (semantic_groups ts gap) = ?s"
    "successively (\<lambda>g h. \<not> secs_near gap (last g) (hd h)) (semantic_groups ts gap)"
    by (simp_all add: semantic_groups_def concat_gap_groups gap_groups_far split: list.split)
  show "list_all (\<lambda>g. g \<noteq> [] \<and> successively (secs_near gap) g) (semantic_groups ts gap)"
  proof (cases ?s)
    case (Cons t us)
    have "g \<noteq> [] \<and> successively (secs_near gap) g" if g: "g \<in> set (gap_groups (secs_near gap) [t] t us)" for g
      using gap_groups_not_Nil [OF _ g] gap_groups_near [OF g] by simp
    with Cons show ?thesis by (simp add: semantic_groups_def list_all_iff)
  qed (simp add: semantic_groups_def)
qed

section \<open>Properties\<close>

text \<open>Semantic waves partition the event-window transitions, ordered by time and path id,
  into runs whose neighbours are within the gap; each wave takes its start, its end and exactly
  its prefixes from its group, and waves are numbered in order.\<close>

theorem semantic_waves_partition:
  "let gs = semantic_groups ts gap; ws = derive_semantic_waves ts gap pred in
    concat gs = sort_key wave_order (filter (\<lambda>t. rt_phase t = EventPhase) ts) \<and>
    list_all (\<lambda>g. g \<noteq> [] \<and> successively (secs_near gap) g) gs \<and>
    successively (\<lambda>g h. \<not> secs_near gap (last g) (hd h)) gs \<and>
    map sw_id ws = map (\<lambda>i. ''wave-'' @ show_nat (i + 1)) [0..<length gs] \<and>
    list_all2 (\<lambda>g w. sw_start w = rt_time (hd g) \<and> sw_end w = rt_time (last g) \<and>
      set (sw_prefixes w) = (\<lambda>t. rk_prefix (rt_key t)) ` set g \<and>
      sw_route_instance_count w = card (rt_key ` set g)) gs ws"
proof -
  have "map sw_id (derive_semantic_waves ts gap pred) =
      map (\<lambda>i. ''wave-'' @ show_nat (i + 1)) [0..<length (semantic_groups ts gap)]"
    by (intro nth_equalityI) (simp_all add: derive_semantic_waves_def nth_enumerate_eq)
  moreover have "list_all2 (\<lambda>g w. sw_start w = rt_time (hd g) \<and> sw_end w = rt_time (last g) \<and>
      set (sw_prefixes w) = (\<lambda>t. rk_prefix (rt_key t)) ` set g \<and>
      sw_route_instance_count w = card (rt_key ` set g))
      (semantic_groups ts gap) (derive_semantic_waves ts gap pred)"
    by (simp add: list_all2_conv_all_nth derive_semantic_waves_def nth_enumerate_eq
        build_semantic_wave_def Let_def)
  ultimately show ?thesis using semantic_groups_spec by (simp add: Let_def)
qed

text \<open>A wave carries a label other than the mixed one exactly when that label is supported by
  at least one transition effect and by strictly more than any other label.\<close>

theorem wave_label_dominant:
  assumes "l \<noteq> MixedRouteChange"
  shows "sw_label (build_semantic_wave pred g) = l \<longleftrightarrow>
    0 < label_support pred g l \<and> (\<forall>l'. l' \<noteq> l \<longrightarrow> label_support pred g l' < label_support pred g l)"
proof -
  let ?cs = "label_counts pred g"
  have cs: "distinct (map fst ?cs)"
    "\<And>l n. (l, n) \<in> set ?cs \<longleftrightarrow> n = label_support pred g l \<and> 0 < n"
    using label_counts_spec [of pred g] by blast+
  have "label_support pred g MixedRouteChange = 0"
    using mixed_not_supported by (auto simp: label_support_def count_list_0_iff)
  then have "MixedRouteChange \<notin> fst ` set ?cs" using cs(2) by auto
  note ch = choose_label_dominant [OF cs(1) this assms]
  have "(\<forall>(l', n')\<in>set ?cs. l' \<noteq> l \<longrightarrow> n' < n) \<longleftrightarrow>
      (\<forall>l'. l' \<noteq> l \<longrightarrow> label_support pred g l' < n)" if "0 < n" for n
  proof
    assume a: "\<forall>(l', n')\<in>set ?cs. l' \<noteq> l \<longrightarrow> n' < n"
    show "\<forall>l'. l' \<noteq> l \<longrightarrow> label_support pred g l' < n"
    proof (intro allI impI)
      fix l' assume "l' \<noteq> l"
      then show "label_support pred g l' < n"
        using a that cs(2) [of l' "label_support pred g l'"] by (cases "label_support pred g l'") auto
    qed
  qed (use cs(2) in auto)
  then have "(\<exists>n. (l, n) \<in> set ?cs \<and> (\<forall>(l', n')\<in>set ?cs. l' \<noteq> l \<longrightarrow> n' < n)) \<longleftrightarrow>
      0 < label_support pred g l \<and> (\<forall>l'. l' \<noteq> l \<longrightarrow> label_support pred g l' < label_support pred g l)"
    using cs(2) by metis
  with ch show ?thesis by (simp add: build_semantic_wave_def Let_def)
qed

text \<open>The peak of a wave is a densest sixty-second window of its transitions: it starts and
  ends at transitions of the wave, spans at most sixty seconds, and no window that starts at a
  transition of the wave holds more.\<close>

theorem peak_is_densest:
  assumes "g \<noteq> []"
  shows "let w = build_semantic_wave pred g; tms = sort (map rt_time g) in
    sw_peak_start w \<in> set tms \<and> sw_peak_end w \<in> set tms \<and>
    sw_peak_start w \<le> sw_peak_end w \<and> sw_peak_end w \<le> sw_peak_start w + secs 60 \<and>
    list_all (\<lambda>t. length (in_window tms t) \<le> length (in_window tms (sw_peak_start w))) tms"
proof -
  let ?tms = "sort (map rt_time g)"
  obtain n s e where p: "peak (map rt_time g) = (n, s, e)" by (metis prod_cases3)
  have ok: "peak_ok ?tms ?tms (n, s, e)" using peak_spec [of "map rt_time g"] assms p by simp
  have n: "n = length (in_window ?tms s)" "list_all (\<lambda>t. length (in_window ?tms t) \<le> n) ?tms"
    using ok by (auto simp: peak_ok_def)
  from peak_bounds [OF ok] p n(2) [unfolded n(1)] show ?thesis
    by (simp add: build_semantic_wave_def Let_def)
qed

section \<open>Concrete waves\<close>

definition sample_gone :: route_transition where
  "sample_gone =
     \<lparr>rt_key = RouteKey ''rv2'' (V4 1) ''192.0.2.0/24'' None, rt_event_baseline = None, rt_from = None,
      rt_to = absent (synthetic_evidence 1 ''u'' ''s''), rt_kind = Withdrawal,
      rt_effects = default_effects, rt_triggering = synthetic_evidence 1 ''u'' ''s'',
      rt_phase = EventPhase\<rparr>"

lemma sample_gone_labels: "supported_labels pred sample_gone = [StreamWithdrawal]"
  by (simp add: supported_labels_def prepend_labels_def transit_labels_def kind_labels_def
      transit_effect_def sample_gone_def default_effects_def absent_def rt_to_state_def)

theorem wave_label_dominant_witness:
  "sw_label (build_semantic_wave (ContainsAny [11537]) [sample_gone]) = StreamWithdrawal"
  using wave_label_dominant [of StreamWithdrawal "ContainsAny [11537]" "[sample_gone]"]
  by (simp add: label_support_def sample_gone_labels)

theorem peak_is_densest_witness:
  "sw_peak_start (build_semantic_wave (ContainsAny [11537]) [sample_gone]) \<le>
   sw_peak_end (build_semantic_wave (ContainsAny [11537]) [sample_gone])"
  using peak_is_densest [of "[sample_gone]" "ContainsAny [11537]"] by (simp add: Let_def)

end
