(* ===== verification/Std_Text.thy ===== *)
theory Std_Text
  imports Inim_Prelude
begin

text \<open>
  The operations of Rust's \<open>str\<close> that the catalog relies on, over UTF-8 byte strings: trimming of
  Unicode white space, ASCII case folding, prefixes, substrings and decimal integers.
\<close>

text \<open>The UTF-8 encodings of the Unicode White_Space characters that \<open>str::trim\<close> strips.\<close>

definition white_space :: "string list" where
  "white_space =
     [[CHR 0x09], [CHR 0x0A], [CHR 0x0B], [CHR 0x0C], [CHR 0x0D], [CHR 0x20],
      [CHR 0xC2, CHR 0x85], [CHR 0xC2, CHR 0xA0], [CHR 0xE1, CHR 0x9A, CHR 0x80],
      [CHR 0xE2, CHR 0x80, CHR 0x80], [CHR 0xE2, CHR 0x80, CHR 0x81], [CHR 0xE2, CHR 0x80, CHR 0x82], [CHR 0xE2, CHR 0x80, CHR 0x83],
      [CHR 0xE2, CHR 0x80, CHR 0x84], [CHR 0xE2, CHR 0x80, CHR 0x85], [CHR 0xE2, CHR 0x80, CHR 0x86], [CHR 0xE2, CHR 0x80, CHR 0x87],
      [CHR 0xE2, CHR 0x80, CHR 0x88], [CHR 0xE2, CHR 0x80, CHR 0x89], [CHR 0xE2, CHR 0x80, CHR 0x8A],
      [CHR 0xE2, CHR 0x80, CHR 0xA8], [CHR 0xE2, CHR 0x80, CHR 0xA9], [CHR 0xE2, CHR 0x80, CHR 0xAF],
      [CHR 0xE2, CHR 0x81, CHR 0x9F], [CHR 0xE3, CHR 0x80, CHR 0x80]]"

definition starts_with :: "string \<Rightarrow> string \<Rightarrow> bool" where
  "starts_with p s = (take (length p) s = p)"

text \<open>Strips leading occurrences of the given byte sequences; the recursion skips the rest of a
  matched sequence by a counter, so that it is structural.\<close>

fun strip_front :: "string list \<Rightarrow> nat \<Rightarrow> string \<Rightarrow> string" where
  "strip_front ws n [] = []"
| "strip_front ws (Suc n) (c # s) = strip_front ws n s"
| "strip_front ws 0 (c # s) =
     (case find (\<lambda>w. w \<noteq> [] \<and> starts_with w (c # s)) ws of
        None \<Rightarrow> c # s
      | Some w \<Rightarrow> strip_front ws (length w - 1) s)"

definition trim :: "string \<Rightarrow> string" where
  "trim s = rev (strip_front (map rev white_space) 0 (rev (strip_front white_space 0 s)))"

definition ascii_upper :: "char \<Rightarrow> char" where
  "ascii_upper c = (if 97 \<le> (of_char c :: nat) \<and> (of_char c :: nat) \<le> 122 then char_of (of_char c - 32 :: nat) else c)"

definition ascii_lower :: "char \<Rightarrow> char" where
  "ascii_lower c = (if 65 \<le> (of_char c :: nat) \<and> (of_char c :: nat) \<le> 90 then char_of (of_char c + 32 :: nat) else c)"

fun contains_str :: "string \<Rightarrow> string \<Rightarrow> bool" where
  "contains_str p [] = (p = [])"
| "contains_str p (c # s) = (starts_with p (c # s) \<or> contains_str p s)"

definition ends_with :: "string \<Rightarrow> string \<Rightarrow> bool" where
  "ends_with p s = starts_with (rev p) (rev s)"

text \<open>The \<open>?\<close> operator of \<open>Result\<close>, and the check that returns early.\<close>

definition and_then :: "'e + 'a \<Rightarrow> ('a \<Rightarrow> 'e + 'b) \<Rightarrow> 'e + 'b" where
  "and_then m f = (case m of Inl e \<Rightarrow> Inl e | Inr x \<Rightarrow> f x)"

definition refuse :: "bool \<Rightarrow> 'e \<Rightarrow> 'e + unit" where
  "refuse c e = (if c then Inl e else Inr ())"

definition ok_or :: "'a option \<Rightarrow> 'e \<Rightarrow> 'e + 'a" where
  "ok_or x e = (case x of None \<Rightarrow> Inl e | Some y \<Rightarrow> Inr y)"

lemma and_then_simps [simp]: "and_then (Inl e) f = Inl e" "and_then (Inr x) f = f x"
  by (simp_all add: and_then_def)

lemma and_then_Inr_iff: "and_then m f = Inr y \<longleftrightarrow> (\<exists>x. m = Inr x \<and> f x = Inr y)"
  by (auto simp: and_then_def split: sum.splits)

lemma refuse_Inr_iff [simp]: "refuse c e = Inr u \<longleftrightarrow> \<not> c"
  by (auto simp: refuse_def)

lemma refuse_simps [simp]: "refuse True e = Inl e" "refuse False e = Inr ()"
  by (simp_all add: refuse_def)

lemma ok_or_simps [simp]: "ok_or None e = Inl e" "ok_or (Some x) e = Inr x"
  by (simp_all add: ok_or_def)

lemma ok_or_Inr_iff [simp]: "ok_or x e = Inr y \<longleftrightarrow> x = Some y"
  by (auto simp: ok_or_def split: option.splits)

definition show_int :: "int \<Rightarrow> string" where
  "show_int n = (if n < 0 then CHR ''-'' # show_nat (nat (- n)) else show_nat (nat n))"

text \<open>\<open>str::parse\<close> for \<open>u64\<close>: an optional plus sign and decimal digits, below the range of the type.\<close>

definition parse_u64 :: "string \<Rightarrow> nat option" where
  "parse_u64 s =
     (let ds = (if starts_with ''+'' s then tl s else s)
      in if ds = [] then None
         else Option.bind (parse_digits 0 ds) (\<lambda>n. if n < 2 ^ 64 then Some n else None))"

end
