(* ===== verification/Scope.thy ===== *)
theory Scope
  imports Std_Text
begin

text \<open>
  The project-scope policy of \<open>catalog/scope.rs\<close>: validation and indexing of the configuration
  and the exact, normalised lookups. Reading the TOML file (\<open>ProjectScope::load\<close>) is left out; the
  parsed configuration is the input. The hash maps from a key to an index are maps.
\<close>

section \<open>The policy\<close>

definition normalize_exact :: "string \<Rightarrow> string" where
  "normalize_exact s = map ascii_upper (trim s)"

record excluded_entity =
  stable_key :: string
  reviewed_name :: string
  reviewed_asns :: "u32 list"
  aliases :: "string list"
  entity_reason_code :: string
  review_date :: string
  decision_source :: string

record excluded_source_record =
  source_family :: string
  external_id :: string
  record_reason_code :: string

record scope_config_file =
  schema_version :: u32
  excluded_entities :: "excluded_entity list"
  excluded_source_records :: "excluded_source_record list"

record project_scope =
  scope_schema_version :: u32
  entities :: "excluded_entity list"
  source_records :: "excluded_source_record list"
  entity_name_index :: "string \<rightharpoonup> nat"
  asn_index :: "u32 \<rightharpoonup> nat"
  record_index :: "string \<rightharpoonup> nat"

datatype scope_error =
    UnsupportedSchema u32
  | EmptyStableKey nat
  | DuplicateStableKey string
  | EmptyReviewedName string
  | EmptyReasonCode string
  | InvalidAsn string u32
  | EmptyAlias string
  | ConflictingAlias string nat string
  | AsnListedTwice u32 nat string
  | EmptyRecordIdentifiers nat
  | DuplicateRecord string string
  | EmptyRecordReason string string

definition default_scope :: project_scope where
  "default_scope = \<lparr>scope_schema_version = 0, entities = [], source_records = [],
     entity_name_index = Map.empty, asn_index = Map.empty, record_index = Map.empty\<rparr>"

text \<open>Insertion into an index, where an entry that is already there is a conflict.\<close>

fun index_all :: "('k \<Rightarrow> nat \<Rightarrow> scope_error) \<Rightarrow> nat \<Rightarrow> 'k list \<Rightarrow> ('k \<rightharpoonup> nat) \<Rightarrow> scope_error + ('k \<rightharpoonup> nat)" where
  "index_all conflict i [] m = Inr m"
| "index_all conflict i (k # ks) m =
     (case m k of
        Some prev \<Rightarrow> Inl (conflict k prev)
      | None \<Rightarrow> index_all conflict i ks (m(k \<mapsto> i)))"

fun index_names :: "string \<Rightarrow> nat \<Rightarrow> string list \<Rightarrow> (string \<rightharpoonup> nat) \<Rightarrow> scope_error + (string \<rightharpoonup> nat)" where
  "index_names owner i [] m = Inr m"
| "index_names owner i (n # ns) m =
     (if normalize_exact n = [] then Inl (EmptyAlias owner)
      else case m (normalize_exact n) of
        Some prev \<Rightarrow> Inl (ConflictingAlias (normalize_exact n) prev owner)
      | None \<Rightarrow> index_names owner i ns (m(normalize_exact n \<mapsto> i)))"

fun add_entities :: "nat \<Rightarrow> string set \<Rightarrow> excluded_entity list \<Rightarrow> project_scope \<Rightarrow> scope_error + project_scope" where
  "add_entities i keys [] sc = Inr sc"
| "add_entities i keys (e # es) sc =
     (let key = map ascii_lower (trim (stable_key e)) in
      if trim (stable_key e) = [] then Inl (EmptyStableKey (i + 1))
      else if key \<in> keys then Inl (DuplicateStableKey (stable_key e))
      else if trim (reviewed_name e) = [] then Inl (EmptyReviewedName (stable_key e))
      else if trim (entity_reason_code e) = [] then Inl (EmptyReasonCode (stable_key e))
      else if 0 \<in> set (reviewed_asns e) then Inl (InvalidAsn (stable_key e) 0)
      else case index_names (stable_key e) i (reviewed_name e # aliases e) (entity_name_index sc) of
        Inl err \<Rightarrow> Inl err
      | Inr names \<Rightarrow>
          (case index_all (\<lambda>a prev. AsnListedTwice a prev (stable_key e)) i (reviewed_asns e) (asn_index sc) of
             Inl err \<Rightarrow> Inl err
           | Inr asns \<Rightarrow>
               add_entities (i + 1) (insert key keys) es
                 (sc\<lparr>entities := entities sc @ [e], entity_name_index := names, asn_index := asns\<rparr>)))"

fun add_records :: "nat \<Rightarrow> string set \<Rightarrow> excluded_source_record list \<Rightarrow> project_scope \<Rightarrow> scope_error + project_scope" where
  "add_records i keys [] sc = Inr sc"
| "add_records i keys (r # rs) sc =
     (let key = normalize_exact (external_id r) in
      if trim (source_family r) = [] \<or> trim (external_id r) = [] then Inl (EmptyRecordIdentifiers (i + 1))
      else if key \<in> keys then Inl (DuplicateRecord (source_family r) (external_id r))
      else if trim (record_reason_code r) = [] then Inl (EmptyRecordReason (source_family r) (external_id r))
      else add_records (i + 1) (insert key keys) rs
        (sc\<lparr>record_index := (record_index sc)(key \<mapsto> i), source_records := source_records sc @ [r]\<rparr>))"

definition from_config :: "scope_config_file \<Rightarrow> scope_error + project_scope" where
  "from_config file =
     (if schema_version file \<noteq> 1 then Inl (UnsupportedSchema (schema_version file))
      else case add_entities 0 {} (excluded_entities file)
                  (default_scope\<lparr>scope_schema_version := schema_version file\<rparr>) of
        Inl err \<Rightarrow> Inl err
      | Inr sc \<Rightarrow> add_records 0 {} (excluded_source_records file) sc)"

definition excluded_source_record_by_id :: "project_scope \<Rightarrow> string \<Rightarrow> string \<Rightarrow> bool" where
  "excluded_source_record_by_id sc family ext = (record_index sc (normalize_exact ext) \<noteq> None)"

definition excluded_entity_name :: "project_scope \<Rightarrow> string \<Rightarrow> bool" where
  "excluded_entity_name sc name = (entity_name_index sc (normalize_exact name) \<noteq> None)"

definition excluded_asn :: "project_scope \<Rightarrow> u32 \<Rightarrow> bool" where
  "excluded_asn sc a = (asn_index sc a \<noteq> None)"

definition source_record_reason :: "project_scope \<Rightarrow> string \<Rightarrow> string \<Rightarrow> string option" where
  "source_record_reason sc family ext =
     map_option (\<lambda>i. record_reason_code (source_records sc ! i)) (record_index sc (normalize_exact ext))"

definition entity_name_reason :: "project_scope \<Rightarrow> string \<Rightarrow> string option" where
  "entity_name_reason sc name =
     map_option (\<lambda>i. entity_reason_code (entities sc ! i)) (entity_name_index sc (normalize_exact name))"

definition any_asn_excluded :: "project_scope \<Rightarrow> u32 list \<Rightarrow> bool" where
  "any_asn_excluded sc asns = (\<exists>a \<in> set asns. excluded_asn sc a)"

section \<open>What the policy excludes\<close>

text \<open>
  The index of a configuration: each entry points to the element that owns its key, and every
  key of every element is there. The locale states what a client of an index may rely on.
\<close>

locale keyed_index =
  fixes keys_of :: "'e \<Rightarrow> 'k list"
    and reason :: "'e \<Rightarrow> string"
    and elems :: "'e list"
    and idx :: "'k \<rightharpoonup> nat"
  assumes idx_iff: "idx k = Some i \<longleftrightarrow> i < length elems \<and> k \<in> set (keys_of (elems ! i))"
begin

lemma listed_iff: "idx k \<noteq> None \<longleftrightarrow> (\<exists>e \<in> set elems. k \<in> set (keys_of e))"
  by (metis idx_iff in_set_conv_nth not_None_eq)

lemma reason_iff:
  "map_option (\<lambda>i. reason (elems ! i)) (idx k) = Some r \<longleftrightarrow>
   (\<exists>e \<in> set elems. k \<in> set (keys_of e) \<and> reason e = r)"
  by (auto simp: idx_iff) (metis in_set_conv_nth)+

end

definition indexed :: "('e \<Rightarrow> 'k list) \<Rightarrow> 'e list \<Rightarrow> ('k \<rightharpoonup> nat) \<Rightarrow> bool" where
  "indexed keys_of es m \<longleftrightarrow> (\<forall>k i. m k = Some i \<longleftrightarrow> i < length es \<and> k \<in> set (keys_of (es ! i)))"

definition entity_names :: "excluded_entity \<Rightarrow> string list" where
  "entity_names e = map normalize_exact (reviewed_name e # aliases e)"

lemma indexed_snoc:
  assumes "indexed keys_of es m" "\<forall>k. m' k = (if k \<in> set (keys_of e) then Some (length es) else m k)"
    and "\<forall>k \<in> set (keys_of e). m k = None"
  shows "indexed keys_of (es @ [e]) m'"
  unfolding indexed_def
proof (intro allI)
  fix k i
  have m: "m k = Some j \<longleftrightarrow> j < length es \<and> k \<in> set (keys_of (es ! j))" for j
    using assms(1) by (simp add: indexed_def)
  show "m' k = Some i \<longleftrightarrow> i < length (es @ [e]) \<and> k \<in> set (keys_of ((es @ [e]) ! i))"
  proof (cases "k \<in> set (keys_of e)")
    case True
    with assms(3) m have "\<And>j. j < length es \<Longrightarrow> k \<notin> set (keys_of (es ! j))"
      by (metis option.distinct(1))
    with True show ?thesis
      by (auto simp: assms(2) nth_append less_Suc_eq split: if_splits)
  next
    case False
    then show ?thesis
      by (auto simp: assms(2) m nth_append less_Suc_eq split: if_splits)
  qed
qed

lemma index_all_Inr:
  "index_all conflict i ks m = Inr m' \<Longrightarrow>
   (\<forall>k. m' k = (if k \<in> set ks then Some i else m k)) \<and> (\<forall>k \<in> set ks. m k = None)"
  by (induction ks arbitrary: m) (fastforce split: option.splits if_splits)+

lemma index_names_Inr:
  "index_names owner i ns m = Inr m' \<Longrightarrow>
   (\<forall>k. m' k = (if k \<in> set (map normalize_exact ns) then Some i else m k))
   \<and> (\<forall>k \<in> set (map normalize_exact ns). m k = None)"
  by (induction ns arbitrary: m) (fastforce split: option.splits if_splits)+

definition scope_indexed :: "project_scope \<Rightarrow> bool" where
  "scope_indexed sc \<longleftrightarrow>
     indexed entity_names (entities sc) (entity_name_index sc)
     \<and> indexed reviewed_asns (entities sc) (asn_index sc)
     \<and> indexed (\<lambda>r. [normalize_exact (external_id r)]) (source_records sc) (record_index sc)"

lemma add_entities_indexed:
  "add_entities i keys es sc = Inr sc' \<Longrightarrow> i = length (entities sc) \<Longrightarrow> scope_indexed sc \<Longrightarrow>
   scope_indexed sc' \<and> entities sc' = entities sc @ es \<and> source_records sc' = source_records sc
   \<and> record_index sc' = record_index sc"
proof (induction es arbitrary: i keys sc)
  case Nil
  then show ?case
    by simp
next
  case (Cons e es)
  from Cons.prems(1) obtain names asns where
    n: "index_names (stable_key e) i (reviewed_name e # aliases e) (entity_name_index sc) = Inr names"
    and a: "index_all (\<lambda>a prev. AsnListedTwice a prev (stable_key e)) i (reviewed_asns e) (asn_index sc) = Inr asns"
    and r: "add_entities (i + 1) (insert (map ascii_lower (trim (stable_key e))) keys) es
              (sc\<lparr>entities := entities sc @ [e], entity_name_index := names, asn_index := asns\<rparr>) = Inr sc'"
    by (auto simp: Let_def split: if_splits sum.splits simp del: index_names.simps)
  have "indexed entity_names (entities sc @ [e]) names"
    using index_names_Inr [OF n] Cons.prems(2,3)
    by (intro indexed_snoc [of _ _ "entity_name_index sc"]) (simp_all add: entity_names_def scope_indexed_def)
  moreover have "indexed reviewed_asns (entities sc @ [e]) asns"
    using index_all_Inr [OF a] Cons.prems(2,3)
    by (intro indexed_snoc [of _ _ "asn_index sc"]) (simp_all add: scope_indexed_def)
  ultimately show ?case
    using Cons.IH [OF r] Cons.prems(2,3) by (auto simp: scope_indexed_def)
qed

lemma add_records_indexed:
  "add_records i keys rs sc = Inr sc' \<Longrightarrow> i = length (source_records sc) \<Longrightarrow>
   keys = dom (record_index sc) \<Longrightarrow> scope_indexed sc \<Longrightarrow>
   scope_indexed sc' \<and> entities sc' = entities sc \<and> source_records sc' = source_records sc @ rs"
proof (induction rs arbitrary: i keys sc)
  case Nil
  then show ?case
    by simp
next
  case (Cons r rs)
  let ?k = "normalize_exact (external_id r)"
  let ?sc = "sc\<lparr>record_index := (record_index sc)(?k \<mapsto> i), source_records := source_records sc @ [r]\<rparr>"
  from Cons.prems(1) have fresh: "?k \<notin> keys" and
    rest: "add_records (i + 1) (insert ?k keys) rs ?sc = Inr sc'"
    by (auto simp: Let_def split: if_splits)
  have "indexed (\<lambda>r. [normalize_exact (external_id r)]) (source_records sc @ [r]) ((record_index sc)(?k \<mapsto> i))"
    using Cons.prems fresh
    by (intro indexed_snoc [of _ _ "record_index sc"]) (auto simp: scope_indexed_def)
  then have "scope_indexed ?sc"
    using Cons.prems(4) by (simp add: scope_indexed_def)
  moreover have keys: "insert ?k keys = dom (record_index ?sc)"
    using Cons.prems(3) by auto
  ultimately show ?case
    using Cons.IH [OF rest _ keys] Cons.prems(2) by simp
qed

lemma default_scope_indexed: "scope_indexed (default_scope\<lparr>scope_schema_version := v\<rparr>)"
  by (simp add: scope_indexed_def default_scope_def indexed_def)

lemma from_config_indexed:
  assumes "from_config file = Inr sc"
  shows "scope_indexed sc \<and> entities sc = excluded_entities file
         \<and> source_records sc = excluded_source_records file"
proof -
  let ?d = "default_scope\<lparr>scope_schema_version := schema_version file\<rparr>"
  from assms obtain sc1 where e: "add_entities 0 {} (excluded_entities file) ?d = Inr sc1"
    and r: "add_records 0 {} (excluded_source_records file) sc1 = Inr sc"
    by (auto simp: from_config_def split: if_splits sum.splits)
  have "scope_indexed sc1 \<and> entities sc1 = excluded_entities file \<and> source_records sc1 = []
        \<and> record_index sc1 = Map.empty"
    using add_entities_indexed [OF e] default_scope_indexed by (simp add: default_scope_def)
  then show ?thesis
    using add_records_indexed [OF r] by simp
qed

text \<open>The policy in force for a configuration; a refused one stops the program before any use.\<close>

definition scope_of :: "scope_config_file \<Rightarrow> project_scope" where
  "scope_of file = (case from_config file of Inl _ \<Rightarrow> default_scope | Inr sc \<Rightarrow> sc)"

lemma scope_of_indexed: "scope_indexed (scope_of file)"
  using from_config_indexed default_scope_indexed [of 0]
  by (auto simp: scope_of_def default_scope_def split: sum.splits)

interpretation scope_names: keyed_index entity_names entity_reason_code
    "entities (scope_of cfg)" "entity_name_index (scope_of cfg)" for cfg
  using scope_of_indexed [of cfg] by unfold_locales (simp add: scope_indexed_def indexed_def)

interpretation scope_asns: keyed_index reviewed_asns entity_reason_code
    "entities (scope_of cfg)" "asn_index (scope_of cfg)" for cfg
  using scope_of_indexed [of cfg] by unfold_locales (simp add: scope_indexed_def indexed_def)

interpretation scope_records: keyed_index "\<lambda>r. [normalize_exact (external_id r)]" record_reason_code
    "source_records (scope_of cfg)" "record_index (scope_of cfg)" for cfg
  using scope_of_indexed [of cfg] by unfold_locales (simp add: scope_indexed_def indexed_def)

lemma from_config_scope_of: "from_config cfg = Inr sc \<Longrightarrow> scope_of cfg = sc"
  by (simp add: scope_of_def)

text \<open>An accepted policy matches exactly what its configuration lists and nothing else. A name is
  excluded iff, after trimming and ASCII upper-casing, it equals the reviewed name or an alias of a
  listed entity, and the reason given is that entity's; an ASN is excluded iff a listed entity
  names it; a source record is excluded iff its normalised external id is listed, whatever the
  source family, with the reason of that entry.
\<close>
theorem scope_matching_exact:
  assumes "from_config cfg = Inr sc"
  shows "(excluded_entity_name sc n \<longleftrightarrow>
      (\<exists>e \<in> set (excluded_entities cfg). \<exists>a \<in> set (reviewed_name e # aliases e). normalize_exact a = normalize_exact n))
    \<and> (entity_name_reason sc n = Some r \<longleftrightarrow>
      (\<exists>e \<in> set (excluded_entities cfg). (\<exists>a \<in> set (reviewed_name e # aliases e). normalize_exact a = normalize_exact n)
         \<and> entity_reason_code e = r))
    \<and> (any_asn_excluded sc asns \<longleftrightarrow> (\<exists>e \<in> set (excluded_entities cfg). set (reviewed_asns e) \<inter> set asns \<noteq> {}))
    \<and> (excluded_source_record_by_id sc family ext \<longleftrightarrow>
      (\<exists>x \<in> set (excluded_source_records cfg). normalize_exact (external_id x) = normalize_exact ext))
    \<and> (source_record_reason sc family ext = Some r \<longleftrightarrow>
      (\<exists>x \<in> set (excluded_source_records cfg). normalize_exact (external_id x) = normalize_exact ext
         \<and> record_reason_code x = r))"
proof -
  note sc = from_config_scope_of [OF assms]
  have elems: "entities sc = excluded_entities cfg" "source_records sc = excluded_source_records cfg"
    using from_config_indexed [OF assms] by simp_all
  note facts = excluded_entity_name_def entity_name_reason_def any_asn_excluded_def excluded_asn_def
    excluded_source_record_by_id_def source_record_reason_def entity_names_def
  show ?thesis
  proof (intro conjI)
    show "excluded_entity_name sc n \<longleftrightarrow>
        (\<exists>e \<in> set (excluded_entities cfg). \<exists>a \<in> set (reviewed_name e # aliases e). normalize_exact a = normalize_exact n)"
      using scope_names.listed_iff [of cfg "normalize_exact n"]
      by (auto simp: sc elems facts image_iff) metis+
    show "entity_name_reason sc n = Some r \<longleftrightarrow>
        (\<exists>e \<in> set (excluded_entities cfg). (\<exists>a \<in> set (reviewed_name e # aliases e). normalize_exact a = normalize_exact n)
           \<and> entity_reason_code e = r)"
      using scope_names.reason_iff [of cfg "normalize_exact n" r]
      by (auto simp: sc elems facts image_iff) metis+
    show "any_asn_excluded sc asns \<longleftrightarrow> (\<exists>e \<in> set (excluded_entities cfg). set (reviewed_asns e) \<inter> set asns \<noteq> {})"
      using scope_asns.listed_iff [of cfg] by (auto simp: sc elems facts)
    show "excluded_source_record_by_id sc family ext \<longleftrightarrow>
        (\<exists>x \<in> set (excluded_source_records cfg). normalize_exact (external_id x) = normalize_exact ext)"
      using scope_records.listed_iff [of cfg "normalize_exact ext"] by (auto simp: sc elems facts) metis+
    show "source_record_reason sc family ext = Some r \<longleftrightarrow>
        (\<exists>x \<in> set (excluded_source_records cfg). normalize_exact (external_id x) = normalize_exact ext
           \<and> record_reason_code x = r)"
      using scope_records.reason_iff [of cfg "normalize_exact ext" r] by (auto simp: sc elems facts) metis+
  qed
qed

definition sample_config :: scope_config_file where
  "sample_config = \<lparr>schema_version = 1,
     excluded_entities = [\<lparr>stable_key = ''sample-org'', reviewed_name = ''Sample'', reviewed_asns = [64512],
        aliases = [''SMP''], entity_reason_code = ''owner'', review_date = ''2026'', decision_source = ''x''\<rparr>],
     excluded_source_records = [\<lparr>source_family = ''viewer'', external_id = ''INC-1'', record_reason_code = ''owner''\<rparr>]\<rparr>"

lemma sample_config_accepted: "\<exists>sc. from_config sample_config = Inr sc"
proof -
  have "(case from_config sample_config of Inl _ \<Rightarrow> False | Inr _ \<Rightarrow> True)"
    by code_simp
  then show ?thesis
    by (cases "from_config sample_config") auto
qed

theorem scope_matching_witness:
  "excluded_entity_name (scope_of sample_config) '' smp ''
   \<and> any_asn_excluded (scope_of sample_config) [1, 64512]
   \<and> source_record_reason (scope_of sample_config) ''other'' ''inc-1'' = Some ''owner''"
proof -
  obtain sc where sc: "from_config sample_config = Inr sc"
    using sample_config_accepted by blast
  have "normalize_exact ''SMP'' = normalize_exact '' smp ''" "normalize_exact ''INC-1'' = normalize_exact ''inc-1''"
    by code_simp+
  then show ?thesis
    unfolding from_config_scope_of [OF sc]
    using scope_matching_exact [OF sc, of "'' smp ''" _ "[1, 64512]" "''other''" "''inc-1''"]
    by (simp add: sample_config_def)
qed

end
