(* ===== verification/Manifest.thy ===== *)
theory Manifest
  imports Std_Text Route
begin

text \<open>
  The reviewed manifest: the mapping types of \<open>plan.rs\<close>, and validation, analysis window and
  migration of \<open>manifest.rs\<close>. JSON reading is left out; a manifest is the parsed value. Parsing
  of an RFC 3339 instant is chrono's and a parameter. A \<open>u32\<close> revision saturates, as in the source.
\<close>

section \<open>Reviewed transit predicates\<close>

record provenance =
  statement :: string
  reviewed_by :: string
  review_day :: string

datatype predicate_review_status = Unresolved | Reviewed

record transit_predicate_mapping =
  tp_status :: predicate_review_status
  tp_predicate :: "transit_predicate option"
  tp_provenance :: "provenance option"

datatype manifest_error =
    PredicateMissing
  | ProvenanceMissing
  | PredicateEmpty
  | UnresolvedWithPredicate
  | LegacyShortcut string
  | LegacySchema string u32
  | UnsupportedManifestSchema string u32
  | EmptyEventId
  | EmptyWindow
  | OpenWithoutCutoff
  | NoCollectors
  | NegativeMargins
  | NoOriginAsns
  | InvalidEventStart
  | InvalidEventEnd
  | EventEndUnavailable
  | MigrationNeedsProvenance

definition tp_validate :: "transit_predicate_mapping \<Rightarrow> manifest_error + unit" where
  "tp_validate m =
     (case tp_status m of
        Reviewed \<Rightarrow>
          and_then (refuse (tp_predicate m = None) PredicateMissing) (\<lambda>_.
          and_then (refuse (tp_provenance m = None) ProvenanceMissing) (\<lambda>_.
          case tp_predicate m of
            Some (ContainsAny asns) \<Rightarrow> refuse (asns = []) PredicateEmpty
          | Some (ContainsAll asns) \<Rightarrow> refuse (asns = []) PredicateEmpty
          | _ \<Rightarrow> Inr ()))
      | Unresolved \<Rightarrow> refuse (tp_predicate m \<noteq> None) UnresolvedWithPredicate)"

definition is_ready :: "transit_predicate_mapping \<Rightarrow> bool" where
  "is_ready m = (tp_status m = Reviewed \<and> tp_predicate m \<noteq> None)"

section \<open>The manifest\<close>

record window =
  w_start :: string
  w_end :: string

record local_window =
  lw_start :: string
  lw_end :: string
  timezone :: string
  timezone_note :: string

record named_path_classifier =
  npc_id :: string
  npc_display_label :: string
  npc_predicate :: transit_predicate

record manifest_target =
  target_label :: string
  target_origin_asns :: "u32 list"
  managed_network_asn :: "u32 option"
  internet2_asn :: "u32 option"
  target_transit_predicate :: transit_predicate_mapping
  path_classifiers :: "named_path_classifier list"
  prefix_selection :: string
  prefix_selection_provenance :: string

record manifest =
  mf_event :: string
  mf_revision :: u32
  mf_schema_version :: u32
  event_window_utc :: window
  ticket_window_local :: local_window
  mf_open :: bool
  analysis_end_utc :: "string option"
  warmup_minutes :: int
  cooldown_minutes :: int
  mf_target :: manifest_target
  mf_collectors :: "string list"
  mf_source_family :: string
  collectors_provenance :: string
  analyst_notes :: "string list"

definition manifest_schema_current :: u32 where
  "manifest_schema_current = 2"

definition has_cutoff :: "manifest \<Rightarrow> bool" where
  "has_cutoff m = (case analysis_end_utc m of None \<Rightarrow> False | Some c \<Rightarrow> trim c \<noteq> [])"

definition manifest_validate :: "manifest \<Rightarrow> manifest_error + manifest" where
  "manifest_validate m =
     and_then (refuse (managed_network_asn (mf_target m) \<noteq> None \<or> internet2_asn (mf_target m) \<noteq> None)
                 (LegacyShortcut (mf_event m))) (\<lambda>_.
     and_then (refuse (mf_schema_version m < manifest_schema_current)
                 (LegacySchema (mf_event m) (mf_schema_version m))) (\<lambda>_.
     and_then (refuse (manifest_schema_current < mf_schema_version m)
                 (UnsupportedManifestSchema (mf_event m) (mf_schema_version m))) (\<lambda>_.
     and_then (refuse (mf_event m = []) EmptyEventId) (\<lambda>_.
     and_then (refuse (w_start (event_window_utc m) = []
                       \<or> (w_end (event_window_utc m) = [] \<and> \<not> mf_open m)) EmptyWindow) (\<lambda>_.
     and_then (refuse (mf_open m \<and> \<not> has_cutoff m) OpenWithoutCutoff) (\<lambda>_.
     and_then (refuse (mf_collectors m = []) NoCollectors) (\<lambda>_.
     and_then (refuse (warmup_minutes m < 0 \<or> cooldown_minutes m < 0) NegativeMargins) (\<lambda>_.
     and_then (refuse (target_origin_asns (mf_target m) = []) NoOriginAsns) (\<lambda>_.
     and_then (tp_validate (target_transit_predicate (mf_target m))) (\<lambda>_. Inr m))))))))))"

definition event_window :: "(string \<Rightarrow> timestamp option) \<Rightarrow> manifest \<Rightarrow> manifest_error + timestamp \<times> timestamp" where
  "event_window parse_rfc3339 m =
     and_then (ok_or (parse_rfc3339 (w_start (event_window_utc m))) InvalidEventStart) (\<lambda>start.
     and_then
       (if trim (w_end (event_window_utc m)) = [] then
          (case map_option trim (analysis_end_utc m) of
             Some c \<Rightarrow>
               if c \<noteq> [] then ok_or (parse_rfc3339 c) InvalidEventEnd
               else Inl (if mf_open m then OpenWithoutCutoff else EventEndUnavailable)
           | None \<Rightarrow> Inl (if mf_open m then OpenWithoutCutoff else EventEndUnavailable))
        else ok_or (parse_rfc3339 (w_end (event_window_utc m))) InvalidEventEnd) (\<lambda>stop.
     Inr (start, stop)))"

text \<open>\<open>u32::saturating_add\<close> of one.\<close>

definition saturating_succ :: "u32 \<Rightarrow> u32" where
  "saturating_succ n = (if n = - 1 then n else n + 1)"

definition legacy_asn :: "manifest \<Rightarrow> u32 option" where
  "legacy_asn old =
     (case managed_network_asn (mf_target old) of Some a \<Rightarrow> Some a | None \<Rightarrow> internet2_asn (mf_target old))"

definition migrated_mapping :: "u32 option \<Rightarrow> provenance option \<Rightarrow> transit_predicate_mapping \<times> bool" where
  "migrated_mapping asn prov =
     (case asn of
        Some a \<Rightarrow>
          if a \<noteq> 0
          then (\<lparr>tp_status = Reviewed, tp_predicate = Some (ContainsAny [a]), tp_provenance = prov\<rparr>, True)
          else (\<lparr>tp_status = Unresolved, tp_predicate = None, tp_provenance = None\<rparr>, False)
      | None \<Rightarrow> (\<lparr>tp_status = Unresolved, tp_predicate = None, tp_provenance = None\<rparr>, False))"

definition migrate_manifest :: "manifest \<Rightarrow> provenance option \<Rightarrow> manifest_error + manifest" where
  "migrate_manifest old prov =
     (let (mapping, requires_provenance) = migrated_mapping (legacy_asn old) prov
      in and_then (refuse (requires_provenance \<and> prov = None) MigrationNeedsProvenance) (\<lambda>_.
         manifest_validate (old\<lparr>mf_schema_version := manifest_schema_current,
           mf_revision := saturating_succ (mf_revision old),
           mf_target := (mf_target old)\<lparr>managed_network_asn := None, internet2_asn := None,
             target_transit_predicate := mapping\<rparr>\<rparr>)))"

text \<open>A manifest for examples.\<close>

definition sample_manifest :: manifest where
  "sample_manifest = \<lparr>mf_event = ''INC1'', mf_revision = 1, mf_schema_version = 2,
     event_window_utc = \<lparr>w_start = ''s'', w_end = ''e''\<rparr>,
     ticket_window_local = \<lparr>lw_start = [], lw_end = [], timezone = ''UTC'', timezone_note = []\<rparr>,
     mf_open = False, analysis_end_utc = None, warmup_minutes = 30, cooldown_minutes = 15,
     mf_target = \<lparr>target_label = ''t'', target_origin_asns = [64500], managed_network_asn = None,
       internet2_asn = None,
       target_transit_predicate = \<lparr>tp_status = Reviewed, tp_predicate = Some (ContainsAny [11537]),
         tp_provenance = Some \<lparr>statement = ''x'', reviewed_by = ''a'', review_day = ''d''\<rparr>\<rparr>,
       path_classifiers = [], prefix_selection = [], prefix_selection_provenance = []\<rparr>,
     mf_collectors = [''rv2''], mf_source_family = ''RouteViews'', collectors_provenance = [],
     analyst_notes = []\<rparr>"

end
