(* ===== verification/Jobs.thy ===== *)
theory Jobs
  imports Scope Manifest
begin

text \<open>
  The domain model of the analysis-job service: the state machine of \<open>catalog/jobs/mod.rs\<close> and the
  tables that the service keeps in the catalog.

  The catalog is a record of the tables the service reads and writes. A table with a text state
  column keeps the text, as the code stores it; \<open>'st analysis_job\<close> is the row for \<open>'st = string\<close> and
  the bound struct for \<open>'st = job_state\<close>.
\<close>

section \<open>States\<close>

datatype job_state =
    Queued
  | Claimed
  | DiscoveringArchives
  | AcquiringArchives
  | ParsingBaseline
  | FreezingCohort
  | ParsingUpdates
  | ReconstructingRoutes
  | DerivingEvidence
  | RenderingArtifacts
  | ValidatingArtifacts
  | PublishingRun
  | Completed
  | CancelRequested
  | Cancelled
  | Failed

fun as_str :: "job_state \<Rightarrow> string" where
  "as_str Queued = ''Queued''"
| "as_str Claimed = ''Claimed''"
| "as_str DiscoveringArchives = ''DiscoveringArchives''"
| "as_str AcquiringArchives = ''AcquiringArchives''"
| "as_str ParsingBaseline = ''ParsingBaseline''"
| "as_str FreezingCohort = ''FreezingCohort''"
| "as_str ParsingUpdates = ''ParsingUpdates''"
| "as_str ReconstructingRoutes = ''ReconstructingRoutes''"
| "as_str DerivingEvidence = ''DerivingEvidence''"
| "as_str RenderingArtifacts = ''RenderingArtifacts''"
| "as_str ValidatingArtifacts = ''ValidatingArtifacts''"
| "as_str PublishingRun = ''PublishingRun''"
| "as_str Completed = ''Completed''"
| "as_str CancelRequested = ''CancelRequested''"
| "as_str Cancelled = ''Cancelled''"
| "as_str Failed = ''Failed''"

definition parse_state :: "string \<Rightarrow> job_state option" where
  "parse_state s =
     (if s = ''Queued'' then Some Queued
      else if s = ''Claimed'' then Some Claimed
      else if s = ''DiscoveringArchives'' then Some DiscoveringArchives
      else if s = ''AcquiringArchives'' then Some AcquiringArchives
      else if s = ''ParsingBaseline'' then Some ParsingBaseline
      else if s = ''FreezingCohort'' then Some FreezingCohort
      else if s = ''ParsingUpdates'' then Some ParsingUpdates
      else if s = ''ReconstructingRoutes'' then Some ReconstructingRoutes
      else if s = ''DerivingEvidence'' then Some DerivingEvidence
      else if s = ''RenderingArtifacts'' then Some RenderingArtifacts
      else if s = ''ValidatingArtifacts'' then Some ValidatingArtifacts
      else if s = ''PublishingRun'' then Some PublishingRun
      else if s = ''Completed'' then Some Completed
      else if s = ''CancelRequested'' then Some CancelRequested
      else if s = ''Cancelled'' then Some Cancelled
      else if s = ''Failed'' then Some Failed
      else None)"

definition is_active :: "job_state \<Rightarrow> bool" where
  "is_active s = (s \<notin> {Completed, Cancelled, Failed})"

definition is_retryable :: "job_state \<Rightarrow> bool" where
  "is_retryable s = (s \<in> {Failed, Cancelled})"

definition executing :: "job_state list" where
  "executing = [Claimed, DiscoveringArchives, AcquiringArchives, ParsingBaseline, FreezingCohort,
     ParsingUpdates, ReconstructingRoutes, DerivingEvidence, RenderingArtifacts, ValidatingArtifacts]"

definition stage_order :: "job_state list" where
  "stage_order = executing @ [PublishingRun]"

definition is_cancellable :: "job_state \<Rightarrow> bool" where
  "is_cancellable s = (s = Queued \<or> s \<in> set executing)"

fun index_of :: "'a \<Rightarrow> 'a list \<Rightarrow> nat option" where
  "index_of x [] = None"
| "index_of x (y # ys) = (if x = y then Some 0 else map_option Suc (index_of x ys))"

definition stage_advance :: "job_state \<Rightarrow> job_state \<Rightarrow> bool" where
  "stage_advance frm to =
     (case (index_of frm stage_order, index_of to stage_order) of
        (Some a, Some b) \<Rightarrow> a < b
      | _ \<Rightarrow> False)"

definition legal_transition :: "job_state \<Rightarrow> job_state \<Rightarrow> bool" where
  "legal_transition frm to =
     (if frm = to then False
      else (frm, to) \<in> {(Queued, Claimed), (Queued, Cancelled), (Queued, Failed), (Claimed, Cancelled),
             (CancelRequested, Cancelled), (CancelRequested, Failed), (PublishingRun, Completed),
             (PublishingRun, Failed)}
        \<or> (frm \<in> set executing \<and> to \<in> {CancelRequested, Failed})
        \<or> (frm \<in> set executing \<and> stage_advance frm to))"

definition next_stage :: "job_state \<Rightarrow> job_state option" where
  "next_stage frm =
     (case index_of frm stage_order of
        None \<Rightarrow> None
      | Some i \<Rightarrow> if i + 1 < length stage_order then Some (stage_order ! (i + 1)) else None)"

definition stage_label :: "job_state \<Rightarrow> string option" where
  "stage_label s =
     (if s \<in> {Queued, Claimed, Completed, CancelRequested, Cancelled, Failed} then None
      else Some (as_str s))"

datatype request_source = Cli | LocalWeb

fun request_source_str :: "request_source \<Rightarrow> string" where
  "request_source_str Cli = ''cli''"
| "request_source_str LocalWeb = ''local-web''"

definition parse_source :: "string \<Rightarrow> request_source" where
  "parse_source s = (if s = ''local-web'' then LocalWeb else Cli)"

section \<open>Tables\<close>

record 'st analysis_job =
  job_key :: string
  plan_revision_id :: int
  requested_by :: string
  requested_at :: string
  job_state_col :: 'st
  attempt :: int
  original_job_id :: "string option"
  worker_id :: "string option"
  lease_acquired_at :: "string option"
  lease_expires_at :: "string option"
  heartbeat_at :: "string option"
  job_stage :: "string option"
  job_progress_current :: "int option"
  job_progress_total :: "int option"
  job_progress_unit :: "string option"
  cancel_requested_at :: "string option"
  started_at :: "string option"
  finished_at :: "string option"
  error_code :: "string option"
  error_summary :: "string option"
  staged_artifact_root :: "string option"
  completed_run_id :: "int option"
  plan_hash :: string

record 'st job_event =
  ev_job_id :: string
  ev_sequence :: int
  occurred_at :: string
  ev_state :: 'st
  ev_stage :: "string option"
  message_code :: "string option"
  human_message :: string
  ev_progress_current :: "int option"
  ev_progress_total :: "int option"
  ev_progress_unit :: "string option"
  structured_detail :: "string option"

record worker_heartbeat =
  hb_worker_id :: string
  hb_started_at :: string
  last_heartbeat :: string
  process_version :: string
  source_families :: "string list"
  download_jobs :: int
  parse_jobs :: int
  offline_mode :: bool

text \<open>The columns of the other catalog tables that the job service reads.\<close>

record plan_row =
  pl_manifest_revision_id :: int
  pl_schema :: int
  pl_sha256 :: string
  pl_status :: string

record manifest_row =
  mf_event_id :: int
  mf_snapshot_id :: int
  mf_payload :: string

record event_row =
  source_kind :: string
  event_external_id :: string

record catalog =
  jobs :: "string analysis_job list"
  job_events :: "string job_event list"
  workers :: "worker_heartbeat list"
  plans :: "(int \<times> plan_row) list"
  manifests :: "(int \<times> manifest_row) list"
  catalog_events :: "(int \<times> event_row) list"
  snapshots :: "int list"
  runs :: "int list"

end
