(* ===== verification/Job_Plan.thy ===== *)
theory Job_Plan
  imports Jobs
begin

text \<open>
  Plan identity and queue-time validation, \<open>catalog/jobs/plan.rs\<close>. The JSON reader of a manifest
  payload (\<open>serde_json\<close>) and the hash of a canonical plan (JSON text and SHA-256) are parameters.
\<close>

section \<open>Canonical plan identity\<close>

record canonical_plan =
  cp_event_id :: string
  cp_manifest_schema :: u32
  cp_manifest_revision :: u32
  cp_lifecycle :: string
  cp_analysis_start :: string
  cp_analysis_end :: string
  cp_warmup_minutes :: int
  cp_cooldown_minutes :: int
  cp_source_family :: string
  cp_collectors :: "string list"
  cp_origin_asns :: "u32 list"
  cp_transit_predicate :: "transit_predicate option"
  cp_transit_predicate_review :: string
  cp_target_label :: string
  cp_review_provenance :: "string option"

definition sort_dedup :: "'a::linorder list \<Rightarrow> 'a list" where
  "sort_dedup xs = remdups_adj (sort xs)"

fun normalize_predicate :: "transit_predicate \<Rightarrow> transit_predicate" where
  "normalize_predicate (ContainsAny asns) = ContainsAny (sort_dedup asns)"
| "normalize_predicate (ContainsAll asns) = ContainsAll (sort_dedup asns)"
| "normalize_predicate (Adjacent a b) = Adjacent a b"

fun review_status_str :: "predicate_review_status \<Rightarrow> string" where
  "review_status_str Unresolved = ''Unresolved''"
| "review_status_str Reviewed = ''Reviewed''"

definition from_manifest :: "manifest \<Rightarrow> canonical_plan" where
  "from_manifest m =
     (let tp = target_transit_predicate (mf_target m) in
      \<lparr>cp_event_id = mf_event m, cp_manifest_schema = mf_schema_version m, cp_manifest_revision = mf_revision m,
       cp_lifecycle = (if mf_open m then ''Open'' else ''Closed''),
       cp_analysis_start = w_start (event_window_utc m),
       cp_analysis_end = (if mf_open m then (case analysis_end_utc m of None \<Rightarrow> [] | Some c \<Rightarrow> c)
                          else w_end (event_window_utc m)),
       cp_warmup_minutes = warmup_minutes m, cp_cooldown_minutes = cooldown_minutes m,
       cp_source_family = mf_source_family m, cp_collectors = sort_dedup (mf_collectors m),
       cp_origin_asns = sort_dedup (target_origin_asns (mf_target m)),
       cp_transit_predicate = map_option normalize_predicate (tp_predicate tp),
       cp_transit_predicate_review = review_status_str (tp_status tp),
       cp_target_label = target_label (mf_target m),
       cp_review_provenance =
         map_option (\<lambda>p. reviewed_by p @ ''|'' @ review_day p) (tp_provenance tp)\<rparr>)"

section \<open>Errors of the job service\<close>

datatype job_error =
    IllegalTransition job_state job_state
  | JobNotFound
  | CorruptState string
  | StateMismatch job_state job_state
  | MessageTooLong
  | DetailTooLong
  | DetailAbsolutePath
  | KeyConflict
  | ForeignKey
  | ScopeExcluded
  | EventUnresolved
  | PlanNotFound
  | IncompatiblePlanSchema int
  | NoManifestRevision
  | ManifestUnreadable
  | InvalidManifest manifest_error
  | OriginsNotReviewed
  | PredicateNotReviewed
  | CollectorsEmpty
  | FamilyUnsupported
  | EndUnavailable
  | CutoffRequired
  | MissingEventOrSnapshot
  | PlanNotReady string
  | NotLeaseable job_state
  | LeasedByAnother
  | LeaseNotRenewable
  | NotCancellable job_state
  | NotScopeCancellable job_state
  | NotRetryable job_state
  | PlanGone

section \<open>Scope and readiness of a plan revision\<close>

definition manifest_for_plan :: "catalog \<Rightarrow> int \<Rightarrow> manifest_row option" where
  "manifest_for_plan db p =
     Option.bind (map_of (plans db) p) (\<lambda>pl. map_of (manifests db) (pl_manifest_revision_id pl))"

definition event_for_plan :: "catalog \<Rightarrow> int \<Rightarrow> job_error + event_row" where
  "event_for_plan db p =
     ok_or (Option.bind (manifest_for_plan db p) (\<lambda>m. map_of (catalog_events db) (mf_event_id m))) EventUnresolved"

definition manifest_payload_for_plan :: "catalog \<Rightarrow> int \<Rightarrow> job_error + string" where
  "manifest_payload_for_plan db p = ok_or (map_option mf_payload (manifest_for_plan db p)) NoManifestRevision"

definition plan_scope_exclusion ::
  "(string \<Rightarrow> manifest option) \<Rightarrow> catalog \<Rightarrow> int \<Rightarrow> project_scope \<Rightarrow> job_error + string option" where
  "plan_scope_exclusion parse db p scope =
     and_then (event_for_plan db p) (\<lambda>event.
     case source_record_reason scope (source_kind event) (event_external_id event) of
       Some reason \<Rightarrow> Inr (Some reason)
     | None \<Rightarrow>
         (case manifest_payload_for_plan db p of
            Inl _ \<Rightarrow> Inr None
          | Inr payload \<Rightarrow>
              (case parse payload of
                 None \<Rightarrow> Inr None
               | Some m \<Rightarrow>
                   (case entity_name_reason scope (target_label (mf_target m)) of
                      Some reason \<Rightarrow> Inr (Some reason)
                    | None \<Rightarrow>
                        if any_asn_excluded scope (target_origin_asns (mf_target m))
                        then Inr (Some ''project_owner_exclusion'')
                        else Inr None))))"

definition plan_schema_version :: int where
  "plan_schema_version = 1"

text \<open>The code lower-cases the source family with the full Unicode mapping; no character outside
  ASCII has a lower case that occurs in the two names compared with, so ASCII folding decides alike.\<close>

definition validate_plan_for_queue ::
  "(string \<Rightarrow> manifest option) \<Rightarrow> (canonical_plan \<Rightarrow> string) \<Rightarrow> catalog \<Rightarrow> int \<Rightarrow> project_scope \<Rightarrow> job_error + string" where
  "validate_plan_for_queue parse hash db p scope =
     and_then (ok_or (map_of (plans db) p) PlanNotFound) (\<lambda>pl.
     and_then (refuse (pl_schema pl \<noteq> plan_schema_version) (IncompatiblePlanSchema (pl_schema pl))) (\<lambda>_.
     and_then (plan_scope_exclusion parse db p scope) (\<lambda>excluded.
     and_then (refuse (excluded \<noteq> None) ScopeExcluded) (\<lambda>_.
     and_then (manifest_payload_for_plan db p) (\<lambda>payload.
     and_then (ok_or (parse payload) ManifestUnreadable) (\<lambda>m.
     and_then (case manifest_validate m of Inl e \<Rightarrow> Inl (InvalidManifest e) | Inr _ \<Rightarrow> Inr ()) (\<lambda>_.
     and_then (refuse (target_origin_asns (mf_target m) = []) OriginsNotReviewed) (\<lambda>_.
     and_then (refuse (\<not> is_ready (target_transit_predicate (mf_target m))) PredicateNotReviewed) (\<lambda>_.
     and_then (refuse (mf_collectors m = []) CollectorsEmpty) (\<lambda>_.
     and_then (refuse (map ascii_lower (mf_source_family m) \<notin> {''routeviews'', ''riperis''}) FamilyUnsupported) (\<lambda>_.
     and_then (refuse (w_end (event_window_utc m) = [] \<and> \<not> mf_open m) EndUnavailable) (\<lambda>_.
     and_then (refuse (w_end (event_window_utc m) = [] \<and> \<not> has_cutoff m) CutoffRequired) (\<lambda>_.
     and_then (refuse (mf_open m \<and> \<not> has_cutoff m) CutoffRequired) (\<lambda>_.
     Inr (hash (from_manifest m))))))))))))))))"

section \<open>What the plan identity covers\<close>

lemma sort_dedup_sorted_distinct: "sorted (sort_dedup xs)" "distinct (sort_dedup xs)" "set (sort_dedup xs) = set xs"
proof -
  have "sorted ys \<Longrightarrow> distinct (remdups_adj ys)" for ys :: "'a list"
    by (induction ys rule: remdups_adj.induct) (auto simp: order.order_iff_strict)
  then show "distinct (sort_dedup xs)"
    by (simp add: sort_dedup_def)
qed (simp_all add: sort_dedup_def sorted_remdups_adj)

lemma sort_dedup_eq_iff: "sort_dedup xs = sort_dedup ys \<longleftrightarrow> set xs = set ys"
  by (metis sort_dedup_sorted_distinct sorted_distinct_set_unique)

text \<open>Predicates that normalise alike: the same shape over the same ASNs, so they accept the same paths.\<close>

lemma normalize_predicate_evaluate: "evaluate (normalize_predicate p) path = evaluate p path"
  by (cases p) (simp_all add: sort_dedup_sorted_distinct(3) list_ex_iff list_all_iff)


text \<open>The analysis window of an open event that declares an end ignores the reviewed cutoff: it runs
  to the declared end, whatever the cutoff, while the plan identity records the cutoff as the effective
  end of the analysis.\<close>

theorem open_window_ignores_cutoff:
  assumes "mf_open m" "trim (w_end (event_window_utc m)) \<noteq> []" "event_window parse m = Inr (start, stop)"
  shows "parse (w_end (event_window_utc m)) = Some stop
    \<and> event_window parse (m\<lparr>analysis_end_utc := Some cutoff\<rparr>) = Inr (start, stop)
    \<and> cp_analysis_end (from_manifest (m\<lparr>analysis_end_utc := Some cutoff\<rparr>)) = cutoff"
  using assms by (auto simp: event_window_def and_then_Inr_iff from_manifest_def Let_def)


theorem open_window_witness:
  "\<exists>start stop. event_window (\<lambda>s. Some (int (length s))) (sample_manifest\<lparr>mf_open := True, analysis_end_utc := Some ''cut''\<rparr>) = Inr (start, stop)
     \<and> stop = 1"
proof -
  let ?m = "sample_manifest\<lparr>mf_open := True\<rparr>"
  have "mf_open ?m" "trim (w_end (event_window_utc ?m)) \<noteq> []" "event_window (\<lambda>s. Some (int (length s))) ?m = Inr (1, 1)"
    by (simp_all add: sample_manifest_def event_window_def trim_def white_space_def starts_with_def)
  from open_window_ignores_cutoff [OF this, of "''cut''"] show ?thesis
    by simp
qed

end
