(* ===== verification/Job_Service.thy ===== *)
theory Job_Service
  imports Job_Plan
begin

text \<open>
  The operations of \<open>catalog/jobs/service.rs\<close> and the worker-side helpers of
  \<open>catalog/jobs/publish.rs\<close>.

  An operation is one transaction: it returns \<open>Inl\<close> and leaves the catalog as it was (the dropped
  transaction rolls back), or \<open>Inr\<close> with the new catalog. An operation that reads before it opens
  its transaction has a transaction part that takes what was read as an argument, so that writes of
  other connections in between are covered. The clock, the expiry text and the fresh id are
  arguments. Failures of SQLite itself (busy, disk full) roll back like any error and are left out.
\<close>

section \<open>Rows\<close>

definition bind_job :: "string analysis_job \<Rightarrow> job_state analysis_job" where
  "bind_job r =
     \<lparr>job_key = job_key r, plan_revision_id = plan_revision_id r, requested_by = requested_by r,
      requested_at = requested_at r,
      job_state_col = (case parse_state (job_state_col r) of None \<Rightarrow> Failed | Some s \<Rightarrow> s),
      attempt = attempt r, original_job_id = original_job_id r, worker_id = worker_id r,
      lease_acquired_at = lease_acquired_at r, lease_expires_at = lease_expires_at r,
      heartbeat_at = heartbeat_at r, job_stage = job_stage r,
      job_progress_current = job_progress_current r, job_progress_total = job_progress_total r,
      job_progress_unit = job_progress_unit r, cancel_requested_at = cancel_requested_at r,
      started_at = started_at r, finished_at = finished_at r, error_code = error_code r,
      error_summary = error_summary r, staged_artifact_root = staged_artifact_root r,
      completed_run_id = completed_run_id r, plan_hash = plan_hash r\<rparr>"

definition get_job_row :: "catalog \<Rightarrow> string \<Rightarrow> string analysis_job option" where
  "get_job_row db jid = find (\<lambda>j. job_key j = jid) (jobs db)"

definition get_job :: "catalog \<Rightarrow> string \<Rightarrow> job_error + job_state analysis_job" where
  "get_job db jid = ok_or (map_option bind_job (get_job_row db jid)) JobNotFound"

record job_filter =
  filter_state :: "job_state option"
  filter_plan :: "int option"

definition list_jobs :: "catalog \<Rightarrow> job_filter \<Rightarrow> job_state analysis_job list" where
  "list_jobs db flt =
     map bind_job (rev (sort_key (\<lambda>j. (requested_at j, job_key j))
       (filter (\<lambda>j. (case filter_state flt of None \<Rightarrow> True | Some s \<Rightarrow> job_state_col j = as_str s)
                  \<and> (case filter_plan flt of None \<Rightarrow> True | Some p \<Rightarrow> plan_revision_id j = p)) (jobs db))))"

record job_counts =
  c_queued :: nat
  c_running :: nat
  c_failed :: nat
  c_completed :: nat
  c_cancelled :: nat

definition count_state_group :: "catalog \<Rightarrow> string \<Rightarrow> job_counts \<Rightarrow> job_counts" where
  "count_state_group db state c =
     (let n = length (filter (\<lambda>j. job_state_col j = state) (jobs db)) in
      case parse_state state of
        None \<Rightarrow> c
      | Some s \<Rightarrow>
          if s = Queued then c\<lparr>c_queued := n\<rparr>
          else if is_active s then c\<lparr>c_running := c_running c + n\<rparr>
          else if s = Failed then c\<lparr>c_failed := n\<rparr>
          else if s = Completed then c\<lparr>c_completed := n\<rparr>
          else if s = Cancelled then c\<lparr>c_cancelled := n\<rparr>
          else c)"

text \<open>\<open>GROUP BY state\<close>: one row per state that occurs; the order of the groups is SQLite's.\<close>

definition counts :: "catalog \<Rightarrow> job_counts" where
  "counts db = fold (count_state_group db) (remdups (map job_state_col (jobs db)))
     \<lparr>c_queued = 0, c_running = 0, c_failed = 0, c_completed = 0, c_cancelled = 0\<rparr>"

definition update_jobs ::
  "(string analysis_job \<Rightarrow> bool) \<Rightarrow> (string analysis_job \<Rightarrow> string analysis_job) \<Rightarrow> catalog \<Rightarrow> catalog" where
  "update_jobs P f db = db\<lparr>jobs := map (\<lambda>j. if P j then f j else j) (jobs db)\<rparr>"

definition updated_rows :: "(string analysis_job \<Rightarrow> bool) \<Rightarrow> catalog \<Rightarrow> nat" where
  "updated_rows P db = length (filter P (jobs db))"

definition new_job ::
  "string \<Rightarrow> int \<Rightarrow> request_source \<Rightarrow> string \<Rightarrow> int \<Rightarrow> string option \<Rightarrow> string \<Rightarrow> string analysis_job" where
  "new_job jid plan src now att orig hash =
     \<lparr>job_key = jid, plan_revision_id = plan, requested_by = request_source_str src, requested_at = now,
      job_state_col = ''Queued'', attempt = att, original_job_id = orig, worker_id = None,
      lease_acquired_at = None, lease_expires_at = None, heartbeat_at = None, job_stage = None,
      job_progress_current = None, job_progress_total = None, job_progress_unit = None,
      cancel_requested_at = None, started_at = None, finished_at = None, error_code = None,
      error_summary = None, staged_artifact_root = None, completed_run_id = None, plan_hash = hash\<rparr>"

text \<open>\<open>INSERT INTO analysis_jobs\<close> under the primary key and the foreign keys of the table.\<close>

definition insert_job :: "string analysis_job \<Rightarrow> catalog \<Rightarrow> job_error + catalog" where
  "insert_job j db =
     and_then (refuse (get_job_row db (job_key j) \<noteq> None) KeyConflict) (\<lambda>_.
     and_then (refuse (map_of (plans db) (plan_revision_id j) = None
                 \<or> (case original_job_id j of None \<Rightarrow> False | Some k \<Rightarrow> get_job_row db k = None \<and> k \<noteq> job_key j))
                 ForeignKey) (\<lambda>_.
     Inr (db\<lparr>jobs := jobs db @ [j]\<rparr>)))"

section \<open>Events\<close>

definition job_event_new ::
  "string \<Rightarrow> int \<Rightarrow> string \<Rightarrow> job_state \<Rightarrow> string option \<Rightarrow> string option \<Rightarrow> string \<Rightarrow> string option \<Rightarrow> job_state job_event" where
  "job_event_new jid n now s stage code msg detail =
     \<lparr>ev_job_id = jid, ev_sequence = n, occurred_at = now, ev_state = s, ev_stage = stage, message_code = code,
      human_message = msg, ev_progress_current = None, ev_progress_total = None, ev_progress_unit = None,
      structured_detail = detail\<rparr>"

definition store_event :: "job_state job_event \<Rightarrow> string job_event" where
  "store_event e =
     \<lparr>ev_job_id = ev_job_id e, ev_sequence = ev_sequence e, occurred_at = occurred_at e,
      ev_state = as_str (ev_state e), ev_stage = ev_stage e, message_code = message_code e,
      human_message = human_message e, ev_progress_current = ev_progress_current e,
      ev_progress_total = ev_progress_total e, ev_progress_unit = ev_progress_unit e,
      structured_detail = structured_detail e\<rparr>"

definition load_event :: "string job_event \<Rightarrow> job_state job_event" where
  "load_event e =
     \<lparr>ev_job_id = ev_job_id e, ev_sequence = ev_sequence e, occurred_at = occurred_at e,
      ev_state = (case parse_state (ev_state e) of None \<Rightarrow> Failed | Some s \<Rightarrow> s),
      ev_stage = ev_stage e, message_code = message_code e,
      human_message = human_message e, ev_progress_current = ev_progress_current e,
      ev_progress_total = ev_progress_total e, ev_progress_unit = ev_progress_unit e,
      structured_detail = structured_detail e\<rparr>"

definition detail_error :: "string option \<Rightarrow> job_error option" where
  "detail_error detail =
     (case detail of
        None \<Rightarrow> None
      | Some d \<Rightarrow>
          if 4096 < length d then Some DetailTooLong
          else if starts_with ''/'' d \<or> contains_str '':/'' d \<or> contains_str [CHR '':'', CHR 0x5C] d
          then Some DetailAbsolutePath
          else None)"

definition append_event_tx :: "job_state job_event \<Rightarrow> catalog \<Rightarrow> job_error + catalog" where
  "append_event_tx e db =
     and_then (refuse (512 < length (human_message e)) MessageTooLong) (\<lambda>_.
     case detail_error (structured_detail e) of
       Some err \<Rightarrow> Inl err
     | None \<Rightarrow>
         if \<exists>x \<in> set (job_events db). ev_job_id x = ev_job_id e \<and> ev_sequence x = ev_sequence e then Inl KeyConflict
         else if get_job_row db (ev_job_id e) = None then Inl ForeignKey
         else Inr (db\<lparr>job_events := job_events db @ [store_event e]\<rparr>))"

definition sequences :: "catalog \<Rightarrow> string \<Rightarrow> int list" where
  "sequences db jid = map ev_sequence (filter (\<lambda>e. ev_job_id e = jid) (job_events db))"

definition next_sequence :: "catalog \<Rightarrow> string \<Rightarrow> int" where
  "next_sequence db jid = (case sequences db jid of [] \<Rightarrow> 0 | n # ns \<Rightarrow> fold max ns n) + 1"

definition append_event :: "string \<Rightarrow> job_state job_event \<Rightarrow> catalog \<Rightarrow> job_error + catalog" where
  "append_event now e db =
     append_event_tx (e\<lparr>ev_sequence := next_sequence db (ev_job_id e),
       occurred_at := (if occurred_at e = [] then now else occurred_at e)\<rparr>) db"

text \<open>The newest \<open>limit\<close> events of a job, oldest first; a negative limit is no limit in SQLite.\<close>

definition recent_events :: "catalog \<Rightarrow> string \<Rightarrow> int \<Rightarrow> job_state job_event list" where
  "recent_events db jid limit =
     (let newest = rev (sort_key ev_sequence (filter (\<lambda>e. ev_job_id e = jid) (job_events db)));
          taken = (if limit < 0 then newest else take (nat limit) newest)
      in rev (map load_event taken))"

section \<open>Transitions\<close>

definition load_state :: "catalog \<Rightarrow> string \<Rightarrow> job_error + job_state" where
  "load_state db jid =
     and_then (ok_or (get_job_row db jid) JobNotFound) (\<lambda>r.
     ok_or (parse_state (job_state_col r)) (CorruptState (job_state_col r)))"

text \<open>The event of a state change, appended in the transaction that makes it.\<close>

definition log_event ::
  "string \<Rightarrow> string \<Rightarrow> job_state \<Rightarrow> string option \<Rightarrow> string option \<Rightarrow> string \<Rightarrow> string option \<Rightarrow> catalog \<Rightarrow> job_error + catalog" where
  "log_event now jid s stage code msg detail db =
     append_event_tx (job_event_new jid (next_sequence db jid) now s stage code msg detail) db"

definition transition_job ::
  "string \<Rightarrow> string \<Rightarrow> job_state \<Rightarrow> job_state \<Rightarrow> string option \<Rightarrow> string \<Rightarrow> catalog \<Rightarrow> job_error + catalog" where
  "transition_job now jid frm to code msg db =
     and_then (refuse (\<not> legal_transition frm to) (IllegalTransition frm to)) (\<lambda>_.
     and_then (load_state db jid) (\<lambda>current.
     and_then (refuse (current \<noteq> frm) (StateMismatch current frm)) (\<lambda>_.
     log_event now jid to (stage_label to) code msg None
       (update_jobs (\<lambda>j. job_key j = jid)
          (\<lambda>j. j\<lparr>job_state_col := as_str to, job_stage := stage_label to,
             finished_at := (if to \<in> {Completed, Cancelled, Failed} then Some now else finished_at j)\<rparr>) db))))"

definition coalesce :: "'a option \<Rightarrow> 'a option \<Rightarrow> 'a option" where
  "coalesce a b = (case a of None \<Rightarrow> b | Some x \<Rightarrow> Some x)"

definition fail :: "string \<Rightarrow> string \<Rightarrow> job_state \<Rightarrow> string \<Rightarrow> string \<Rightarrow> catalog \<Rightarrow> job_error + catalog" where
  "fail now jid frm code summary db =
     and_then (refuse (\<not> legal_transition frm Failed) (IllegalTransition frm Failed)) (\<lambda>_.
     and_then (load_state db jid) (\<lambda>current.
     and_then (refuse (current \<noteq> frm) (StateMismatch current frm)) (\<lambda>_.
     log_event now jid Failed None (Some code) (''failed: '' @ summary) None
       (update_jobs (\<lambda>j. job_key j = jid)
          (\<lambda>j. j\<lparr>job_state_col := ''Failed'', finished_at := Some now, error_code := Some code,
             error_summary := Some summary,
             cancel_requested_at := coalesce (cancel_requested_at j) (Some now)\<rparr>) db))))"

definition complete :: "string \<Rightarrow> string \<Rightarrow> int \<Rightarrow> catalog \<Rightarrow> job_error + catalog" where
  "complete now jid run_id db =
     and_then (load_state db jid) (\<lambda>current.
     and_then (refuse (current \<noteq> PublishingRun) (StateMismatch current PublishingRun)) (\<lambda>_.
     let P = (\<lambda>j. job_key j = jid \<and> job_state_col j = ''PublishingRun'') in
     and_then (refuse (run_id \<notin> set (runs db)) ForeignKey) (\<lambda>_.
     and_then (refuse (updated_rows P db = 0) (StateMismatch current PublishingRun)) (\<lambda>_.
     log_event now jid Completed None (Some ''run_published'') ''Analysis complete; run published''
       (Some (''run_id='' @ show_int run_id))
       (update_jobs P (\<lambda>j. j\<lparr>job_state_col := ''Completed'', completed_run_id := Some run_id,
          finished_at := Some now, job_stage := None\<rparr>) db)))))"

section \<open>Queueing and retry\<close>

datatype queue_outcome = Created string | DuplicateOf string

definition active_state_names :: "string list" where
  "active_state_names = [''Queued'', ''Claimed'', ''DiscoveringArchives'', ''AcquiringArchives'', ''ParsingBaseline'',
     ''FreezingCohort'', ''ParsingUpdates'', ''ReconstructingRoutes'', ''DerivingEvidence'',
     ''RenderingArtifacts'', ''ValidatingArtifacts'', ''PublishingRun'', ''CancelRequested'']"

definition active_duplicate :: "catalog \<Rightarrow> int \<Rightarrow> string \<Rightarrow> string option" where
  "active_duplicate db plan hash =
     (case sort_key requested_at
        (filter (\<lambda>j. plan_revision_id j = plan \<and> plan_hash j = hash \<and> job_state_col j \<in> set active_state_names)
          (jobs db)) of
        [] \<Rightarrow> None
      | j # _ \<Rightarrow> Some (job_key j))"

text \<open>The transaction of \<open>queue\<close>, and the whole operation with the scope check before it.\<close>

definition queue_tx ::
  "string \<Rightarrow> string \<Rightarrow> int \<Rightarrow> request_source \<Rightarrow> string \<Rightarrow> catalog \<Rightarrow> job_error + queue_outcome \<times> catalog" where
  "queue_tx now fresh plan src hash db =
     and_then (ok_or (map_of (plans db) plan) PlanNotFound) (\<lambda>pl.
     and_then (refuse (pl_schema pl \<noteq> plan_schema_version) (IncompatiblePlanSchema (pl_schema pl))) (\<lambda>_.
     and_then (ok_or (map_of (manifests db) (pl_manifest_revision_id pl)) NoManifestRevision) (\<lambda>m.
     and_then (refuse (map_of (catalog_events db) (mf_event_id m) = None \<or> mf_snapshot_id m \<notin> set (snapshots db))
                 MissingEventOrSnapshot) (\<lambda>_.
     and_then (refuse (pl_status pl \<noteq> ''Ready'') (PlanNotReady (pl_status pl))) (\<lambda>_.
     case active_duplicate db plan hash of
       Some existing \<Rightarrow> Inr (DuplicateOf existing, db)
     | None \<Rightarrow>
         and_then (insert_job (new_job fresh plan src now 1 None hash) db) (\<lambda>db1.
         and_then (append_event_tx (job_event_new fresh 1 now Queued None (Some ''job_queued'') ''Analysis queued''
                     (Some (''plan_sha256='' @ pl_sha256 pl))) db1) (\<lambda>db2.
         Inr (Created fresh, db2))))))))"

definition queue ::
  "(string \<Rightarrow> manifest option) \<Rightarrow> string \<Rightarrow> string \<Rightarrow> int \<Rightarrow> request_source \<Rightarrow> string \<Rightarrow> project_scope \<Rightarrow> catalog
   \<Rightarrow> job_error + queue_outcome \<times> catalog" where
  "queue parse now fresh plan src hash scope db =
     and_then (plan_scope_exclusion parse db plan scope) (\<lambda>excluded.
     and_then (refuse (excluded \<noteq> None) ScopeExcluded) (\<lambda>_.
     queue_tx now fresh plan src hash db))"

definition retry_tx ::
  "string \<Rightarrow> string \<Rightarrow> job_state analysis_job \<Rightarrow> request_source \<Rightarrow> string \<Rightarrow> string \<Rightarrow> catalog \<Rightarrow> job_error + string \<times> catalog" where
  "retry_tx now fresh original src hash jid db =
     and_then (insert_job (new_job fresh (plan_revision_id original) src now (attempt original + 1) (Some jid) hash) db) (\<lambda>db1.
     and_then (append_event_tx (job_event_new fresh 1 now Queued None (Some ''retry_created'')
                 (''Retry of '' @ jid @ '' queued'') (Some (''original_job_id='' @ jid))) db1) (\<lambda>db2.
     Inr (fresh, db2)))"

definition retry ::
  "(string \<Rightarrow> manifest option) \<Rightarrow> string \<Rightarrow> string \<Rightarrow> string \<Rightarrow> request_source \<Rightarrow> string \<Rightarrow> project_scope \<Rightarrow> catalog
   \<Rightarrow> job_error + string \<times> catalog" where
  "retry parse now fresh jid src hash scope db =
     and_then (get_job db jid) (\<lambda>original.
     and_then (plan_scope_exclusion parse db (plan_revision_id original) scope) (\<lambda>excluded.
     and_then (refuse (excluded \<noteq> None) ScopeExcluded) (\<lambda>_.
     and_then (refuse (\<not> is_retryable (job_state_col original)) (NotRetryable (job_state_col original))) (\<lambda>_.
     and_then (ok_or (map_of (plans db) (plan_revision_id original)) PlanGone) (\<lambda>pl.
     and_then (refuse (pl_status pl \<noteq> ''Ready'') (PlanNotReady (pl_status pl))) (\<lambda>_.
     retry_tx now fresh original src hash jid db))))))"

section \<open>Claims and leases\<close>

definition oldest_queued :: "catalog \<Rightarrow> string option" where
  "oldest_queued db =
     (case sort_key (\<lambda>j. (requested_at j, job_key j)) (filter (\<lambda>j. job_state_col j = ''Queued'') (jobs db)) of
        [] \<Rightarrow> None
      | j # _ \<Rightarrow> Some (job_key j))"

definition claim_next ::
  "string \<Rightarrow> string \<Rightarrow> string \<Rightarrow> int \<Rightarrow> catalog \<Rightarrow> job_error + (job_state analysis_job \<times> int) option \<times> catalog" where
  "claim_next now expires worker lease_secs db =
     (case oldest_queued db of
        None \<Rightarrow> Inr (None, db)
      | Some jid \<Rightarrow>
          and_then (log_event now jid Claimed None (Some ''job_claimed'') ''Worker claimed analysis''
            (Some (''worker_id='' @ worker))
            (update_jobs (\<lambda>j. job_key j = jid \<and> job_state_col j = ''Queued'')
               (\<lambda>j. j\<lparr>job_state_col := ''Claimed'', worker_id := Some worker, lease_acquired_at := Some now,
                  lease_expires_at := Some expires, heartbeat_at := Some now, started_at := Some now,
                  job_stage := None\<rparr>) db)) (\<lambda>db'.
          and_then (get_job db' jid) (\<lambda>job. Inr (Some (job, lease_secs), db'))))"

definition leased_state_names :: "string list" where
  "leased_state_names = [''Claimed'', ''DiscoveringArchives'', ''AcquiringArchives'', ''ParsingBaseline'',
     ''FreezingCohort'', ''ParsingUpdates'', ''ReconstructingRoutes'', ''DerivingEvidence'',
     ''RenderingArtifacts'', ''ValidatingArtifacts'', ''PublishingRun'']"

definition renew_lease :: "string \<Rightarrow> string \<Rightarrow> string \<Rightarrow> string \<Rightarrow> catalog \<Rightarrow> job_error + catalog" where
  "renew_lease now expires jid worker db =
     and_then (load_state db jid) (\<lambda>state.
     and_then (refuse (\<not> is_active state \<or> state = Queued) (NotLeaseable state)) (\<lambda>_.
     and_then (refuse (Option.bind (get_job_row db jid) worker_id \<noteq> Some worker) LeasedByAnother) (\<lambda>_.
     let P = (\<lambda>j. job_key j = jid \<and> worker_id j = Some worker \<and> job_state_col j \<in> set leased_state_names) in
     and_then (refuse (updated_rows P db = 0) LeaseNotRenewable) (\<lambda>_.
     Inr (update_jobs P (\<lambda>j. j\<lparr>heartbeat_at := Some now, lease_expires_at := Some expires\<rparr>) db)))))"

definition lease_expired :: "string \<Rightarrow> string analysis_job \<Rightarrow> bool" where
  "lease_expired now j =
     (job_state_col j \<in> set leased_state_names
      \<and> (case lease_expires_at j of None \<Rightarrow> False | Some t \<Rightarrow> t < now))"

definition expire_one :: "string \<Rightarrow> string \<Rightarrow> catalog \<Rightarrow> job_error + catalog" where
  "expire_one now jid db =
     log_event now jid Failed None (Some ''worker_lease_expired'') ''Worker lease expired; job interrupted'' None
       (update_jobs (\<lambda>j. job_key j = jid \<and> lease_expired now j)
          (\<lambda>j. j\<lparr>job_state_col := ''Failed'', finished_at := Some now, error_code := Some ''worker_lease_expired'',
             error_summary := Some ''worker lease expired; staging preserved; explicit retry required''\<rparr>) db)"

fun expire_all :: "string \<Rightarrow> string list \<Rightarrow> catalog \<Rightarrow> job_error + catalog" where
  "expire_all now [] db = Inr db"
| "expire_all now (jid # ids) db = and_then (expire_one now jid db) (expire_all now ids)"

text \<open>The ids are listed in table order; SQLite may list them in another order.\<close>

definition mark_stale_leases :: "string \<Rightarrow> catalog \<Rightarrow> job_error + string list \<times> catalog" where
  "mark_stale_leases now db =
     (let ids = map job_key (filter (lease_expired now) (jobs db)) in
      and_then (expire_all now ids db) (\<lambda>db'. Inr (ids, db')))"

section \<open>Cancellation\<close>

definition scope_cancel_message :: string where
  "scope_cancel_message = ''Job is outside the configured project scope; cancelled before execution''"

definition cancel_scope_excluded_from :: "job_state \<Rightarrow> string \<Rightarrow> string \<Rightarrow> catalog \<Rightarrow> job_error + catalog" where
  "cancel_scope_excluded_from state now jid db =
     (case state of
        Queued \<Rightarrow> transition_job now jid Queued Cancelled (Some ''excluded_by_project_scope'') scope_cancel_message db
      | Claimed \<Rightarrow> transition_job now jid Claimed Cancelled (Some ''excluded_by_project_scope'') scope_cancel_message db
      | _ \<Rightarrow> Inl (NotScopeCancellable state))"

definition cancel_scope_excluded :: "string \<Rightarrow> string \<Rightarrow> catalog \<Rightarrow> job_error + catalog" where
  "cancel_scope_excluded now jid db =
     and_then (get_job db jid) (\<lambda>job. cancel_scope_excluded_from (job_state_col job) now jid db)"

datatype cancel_outcome = CancelledNow string | Requested string

definition cancellable_state_names :: "string list" where
  "cancellable_state_names = [''Claimed'', ''DiscoveringArchives'', ''AcquiringArchives'', ''ParsingBaseline'',
     ''FreezingCohort'', ''ParsingUpdates'', ''ReconstructingRoutes'', ''DerivingEvidence'',
     ''RenderingArtifacts'', ''ValidatingArtifacts'']"

definition request_cancel_tx :: "string \<Rightarrow> string \<Rightarrow> catalog \<Rightarrow> job_error + cancel_outcome \<times> catalog" where
  "request_cancel_tx now jid db =
     and_then (load_state db jid) (\<lambda>current.
     and_then (refuse (\<not> is_cancellable current) (NotCancellable current)) (\<lambda>_.
     let P = (\<lambda>j. job_key j = jid \<and> job_state_col j \<in> set cancellable_state_names) in
     and_then (refuse (updated_rows P db = 0) (NotCancellable current)) (\<lambda>_.
     and_then (log_event now jid CancelRequested None (Some ''cancel_requested'')
                 ''Cancellation requested; worker stops at the next checkpoint'' None
                 (update_jobs P (\<lambda>j. j\<lparr>job_state_col := ''CancelRequested'', cancel_requested_at := Some now\<rparr>) db)) (\<lambda>db'.
     Inr (Requested jid, db')))))"

text \<open>What \<open>request_cancel\<close> does once it has read the state of the job.\<close>

definition request_cancel_from ::
  "job_state \<Rightarrow> string \<Rightarrow> string \<Rightarrow> catalog \<Rightarrow> job_error + cancel_outcome \<times> catalog" where
  "request_cancel_from state now jid db =
     and_then (refuse (\<not> is_cancellable state) (NotCancellable state)) (\<lambda>_.
     if state = Queued then
       and_then (transition_job now jid Queued Cancelled (Some ''cancelled'') ''Cancelled before execution'' db) (\<lambda>db'.
       Inr (CancelledNow jid, db'))
     else request_cancel_tx now jid db)"

definition request_cancel :: "string \<Rightarrow> string \<Rightarrow> catalog \<Rightarrow> job_error + cancel_outcome \<times> catalog" where
  "request_cancel now jid db =
     and_then (get_job db jid) (\<lambda>job. request_cancel_from (job_state_col job) now jid db)"

definition observe_cancel :: "string \<Rightarrow> string \<Rightarrow> catalog \<Rightarrow> job_error + catalog" where
  "observe_cancel now jid db =
     transition_job now jid CancelRequested Cancelled (Some ''cancelled'') ''Cancellation observed; no run published'' db"

section \<open>Heartbeats, progress and the worker-side helpers\<close>

definition heartbeat :: "worker_heartbeat \<Rightarrow> catalog \<Rightarrow> catalog" where
  "heartbeat hb db =
     (if hb_worker_id hb \<in> set (map hb_worker_id (workers db))
      then db\<lparr>workers := map (\<lambda>w. if hb_worker_id w = hb_worker_id hb
                           then hb\<lparr>hb_started_at := hb_started_at w\<rparr> else w) (workers db)\<rparr>
      else db\<lparr>workers := workers db @ [hb]\<rparr>)"

datatype worker_freshness = Online | StaleWorker

definition list_workers ::
  "(string \<Rightarrow> timestamp option) \<Rightarrow> timestamp \<Rightarrow> int \<Rightarrow> catalog \<Rightarrow> (worker_heartbeat \<times> worker_freshness) list" where
  "list_workers parse_rfc3339 now stale_after_secs db =
     map (\<lambda>hb. (hb, if (case parse_rfc3339 (last_heartbeat hb) of
                          None \<Rightarrow> False
                        | Some t \<Rightarrow> num_seconds (now - t) \<le> stale_after_secs) then Online else StaleWorker))
       (rev (sort_key last_heartbeat (workers db)))"

definition update_progress ::
  "string \<Rightarrow> string \<Rightarrow> int option \<Rightarrow> int option \<Rightarrow> string option \<Rightarrow> catalog \<Rightarrow> catalog" where
  "update_progress jid stage current tot prog_unit db =
     update_jobs (\<lambda>j. job_key j = jid)
       (\<lambda>j. j\<lparr>job_stage := Some stage, job_progress_current := current, job_progress_total := tot,
          job_progress_unit := prog_unit\<rparr>) db"

definition fail_job :: "string \<Rightarrow> string \<Rightarrow> string \<Rightarrow> string \<Rightarrow> catalog \<Rightarrow> job_error + catalog" where
  "fail_job now jid code summary db =
     and_then (get_job db jid) (\<lambda>job. fail now jid (job_state_col job) code summary db)"

definition enter_publishing :: "string \<Rightarrow> string \<Rightarrow> catalog \<Rightarrow> job_error + catalog" where
  "enter_publishing now jid db =
     and_then (get_job db jid) (\<lambda>job.
     transition_job now jid (job_state_col job) PublishingRun (Some ''publishing'') ''Publishing completed run'' db)"

end
