(* ===== verification/Job_Facts.thy ===== *)
theory Job_Facts
  imports Job_Service
begin

text \<open>
  What the job service guarantees over every interleaving of its operations. Each operation is
  shown to be a sequence of elementary changes (\<open>micro\<close>): one job moves along a legal transition
  and the event of that move is logged, a new job is queued, an event is noted, or columns other
  than the state change. The locale \<open>state_log\<close> states what a store of states with a log promises,
  and its consequences for runs; it is interpreted on the elementary changes.
\<close>

section \<open>State names\<close>

lemma parse_as_str [simp]: "parse_state (as_str s) = Some s"
  by (cases s) (simp_all add: parse_state_def)

lemma parse_state_Some: "parse_state x = Some s \<longleftrightarrow> x = as_str s"
proof
  assume "parse_state x = Some s"
  then show "x = as_str s"
    by (auto simp: parse_state_def split: if_splits)
qed simp

lemma as_str_inject [simp]: "as_str a = as_str b \<longleftrightarrow> a = b"
  by (metis option.inject parse_as_str)

lemma state_literals:
  "''Queued'' = as_str Queued" "''Claimed'' = as_str Claimed" "''PublishingRun'' = as_str PublishingRun"
  "''Completed'' = as_str Completed" "''CancelRequested'' = as_str CancelRequested" "''Failed'' = as_str Failed"
  by simp_all

declare as_str.simps [simp del]

lemma leased_state_iff: "as_str s \<in> set leased_state_names \<longleftrightarrow> s \<in> set executing \<or> s = PublishingRun"
  by (cases s) (simp_all add: as_str.simps leased_state_names_def executing_def)

lemma cancellable_state_iff: "as_str s \<in> set cancellable_state_names \<longleftrightarrow> s \<in> set executing"
  by (cases s) (simp_all add: as_str.simps cancellable_state_names_def executing_def)

lemma active_state_iff: "as_str s \<in> set active_state_names \<longleftrightarrow> is_active s"
  by (cases s) (simp_all add: as_str.simps active_state_names_def is_active_def)

lemma leased_fails: "s \<in> set executing \<or> s = PublishingRun \<Longrightarrow> legal_transition s Failed"
  by (cases s) (simp_all add: legal_transition_def executing_def)

lemma executing_cancels: "s \<in> set executing \<Longrightarrow> legal_transition s CancelRequested"
  by (cases s) (simp_all add: legal_transition_def executing_def)

lemma legal_simple [simp]:
  "legal_transition Queued Claimed" "legal_transition PublishingRun Completed"
  by (simp_all add: legal_transition_def)

lemma legal_from_terminal: "\<not> is_active s \<Longrightarrow> \<not> legal_transition s t"
  by (cases s) (simp_all add: is_active_def legal_transition_def executing_def stage_advance_def)

lemma legal_from_cancel_requested: "legal_transition CancelRequested t \<Longrightarrow> t \<in> {Cancelled, Failed}"
  by (auto simp: legal_transition_def executing_def split: if_splits)

lemma legal_not_Queued: "\<not> legal_transition s Queued"
  by (cases s) (simp_all add: legal_transition_def executing_def stage_advance_def stage_order_def)

lemma legal_to_Completed: "legal_transition s Completed \<longleftrightarrow> s = PublishingRun"
  by (cases s) (simp_all add: legal_transition_def executing_def stage_advance_def stage_order_def)

section \<open>Rows under updates\<close>

lemma find_map_key:
  "(\<And>j. g j \<Longrightarrow> job_key (f j) = job_key j) \<Longrightarrow>
   find (\<lambda>j. job_key j = k) (map (\<lambda>j. if g j then f j else j) js) =
   map_option (\<lambda>j. if g j then f j else j) (find (\<lambda>j. job_key j = k) js)"
  by (induction js) auto

lemma get_job_row_update:
  "(\<And>j. P j \<Longrightarrow> job_key (f j) = job_key j) \<Longrightarrow>
   get_job_row (update_jobs P f db) k = map_option (\<lambda>j. if P j then f j else j) (get_job_row db k)"
  by (simp add: get_job_row_def update_jobs_def find_map_key)

lemma get_job_row_events [simp]: "get_job_row (db\<lparr>job_events := es\<rparr>) k = get_job_row db k"
  by (simp add: get_job_row_def)

lemma update_jobs_frame [simp]:
  "job_events (update_jobs P f db) = job_events db" "plans (update_jobs P f db) = plans db"
  "runs (update_jobs P f db) = runs db"
  by (simp_all add: update_jobs_def)

lemma sequences_update [simp]: "sequences (update_jobs P f db) k = sequences db k"
  by (simp add: sequences_def)

lemma next_sequence_update [simp]: "next_sequence (update_jobs P f db) k = next_sequence db k"
  by (simp add: next_sequence_def)

lemma get_job_row_Some: "get_job_row db k = Some r \<Longrightarrow> r \<in> set (jobs db) \<and> job_key r = k"
  by (auto simp: get_job_row_def find_Some_iff)

lemma get_job_row_None: "get_job_row db k = None \<longleftrightarrow> k \<notin> set (map job_key (jobs db))"
  by (auto simp: get_job_row_def find_None_iff)

lemma find_key_unique:
  "distinct (map job_key js) \<Longrightarrow> r \<in> set js \<Longrightarrow> find (\<lambda>j. job_key j = job_key r) js = Some r"
  by (induction js) (auto simp: image_iff)

lemma get_job_row_unique:
  "distinct (map job_key (jobs db)) \<Longrightarrow> r \<in> set (jobs db) \<Longrightarrow> get_job_row db (job_key r) = Some r"
  unfolding get_job_row_def by (rule find_key_unique)

section \<open>Well-formed catalogs\<close>

definition catalog_ok :: "catalog \<Rightarrow> bool" where
  "catalog_ok db \<longleftrightarrow>
     distinct (map job_key (jobs db))
     \<and> (\<forall>j \<in> set (jobs db). parse_state (job_state_col j) \<noteq> None)
     \<and> (\<forall>k. sequences db k = map int [1..<Suc (length (sequences db k))])
     \<and> (\<forall>k. sequences db k \<noteq> [] \<longleftrightarrow> get_job_row db k \<noteq> None)"

definition state_of :: "catalog \<Rightarrow> string \<Rightarrow> job_state option" where
  "state_of db k = Option.bind (get_job_row db k) (\<lambda>r. parse_state (job_state_col r))"

text \<open>The columns of a request, which no operation changes after the insertion.\<close>

definition same_request :: "string analysis_job \<Rightarrow> string analysis_job \<Rightarrow> bool" where
  "same_request r r' \<longleftrightarrow> job_key r' = job_key r \<and> plan_revision_id r' = plan_revision_id r \<and> plan_hash r' = plan_hash r
     \<and> attempt r' = attempt r \<and> original_job_id r' = original_job_id r \<and> requested_at r' = requested_at r
     \<and> requested_by r' = requested_by r"

inductive micro :: "catalog \<Rightarrow> catalog \<Rightarrow> bool" where
  micro_move: "micro db db'"
  if "get_job_row db k = Some r" "job_state_col r = as_str s" "legal_transition s s'"
     "same_request r r'" "job_state_col r' = as_str s'"
     "completed_run_id r' = completed_run_id r \<or> s' = Completed"
     "jobs db' = map (\<lambda>j. if job_key j = k then r' else j) (jobs db)"
     "job_events db' = job_events db @ [e]" "ev_job_id e = k" "ev_sequence e = next_sequence db k"
     "ev_state e = as_str s'"
| micro_add: "micro db db'"
  if "get_job_row db (job_key r) = None" "job_state_col r = as_str Queued" "completed_run_id r = None"
     "jobs db' = jobs db @ [r]" "job_events db' = job_events db @ [e]" "ev_job_id e = job_key r"
     "ev_sequence e = 1" "ev_state e = as_str Queued"
| micro_note: "micro db db'"
  if "get_job_row db (ev_job_id e) \<noteq> None" "ev_sequence e = next_sequence db (ev_job_id e)"
     "jobs db' = jobs db" "job_events db' = job_events db @ [e]"
| micro_quiet: "micro db db'"
  if "job_events db' = job_events db" "length (jobs db') = length (jobs db)"
     "\<And>i. i < length (jobs db) \<Longrightarrow> same_request (jobs db ! i) (jobs db' ! i)
        \<and> job_state_col (jobs db' ! i) = job_state_col (jobs db ! i)
        \<and> completed_run_id (jobs db' ! i) = completed_run_id (jobs db ! i)"

lemma catalog_okD:
  assumes "catalog_ok db"
  shows "distinct (map job_key (jobs db))"
    and "j \<in> set (jobs db) \<Longrightarrow> \<exists>s. job_state_col j = as_str s"
    and "sequences db k = map int [1..<Suc (length (sequences db k))]"
    and "sequences db k \<noteq> [] \<longleftrightarrow> get_job_row db k \<noteq> None"
  using assms by (auto simp: catalog_ok_def parse_state_Some)

lemma fold_max_upto: "fold max (map int [a..<b]) (int m) = max (int m) (if a < b then int (b - 1) else int m)"
proof (induction "b - a" arbitrary: a m)
  case (Suc n)
  then have "[a..<b] = a # [Suc a..<b]"
    by (simp add: upt_conv_Cons)
  moreover have "fold max (map int [Suc a..<b]) (int (max a m)) =
      max (int (max a m)) (if Suc a < b then int (b - 1) else int (max a m))"
    using Suc by (intro Suc(1)) simp
  ultimately show ?case
    using Suc(2) by (auto simp: max_def)
qed simp

lemma next_sequence_ok:
  assumes "catalog_ok db"
  shows "next_sequence db k = int (Suc (length (sequences db k)))"
proof (cases "sequences db k")
  case (Cons n ns)
  have "sequences db k = map int (1 # [2..<Suc (length (sequences db k))])"
    using catalog_okD(3) [OF assms, of k] Cons by (metis One_nat_def Suc_1 length_Cons upt_conv_Cons zero_less_Suc Suc_less_eq)
  with Cons show ?thesis
    using fold_max_upto [of 2 "Suc (length (sequences db k))" 1]
    by (simp add: next_sequence_def split: if_splits)
qed (simp add: next_sequence_def)

lemma sequences_append:
  "job_events db' = job_events db @ [e] \<Longrightarrow>
   sequences db' k = (if ev_job_id e = k then sequences db k @ [ev_sequence e] else sequences db k)"
  by (simp add: sequences_def)

lemma upt_snoc_ok:
  "xs = map int [1..<Suc (length xs)] \<Longrightarrow> xs @ [int (Suc (length xs))] = map int [1..<Suc (length (xs @ [y]))]"
  by (subst upt_Suc) auto

lemma get_job_row_cong: "jobs db' = jobs db \<Longrightarrow> get_job_row db' k = get_job_row db k"
  by (simp add: get_job_row_def)

lemma get_job_row_append:
  "jobs db' = jobs db @ [r] \<Longrightarrow>
   get_job_row db' k = (case get_job_row db k of None \<Rightarrow> if job_key r = k then Some r else None | Some x \<Rightarrow> Some x)"
  by (simp add: get_job_row_def find_append split: option.split)

lemma get_job_row_replace:
  "jobs db' = map (\<lambda>j. if job_key j = k then r' else j) (jobs db) \<Longrightarrow> job_key r' = k \<Longrightarrow>
   get_job_row db' k' = map_option (\<lambda>j. if job_key j = k then r' else j) (get_job_row db k')"
  by (simp add: get_job_row_def) (subst find_map_key; auto)

lemma get_job_row_move:
  assumes "get_job_row db k = Some r" "same_request r r'"
    "jobs db' = map (\<lambda>j. if job_key j = k then r' else j) (jobs db)"
  shows "get_job_row db' k' = (if k' = k then Some r' else get_job_row db k')"
proof -
  have "job_key r' = k"
    using assms(1,2) by (auto simp: same_request_def dest: get_job_row_Some)
  then show ?thesis
    using get_job_row_replace [OF assms(3)] get_job_row_Some [of db k'] assms(1)
    by (cases "get_job_row db k'") auto
qed

lemma find_pointwise:
  "length ys = length xs \<Longrightarrow> (\<And>i. i < length xs \<Longrightarrow> job_key (ys ! i) = job_key (xs ! i)) \<Longrightarrow>
   (find (\<lambda>j. job_key j = k) xs = None \<and> find (\<lambda>j. job_key j = k) ys = None)
   \<or> (\<exists>i < length xs. find (\<lambda>j. job_key j = k) xs = Some (xs ! i) \<and> find (\<lambda>j. job_key j = k) ys = Some (ys ! i))"
proof (induction ys xs rule: list_induct2)
  case (Cons y ys x xs)
  have "job_key y = job_key x"
    using Cons.prems [of 0] by simp
  moreover have "\<And>i. i < length xs \<Longrightarrow> job_key (ys ! i) = job_key (xs ! i)"
    using Cons.prems [of "Suc i" for i] by simp
  ultimately show ?case
    using Cons.IH by (auto intro: exI [of _ 0])
qed simp

lemma get_job_row_quiet:
  assumes "length (jobs db') = length (jobs db)"
    and "\<And>i. i < length (jobs db) \<Longrightarrow> same_request (jobs db ! i) (jobs db' ! i)
        \<and> job_state_col (jobs db' ! i) = job_state_col (jobs db ! i)
        \<and> completed_run_id (jobs db' ! i) = completed_run_id (jobs db ! i)"
  shows "(get_job_row db k = None \<and> get_job_row db' k = None)
    \<or> (\<exists>r r'. get_job_row db k = Some r \<and> get_job_row db' k = Some r' \<and> same_request r r'
        \<and> job_state_col r' = job_state_col r \<and> completed_run_id r' = completed_run_id r)"
  using find_pointwise [of "jobs db'" "jobs db" k] assms
  by (auto simp: get_job_row_def same_request_def)

section \<open>Elementary changes keep the catalog well formed\<close>

lemma sequences_ok_append:
  assumes "catalog_ok db" "job_events db' = job_events db @ [e]" "ev_sequence e = next_sequence db (ev_job_id e)"
  shows "sequences db' k = map int [1..<Suc (length (sequences db' k))]"
    and "sequences db' k \<noteq> [] \<longleftrightarrow> ev_job_id e = k \<or> sequences db k \<noteq> []"
  using upt_snoc_ok [OF catalog_okD(3) [OF assms(1)], of k "ev_sequence e"] catalog_okD(3) [OF assms(1), of k]
  by (auto simp: sequences_append [OF assms(2)] assms(3) next_sequence_ok [OF assms(1)])

lemma next_sequence_fresh: "catalog_ok db \<Longrightarrow> get_job_row db k = None \<Longrightarrow> next_sequence db k = 1"
  using catalog_okD(4) [of db k] by (simp add: next_sequence_ok)

lemma micro_ok:
  assumes "micro db db'" "catalog_ok db"
  shows "catalog_ok db'"
  using assms
proof (induction rule: micro.induct)
  case (micro_move db k r s s' r' db' e)
  note row = get_job_row_move [OF micro_move(1,4,7)]
  have "job_key r' = k"
    using micro_move(1,4) by (auto simp: same_request_def dest: get_job_row_Some)
  then have keys: "map job_key (jobs db') = map job_key (jobs db)"
    by (simp add: micro_move(7))
  have seq: "ev_sequence e = next_sequence db (ev_job_id e)"
    using micro_move by simp
  have "\<forall>j \<in> set (jobs db'). parse_state (job_state_col j) \<noteq> None"
    using micro_move(5) micro_move.prems by (auto simp: micro_move(7) catalog_ok_def)
  moreover have "sequences db' k' \<noteq> [] \<longleftrightarrow> get_job_row db' k' \<noteq> None" for k'
    using sequences_ok_append(2) [OF micro_move.prems micro_move(8) seq, of k'] catalog_okD(4) [OF micro_move.prems, of k']
    by (auto simp: row micro_move(9))
  ultimately show ?case
    using micro_move.prems keys sequences_ok_append(1) [OF micro_move.prems micro_move(8) seq]
    by (simp add: catalog_ok_def)
next
  case (micro_add db r db' e)
  have seq: "ev_sequence e = next_sequence db (ev_job_id e)"
    using micro_add by (simp add: next_sequence_fresh)
  have "sequences db' k \<noteq> [] \<longleftrightarrow> get_job_row db' k \<noteq> None" for k
    using micro_add catalog_okD(4) [OF micro_add.prems, of k] sequences_ok_append(2) [OF micro_add.prems _ seq, of db' k]
    by (auto simp: get_job_row_append split: option.splits)
  moreover have "distinct (map job_key (jobs db'))"
    using micro_add catalog_okD(1) [OF micro_add.prems] by (simp add: get_job_row_None)
  ultimately show ?case
    using micro_add sequences_ok_append(1) [OF micro_add.prems _ seq, of db'] by (auto simp: catalog_ok_def)
next
  case (micro_note db e db')
  then have "sequences db' k \<noteq> [] \<longleftrightarrow> get_job_row db' k \<noteq> None" for k
    using catalog_okD(4) [OF micro_note.prems, of k] sequences_ok_append(2) [OF micro_note.prems, of db' e k]
    by (auto simp: get_job_row_cong [OF micro_note(3)])
  then show ?case
    using micro_note sequences_ok_append(1) [OF micro_note.prems, of db' e] by (simp add: catalog_ok_def)
next
  case (micro_quiet db' db)
  have keys: "map job_key (jobs db') = map job_key (jobs db)"
    using micro_quiet by (intro nth_equalityI) (simp_all add: same_request_def)
  have states: "map job_state_col (jobs db') = map job_state_col (jobs db)"
    using micro_quiet by (intro nth_equalityI) simp_all
  have "\<forall>j \<in> set (jobs db'). parse_state (job_state_col j) \<noteq> None"
    using micro_quiet.prems states by (metis (mono_tags, lifting) catalog_ok_def image_iff list.set_map)
  moreover have "get_job_row db' k = None \<longleftrightarrow> get_job_row db k = None" for k
    using get_job_row_quiet [OF micro_quiet(2,3)] by fastforce
  moreover have "sequences db' k = sequences db k" for k
    by (simp add: sequences_def micro_quiet(1))
  ultimately show ?case
    using micro_quiet.prems keys by (simp add: catalog_ok_def del: upt_Suc)
qed

lemma micro_row:
  assumes "micro db db'" "get_job_row db k = Some r" "job_state_col r = as_str s"
  shows "\<exists>r' s'. get_job_row db' k = Some r' \<and> same_request r r' \<and> job_state_col r' = as_str s'
    \<and> (completed_run_id r' = completed_run_id r \<or> s' = Completed)
    \<and> (s' = s \<or> legal_transition s s' \<and>
         (\<exists>e. job_events db' = job_events db @ [e] \<and> ev_job_id e = k \<and> ev_state e = as_str s'))"
  using assms
proof (induction rule: micro.induct)
  case (micro_move db k0 r0 s0 s' r' db' e)
  note row = get_job_row_move [OF micro_move(1,4,7), of k]
  show ?case
  proof (cases "k = k0")
    case True
    with micro_move(1-6,8-13) row show ?thesis
      by auto
  next
    case False
    with row micro_move.prems show ?thesis
      by (auto simp: same_request_def)
  qed
next
  case (micro_add db r0 db' e)
  then show ?case
    by (auto simp: get_job_row_append same_request_def)
next
  case (micro_note db e db')
  then show ?case
    by (auto simp: get_job_row_cong [OF micro_note(3)] same_request_def)
next
  case (micro_quiet db' db)
  then show ?case
    using get_job_row_quiet [OF micro_quiet(2,3), of k] by auto
qed

lemma state_of_Some: "state_of db k = Some s \<longleftrightarrow> (\<exists>r. get_job_row db k = Some r \<and> job_state_col r = as_str s)"
  by (auto simp: state_of_def bind_eq_Some_conv parse_state_Some)

lemma micro_state:
  assumes "micro db db'" "state_of db k = Some s"
  shows "\<exists>s'. state_of db' k = Some s' \<and> (s' = s \<or> legal_transition s s')"
  using assms micro_row [OF assms(1), of k] by (fastforce simp: state_of_Some)

lemma micro_log: "micro db db' \<Longrightarrow> \<exists>new. job_events db' = job_events db @ new"
  by (induction rule: micro.induct) auto

section \<open>Stores of states with a log\<close>

text \<open>
  The contract of a store that keeps a state per key and an append-only log: a step keeps it well
  formed, never forgets a key, and changes a state only along the legal transitions.
\<close>

locale state_log =
  fixes step :: "'d \<Rightarrow> 'd \<Rightarrow> bool"
    and ok :: "'d \<Rightarrow> bool"
    and state :: "'d \<Rightarrow> 'k \<Rightarrow> 's option"
    and log :: "'d \<Rightarrow> 'e list"
    and legal :: "'s \<Rightarrow> 's \<Rightarrow> bool"
  assumes step_ok: "step d d' \<Longrightarrow> ok d \<Longrightarrow> ok d'"
    and step_state: "step d d' \<Longrightarrow> state d k = Some s \<Longrightarrow> \<exists>s'. state d' k = Some s' \<and> (s' = s \<or> legal s s')"
    and step_log: "step d d' \<Longrightarrow> \<exists>new. log d' = log d @ new"
begin

lemma run_ok: "step\<^sup>*\<^sup>* d d' \<Longrightarrow> ok d \<Longrightarrow> ok d'"
  by (induction rule: rtranclp_induct) (auto dest: step_ok)

lemma run_state: "step\<^sup>*\<^sup>* d d' \<Longrightarrow> state d k = Some s \<Longrightarrow> \<exists>s'. state d' k = Some s' \<and> legal\<^sup>*\<^sup>* s s'"
proof (induction rule: rtranclp_induct)
  case (step d1 d2)
  then obtain s1 where s1: "state d1 k = Some s1" "legal\<^sup>*\<^sup>* s s1"
    by auto
  with step_state [OF step(2) s1(1)] show ?case
    by (meson rtranclp.rtrancl_into_rtrancl)
qed auto

lemma run_log: "step\<^sup>*\<^sup>* d d' \<Longrightarrow> \<exists>new. log d' = log d @ new"
proof (induction rule: rtranclp_induct)
  case (step d1 d2)
  then show ?case
    using step_log [OF step(2)] by (metis append.assoc)
qed auto

lemma run_closed:
  assumes "step\<^sup>*\<^sup>* d d'" "state d k = Some s" "s \<in> A" "\<And>a b. a \<in> A \<Longrightarrow> legal a b \<Longrightarrow> b \<in> A"
  shows "\<exists>s' \<in> A. state d' k = Some s'"
proof -
  obtain s' where s': "state d' k = Some s'" "legal\<^sup>*\<^sup>* s s'"
    using run_state [OF assms(1,2)] by blast
  from s'(2) assms(3) have "s' \<in> A"
    by (induction rule: rtranclp_induct) (auto intro: assms(4))
  with s'(1) show ?thesis
    by blast
qed

end

interpretation job_log: state_log micro catalog_ok state_of job_events legal_transition
proof
  show "catalog_ok d'" if "micro d d'" "catalog_ok d" for d d'
    using that by (rule micro_ok)
  show "\<exists>s'. state_of d' k = Some s' \<and> (s' = s \<or> legal_transition s s')"
    if "micro d d'" "state_of d k = Some s" for d d' k s
    using that by (rule micro_state)
  show "\<exists>new. job_events d' = job_events d @ new" if "micro d d'" for d d'
    using that by (rule micro_log)
qed

section \<open>Every operation is a run of elementary changes\<close>

lemma append_event_tx_Inr:
  "append_event_tx e db = Inr db' \<Longrightarrow>
   db' = db\<lparr>job_events := job_events db @ [store_event e]\<rparr> \<and> get_job_row db (ev_job_id e) \<noteq> None"
  by (auto simp: append_event_tx_def and_then_Inr_iff split: option.splits if_splits)

lemma store_event_simps [simp]:
  "ev_job_id (store_event e) = ev_job_id e" "ev_sequence (store_event e) = ev_sequence e"
  "ev_state (store_event e) = as_str (ev_state e)"
  by (simp_all add: store_event_def)

lemma job_event_new_simps [simp]:
  "ev_job_id (job_event_new jid n now s stage code msg detail) = jid"
  "ev_sequence (job_event_new jid n now s stage code msg detail) = n"
  "ev_state (job_event_new jid n now s stage code msg detail) = s"
  by (simp_all add: job_event_new_def)

text \<open>The shape that all state-changing updates share: one row, by its key, with a logged event.\<close>

lemma logged_update_micro:
  assumes ok: "catalog_ok db"
    and row: "get_job_row db k = Some r" "job_state_col r = as_str s" "legal_transition s s'" "P r"
    and P: "\<And>j. P j \<Longrightarrow> job_key j = k"
    and f: "same_request r (f r)" "job_state_col (f r) = as_str s'"
      "completed_run_id (f r) = completed_run_id r \<or> s' = Completed"
    and log: "log_event now k s' stage code msg detail (update_jobs P f db) = Inr db'"
  shows "micro db db'"
proof -
  have r: "r \<in> set (jobs db)" "job_key r = k"
    using get_job_row_Some [OF row(1)] by simp_all
  have unique: "j = r" if "j \<in> set (jobs db)" "job_key j = k" for j
    using that r catalog_okD(1) [OF ok] by (metis distinct_map inj_onD)
  have "map (\<lambda>j. if P j then f j else j) (jobs db) = map (\<lambda>j. if job_key j = k then f r else j) (jobs db)"
    using unique P row(4) by (intro map_cong) auto
  moreover have "db' = (update_jobs P f db)\<lparr>job_events := job_events db
      @ [store_event (job_event_new k (next_sequence db k) now s' stage code msg detail)]\<rparr>"
    using append_event_tx_Inr [OF log [unfolded log_event_def]] by simp
  ultimately show ?thesis
    by (intro micro_move [OF row(1-3) f(1,2,3), where e = "store_event (job_event_new k (next_sequence db k) now s' stage code msg detail)"])
      (simp_all add: update_jobs_def)
qed

lemma load_state_Inr:
  "load_state db k = Inr s \<longleftrightarrow> (\<exists>r. get_job_row db k = Some r \<and> job_state_col r = as_str s)"
  by (auto simp: load_state_def and_then_Inr_iff parse_state_Some)

lemma same_request_refl [simp]: "same_request r r"
  by (simp add: same_request_def)

lemma transition_job_micro:
  assumes "catalog_ok db" "transition_job now k frm to code msg db = Inr db'"
  shows "micro db db'"
proof -
  from assms(2) obtain r where row: "get_job_row db k = Some r" "job_state_col r = as_str frm" "legal_transition frm to"
    and log: "log_event now k to (stage_label to) code msg None
       (update_jobs (\<lambda>j. job_key j = k)
          (\<lambda>j. j\<lparr>job_state_col := as_str to, job_stage := stage_label to,
             finished_at := (if to \<in> {Completed, Cancelled, Failed} then Some now else finished_at j)\<rparr>) db) = Inr db'"
    by (auto simp: transition_job_def and_then_Inr_iff load_state_Inr)
  show ?thesis
    by (rule logged_update_micro [OF assms(1) row _ _ _ _ _ log])
      (use get_job_row_Some [OF row(1)] in \<open>simp_all add: same_request_def\<close>)
qed

lemma fail_micro:
  assumes "catalog_ok db" "fail now k frm code summary db = Inr db'"
  shows "micro db db'"
proof -
  from assms(2) obtain r where row: "get_job_row db k = Some r" "job_state_col r = as_str frm" "legal_transition frm Failed"
    and log: "log_event now k Failed None (Some code) (''failed: '' @ summary) None
       (update_jobs (\<lambda>j. job_key j = k)
          (\<lambda>j. j\<lparr>job_state_col := ''Failed'', finished_at := Some now, error_code := Some code,
             error_summary := Some summary,
             cancel_requested_at := coalesce (cancel_requested_at j) (Some now)\<rparr>) db) = Inr db'"
    by (auto simp: fail_def and_then_Inr_iff load_state_Inr)
  show ?thesis
    by (rule logged_update_micro [OF assms(1) row _ _ _ _ _ log])
      (use get_job_row_Some [OF row(1)] in \<open>simp_all add: same_request_def as_str.simps\<close>)
qed

lemma complete_micro:
  assumes "catalog_ok db" "complete now k run_id db = Inr db'"
  shows "micro db db'"
proof -
  let ?P = "\<lambda>j. job_key j = k \<and> job_state_col j = ''PublishingRun''"
  from assms(2) obtain r where row: "get_job_row db k = Some r" "job_state_col r = as_str PublishingRun"
    and log: "log_event now k Completed None (Some ''run_published'') ''Analysis complete; run published''
       (Some (''run_id='' @ show_int run_id))
       (update_jobs ?P (\<lambda>j. j\<lparr>job_state_col := ''Completed'', completed_run_id := Some run_id,
          finished_at := Some now, job_stage := None\<rparr>) db) = Inr db'"
    by (auto simp: complete_def Let_def and_then_Inr_iff load_state_Inr)
  show ?thesis
    by (rule logged_update_micro [OF assms(1) row _ _ _ _ _ _ log])
      (use get_job_row_Some [OF row(1)] row(2) in \<open>simp_all add: same_request_def as_str.simps\<close>)
qed

lemma oldest_queued_Some:
  assumes "catalog_ok db" "oldest_queued db = Some k"
  shows "\<exists>r. get_job_row db k = Some r \<and> job_state_col r = as_str Queued
    \<and> (\<forall>j \<in> set (jobs db). job_state_col j = as_str Queued \<longrightarrow> (requested_at r, job_key r) \<le> (requested_at j, job_key j))"
proof -
  let ?q = "filter (\<lambda>j. job_state_col j = ''Queued'') (jobs db)"
  let ?s = "sort_key (\<lambda>j. (requested_at j, job_key j)) ?q"
  from assms(2) obtain r rest where s: "?s = r # rest" "job_key r = k"
    by (auto simp: oldest_queued_def split: list.splits)
  have "r \<in> set ?s"
    by (simp add: s)
  then have r: "r \<in> set (jobs db)" "job_state_col r = ''Queued''"
    by simp_all
  have "sorted (map (\<lambda>j. (requested_at j, job_key j)) ?s)"
    by (rule sorted_sort_key)
  then have first: "\<forall>j \<in> set rest. (requested_at r, job_key r) \<le> (requested_at j, job_key j)"
    unfolding s(1) by simp
  have all: "set (r # rest) = set ?q"
    unfolding s(1) [symmetric] by simp
  have "(requested_at r, job_key r) \<le> (requested_at j, job_key j)"
    if "j \<in> set (jobs db)" "job_state_col j = ''Queued''" for j
  proof -
    have "j \<in> set (r # rest)"
      unfolding all using that by simp
    with first show ?thesis
      by auto
  qed
  with r s(2) get_job_row_unique [OF catalog_okD(1) [OF assms(1)] r(1)] show ?thesis
    by (auto simp: as_str.simps)
qed

lemma claim_next_Some:
  assumes "catalog_ok db" "claim_next now expires worker lsecs db = Inr (Some (job, n), db')"
  obtains k where "oldest_queued db = Some k" "get_job db' k = Inr job" "n = lsecs"
    "log_event now k Claimed None (Some ''job_claimed'') ''Worker claimed analysis'' (Some (''worker_id='' @ worker))
       (update_jobs (\<lambda>j. job_key j = k \<and> job_state_col j = ''Queued'')
          (\<lambda>j. j\<lparr>job_state_col := ''Claimed'', worker_id := Some worker, lease_acquired_at := Some now,
                  lease_expires_at := Some expires, heartbeat_at := Some now, started_at := Some now,
                  job_stage := None\<rparr>) db) = Inr db'"
  using assms by (auto simp: claim_next_def and_then_Inr_iff split: option.splits)

lemma claim_next_micro:
  assumes ok: "catalog_ok db" and claim: "claim_next now expires worker lsecs db = Inr (c, db')"
  shows "db' = db \<or> micro db db'"
proof (cases c)
  case None
  with claim show ?thesis
    by (auto simp: claim_next_def and_then_Inr_iff split: option.splits)
next
  case (Some jn)
  obtain job n where "jn = (job, n)"
    by fastforce
  with claim Some obtain k where k: "oldest_queued db = Some k"
    and log: "log_event now k Claimed None (Some ''job_claimed'') ''Worker claimed analysis'' (Some (''worker_id='' @ worker))
       (update_jobs (\<lambda>j. job_key j = k \<and> job_state_col j = ''Queued'')
          (\<lambda>j. j\<lparr>job_state_col := ''Claimed'', worker_id := Some worker, lease_acquired_at := Some now,
                  lease_expires_at := Some expires, heartbeat_at := Some now, started_at := Some now,
                  job_stage := None\<rparr>) db) = Inr db'"
    using claim_next_Some [OF ok] by blast
  obtain r where row: "get_job_row db k = Some r" "job_state_col r = as_str Queued"
    using oldest_queued_Some [OF ok k] by blast
  have "micro db db'"
    by (rule logged_update_micro [OF ok row _ _ _ _ _ _ log])
      (use get_job_row_Some [OF row(1)] row(2) in \<open>simp_all add: same_request_def as_str.simps\<close>)
  then show ?thesis ..
qed

lemma request_cancel_tx_micro:
  assumes "catalog_ok db" "request_cancel_tx now k db = Inr (res, db')"
  shows "micro db db' \<and> state_of db' k = Some CancelRequested \<and> res = Requested k"
proof -
  let ?P = "\<lambda>j. job_key j = k \<and> job_state_col j \<in> set cancellable_state_names"
  from assms(2) obtain r s where row: "get_job_row db k = Some r" "job_state_col r = as_str s"
    and res: "res = Requested k" and rows: "updated_rows ?P db \<noteq> 0"
    and log: "log_event now k CancelRequested None (Some ''cancel_requested'')
                 ''Cancellation requested; worker stops at the next checkpoint'' None
                 (update_jobs ?P (\<lambda>j. j\<lparr>job_state_col := ''CancelRequested'', cancel_requested_at := Some now\<rparr>) db) = Inr db'"
    by (auto simp: request_cancel_tx_def Let_def and_then_Inr_iff load_state_Inr)
  from rows obtain j where "j \<in> set (jobs db)" "job_key j = k" "job_state_col j \<in> set cancellable_state_names"
    by (auto simp: updated_rows_def filter_empty_conv)
  with get_job_row_unique [OF catalog_okD(1) [OF assms(1)]] row
  have s: "job_state_col r \<in> set cancellable_state_names" "s \<in> set executing"
    by (auto simp: cancellable_state_iff)
  have "micro db db'"
    by (rule logged_update_micro [OF assms(1) row executing_cancels [OF s(2)] _ _ _ _ _ log])
      (use get_job_row_Some [OF row(1)] s(1) in \<open>simp_all add: same_request_def as_str.simps\<close>)
  moreover have "get_job_row db' k = Some (r\<lparr>job_state_col := ''CancelRequested'', cancel_requested_at := Some now\<rparr>)"
    using append_event_tx_Inr [OF log [unfolded log_event_def]] get_job_row_Some [OF row(1)] row s(1)
    by (simp add: get_job_row_update)
  ultimately show ?thesis
    using res by (simp add: state_of_Some as_str.simps)
qed

lemma quiet_update_micro:
  "(\<And>j. same_request j (f j) \<and> job_state_col (f j) = job_state_col j \<and> completed_run_id (f j) = completed_run_id j)
   \<Longrightarrow> micro db (update_jobs P f db)"
  by (rule micro_quiet) (simp_all add: update_jobs_def)

lemma quiet_frame_micro: "jobs db' = jobs db \<Longrightarrow> job_events db' = job_events db \<Longrightarrow> micro db db'"
  by (rule micro_quiet) simp_all

lemma insert_logged_micro:
  assumes "catalog_ok db" "insert_job j db = Inr db1" "append_event_tx e db1 = Inr db2"
    and "job_state_col j = ''Queued''" "completed_run_id j = None" "ev_job_id e = job_key j" "ev_sequence e = 1"
      "ev_state e = Queued"
  shows "micro db db2"
proof -
  have "get_job_row db (job_key j) = None" "db1 = db\<lparr>jobs := jobs db @ [j]\<rparr>"
    using assms(2) by (auto simp: insert_job_def and_then_Inr_iff)
  with append_event_tx_Inr [OF assms(3)] show ?thesis
    by (intro micro_add [where r = j and e = "store_event e"]) (simp_all add: assms as_str.simps)
qed

lemma queue_tx_cases:
  assumes "queue_tx now fresh plan src hash db = Inr (res, db')"
  obtains (dup) k where "active_duplicate db plan hash = Some k" "res = DuplicateOf k" "db' = db"
  | (new) db1 detail where "active_duplicate db plan hash = None" "res = Created fresh"
      "insert_job (new_job fresh plan src now 1 None hash) db = Inr db1"
      "append_event_tx (job_event_new fresh 1 now Queued None (Some ''job_queued'') ''Analysis queued'' detail) db1 = Inr db'"
  using assms by (auto simp: queue_tx_def and_then_Inr_iff split: option.splits)

lemma queue_tx_micro:
  assumes "catalog_ok db" "queue_tx now fresh plan src hash db = Inr (res, db')"
  shows "db' = db \<or> micro db db'"
  using assms(2)
proof (cases rule: queue_tx_cases)
  case (new db1 detail)
  from insert_logged_micro [OF assms(1) new(3,4)] show ?thesis
    by (simp add: new_job_def)
qed simp

lemma retry_tx_micro:
  assumes "catalog_ok db" "retry_tx now fresh original src hash k db = Inr (res, db')"
  shows "micro db db'"
proof -
  from assms(2) obtain db1 msg detail where
    "insert_job (new_job fresh (plan_revision_id original) src now (attempt original + 1) (Some k) hash) db = Inr db1"
    "append_event_tx (job_event_new fresh 1 now Queued None (Some ''retry_created'') msg detail) db1 = Inr db'"
    by (auto simp: retry_tx_def and_then_Inr_iff)
  from insert_logged_micro [OF assms(1) this] show ?thesis
    by (simp add: new_job_def)
qed

lemma append_event_micro:
  assumes "catalog_ok db" "append_event now e db = Inr db'"
  shows "micro db db'"
  using append_event_tx_Inr [OF assms(2) [unfolded append_event_def]]
  by (intro micro_note [where e = "store_event (e\<lparr>ev_sequence := next_sequence db (ev_job_id e),
       occurred_at := (if occurred_at e = [] then now else occurred_at e)\<rparr>)"]) simp_all

lemma renew_lease_micro:
  assumes "renew_lease now expires k worker db = Inr db'"
  shows "micro db db'"
proof -
  from assms have "db' = update_jobs (\<lambda>j. job_key j = k \<and> worker_id j = Some worker \<and> job_state_col j \<in> set leased_state_names)
      (\<lambda>j. j\<lparr>heartbeat_at := Some now, lease_expires_at := Some expires\<rparr>) db"
    by (auto simp: renew_lease_def Let_def and_then_Inr_iff)
  then show ?thesis
    by (simp add: quiet_update_micro same_request_def)
qed

lemma expire_one_micro:
  assumes ok: "catalog_ok db" and row: "get_job_row db k = Some r" "lease_expired now r"
    and log: "expire_one now k db = Inr db'"
  shows "micro db db'" and "k' \<noteq> k \<Longrightarrow> get_job_row db' k' = get_job_row db k'"
    and "state_of db' k = Some Failed"
proof -
  let ?f = "\<lambda>j. j\<lparr>job_state_col := ''Failed'', finished_at := Some now, error_code := Some ''worker_lease_expired'',
             error_summary := Some ''worker lease expired; staging preserved; explicit retry required''\<rparr>"
  let ?P = "\<lambda>j. job_key j = k \<and> lease_expired now j"
  have r: "r \<in> set (jobs db)" "job_key r = k"
    using get_job_row_Some [OF row(1)] by simp_all
  obtain s where s: "job_state_col r = as_str s"
    using catalog_okD(2) [OF ok r(1)] by blast
  then have legal: "legal_transition s Failed"
    using row(2) by (auto simp: lease_expired_def leased_state_iff intro: leased_fails)
  show "micro db db'"
    by (rule logged_update_micro [OF ok row(1) s legal _ _ _ _ _ log [unfolded expire_one_def]])
      (use r row(2) in \<open>simp_all add: same_request_def as_str.simps\<close>)
  have upd: "get_job_row db' x = map_option (\<lambda>j. if ?P j then ?f j else j) (get_job_row db x)" for x
    using append_event_tx_Inr [OF log [unfolded expire_one_def log_event_def]] by (simp add: get_job_row_update)
  show "k' \<noteq> k \<Longrightarrow> get_job_row db' k' = get_job_row db k'"
    using get_job_row_Some [of db k'] by (cases "get_job_row db k'") (auto simp: upd)
  show "state_of db' k = Some Failed"
    using row r by (simp add: state_of_Some upd as_str.simps)
qed

lemma expire_all_micro:
  assumes "expire_all now ids db = Inr db'" "catalog_ok db" "distinct ids"
    and "\<forall>k \<in> set ids. \<exists>r. get_job_row db k = Some r \<and> lease_expired now r"
  shows "micro\<^sup>*\<^sup>* db db' \<and> (\<forall>k \<in> set ids. state_of db' k = Some Failed)
    \<and> (\<forall>k. k \<notin> set ids \<longrightarrow> get_job_row db' k = get_job_row db k)"
  using assms
proof (induction ids arbitrary: db)
  case (Cons k ids)
  from Cons.prems(1) obtain db1 where one: "expire_one now k db = Inr db1" and rest: "expire_all now ids db1 = Inr db'"
    by (auto simp: and_then_Inr_iff)
  obtain r where r: "get_job_row db k = Some r" "lease_expired now r"
    using Cons.prems(4) by auto
  note step = expire_one_micro [OF Cons.prems(2) r one]
  have "\<forall>k \<in> set ids. \<exists>r. get_job_row db1 k = Some r \<and> lease_expired now r"
    using Cons.prems(3,4) step(2) by (metis distinct.simps(2) list.set_intros(2))
  then have IH: "micro\<^sup>*\<^sup>* db1 db'" "\<forall>k \<in> set ids. state_of db' k = Some Failed"
    "\<forall>k. k \<notin> set ids \<longrightarrow> get_job_row db' k = get_job_row db1 k"
    using Cons.IH [OF rest micro_ok [OF step(1) Cons.prems(2)]] Cons.prems(3) by auto
  moreover have "state_of db' k = Some Failed"
    using IH(3) step(3) Cons.prems(3) by (simp add: state_of_def)
  ultimately show ?case
    using step(1,2) by (auto intro: converse_rtranclp_into_rtranclp)
qed auto

lemma mark_stale_ids:
  assumes "catalog_ok db"
  shows "distinct (map job_key (filter (lease_expired now) (jobs db)))"
    and "k \<in> set (map job_key (filter (lease_expired now) (jobs db))) \<longleftrightarrow>
      (\<exists>r. get_job_row db k = Some r \<and> lease_expired now r)"
proof -
  show "distinct (map job_key (filter (lease_expired now) (jobs db)))"
    using catalog_okD(1) [OF assms] by (simp add: distinct_map_filter)
  show "k \<in> set (map job_key (filter (lease_expired now) (jobs db))) \<longleftrightarrow>
      (\<exists>r. get_job_row db k = Some r \<and> lease_expired now r)"
    using get_job_row_unique [OF catalog_okD(1) [OF assms]] get_job_row_Some [of db k] by auto
qed

lemma mark_stale_run:
  assumes "catalog_ok db" "mark_stale_leases now db = Inr (ids, db')"
  shows "micro\<^sup>*\<^sup>* db db'" and "set ids = {k. \<exists>r. get_job_row db k = Some r \<and> lease_expired now r}"
    and "\<forall>k \<in> set ids. state_of db' k = Some Failed" and "\<forall>k. k \<notin> set ids \<longrightarrow> get_job_row db' k = get_job_row db k"
proof -
  let ?ids = "map job_key (filter (lease_expired now) (jobs db))"
  have ids: "ids = ?ids" and run: "expire_all now ?ids db = Inr db'"
    using assms(2) by (auto simp: mark_stale_leases_def Let_def and_then_Inr_iff)
  note expired = mark_stale_ids(2) [OF assms(1), of _ now]
  show "set ids = {k. \<exists>r. get_job_row db k = Some r \<and> lease_expired now r}"
    using expired unfolding ids by blast
  have "\<forall>k \<in> set ?ids. \<exists>r. get_job_row db k = Some r \<and> lease_expired now r"
    using expired by blast
  note all = expire_all_micro [OF run assms(1) mark_stale_ids(1) [OF assms(1)] this]
  show "micro\<^sup>*\<^sup>* db db'" "\<forall>k \<in> set ids. state_of db' k = Some Failed"
    "\<forall>k. k \<notin> set ids \<longrightarrow> get_job_row db' k = get_job_row db k"
    using all unfolding ids by blast+
qed

lemma log_event_succeeds:
  assumes "catalog_ok db" "get_job_row db k \<noteq> None" "length msg \<le> 512" "detail_error detail = None"
    and keys: "\<And>j. P j \<Longrightarrow> job_key (f j) = job_key j"
  shows "\<exists>db'. log_event now k s stage code msg detail (update_jobs P f db) = Inr db'"
proof -
  have "ev_sequence x < next_sequence db k" if "x \<in> set (job_events db)" "ev_job_id x = k" for x
  proof -
    have "ev_sequence x \<in> set (sequences db k)"
      using that by (auto simp: sequences_def)
    also have "set (sequences db k) = int ` {1..<Suc (length (sequences db k))}"
      by (subst catalog_okD(3) [OF assms(1)]) (simp del: upt_Suc)
    finally show ?thesis
      by (auto simp: next_sequence_ok [OF assms(1)])
  qed
  then show ?thesis
    using assms(2-4) keys
    by (force simp: log_event_def append_event_tx_def job_event_new_def get_job_row_update)
qed

lemma expire_all_succeeds:
  assumes "catalog_ok db" "distinct ids" "\<forall>k \<in> set ids. \<exists>r. get_job_row db k = Some r \<and> lease_expired now r"
  shows "\<exists>db'. expire_all now ids db = Inr db'"
  using assms
proof (induction ids arbitrary: db)
  case (Cons k ids)
  then obtain r where r: "get_job_row db k = Some r" "lease_expired now r"
    by auto
  have "\<exists>db1. expire_one now k db = Inr db1"
    unfolding expire_one_def by (rule log_event_succeeds [OF Cons.prems(1)]) (simp_all add: r(1) detail_error_def)
  then obtain db1 where one: "expire_one now k db = Inr db1" ..
  note step = expire_one_micro [OF Cons.prems(1) r one]
  have "\<forall>k \<in> set ids. \<exists>r. get_job_row db1 k = Some r \<and> lease_expired now r"
    using Cons.prems(2,3) step(2) by (metis distinct.simps(2) list.set_intros(2))
  then show ?case
    using Cons.IH [OF micro_ok [OF step(1) Cons.prems(1)]] Cons.prems(2) one by auto
qed auto

section \<open>The service as a transition system\<close>

text \<open>
  One step of any connection: a committed transaction of the service, with arbitrary arguments and
  whatever was read before it, or a write of another part of the program that leaves the job and
  event tables alone.
\<close>

inductive job_step :: "catalog \<Rightarrow> catalog \<Rightarrow> bool" where
  step_queue: "job_step db db'" if "queue_tx now fresh plan src hash db = Inr (res1, db')"
| step_retry: "job_step db db'" if "retry_tx now fresh original src hash k db = Inr (res2, db')"
| step_transition: "job_step db db'" if "transition_job now k frm to code msg db = Inr db'"
| step_fail: "job_step db db'" if "fail now k frm code summary db = Inr db'"
| step_complete: "job_step db db'" if "complete now k run_id db = Inr db'"
| step_claim: "job_step db db'" if "claim_next now expires worker lsecs db = Inr (claim, db')"
| step_renew: "job_step db db'" if "renew_lease now expires k worker db = Inr db'"
| step_stale: "job_step db db'" if "mark_stale_leases now db = Inr (ids, db')"
| step_cancel: "job_step db db'" if "request_cancel_from seen now k db = Inr (res3, db')"
| step_scope_cancel: "job_step db db'" if "cancel_scope_excluded_from seen now k db = Inr db'"
| step_append: "job_step db db'" if "append_event now e db = Inr db'"
| step_heartbeat: "job_step db (heartbeat hb db)"
| step_progress: "job_step db (update_progress k stage cur tot prog_unit db)"
| step_other: "job_step db db'" if "jobs db' = jobs db" "job_events db' = job_events db"

lemma request_cancel_from_micro:
  assumes "catalog_ok db" "request_cancel_from seen now k db = Inr (res, db')"
  shows "micro db db'"
  using assms request_cancel_tx_micro [OF assms(1)] transition_job_micro [OF assms(1)]
  by (auto simp: request_cancel_from_def and_then_Inr_iff split: if_splits)

lemma cancel_scope_excluded_micro:
  assumes "catalog_ok db" "cancel_scope_excluded_from seen now k db = Inr db'"
  shows "micro db db'"
  using assms transition_job_micro [OF assms(1)]
  by (auto simp: cancel_scope_excluded_from_def split: job_state.splits)

lemma job_step_micro:
  assumes "job_step db db'" "catalog_ok db"
  shows "micro\<^sup>*\<^sup>* db db'"
  using assms
proof (induction rule: job_step.induct)
  case (step_stale now db ids db')
  then show ?case
    by (simp add: mark_stale_run(1))
next
  case (step_heartbeat db hb)
  then show ?case
    by (intro r_into_rtranclp quiet_frame_micro) (simp_all add: heartbeat_def)
next
  case (step_progress db k stage cur tot prog_unit)
  then show ?case
    unfolding update_progress_def
    by (intro r_into_rtranclp quiet_update_micro) (simp add: same_request_def)
next
  case (step_queue now fresh plan src hash db res db')
  then show ?case
    using queue_tx_micro by blast
next
  case (step_claim now expires worker lsecs db claim db')
  then show ?case
    using claim_next_micro by blast
qed (blast intro: retry_tx_micro transition_job_micro fail_micro complete_micro renew_lease_micro
    request_cancel_from_micro cancel_scope_excluded_micro append_event_micro quiet_frame_micro)+

lemma job_run_micro:
  assumes "job_step\<^sup>*\<^sup>* db db'" "catalog_ok db"
  shows "micro\<^sup>*\<^sup>* db db' \<and> catalog_ok db'"
  using assms
proof (induction rule: rtranclp_induct)
  case (step d1 d2)
  then have "micro\<^sup>*\<^sup>* d1 d2"
    by (simp add: job_step_micro)
  with step show ?case
    using job_log.run_ok by (meson rtranclp_trans)
qed simp

section \<open>Guarantees\<close>

lemma run_request:
  assumes "micro\<^sup>*\<^sup>* db db'" "catalog_ok db" "get_job_row db k = Some r"
  shows "\<exists>r'. get_job_row db' k = Some r' \<and> same_request r r'"
  using assms(1)
proof (induction rule: rtranclp_induct)
  case (step d1 d2)
  then obtain r1 where r1: "get_job_row d1 k = Some r1" "same_request r r1"
    by blast
  obtain s1 where "job_state_col r1 = as_str s1"
    using catalog_okD(2) [OF job_log.run_ok [OF step(1) assms(2)]] get_job_row_Some [OF r1(1)] by blast
  with micro_row [OF step(2) r1(1)] r1(2) show ?case
    by (auto simp: same_request_def)
qed (simp add: assms(3))

text \<open>C7: In every run of the service, whatever its operations and their interleaving, a job that
  exists keeps existing, and its state moves only along the declared legal transitions. A job that
  is completed, cancelled or failed therefore keeps that state for ever, and its request (plan,
  plan hash, attempt, origin and requester) never changes.\<close>

theorem job_states_follow_legal_transitions:
  assumes "catalog_ok db" "job_step\<^sup>*\<^sup>* db db'" "state_of db k = Some s"
  shows "\<exists>r r' s'. get_job_row db k = Some r \<and> get_job_row db' k = Some r' \<and> same_request r r'
    \<and> state_of db' k = Some s' \<and> legal_transition\<^sup>*\<^sup>* s s' \<and> (\<not> is_active s \<longrightarrow> s' = s)"
proof -
  obtain r where r: "get_job_row db k = Some r"
    using assms(3) by (auto simp: state_of_Some)
  obtain s' where s': "state_of db' k = Some s'" "legal_transition\<^sup>*\<^sup>* s s'"
    using job_log.run_state [OF conjunct1 [OF job_run_micro [OF assms(2,1)]] assms(3)] by blast
  moreover have "s' = s" if "\<not> is_active s"
    using s'(2) that by (cases rule: converse_rtranclpE) (auto simp: legal_from_terminal)
  ultimately show ?thesis
    using r run_request [OF conjunct1 [OF job_run_micro [OF assms(2,1)]] assms(1) r] by blast
qed

lemma request_cancel_requested:
  assumes "catalog_ok db" "request_cancel now k db = Inr (Requested k', db')"
  shows "k' = k \<and> state_of db' k = Some CancelRequested \<and> micro db db'"
  using assms request_cancel_tx_micro [OF assms(1)]
  by (auto simp: request_cancel_def request_cancel_from_def and_then_Inr_iff split: if_splits)

lemma run_keeps_run_id:
  assumes "micro\<^sup>*\<^sup>* db db'" "catalog_ok db" "get_job_row db k = Some r" "job_state_col r = as_str s"
    and "s \<in> A" "Completed \<notin> A" "\<And>a b. a \<in> A \<Longrightarrow> legal_transition a b \<Longrightarrow> b \<in> A"
  shows "\<exists>r' s'. get_job_row db' k = Some r' \<and> job_state_col r' = as_str s' \<and> s' \<in> A
    \<and> completed_run_id r' = completed_run_id r"
  using assms(1)
proof (induction rule: rtranclp_induct)
  case base
  then show ?case
    using assms by blast
next
  case (step d1 d2)
  then obtain r1 s1 where "get_job_row d1 k = Some r1" "job_state_col r1 = as_str s1" "s1 \<in> A"
    "completed_run_id r1 = completed_run_id r"
    by blast
  with micro_row [OF step(2) this(1,2)] assms(6,7) show ?case
    by metis
qed

text \<open>C8: Once a cancellation request has been accepted, no continuation of the run completes the
  job or links a published run to it: its state stays among CancelRequested, Cancelled and Failed,
  and the completed-run column keeps its value.\<close>

theorem accepted_cancel_is_never_published:
  assumes "catalog_ok db" "request_cancel now k db = Inr (Requested k', db1)" "job_step\<^sup>*\<^sup>* db1 db2"
  shows "\<exists>r1 r2 s. get_job_row db1 k = Some r1 \<and> get_job_row db2 k = Some r2
    \<and> state_of db2 k = Some s \<and> s \<in> {CancelRequested, Cancelled, Failed}
    \<and> completed_run_id r2 = completed_run_id r1"
proof -
  have req: "state_of db1 k = Some CancelRequested" "micro db db1"
    using request_cancel_requested [OF assms(1,2)] by simp_all
  have ok: "catalog_ok db1"
    using micro_ok [OF req(2) assms(1)] .
  obtain r1 where r1: "get_job_row db1 k = Some r1" "job_state_col r1 = as_str CancelRequested"
    using req(1) by (auto simp: state_of_Some)
  have closed: "b \<in> {CancelRequested, Cancelled, Failed}"
    if "a \<in> {CancelRequested, Cancelled, Failed}" "legal_transition a b" for a b
    using that legal_from_cancel_requested legal_from_terminal [of a b] by (auto simp: is_active_def)
  have "micro\<^sup>*\<^sup>* db1 db2"
    using job_run_micro [OF assms(3) ok] by simp
  from run_keeps_run_id [OF this ok r1 _ _ closed] r1(1) show ?thesis
    by (fastforce simp: state_of_Some)
qed

text \<open>C10: The event log of a job is append-only and gapless in every run: the earlier events stay as
  a prefix of the table, and the events of each job carry the sequence numbers 1, 2, 3, ... in
  order, at least one for every job.\<close>

theorem job_event_log_gapless:
  assumes "catalog_ok db" "job_step\<^sup>*\<^sup>* db db'"
  shows "(\<exists>new. job_events db' = job_events db @ new)
    \<and> sequences db' k = map int [1..<Suc (length (sequences db' k))]
    \<and> (get_job_row db' k \<noteq> None \<longleftrightarrow> sequences db' k \<noteq> [])"
  using job_log.run_log [of db db'] job_run_micro [OF assms(2,1)] catalog_okD(3,4) [of db' k] by blast

lemma oldest_queued_None:
  assumes "catalog_ok db"
  shows "oldest_queued db = None \<longleftrightarrow> (\<forall>k. state_of db k \<noteq> Some Queued)"
proof
  assume "oldest_queued db = None"
  then have "sort_key (\<lambda>j. (requested_at j, job_key j)) (filter (\<lambda>j. job_state_col j = ''Queued'') (jobs db)) = []"
    by (auto simp: oldest_queued_def split: list.splits)
  then have "set (sort_key (\<lambda>j. (requested_at j, job_key j)) (filter (\<lambda>j. job_state_col j = ''Queued'') (jobs db))) = {}"
    by (simp only: list.set)
  then have "filter (\<lambda>j. job_state_col j = ''Queued'') (jobs db) = []"
    by (simp only: set_sort set_empty)
  then show "\<forall>k. state_of db k \<noteq> Some Queued"
    using get_job_row_Some by (fastforce simp: state_of_Some filter_empty_conv as_str.simps)
next
  assume "\<forall>k. state_of db k \<noteq> Some Queued"
  then show "oldest_queued db = None"
    using oldest_queued_Some [OF assms] by (cases "oldest_queued db") (auto simp: state_of_Some)
qed

lemma claim_next_row:
  assumes "catalog_ok db" "claim_next now expires worker lsecs db = Inr (Some (job, n), db1)"
    and "oldest_queued db = Some k" "get_job_row db k = Some r" "job_state_col r = as_str Queued"
  shows "get_job_row db1 k = Some (r\<lparr>job_state_col := ''Claimed'', worker_id := Some worker, lease_acquired_at := Some now,
                  lease_expires_at := Some expires, heartbeat_at := Some now, started_at := Some now, job_stage := None\<rparr>)"
proof -
  have log: "log_event now k Claimed None (Some ''job_claimed'') ''Worker claimed analysis'' (Some (''worker_id='' @ worker))
       (update_jobs (\<lambda>j. job_key j = k \<and> job_state_col j = ''Queued'')
          (\<lambda>j. j\<lparr>job_state_col := ''Claimed'', worker_id := Some worker, lease_acquired_at := Some now,
                  lease_expires_at := Some expires, heartbeat_at := Some now, started_at := Some now,
                  job_stage := None\<rparr>) db) = Inr db1"
    using claim_next_Some [OF assms(1,2)] assms(3) by auto
  show ?thesis
    using append_event_tx_Inr [OF log [unfolded log_event_def]] assms(4,5) get_job_row_Some [OF assms(4)]
    by (simp add: get_job_row_update as_str.simps)
qed

lemma not_queued_never_claimed:
  assumes "catalog_ok db1" "state_of db1 k = Some s" "s \<noteq> Queued" "job_step\<^sup>*\<^sup>* db1 db2"
    and "claim_next now expires worker lsecs db2 = Inr (Some (job, n), db3)"
  shows "job_key job \<noteq> k"
proof -
  have ok2: "catalog_ok db2"
    using job_run_micro [OF assms(4,1)] by simp
  have "\<exists>s \<in> - {Queued}. state_of db2 k = Some s"
    using job_run_micro [OF assms(4,1)] assms(2,3)
    by (intro job_log.run_closed [of db1]) (auto simp: legal_not_Queued)
  moreover obtain k' where k': "oldest_queued db2 = Some k'" "get_job db3 k' = Inr job"
    using claim_next_Some [OF ok2 assms(5)] by blast
  moreover have "job_key job = k'"
    using k'(2) get_job_row_Some by (auto simp: get_job_def bind_job_def)
  moreover have "state_of db2 k' = Some Queued"
    using oldest_queued_Some [OF ok2 k'(1)] by (auto simp: state_of_Some)
  ultimately show ?thesis
    by auto
qed

text \<open>C9: Claiming takes the oldest queued job, in order of request time and then id, gives it to the
  worker with the lease, and never hands out the same job twice in a run, however the calls of
  several workers interleave with other operations. It returns nothing exactly when no job is queued.\<close>

theorem claim_next_exclusive:
  assumes "catalog_ok db" "claim_next now expires worker lsecs db = Inr (c, db1)"
  shows "(c = None \<longleftrightarrow> (\<forall>k. state_of db k \<noteq> Some Queued))
    \<and> (\<forall>job n. c = Some (job, n) \<longrightarrow>
         state_of db (job_key job) = Some Queued \<and> job_state_col job = Claimed \<and> worker_id job = Some worker
         \<and> lease_expires_at job = Some expires \<and> n = lsecs
         \<and> (\<forall>j \<in> set (jobs db). job_state_col j = as_str Queued \<longrightarrow>
              (requested_at job, job_key job) \<le> (requested_at j, job_key j))
         \<and> (\<forall>db2 now' expires' worker' lsecs' job' n' db3. job_step\<^sup>*\<^sup>* db1 db2 \<longrightarrow>
              claim_next now' expires' worker' lsecs' db2 = Inr (Some (job', n'), db3) \<longrightarrow> job_key job' \<noteq> job_key job))"
proof (cases c)
  case None
  with assms(2) have "oldest_queued db = None"
    by (auto simp: claim_next_def and_then_Inr_iff split: option.splits)
  with None show ?thesis
    using oldest_queued_None [OF assms(1)] by simp
next
  case (Some jn)
  obtain job n where jn: "jn = (job, n)"
    by fastforce
  with assms Some obtain k where k: "oldest_queued db = Some k" and job: "get_job db1 k = Inr job" "n = lsecs"
    using claim_next_Some [OF assms(1)] by blast
  obtain r where r: "get_job_row db k = Some r" "job_state_col r = as_str Queued"
    "\<forall>j \<in> set (jobs db). job_state_col j = as_str Queued \<longrightarrow> (requested_at r, job_key r) \<le> (requested_at j, job_key j)"
    using oldest_queued_Some [OF assms(1) k] by blast
  note row = claim_next_row [OF assms(1) assms(2) [unfolded Some jn] k r(1,2)]
  have "job_key job = k" "requested_at job = requested_at r" "job_state_col job = Claimed"
    "worker_id job = Some worker" "lease_expires_at job = Some expires"
    using job(1) row get_job_row_Some [OF r(1)] by (auto simp: get_job_def bind_job_def parse_state_def)
  moreover have "state_of db1 k = Some Claimed" "catalog_ok db1"
    using row claim_next_micro [OF assms] assms(1) micro_ok by (auto simp: state_of_Some as_str.simps)
  note not_queued_never_claimed [OF this(2,1)]
  moreover have "state_of db k = Some Queued"
    using r by (simp add: state_of_Some)
  ultimately show ?thesis
    using Some jn job(2) r(3) get_job_row_Some [OF r(1)] by auto
qed

end
