(* ===== verification/Job_Policies.thy ===== *)
theory Job_Policies
  imports Job_Facts
begin

text \<open>
  The policies of the job service on top of its transition system: stale leases, one active job per
  plan, failure reports, and what retry and cancellation leave open. The witnesses run the
  operations on a small catalog.
\<close>

section \<open>Leases\<close>

text \<open>C11: The stale-lease scan always commits on a well-formed catalog. It reports exactly the jobs
  whose lease has run out while executing, all of them are Failed afterwards and so open to an
  explicit retry, and every other row is untouched.\<close>

theorem stale_scan_releases_expired:
  assumes "catalog_ok db"
  shows "\<exists>ids db'. mark_stale_leases now db = Inr (ids, db')
    \<and> set ids = {k. \<exists>r. get_job_row db k = Some r \<and> lease_expired now r}
    \<and> (\<forall>k \<in> set ids. state_of db' k = Some Failed \<and> is_retryable Failed)
    \<and> (\<forall>k. k \<notin> set ids \<longrightarrow> get_job_row db' k = get_job_row db k)"
proof -
  let ?ids = "map job_key (filter (lease_expired now) (jobs db))"
  have "\<forall>k \<in> set ?ids. \<exists>r. get_job_row db k = Some r \<and> lease_expired now r"
    using mark_stale_ids(2) [OF assms, of _ now] by blast
  then obtain db' where "expire_all now ?ids db = Inr db'"
    using expire_all_succeeds [OF assms mark_stale_ids(1) [OF assms]] by blast
  then have run: "mark_stale_leases now db = Inr (?ids, db')"
    by (simp add: mark_stale_leases_def Let_def)
  from mark_stale_run [OF assms run] run show ?thesis
    by (intro exI conjI) (auto simp: is_retryable_def)
qed

section \<open>One active job per plan\<close>

definition active_jobs :: "catalog \<Rightarrow> int \<Rightarrow> string \<Rightarrow> string analysis_job list" where
  "active_jobs db plan hash =
     filter (\<lambda>j. plan_revision_id j = plan \<and> plan_hash j = hash \<and> job_state_col j \<in> set active_state_names) (jobs db)"

lemma active_duplicate_iff:
  "active_duplicate db plan hash = None \<longleftrightarrow> active_jobs db plan hash = []"
  "active_duplicate db plan hash = Some k \<Longrightarrow> \<exists>j \<in> set (active_jobs db plan hash). job_key j = k"
proof -
  have sorted: "set (sort_key requested_at (active_jobs db plan hash)) = set (active_jobs db plan hash)"
    by simp
  show "active_duplicate db plan hash = None \<longleftrightarrow> active_jobs db plan hash = []"
    using sorted
    by (cases "sort_key requested_at (active_jobs db plan hash)")
      (auto simp: active_duplicate_def active_jobs_def [symmetric])
  show "\<exists>j \<in> set (active_jobs db plan hash). job_key j = k" if "active_duplicate db plan hash = Some k"
    using that sorted
    by (cases "sort_key requested_at (active_jobs db plan hash)")
      (auto simp: active_duplicate_def active_jobs_def [symmetric])
qed

text \<open>Queueing is idempotent per plan revision and plan hash. It answers with an existing job
  exactly when an active one for that plan and hash exists, names such a job and changes nothing;
  otherwise it inserts the given fresh id as a queued first attempt. If no plan had two active jobs
  before, none has after.\<close>

theorem queue_one_active_per_plan:
  assumes "queue_tx now fresh plan src hash db = Inr (res, db')"
  shows "(case res of
      DuplicateOf k \<Rightarrow> db' = db \<and> (\<exists>j \<in> set (active_jobs db plan hash). job_key j = k)
    | Created k \<Rightarrow> k = fresh \<and> active_jobs db plan hash = [] \<and> get_job_row db fresh = None
        \<and> state_of db' fresh = Some Queued \<and> map job_key (active_jobs db' plan hash) = [fresh])
    \<and> ((\<forall>p h. length (active_jobs db p h) \<le> 1) \<longrightarrow> (\<forall>p h. length (active_jobs db' p h) \<le> 1))"
  using assms
proof (cases rule: queue_tx_cases)
  case (dup k)
  then show ?thesis
    using active_duplicate_iff(2) by simp
next
  case (new db1 detail)
  let ?j = "new_job fresh plan src now 1 None hash"
  have key: "job_key ?j = fresh"
    by (simp add: new_job_def)
  have db1: "get_job_row db fresh = None" "db1 = db\<lparr>jobs := jobs db @ [?j]\<rparr>"
    using new(3) by (auto simp: insert_job_def and_then_Inr_iff key)
  have jobs': "jobs db' = jobs db @ [?j]"
    using append_event_tx_Inr [OF new(4)] db1(2) by simp
  have empty: "active_jobs db plan hash = []"
    using new(1) active_duplicate_iff(1) by blast
  have act: "active_jobs db' p h = active_jobs db p h @ (if p = plan \<and> h = hash then [?j] else [])" for p h
    by (auto simp: active_jobs_def jobs' new_job_def active_state_names_def)
  have "get_job_row db' fresh = Some ?j"
    using db1(1) key by (simp add: get_job_row_append [OF jobs'])
  then have "state_of db' fresh = Some Queued"
    by (simp add: state_of_Some new_job_def as_str.simps)
  then show ?thesis
    using new(2) db1(1) empty key by (auto simp: act)
qed

section \<open>Failure reports\<close>

text \<open>Recording a failure succeeds exactly when the summary has at most 504 bytes: the logged
  message prefixes it with 8 bytes and is limited to 512, and nothing shortens it. A longer summary
  is refused, and since the whole transaction is dropped the job stays in its executing state.\<close>

theorem fail_refuses_long_summary:
  assumes "catalog_ok db" "state_of db k = Some s" "legal_transition s Failed"
  shows "if length summary \<le> 504
    then \<exists>db'. fail now k s code summary db = Inr db' \<and> state_of db' k = Some Failed
    else fail now k s code summary db = Inl MessageTooLong"
proof -
  let ?f = "\<lambda>j. j\<lparr>job_state_col := ''Failed'', finished_at := Some now, error_code := Some code,
             error_summary := Some summary, cancel_requested_at := coalesce (cancel_requested_at j) (Some now)\<rparr>"
  let ?log = "log_event now k Failed None (Some code) (''failed: '' @ summary) None (update_jobs (\<lambda>j. job_key j = k) ?f db)"
  obtain r where r: "get_job_row db k = Some r" "job_state_col r = as_str s"
    using assms(2) by (auto simp: state_of_Some)
  then have fail: "fail now k s code summary db = ?log"
    using assms(3) by (simp add: fail_def load_state_def)
  show ?thesis
  proof (cases "length summary \<le> 504")
    case True
    have "\<exists>db'. ?log = Inr db'"
      by (rule log_event_succeeds [OF assms(1)]) (use True r(1) in \<open>simp_all add: detail_error_def\<close>)
    then obtain db' where db': "?log = Inr db'" ..
    then have "get_job_row db' k = Some (?f r)"
      using append_event_tx_Inr [OF db' [unfolded log_event_def]] r(1) get_job_row_Some [OF r(1)]
      by (simp add: get_job_row_update)
    with True fail db' show ?thesis
      by (auto simp: state_of_Some as_str.simps)
  next
    case False
    then show ?thesis
      by (simp add: fail log_event_def append_event_tx_def job_event_new_def)
  qed
qed

section \<open>Cancellation without a worker\<close>

lemma cancel_requested_row:
  assumes "catalog_ok db" "get_job_row db k = Some r" "job_state_col r = as_str CancelRequested"
  shows "job_state_col r \<notin> set leased_state_names"
    and "j \<in> set (jobs db) \<Longrightarrow> job_key j = k \<Longrightarrow> j = r"
    and "get_job db k = Inr (bind_job r)" and "job_state_col (bind_job r) = CancelRequested"
    and "active_duplicate db (plan_revision_id r) (plan_hash r) \<noteq> None"
proof -
  show "job_state_col r \<notin> set leased_state_names"
    by (simp add: assms(3) leased_state_iff executing_def)
  show "j = r" if "j \<in> set (jobs db)" "job_key j = k"
    using get_job_row_unique [OF catalog_okD(1) [OF assms(1)] that(1)] that(2) assms(2) by simp
  show "get_job db k = Inr (bind_job r)" "job_state_col (bind_job r) = CancelRequested"
    by (simp_all add: get_job_def assms(2,3) bind_job_def)
  have "r \<in> set (active_jobs db (plan_revision_id r) (plan_hash r))"
    using get_job_row_Some [OF assms(2)] by (simp add: active_jobs_def assms(3) active_state_iff is_active_def)
  then show "active_duplicate db (plan_revision_id r) (plan_hash r) \<noteq> None"
    unfolding active_duplicate_iff(1) by auto
qed

text \<open>A job whose cancellation was requested waits for its worker alone. No stale-lease scan
  touches it however old its lease, the lease cannot be renewed, it can neither be cancelled again nor
  retried, and queueing its plan and hash answers with an active job and creates nothing.\<close>

theorem cancel_requested_waits_for_worker:
  assumes "catalog_ok db" "get_job_row db k = Some r" "job_state_col r = as_str CancelRequested"
  shows "(\<forall>now ids db'. mark_stale_leases now db = Inr (ids, db') \<longrightarrow> get_job_row db' k = Some r)
    \<and> (\<forall>now expires worker db'. renew_lease now expires k worker db \<noteq> Inr db')
    \<and> (\<forall>now. request_cancel now k db = Inl (NotCancellable CancelRequested))
    \<and> (\<forall>parse now fresh src hash scope res. retry parse now fresh k src hash scope db \<noteq> Inr res)
    \<and> (\<forall>now fresh src res db'. queue_tx now fresh (plan_revision_id r) src (plan_hash r) db = Inr (res, db') \<longrightarrow>
         db' = db \<and> (\<exists>k'. res = DuplicateOf k'))"
proof (intro conjI allI impI notI)
  note stuck = cancel_requested_row [OF assms]
  fix now ids db'
  assume scan: "mark_stale_leases now db = Inr (ids, db')"
  with mark_stale_run(2,4) [OF assms(1) scan] stuck(1) assms(2) show "get_job_row db' k = Some r"
    by (auto simp: lease_expired_def)
next
  fix now expires worker db'
  assume "renew_lease now expires k worker db = Inr db'"
  then have "updated_rows (\<lambda>j. job_key j = k \<and> worker_id j = Some worker \<and> job_state_col j \<in> set leased_state_names) db \<noteq> 0"
    by (auto simp: renew_lease_def Let_def and_then_Inr_iff)
  then show False
    using cancel_requested_row(1,2) [OF assms] by (auto simp: updated_rows_def filter_empty_conv)
next
  fix now
  show "request_cancel now k db = Inl (NotCancellable CancelRequested)"
    using cancel_requested_row(3,4) [OF assms]
    by (simp add: request_cancel_def request_cancel_from_def is_cancellable_def executing_def)
next
  fix parse now fresh src hash scope res
  assume "retry parse now fresh k src hash scope db = Inr res"
  then show False
    using cancel_requested_row(3,4) [OF assms] by (auto simp: retry_def and_then_Inr_iff is_retryable_def)
next
  fix now fresh src res db'
  assume "queue_tx now fresh (plan_revision_id r) src (plan_hash r) db = Inr (res, db')"
  then show "db' = db" "\<exists>k'. res = DuplicateOf k'"
    using cancel_requested_row(5) [OF assms] by (cases rule: queue_tx_cases; simp)+
qed

section \<open>A small catalog\<close>

definition sample_job :: "string \<Rightarrow> string \<Rightarrow> job_state \<Rightarrow> string analysis_job" where
  "sample_job k t s = (new_job k 7 Cli t 1 None ''h'')\<lparr>job_state_col := as_str s, worker_id := Some ''w1'',
     lease_expires_at := Some ''2026-01-02''\<rparr>"

definition sample_event :: "string \<Rightarrow> string job_event" where
  "sample_event k = store_event (job_event_new k 1 ''2026-01-01'' Queued None (Some ''job_queued'') ''Analysis queued'' None)"

definition sample_catalog :: catalog where
  "sample_catalog = \<lparr>jobs = [sample_job ''a'' ''2026-01-01'' Failed, sample_job ''b'' ''2026-01-02'' ParsingBaseline,
       sample_job ''c'' ''2026-01-03'' Queued],
     job_events = [sample_event ''a'', sample_event ''b'', sample_event ''c''], workers = [],
     plans = [(7, \<lparr>pl_manifest_revision_id = 3, pl_schema = 1, pl_sha256 = ''00'', pl_status = ''Ready''\<rparr>)],
     manifests = [(3, \<lparr>mf_event_id = 5, mf_snapshot_id = 6, mf_payload = ''x''\<rparr>)],
     catalog_events = [(5, \<lparr>source_kind = ''g'', event_external_id = ''INC''\<rparr>)], snapshots = [6], runs = []\<rparr>"

lemma sample_row:
  "get_job_row sample_catalog k =
     (if k = ''a'' then Some (sample_job ''a'' ''2026-01-01'' Failed)
      else if k = ''b'' then Some (sample_job ''b'' ''2026-01-02'' ParsingBaseline)
      else if k = ''c'' then Some (sample_job ''c'' ''2026-01-03'' Queued) else None)"
  by (simp add: get_job_row_def sample_catalog_def sample_job_def new_job_def)

lemma sample_sequences: "sequences sample_catalog k = (if k \<in> {''a'', ''b'', ''c''} then [1] else [])"
  by (simp add: sequences_def sample_catalog_def sample_event_def)

lemma sample_state:
  "state_of sample_catalog ''a'' = Some Failed" "state_of sample_catalog ''b'' = Some ParsingBaseline"
  "state_of sample_catalog ''c'' = Some Queued"
  by (simp_all add: state_of_Some sample_row sample_job_def)

lemma sample_catalog_ok: "catalog_ok sample_catalog"
  by (simp add: catalog_ok_def sample_sequences sample_row)
    (simp add: sample_catalog_def sample_job_def new_job_def)

text \<open>The sample catalog with a cancellation accepted for the running job.\<close>

definition cancelled_catalog :: catalog where
  "cancelled_catalog = (case request_cancel ''2026-01-04'' ''b'' sample_catalog of Inr (_, db) \<Rightarrow> db | Inl _ \<Rightarrow> sample_catalog)"

lemma sample_cancel:
  "request_cancel ''2026-01-04'' ''b'' sample_catalog = Inr (Requested ''b'', cancelled_catalog)"
proof -
  have "(case request_cancel ''2026-01-04'' ''b'' sample_catalog of Inr (Requested x, _) \<Rightarrow> x = ''b'' | _ \<Rightarrow> False)"
    by code_simp
  then show ?thesis
    by (auto simp: cancelled_catalog_def split: sum.splits cancel_outcome.splits)
qed

theorem job_states_witness:
  "\<exists>s'. state_of cancelled_catalog ''b'' = Some s' \<and> legal_transition\<^sup>*\<^sup>* ParsingBaseline s'"
proof -
  have "job_step sample_catalog cancelled_catalog"
    using sample_cancel by (auto simp: request_cancel_def and_then_Inr_iff intro: step_cancel)
  then show ?thesis
    using job_states_follow_legal_transitions [OF sample_catalog_ok r_into_rtranclp sample_state(2)] by blast
qed

theorem accepted_cancel_witness:
  "\<exists>s. state_of cancelled_catalog ''b'' = Some s \<and> s \<in> {CancelRequested, Cancelled, Failed}"
  using accepted_cancel_is_never_published [OF sample_catalog_ok sample_cancel rtranclp.rtrancl_refl] by blast

theorem job_event_log_witness:
  "sequences sample_catalog ''a'' = map int [1..<Suc (length (sequences sample_catalog ''a''))] \<and> sequences sample_catalog ''a'' \<noteq> []"
  using job_event_log_gapless [OF sample_catalog_ok rtranclp.rtrancl_refl, of "''a''"]
  by (simp add: sample_row del: upt_Suc)

theorem claim_next_witness:
  "\<exists>job db1. claim_next ''2026-01-04'' ''2026-01-05'' ''w2'' 90 sample_catalog = Inr (Some (job, 90), db1)
     \<and> job_state_col job = Claimed \<and> state_of sample_catalog (job_key job) = Some Queued"
proof -
  have "(case claim_next ''2026-01-04'' ''2026-01-05'' ''w2'' 90 sample_catalog of Inl _ \<Rightarrow> False | Inr _ \<Rightarrow> True)"
    by code_simp
  then obtain c db1 where c: "claim_next ''2026-01-04'' ''2026-01-05'' ''w2'' 90 sample_catalog = Inr (c, db1)"
    by (auto split: sum.splits)
  from claim_next_exclusive [OF sample_catalog_ok c] sample_state(3) obtain job n where "c = Some (job, n)"
    by (cases c) auto
  with claim_next_exclusive [OF sample_catalog_ok c] c show ?thesis
    by auto
qed

theorem stale_scan_witness:
  "\<exists>ids db'. mark_stale_leases ''2026-01-04'' sample_catalog = Inr (ids, db') \<and> state_of db' ''b'' = Some Failed"
proof -
  obtain ids db' where scan: "mark_stale_leases ''2026-01-04'' sample_catalog = Inr (ids, db')"
    and ids: "set ids = {k. \<exists>r. get_job_row sample_catalog k = Some r \<and> lease_expired ''2026-01-04'' r}"
    and failed: "\<forall>k \<in> set ids. state_of db' k = Some Failed"
    using stale_scan_releases_expired [OF sample_catalog_ok, of "''2026-01-04''"] by blast
  have "lease_expired ''2026-01-04'' (sample_job ''b'' ''2026-01-02'' ParsingBaseline)"
    by code_simp
  then have "''b'' \<in> set ids"
    unfolding ids by (simp add: sample_row)
  with scan failed show ?thesis
    by blast
qed

theorem queue_one_active_witness:
  "\<exists>k db'. queue_tx ''2026-01-04'' ''d'' 7 Cli ''h2'' sample_catalog = Inr (Created k, db') \<and> k = ''d''"
proof -
  have "(case queue_tx ''2026-01-04'' ''d'' 7 Cli ''h2'' sample_catalog of Inr (Created _, _) \<Rightarrow> True | _ \<Rightarrow> False)"
    by code_simp
  then obtain k db' where "queue_tx ''2026-01-04'' ''d'' 7 Cli ''h2'' sample_catalog = Inr (Created k, db')"
    by (auto split: sum.splits queue_outcome.splits prod.splits)
  with queue_one_active_per_plan [OF this] show ?thesis
    by auto
qed

theorem fail_refuses_witness:
  "fail ''2026-01-04'' ''b'' ParsingBaseline ''internal_error'' (replicate 505 CHR ''x'') sample_catalog = Inl MessageTooLong"
  using fail_refuses_long_summary [OF sample_catalog_ok sample_state(2), of "replicate 505 CHR ''x''" "''2026-01-04''" "''internal_error''"]
  by (simp add: leased_fails executing_def)

theorem cancel_requested_witness:
  "request_cancel ''2026-01-05'' ''b'' cancelled_catalog = Inl (NotCancellable CancelRequested)"
proof -
  have "state_of cancelled_catalog ''b'' = Some CancelRequested" "catalog_ok cancelled_catalog"
    using request_cancel_requested [OF sample_catalog_ok sample_cancel] micro_ok [OF _ sample_catalog_ok] by auto
  moreover from this obtain r where r: "get_job_row cancelled_catalog ''b'' = Some r" "job_state_col r = as_str CancelRequested"
    by (auto simp: state_of_Some)
  ultimately show ?thesis
    using cancel_requested_waits_for_worker [OF _ r] by (simp only: simp_thms)
qed

text \<open>Retry does not look for an active job of the same plan: on a well-formed catalog where the
  plan already has running and queued jobs, retrying an old failed one creates a further active job
  for the same plan revision and hash, which queueing would have refused.\<close>

theorem retry_ignores_active_jobs:
  "catalog_ok sample_catalog
   \<and> (case queue_tx ''2026-01-04'' ''d'' 7 Cli ''h'' sample_catalog of Inr (DuplicateOf _, _) \<Rightarrow> True | _ \<Rightarrow> False)
   \<and> (case retry (\<lambda>_. None) ''2026-01-04'' ''d'' ''a'' Cli ''h'' default_scope sample_catalog of
        Inr (_, db') \<Rightarrow> length (active_jobs db' 7 ''h'') = length (active_jobs sample_catalog 7 ''h'') + 1
      | Inl _ \<Rightarrow> False)"
proof (intro conjI)
  show "catalog_ok sample_catalog"
    by (rule sample_catalog_ok)
  show "case queue_tx ''2026-01-04'' ''d'' 7 Cli ''h'' sample_catalog of Inr (DuplicateOf _, _) \<Rightarrow> True | _ \<Rightarrow> False"
    by code_simp
  show "case retry (\<lambda>_. None) ''2026-01-04'' ''d'' ''a'' Cli ''h'' default_scope sample_catalog of
        Inr (_, db') \<Rightarrow> length (active_jobs db' 7 ''h'') = length (active_jobs sample_catalog 7 ''h'') + 1
      | Inl _ \<Rightarrow> False"
    by code_simp
qed

end
