(* ===== verification/Planning.thy ===== *)
theory Planning
  imports Manifest Assess
begin

text \<open>
  Pre-execution planning, \<open>plan.rs\<close>: which manifests are ready for analysis and why others are
  blocked, and the plan artifact. The clock of an artifact is an argument; rendering as JSON is
  left out. Shown: a validated manifest is only ever blocked for a missing reviewed predicate, and
  migration of a legacy manifest.
\<close>

datatype analysis_block_reason =
    MissingReviewedEntityMapping
  | MissingReviewedTransitPredicate
  | MissingAnalysisEndForOpenTicket
  | InvalidAnalysisWindow
  | UnsupportedManifestRevision

datatype analysis_plan_status = Ready | Blocked analysis_block_reason

record analysis_plan =
  ap_event_id :: string
  ap_expectation :: impact_expectation
  ap_lifecycle :: ticket_lifecycle
  ap_window :: "timestamp \<times> timestamp"
  ap_origin_asns :: "u32 list"
  ap_transit_predicate :: transit_predicate_mapping
  ap_status :: analysis_plan_status

definition plan_analysis ::
  "string \<Rightarrow> impact_expectation \<Rightarrow> ticket_lifecycle \<Rightarrow> timestamp \<times> timestamp \<Rightarrow> u32 list \<Rightarrow> transit_predicate_mapping
   \<Rightarrow> analysis_plan" where
  "plan_analysis ev ex lc win asns tp =
     \<lparr>ap_event_id = ev, ap_expectation = ex, ap_lifecycle = lc, ap_window = win, ap_origin_asns = asns,
      ap_transit_predicate = tp,
      ap_status =
        (if asns = [] then Blocked MissingReviewedEntityMapping
         else if \<not> is_ready tp then Blocked MissingReviewedTransitPredicate
         else Ready)\<rparr>"

datatype plan_error = InvalidStart | InvalidAnalysisEnd | WindowError manifest_error

definition plan_from_manifest ::
  "(string \<Rightarrow> timestamp option) \<Rightarrow> string \<Rightarrow> impact_expectation \<Rightarrow> manifest \<Rightarrow> plan_error + analysis_plan" where
  "plan_from_manifest parse_rfc3339 ev ex m =
     (let lc = (if mf_open m then TicketOpen else TicketClosed);
          asns = target_origin_asns (mf_target m);
          tp = target_transit_predicate (mf_target m)
      in if w_end (event_window_utc m) = [] then
           and_then (ok_or (parse_rfc3339 (w_start (event_window_utc m))) InvalidStart) (\<lambda>start.
           case analysis_end_utc m of
             Some s \<Rightarrow>
               if s \<noteq> [] then
                 and_then (ok_or (parse_rfc3339 s) InvalidAnalysisEnd) (\<lambda>stop.
                 Inr (plan_analysis ev ex lc (start, stop) asns tp))
               else Inr \<lparr>ap_event_id = ev, ap_expectation = ex, ap_lifecycle = lc, ap_window = (start, start),
                       ap_origin_asns = asns, ap_transit_predicate = tp,
                       ap_status = Blocked MissingAnalysisEndForOpenTicket\<rparr>
           | None \<Rightarrow> Inr \<lparr>ap_event_id = ev, ap_expectation = ex, ap_lifecycle = lc, ap_window = (start, start),
                       ap_origin_asns = asns, ap_transit_predicate = tp,
                       ap_status = Blocked MissingAnalysisEndForOpenTicket\<rparr>)
         else
           (case event_window parse_rfc3339 m of
              Inl e \<Rightarrow> Inl (WindowError e)
            | Inr win \<Rightarrow> Inr (plan_analysis ev ex lc win asns tp)))"

fun block_reason_str :: "analysis_block_reason \<Rightarrow> string" where
  "block_reason_str MissingReviewedEntityMapping = ''MissingReviewedEntityMapping''"
| "block_reason_str MissingReviewedTransitPredicate = ''MissingReviewedTransitPredicate''"
| "block_reason_str MissingAnalysisEndForOpenTicket = ''MissingAnalysisEndForOpenTicket''"
| "block_reason_str InvalidAnalysisWindow = ''InvalidAnalysisWindow''"
| "block_reason_str UnsupportedManifestRevision = ''UnsupportedManifestRevision''"

definition block_reason :: "analysis_plan \<Rightarrow> analysis_block_reason option" where
  "block_reason p = (case ap_status p of Ready \<Rightarrow> None | Blocked r \<Rightarrow> Some r)"

definition is_blocked :: "analysis_plan \<Rightarrow> bool" where
  "is_blocked p = (ap_status p \<noteq> Ready)"

definition plan_status_line :: "analysis_plan \<Rightarrow> string" where
  "plan_status_line p =
     (case ap_status p of Ready \<Rightarrow> ''Ready'' | Blocked r \<Rightarrow> ''Blocked: '' @ block_reason_str r)"

definition entity_mapping_status :: "analysis_plan \<Rightarrow> predicate_review_status" where
  "entity_mapping_status p = (if ap_origin_asns p = [] then Unresolved else Reviewed)"

record plan_artifact =
  pa_schema_version :: u32
  pa_event_id :: string
  pa_expectation :: impact_expectation
  pa_lifecycle :: ticket_lifecycle
  pa_window :: "timestamp \<times> timestamp"
  pa_origin_asns :: "u32 list"
  pa_entity_mapping :: predicate_review_status
  pa_transit_predicate :: transit_predicate_mapping
  pa_plan :: analysis_plan_status
  pa_reason :: "string option"
  broker_calls :: u32
  mrt_files_examined :: u32
  generated_at :: timestamp

definition from_plan :: "timestamp \<Rightarrow> analysis_plan \<Rightarrow> plan_artifact" where
  "from_plan now p =
     \<lparr>pa_schema_version = 1, pa_event_id = ap_event_id p, pa_expectation = ap_expectation p,
      pa_lifecycle = ap_lifecycle p, pa_window = ap_window p, pa_origin_asns = ap_origin_asns p,
      pa_entity_mapping = entity_mapping_status p, pa_transit_predicate = ap_transit_predicate p,
      pa_plan = ap_status p, pa_reason = map_option block_reason_str (block_reason p),
      broker_calls = 0, mrt_files_examined = 0, generated_at = now\<rparr>"

definition artifact_status_line :: "plan_artifact \<Rightarrow> string" where
  "artifact_status_line a =
     (case pa_plan a of
        Ready \<Rightarrow> ''Ready''
      | Blocked _ \<Rightarrow> ''Blocked: '' @ (case pa_reason a of None \<Rightarrow> ''unknown'' | Some r \<Rightarrow> r))"

section \<open>What planning promises\<close>

lemma manifest_validate_Inr_iff:
  "manifest_validate m = Inr m' \<longleftrightarrow>
     m' = m \<and> managed_network_asn (mf_target m) = None \<and> internet2_asn (mf_target m) = None
     \<and> mf_schema_version m = manifest_schema_current \<and> mf_event m \<noteq> []
     \<and> w_start (event_window_utc m) \<noteq> [] \<and> (w_end (event_window_utc m) = [] \<longrightarrow> mf_open m)
     \<and> (mf_open m \<longrightarrow> has_cutoff m) \<and> mf_collectors m \<noteq> [] \<and> 0 \<le> warmup_minutes m \<and> 0 \<le> cooldown_minutes m
     \<and> target_origin_asns (mf_target m) \<noteq> [] \<and> tp_validate (target_transit_predicate (mf_target m)) = Inr ()"
  by (auto simp: manifest_validate_def and_then_Inr_iff not_less)

lemma trim_Nil [simp]: "trim [] = []"
  by (simp add: trim_def)

lemma has_cutoff_nonempty: "has_cutoff m \<Longrightarrow> \<exists>c. analysis_end_utc m = Some c \<and> c \<noteq> []"
  by (auto simp: has_cutoff_def split: option.splits)

lemma tp_validate_ready:
  "tp_validate t = Inr () \<Longrightarrow> is_ready t \<longleftrightarrow> tp_status t = Reviewed"
  by (auto simp: tp_validate_def is_ready_def and_then_Inr_iff split: predicate_review_status.splits)

lemma plan_analysis_status:
  "asns \<noteq> [] \<Longrightarrow> tp_validate tp = Inr () \<Longrightarrow>
   ap_status (plan_analysis ev ex lc win asns tp) =
     (if tp_status tp = Reviewed then Ready else Blocked MissingReviewedTransitPredicate)"
  by (simp add: plan_analysis_def tp_validate_ready)

lemma plan_analysis_fields [simp]:
  "ap_lifecycle (plan_analysis ev ex lc win asns tp) = lc"
  "ap_window (plan_analysis ev ex lc win asns tp) = win"
  "ap_origin_asns (plan_analysis ev ex lc win asns tp) = asns"
  by (simp_all add: plan_analysis_def)

lemma event_window_Inl:
  "event_window parse m = Inl e \<Longrightarrow> (mf_open m \<longrightarrow> has_cutoff m) \<Longrightarrow>
     (e = InvalidEventStart \<and> parse (w_start (event_window_utc m)) = None)
     \<or> e = InvalidEventEnd
     \<or> (e = EventEndUnavailable \<and> \<not> mf_open m \<and> trim (w_end (event_window_utc m)) = [])"
  by (cases "parse (w_start (event_window_utc m))")
    (auto simp: event_window_def has_cutoff_def ok_or_def and_then_def split: if_splits option.splits sum.splits)

text \<open>Planning on a validated manifest. It fails only because an instant does not parse, or
  because the declared end of a closed event is blank without being empty; otherwise the plan is
  Ready exactly when the transit predicate is reviewed, and the missing reviewed predicate is the
  only reason for which it is blocked. In particular an accepted open manifest always has an
  analysis end, and its plan is marked open.\<close>

theorem validated_plan_status:
  assumes "manifest_validate m = Inr m'"
  shows "case plan_from_manifest parse ev ex m of
      Inl InvalidStart \<Rightarrow> parse (w_start (event_window_utc m)) = None
    | Inl InvalidAnalysisEnd \<Rightarrow> mf_open m \<and> (\<exists>c. analysis_end_utc m = Some c \<and> parse c = None)
    | Inl (WindowError e) \<Rightarrow>
        (e = InvalidEventStart \<and> parse (w_start (event_window_utc m)) = None) \<or> e = InvalidEventEnd
        \<or> (e = EventEndUnavailable \<and> \<not> mf_open m \<and> trim (w_end (event_window_utc m)) = [])
    | Inr p \<Rightarrow>
        ap_status p = (if tp_status (target_transit_predicate (mf_target m)) = Reviewed then Ready
                       else Blocked MissingReviewedTransitPredicate)
        \<and> ap_lifecycle p = (if mf_open m then TicketOpen else TicketClosed)"
proof -
  have m: "w_end (event_window_utc m) = [] \<Longrightarrow> mf_open m" "mf_open m \<longrightarrow> has_cutoff m"
    "target_origin_asns (mf_target m) \<noteq> []" "tp_validate (target_transit_predicate (mf_target m)) = Inr ()"
    using assms by (auto simp: manifest_validate_Inr_iff)
  note status = plan_analysis_status [OF m(3,4)]
  show ?thesis
  proof (cases "w_end (event_window_utc m) = []")
    case True
    with m(1,2) obtain c where "analysis_end_utc m = Some c" "c \<noteq> []" "mf_open m"
      using has_cutoff_nonempty by blast
    with True show ?thesis
      by (cases "parse (w_start (event_window_utc m))"; cases "parse c")
        (simp_all add: plan_from_manifest_def Let_def status)
  next
    case False
    then show ?thesis
      using event_window_Inl [OF _ m(2), of parse]
      by (cases "event_window parse m") (simp_all add: plan_from_manifest_def Let_def status)
  qed
qed

lemma saturating_succ_le: "n \<le> saturating_succ n"
  using unatSuc [of n]
  by (auto simp: saturating_succ_def word_le_nat_alt add.commute eq_neg_iff_add_eq_0)

text \<open>Migration of a legacy manifest. When it succeeds the result is itself a valid manifest of
  the current schema without shortcut fields; its predicate is Reviewed exactly when the legacy ASN
  was present and not zero, then it is the single-ASN predicate with the analyst's provenance; event,
  windows, collectors, margins and origins are those of the old manifest, and the revision number
  grows unless it is already the largest. Without provenance no predicate is ever marked reviewed.\<close>

theorem migrate_manifest_sound:
  assumes "migrate_manifest old prov = Inr new"
  shows "manifest_validate new = Inr new
    \<and> (is_ready (target_transit_predicate (mf_target new)) \<longleftrightarrow> legacy_asn old \<noteq> None \<and> legacy_asn old \<noteq> Some 0)
    \<and> (\<forall>p. tp_predicate (target_transit_predicate (mf_target new)) = Some p \<longrightarrow>
         (\<exists>a. legacy_asn old = Some a \<and> p = ContainsAny [a]) \<and> prov \<noteq> None
         \<and> tp_provenance (target_transit_predicate (mf_target new)) = prov)
    \<and> mf_event new = mf_event old \<and> event_window_utc new = event_window_utc old
    \<and> mf_collectors new = mf_collectors old \<and> warmup_minutes new = warmup_minutes old
    \<and> cooldown_minutes new = cooldown_minutes old
    \<and> target_origin_asns (mf_target new) = target_origin_asns (mf_target old)
    \<and> mf_revision old \<le> mf_revision new"
proof -
  obtain tp req where tp: "migrated_mapping (legacy_asn old) prov = (tp, req)"
    by fastforce
  define new0 where "new0 = old\<lparr>mf_schema_version := manifest_schema_current,
      mf_revision := saturating_succ (mf_revision old),
      mf_target := (mf_target old)\<lparr>managed_network_asn := None, internet2_asn := None,
        target_transit_predicate := tp\<rparr>\<rparr>"
  have "manifest_validate new0 = Inr new" and req: "\<not> (req \<and> prov = None)"
    using assms by (simp_all add: migrate_manifest_def tp new0_def and_then_Inr_iff)
  moreover from this have new: "new = new0"
    by (simp add: manifest_validate_Inr_iff)
  moreover have "is_ready tp \<longleftrightarrow> legacy_asn old \<noteq> None \<and> legacy_asn old \<noteq> Some 0"
    using tp by (auto simp: migrated_mapping_def is_ready_def split: option.splits if_splits)
  moreover have "\<forall>p. tp_predicate tp = Some p \<longrightarrow>
         (\<exists>a. legacy_asn old = Some a \<and> p = ContainsAny [a]) \<and> prov \<noteq> None \<and> tp_provenance tp = prov"
    using tp req by (auto simp: migrated_mapping_def split: option.splits if_splits)
  ultimately show ?thesis
    using saturating_succ_le [of "mf_revision old"] by (simp add: new0_def)
qed

definition legacy_manifest :: manifest where
  "legacy_manifest = sample_manifest\<lparr>mf_schema_version := 1,
     mf_target := (mf_target sample_manifest)\<lparr>managed_network_asn := Some 11537,
       target_transit_predicate := \<lparr>tp_status = Unresolved, tp_predicate = None, tp_provenance = None\<rparr>\<rparr>\<rparr>"

lemma sample_manifest_valid: "manifest_validate sample_manifest = Inr sample_manifest"
  by (simp add: manifest_validate_Inr_iff sample_manifest_def manifest_schema_current_def tp_validate_def)

lemma validated_plan_sample:
  "\<exists>p. plan_from_manifest (\<lambda>s. Some (int (length s))) ''INC1'' (expect_unknown ''x'') sample_manifest = Inr p"
proof -
  have "plan_from_manifest (\<lambda>s. Some (int (length s))) ''INC1'' (expect_unknown ''x'') sample_manifest \<noteq> Inl e" for e
    by (simp add: plan_from_manifest_def sample_manifest_def Let_def event_window_def trim_def white_space_def
        starts_with_def)
  then show ?thesis
    by (meson sumE)
qed

lemma plan_sample_ready:
  "plan_from_manifest (\<lambda>s. Some (int (length s))) ''INC1'' (expect_unknown ''x'') sample_manifest = Inr p \<Longrightarrow> ap_status p = Ready"
  by (auto simp: plan_from_manifest_def sample_manifest_def Let_def plan_analysis_def is_ready_def split: sum.splits)

theorem validated_plan_status_witness:
  "\<exists>p. plan_from_manifest (\<lambda>s. Some (int (length s))) ''INC1'' (expect_unknown ''x'') sample_manifest = Inr p
     \<and> ap_status p = Ready"
proof -
  obtain p where "plan_from_manifest (\<lambda>s. Some (int (length s))) ''INC1'' (expect_unknown ''x'') sample_manifest = Inr p"
    using validated_plan_sample by blast
  then show ?thesis
    using validated_plan_status [OF sample_manifest_valid, of "\<lambda>s. Some (int (length s))" "''INC1''" "expect_unknown ''x''"]
    by (simp add: sample_manifest_def)
qed

theorem migrate_manifest_witness:
  "\<exists>new. migrate_manifest legacy_manifest (Some \<lparr>statement = ''x'', reviewed_by = ''a'', review_day = ''d''\<rparr>) = Inr new
     \<and> manifest_validate new = Inr new \<and> mf_event new = ''INC1'' \<and> is_ready (target_transit_predicate (mf_target new))"
proof -
  obtain new where new: "migrate_manifest legacy_manifest (Some \<lparr>statement = ''x'', reviewed_by = ''a'', review_day = ''d''\<rparr>) = Inr new"
    and p: "tp_predicate (target_transit_predicate (mf_target new)) = Some (ContainsAny [11537])"
    by (simp add: migrate_manifest_def migrated_mapping_def legacy_asn_def legacy_manifest_def sample_manifest_def manifest_validate_Inr_iff
        manifest_schema_current_def tp_validate_def)
  then show ?thesis
    using migrate_manifest_sound [OF new] by (simp add: legacy_asn_def legacy_manifest_def sample_manifest_def)
qed

end
