(* ===== verification/Catalog_Status.thy ===== *)
theory Catalog_Status
  imports Planning
begin

text \<open>
  Derived statuses of catalog events: \<open>catalog/status.rs\<close>, the queries of \<open>catalog/db.rs\<close> it reads
  through, and the readiness of \<open>catalog/analyzability.rs\<close>. The corpus is a record of the tables;
  a query that orders rows by a column sorts them, and rows that agree on the column come in an
  order the code does not rely on. What the code reads from the JSON of a manifest payload is a
  parameter.
\<close>

section \<open>Tables and queries\<close>

record snapshot_rec =
  sn_id :: int
  sn_event :: int
  fetched_at :: string
  normalized_json :: string

record manifest_rec =
  mr_id :: int
  mr_event :: int
  mr_snapshot :: int
  mr_payload :: string
  mr_review_status :: string

record plan_rec =
  pr_id :: int
  pr_manifest :: int
  pr_status :: string
  pr_block_reason :: "string option"

record run_rec =
  rn_id :: int
  rn_plan :: int
  rn_status :: string
  rn_started_at :: string

record review_rec =
  rv_event :: int
  rv_applicability :: string
  rv_rationale :: string
  rv_reviewed_at :: string
  rv_id :: int

record event_rec =
  er_id :: int
  er_source_kind :: string
  er_external_id :: string
  er_first_seen :: string
  er_last_seen :: string

record corpus =
  co_events :: "event_rec list"
  co_snapshots :: "snapshot_rec list"
  co_manifests :: "manifest_rec list"
  co_plans :: "plan_rec list"
  co_runs :: "run_rec list"
  co_reviews :: "review_rec list"
  co_case_study_plan_events :: "int list"

definition list_snapshots :: "corpus \<Rightarrow> int \<Rightarrow> snapshot_rec list" where
  "list_snapshots c ev = rev (sort_key fetched_at (filter (\<lambda>s. sn_event s = ev) (co_snapshots c)))"

definition list_manifest_revisions :: "corpus \<Rightarrow> int \<Rightarrow> manifest_rec list" where
  "list_manifest_revisions c ev = rev (sort_key mr_id (filter (\<lambda>m. mr_event m = ev) (co_manifests c)))"

definition list_plans_for_manifest :: "corpus \<Rightarrow> int \<Rightarrow> plan_rec list" where
  "list_plans_for_manifest c m = rev (sort_key pr_id (filter (\<lambda>p. pr_manifest p = m) (co_plans c)))"

definition get_plan :: "corpus \<Rightarrow> int \<Rightarrow> plan_rec option" where
  "get_plan c i = find (\<lambda>p. pr_id p = i) (co_plans c)"

definition get_manifest_revision :: "corpus \<Rightarrow> int \<Rightarrow> manifest_rec option" where
  "get_manifest_revision c i = find (\<lambda>m. mr_id m = i) (co_manifests c)"

definition run_event :: "corpus \<Rightarrow> run_rec \<Rightarrow> int option" where
  "run_event c r =
     Option.bind (get_plan c (rn_plan r)) (\<lambda>p. map_option mr_event (get_manifest_revision c (pr_manifest p)))"

definition list_runs_for_event :: "corpus \<Rightarrow> int \<Rightarrow> run_rec list" where
  "list_runs_for_event c ev = rev (sort_key rn_started_at (filter (\<lambda>r. run_event c r = Some ev) (co_runs c)))"

section \<open>Status\<close>

datatype catalog_status =
    Discovered
  | NeedsReview
  | StatusReady
  | StatusBlocked
  | Running
  | Complete
  | StatusFailed
  | Stale

record status_inputs =
  latest_snapshot_id :: "int option"
  latest_manifest_id :: "int option"
  run_snapshot_id :: "int option"
  run_manifest_id :: "int option"
  latest_plan_status :: "string option"
  latest_plan_ready :: bool
  run_for_latest_plan :: bool
  has_manifest :: bool
  manifest_reviewed :: bool
  any_running :: bool
  latest_run_failed :: bool

text \<open>\<open>slice.first()\<close>\<close>

definition first :: "'a list \<Rightarrow> 'a option" where
  "first xs = (case xs of [] \<Rightarrow> None | x # _ \<Rightarrow> Some x)"

definition better_plan :: "(int \<times> plan_rec) option \<Rightarrow> int \<Rightarrow> plan_rec \<Rightarrow> bool" where
  "better_plan best m p =
     (case best of None \<Rightarrow> True | Some (lm, lp) \<Rightarrow> lm < m \<or> (m = lm \<and> pr_id lp < pr_id p))"

text \<open>The nested loop over manifests and their plans that keeps the latest plan.\<close>

definition scan_latest_plan :: "corpus \<Rightarrow> manifest_rec list \<Rightarrow> (int \<times> plan_rec) option" where
  "scan_latest_plan c ms =
     foldl (\<lambda>best m. foldl (\<lambda>b p. if better_plan b (mr_id m) p then Some (mr_id m, p) else b) best
              (list_plans_for_manifest c (mr_id m))) None ms"

definition completed_under :: "corpus \<Rightarrow> run_rec list \<Rightarrow> int \<times> plan_rec \<Rightarrow> bool" where
  "completed_under c runs latest =
     (case latest of (m, p) \<Rightarrow>
        list_ex (\<lambda>r. rn_status r = ''Complete''
          \<and> (rn_plan r = pr_id p \<or> map_option pr_manifest (get_plan c (rn_plan r)) = Some m)) runs)"

definition load_inputs :: "corpus \<Rightarrow> int \<Rightarrow> status_inputs" where
  "load_inputs c ev =
     (let manifests = list_manifest_revisions c ev;
          runs = list_runs_for_event c ev;
          latest_plan = scan_latest_plan c manifests;
          run_manifest = Option.bind (first runs) (\<lambda>r. Option.bind (get_plan c (rn_plan r))
                           (\<lambda>p. get_manifest_revision c (pr_manifest p)))
      in \<lparr>latest_snapshot_id = map_option sn_id (first (list_snapshots c ev)),
          latest_manifest_id = map_option mr_id (first manifests),
          run_snapshot_id = map_option mr_snapshot run_manifest,
          run_manifest_id = map_option mr_id run_manifest,
          latest_plan_status = map_option (\<lambda>(_, p). pr_status p) latest_plan,
          latest_plan_ready = (map_option (\<lambda>(_, p). pr_status p) latest_plan = Some ''Ready''),
          run_for_latest_plan = (case latest_plan of None \<Rightarrow> False | Some lp \<Rightarrow> completed_under c runs lp),
          has_manifest = (manifests \<noteq> []),
          manifest_reviewed = (case first manifests of None \<Rightarrow> False | Some m \<Rightarrow> mr_review_status m = ''Reviewed''),
          any_running = list_ex (\<lambda>r. rn_status r = ''Running'') runs,
          latest_run_failed = (case first runs of None \<Rightarrow> False
                               | Some r \<Rightarrow> rn_status r = ''Failed'' \<or> rn_status r = ''Incomplete'')\<rparr>)"

definition derive_status :: "corpus \<Rightarrow> int \<Rightarrow> catalog_status" where
  "derive_status c ev =
     (let i = load_inputs c ev in
      if any_running i then Running
      else if latest_run_failed i then StatusFailed
      else if latest_snapshot_id i \<noteq> None \<and> run_snapshot_id i \<noteq> None
              \<and> (latest_snapshot_id i \<noteq> run_snapshot_id i \<or> latest_manifest_id i \<noteq> run_manifest_id i) then Stale
      else if \<not> has_manifest i then Discovered
      else if latest_plan_status i = Some ''Blocked'' then StatusBlocked
      else if \<not> manifest_reviewed i then NeedsReview
      else if latest_plan_ready i \<and> run_for_latest_plan i then Complete
      else if latest_plan_ready i then StatusReady
      else NeedsReview)"

definition list_events :: "corpus \<Rightarrow> event_rec list" where
  "list_events c = rev (sort_key er_last_seen (rev (sort_key er_external_id (co_events c))))"

definition derive_all_statuses :: "corpus \<Rightarrow> (event_rec \<times> catalog_status) list" where
  "derive_all_statuses c = map (\<lambda>e. (e, derive_status c (er_id e))) (list_events c)"

section \<open>Readiness\<close>

record analyzability =
  an_event_id :: int
  an_external_id :: string
  readiness :: string
  an_reason :: string

text \<open>The target of a manifest payload as JSON: the origin ASN array, if there is one, and the
  status text of the transit predicate, if there is one.\<close>

record payload_target =
  pt_origin_asns :: "u32 list option"
  pt_predicate_status :: "string option"

definition first_sentence :: "string \<Rightarrow> string" where
  "first_sentence s = hd (split_on CHR ''.'' s)"

definition latest_review :: "corpus \<Rightarrow> int \<Rightarrow> review_rec option" where
  "latest_review c ev =
     first (rev (sort_key (\<lambda>r. (rv_reviewed_at r, rv_id r)) (filter (\<lambda>r. rv_event r = ev) (co_reviews c))))"

definition blocked_readiness :: "string option \<Rightarrow> string \<times> string" where
  "blocked_readiness why =
     (case why of
        Some reason \<Rightarrow>
          if contains_str ''NotApplicable'' reason \<or> contains_str ''not applicable'' reason
          then (''NotApplicableToPublicBgp'', ''reviewed as not applicable to public BGP'')
          else if contains_str ''window'' reason \<or> contains_str ''Window'' reason
          then (''NeedsAnalysisWindow'', ''plan blocked: '' @ reason)
          else if contains_str ''insufficient'' reason \<or> contains_str ''Insufficient'' reason
          then (''InsufficientBaselineVisibility'', ''plan blocked: '' @ reason)
          else (''NeedsTransitPredicate'', ''plan blocked: '' @ reason)
      | None \<Rightarrow> (''NeedsTransitPredicate'', ''the latest plan is blocked''))"

definition unreviewed_readiness :: "(string \<Rightarrow> payload_target) \<Rightarrow> manifest_rec option \<Rightarrow> string \<times> string" where
  "unreviewed_readiness read m =
     (case m of
        None \<Rightarrow> (''NotReviewed'', ''no reviewed manifest exists; nothing has been mapped'')
      | Some mf \<Rightarrow>
          (let t = read (mr_payload mf);
               has_mapping = (case pt_origin_asns t of None \<Rightarrow> False | Some asns \<Rightarrow> asns \<noteq> []);
               predicate = (case pt_predicate_status t of None \<Rightarrow> ''Unresolved'' | Some s \<Rightarrow> s)
           in if \<not> has_mapping then (''NeedsEntityMapping'', ''a manifest exists but no reviewed entity/ASN mapping'')
              else if predicate \<noteq> ''Reviewed''
              then (''NeedsTransitPredicate'', ''entity mapping exists but the transit predicate is not Reviewed'')
              else (''NeedsAnalysisWindow'', ''mapping and predicate reviewed; no analysis window planned'')))"

definition status_readiness ::
  "(string \<Rightarrow> payload_target) \<Rightarrow> corpus \<Rightarrow> int \<Rightarrow> catalog_status \<Rightarrow> string \<times> string" where
  "status_readiness read c ev st =
     (let manifests = list_manifest_revisions c ev;
          plans = concat (map (\<lambda>m. list_plans_for_manifest c (mr_id m)) manifests);
          runs = list_runs_for_event c ev
      in case st of
           Running \<Rightarrow> (''AnalysisRunning'', ''an analysis run is in progress'')
         | StatusFailed \<Rightarrow>
             (''AnalysisFailed'',
              (case first runs of None \<Rightarrow> ''the latest attempted analysis failed''
               | Some r \<Rightarrow> ''latest run '' @ show_int (rn_id r) @ '' failed''))
         | Stale \<Rightarrow>
             (''AnalysisStale'',
              ''the latest source snapshot or reviewed manifest changed after the latest completed analysis'')
         | Complete \<Rightarrow>
             (''AnalysisComplete'', ''the latest reviewed manifest produced a ready plan and a completed run exists'')
         | StatusBlocked \<Rightarrow> blocked_readiness (Option.bind (first plans) pr_block_reason)
         | NeedsReview \<Rightarrow> unreviewed_readiness read (first manifests)
         | StatusReady \<Rightarrow>
             if ev \<in> set (co_case_study_plan_events c)
             then (''ArchivePlanReady'', ''a ready plan exists and the case study archive plan is stored'')
             else (''ReadyForArchivePlanning'', ''the latest reviewed manifest produces a ready plan'')
         | Discovered \<Rightarrow> (''NotReviewed'', ''the source event exists but has never been reviewed''))"

definition blocking_applicability :: "string list" where
  "blocking_applicability = [''NotDirectlyObservableInPublicBgp'', ''NotOriginAttributable'', ''NotApplicableToPublicBgp'']"

definition derive_analyzability :: "(string \<Rightarrow> payload_target) \<Rightarrow> corpus \<Rightarrow> event_rec \<Rightarrow> analyzability" where
  "derive_analyzability read c e =
     (let (rd, why) =
        (case latest_review c (er_id e) of
           Some r \<Rightarrow>
             if rv_applicability r \<in> set blocking_applicability
             then (rv_applicability r, first_sentence (rv_rationale r))
             else status_readiness read c (er_id e) (derive_status c (er_id e))
         | None \<Rightarrow> status_readiness read c (er_id e) (derive_status c (er_id e)))
      in \<lparr>an_event_id = er_id e, an_external_id = er_external_id e, readiness = rd, an_reason = why\<rparr>)"

definition derive_all_analyzability :: "(string \<Rightarrow> payload_target) \<Rightarrow> corpus \<Rightarrow> analyzability list" where
  "derive_all_analyzability read c =
     rev (sort_key an_external_id (rev (map (derive_analyzability read c) (list_events c))))"

definition next_analyst_action :: "string \<Rightarrow> string \<Rightarrow> string" where
  "next_analyst_action rd applicability =
     (if applicability = ''NotApplicableToPublicBgp'' \<or> applicability = ''NotOriginAttributable''
      then ''No public-BGP target''
      else if applicability = ''NotDirectlyObservableInPublicBgp'' then ''Review non-public-BGP evidence''
      else if rd = ''NotDirectlyObservableInPublicBgp'' then ''Review non-public-BGP evidence''
      else if rd = ''NotReviewed'' \<or> rd = ''NeedsEntityMapping'' then ''Review entity mapping''
      else if rd = ''NeedsTransitPredicate'' then ''Review transit predicate''
      else if rd = ''NeedsAnalysisWindow'' then ''Review analysis window''
      else if rd = ''NotApplicableToPublicBgp'' then ''No public-BGP target''
      else if rd = ''ReadyForArchivePlanning'' \<or> rd = ''InsufficientBaselineVisibility'' then ''Run RIB preflight''
      else if rd = ''ArchivePlanReady'' then ''Review archive volume''
      else if rd = ''AnalysisComplete'' then ''Analyze''
      else if rd = ''AnalysisStale'' \<or> rd = ''AnalysisFailed'' then ''Inspect stale run''
      else if rd = ''AnalysisRunning'' then ''Analyze''
      else ''Review entity mapping'')"

section \<open>Stored plans\<close>

text \<open>\<open>build_plan_record\<close> of \<open>catalog/import.rs\<close>: the status and block reason that are stored for a
  manifest (payload text and hash aside).\<close>

definition build_plan_record :: "int \<Rightarrow> manifest \<Rightarrow> bool \<Rightarrow> plan_rec" where
  "build_plan_record mrev m origin_mapping_reviewed =
     (let origins = target_origin_asns (mf_target m);
          needs_review = (\<not> origin_mapping_reviewed \<and> origins \<noteq> []);
          open_without_cutoff = (mf_open m \<and> \<not> has_cutoff m);
          status = (if needs_review \<or> origins = [] \<or> \<not> is_ready (target_transit_predicate (mf_target m)) \<or> open_without_cutoff
                    then ''Blocked'' else ''Ready'')
      in \<lparr>pr_id = 0, pr_manifest = mrev, pr_status = status,
          pr_block_reason =
            (if status = ''Blocked'' then
               Some (if open_without_cutoff then ''MissingAnalysisEndForOpenTicket''
                     else if \<not> origin_mapping_reviewed \<and> origins \<noteq> [] then ''OriginMappingNeedsReview''
                     else if origins = [] then ''MissingReviewedEntityMapping''
                     else ''MissingReviewedTransitPredicate'')
             else None)\<rparr>)"

definition artifact_kind :: "string \<Rightarrow> string" where
  "artifact_kind rel =
     (if ends_with ''report.json'' rel \<or> ends_with ''report.txt'' rel then ''report''
      else if ends_with ''evidence_appendix.jsonl'' rel then ''evidence-appendix''
      else if ends_with ''archive_manifest.json'' rel then ''archive-manifest''
      else if ends_with ''lifecycle.json'' rel then ''lifecycle''
      else if ends_with ''semantic_waves.json'' rel then ''semantic-waves''
      else if ends_with ''withdrawal_audit.json'' rel then ''withdrawal-audit''
      else if ends_with ''transitions.json'' rel then ''transitions''
      else if ends_with ''performance.json'' rel then ''performance''
      else if ends_with ''limitations.json'' rel then ''limitations''
      else if ends_with ''stdout.json'' rel then ''stdout''
      else if ends_with ''stderr.log'' rel then ''stderr''
      else ''artifact'')"

definition media_type_for :: "string \<Rightarrow> string" where
  "media_type_for kind =
     (if kind \<in> {''report'', ''archive-manifest'', ''lifecycle'', ''semantic-waves'', ''withdrawal-audit'',
                 ''limitations'', ''stdout''} then ''application/json''
      else if kind = ''evidence-appendix'' then ''application/x-ndjson''
      else if kind = ''stderr'' then ''text/plain''
      else ''application/octet-stream'')"

section \<open>What a status means\<close>

lemma first_simps [simp]: "first [] = None" "first (x # xs) = Some x"
  by (simp_all add: first_def)

lemma first_in_set: "first xs = Some x \<Longrightarrow> x \<in> set xs"
  by (cases xs) simp_all

lemma sorted_rev_first:
  "first (rev (sort_key f xs)) = Some x \<Longrightarrow> y \<in> set xs \<Longrightarrow> f y \<le> f x"
proof -
  assume f: "first (rev (sort_key f xs)) = Some x" and y: "y \<in> set xs"
  then obtain ys where ys: "rev (sort_key f xs) = x # ys"
    by (cases "rev (sort_key f xs)") auto
  then have eq: "sort_key f xs = rev ys @ [x]"
    by (metis rev.simps(2) rev_rev_ident)
  have "sorted (map f (sort_key f xs))"
    by (rule sorted_sort_key)
  moreover have "y \<in> set (sort_key f xs)"
    using y by simp
  ultimately show ?thesis
    unfolding eq by (auto simp: sorted_append)
qed

lemma keep_best_plans:
  assumes "\<forall>p \<in> set ps. \<not> better_plan (Some (lm, lp)) m p"
  shows "foldl (\<lambda>b p. if better_plan b m p then Some (m, p) else b) (Some (lm, lp)) ps = Some (lm, lp)"
  using assms by (induction ps) auto

lemma keep_best_manifests:
  assumes "\<forall>m \<in> set ms. \<forall>p \<in> set (list_plans_for_manifest c (mr_id m)). \<not> better_plan (Some (lm, lp)) (mr_id m) p"
  shows "foldl (\<lambda>best m. foldl (\<lambda>b p. if better_plan b (mr_id m) p then Some (mr_id m, p) else b) best
              (list_plans_for_manifest c (mr_id m))) (Some (lm, lp)) ms = Some (lm, lp)"
  using assms by (induction ms) (auto simp: keep_best_plans)

lemma list_plans_head:
  assumes "list_plans_for_manifest c m = p # ps"
  shows "pr_manifest p = m" and "q \<in> set (list_plans_for_manifest c m) \<Longrightarrow> pr_id q \<le> pr_id p"
proof -
  have "p \<in> set (list_plans_for_manifest c m)"
    using assms by simp
  then show "pr_manifest p = m"
    by (simp add: list_plans_for_manifest_def)
  show "pr_id q \<le> pr_id p" if "q \<in> set (list_plans_for_manifest c m)"
  proof (rule sorted_rev_first [where f = pr_id])
    show "first (rev (sort_key pr_id (filter (\<lambda>p. pr_manifest p = m) (co_plans c)))) = Some p"
      using assms by (simp add: list_plans_for_manifest_def)
    show "q \<in> set (filter (\<lambda>p. pr_manifest p = m) (co_plans c))"
      using that by (simp add: list_plans_for_manifest_def)
  qed
qed

lemma scan_latest_plan_sorted:
  assumes "sorted (map mr_id (rev ms))"
  shows "scan_latest_plan c ms =
    map_option (\<lambda>p. (pr_manifest p, p)) (first (concat (map (\<lambda>m. list_plans_for_manifest c (mr_id m)) ms)))"
  using assms
proof (induction ms)
  case (Cons m ms)
  show ?case
  proof (cases "list_plans_for_manifest c (mr_id m)")
    case Nil
    with Cons show ?thesis
      by (simp add: scan_latest_plan_def sorted_append)
  next
    case (Cons p ps)
    note head = list_plans_head [OF Cons]
    have "\<forall>q \<in> set ps. \<not> better_plan (Some (mr_id m, p)) (mr_id m) q"
      using head(2) by (fastforce simp: better_plan_def Cons)
    moreover have "\<forall>m' \<in> set ms. \<forall>q \<in> set (list_plans_for_manifest c (mr_id m')).
        \<not> better_plan (Some (mr_id m, p)) (mr_id m') q"
      using Cons.prems head(2) by (fastforce simp: better_plan_def sorted_append)
    ultimately show ?thesis
      using keep_best_plans [of ps "mr_id m" p "mr_id m"] keep_best_manifests [of ms c "mr_id m" p] head(1)
      by (simp add: scan_latest_plan_def Cons better_plan_def)
  qed
qed (simp add: scan_latest_plan_def)

lemma manifests_descending: "sorted (map mr_id (rev (list_manifest_revisions c ev)))"
  by (simp add: list_manifest_revisions_def)

lemma latest_plan_first:
  "scan_latest_plan c (list_manifest_revisions c ev) =
   map_option (\<lambda>p. (pr_manifest p, p))
     (first (concat (map (\<lambda>m. list_plans_for_manifest c (mr_id m)) (list_manifest_revisions c ev))))"
  using scan_latest_plan_sorted [OF manifests_descending] .

text \<open>What the status Complete means: the newest manifest revision of the event (the one with
  the largest id) is reviewed, the latest plan (of the newest revision that has one, and of its
  plans the one with the largest id) is Ready, some run of that plan or of another plan of
  its revision is complete, no run of the event is running, the newest run has not failed, and if
  the event has snapshots that run was made from the newest snapshot and the newest revision.\<close>

theorem complete_status_is_current:
  assumes "derive_status c ev = Complete"
  shows "\<exists>m p r. m \<in> set (co_manifests c) \<and> mr_event m = ev \<and> mr_review_status m = ''Reviewed''
    \<and> (\<forall>m' \<in> set (co_manifests c). mr_event m' = ev \<longrightarrow> mr_id m' \<le> mr_id m)
    \<and> first (concat (map (\<lambda>m. list_plans_for_manifest c (mr_id m)) (list_manifest_revisions c ev))) = Some p
    \<and> pr_status p = ''Ready''
    \<and> r \<in> set (co_runs c) \<and> rn_status r = ''Complete''
    \<and> (rn_plan r = pr_id p \<or> map_option pr_manifest (get_plan c (rn_plan r)) = Some (pr_manifest p))
    \<and> (\<forall>r' \<in> set (list_runs_for_event c ev). rn_status r' \<noteq> ''Running'')
    \<and> (\<forall>r' s m'. first (list_runs_for_event c ev) = Some r' \<longrightarrow> rn_status r' \<notin> {''Failed'', ''Incomplete''}
         \<and> (first (list_snapshots c ev) = Some s \<and> Option.bind (get_plan c (rn_plan r')) (\<lambda>p. get_manifest_revision c (pr_manifest p)) = Some m'
              \<longrightarrow> mr_snapshot m' = sn_id s \<and> mr_id m' = mr_id m))"
proof -
  let ?i = "load_inputs c ev"
  let ?plans = "concat (map (\<lambda>m. list_plans_for_manifest c (mr_id m)) (list_manifest_revisions c ev))"
  have i: "\<not> any_running ?i" "\<not> latest_run_failed ?i" "manifest_reviewed ?i" "latest_plan_ready ?i" "run_for_latest_plan ?i"
    "latest_snapshot_id ?i = None \<or> run_snapshot_id ?i = None
     \<or> (latest_snapshot_id ?i = run_snapshot_id ?i \<and> latest_manifest_id ?i = run_manifest_id ?i)"
    using assms by (auto simp: derive_status_def Let_def split: if_splits)
  obtain m where m: "first (list_manifest_revisions c ev) = Some m" "mr_review_status m = ''Reviewed''"
    using i(3) by (auto simp: load_inputs_def Let_def split: option.splits)
  have m_in: "m \<in> set (co_manifests c)" "mr_event m = ev"
    using first_in_set [OF m(1)] by (simp_all add: list_manifest_revisions_def)
  have newest: "\<forall>m' \<in> set (co_manifests c). mr_event m' = ev \<longrightarrow> mr_id m' \<le> mr_id m"
    using sorted_rev_first [OF m(1) [unfolded list_manifest_revisions_def]] by simp
  obtain p where p: "first ?plans = Some p" "pr_status p = ''Ready''"
    using i(4) by (auto simp: load_inputs_def Let_def latest_plan_first)
  have "completed_under c (list_runs_for_event c ev) (pr_manifest p, p)"
    using i(5) p(1) by (simp add: load_inputs_def Let_def latest_plan_first)
  then obtain r where r: "r \<in> set (list_runs_for_event c ev)" "rn_status r = ''Complete''"
    "rn_plan r = pr_id p \<or> map_option pr_manifest (get_plan c (rn_plan r)) = Some (pr_manifest p)"
    by (auto simp: completed_under_def list_ex_iff)
  have runs: "\<forall>r' \<in> set (list_runs_for_event c ev). rn_status r' \<noteq> ''Running''"
    using i(1) by (auto simp: load_inputs_def Let_def list_ex_iff)
  have latest: "\<forall>r' s m'. first (list_runs_for_event c ev) = Some r' \<longrightarrow> rn_status r' \<notin> {''Failed'', ''Incomplete''}
         \<and> (first (list_snapshots c ev) = Some s \<and> Option.bind (get_plan c (rn_plan r')) (\<lambda>p. get_manifest_revision c (pr_manifest p)) = Some m'
              \<longrightarrow> mr_snapshot m' = sn_id s \<and> mr_id m' = mr_id m)"
    using i(2,6) m(1) by (auto simp: load_inputs_def Let_def)
  have "r \<in> set (co_runs c)"
    using r(1) by (simp add: list_runs_for_event_def)
  with m(2) m_in newest p r runs latest show ?thesis
    by blast
qed

text \<open>The stored plan of a manifest agrees with pre-execution planning. For a validated manifest
  whose origin mapping is reviewed and whose planning succeeds, the stored status is Ready exactly
  when the planner says Ready; a free-form origin mapping that nobody reviewed is always stored as
  blocked. The stored reason is present exactly for blocked plans.\<close>

theorem stored_plan_agrees_with_planner:
  assumes "manifest_validate m = Inr m'" "plan_from_manifest parse ev ex m = Inr p"
  shows "(pr_status (build_plan_record k m True) = ''Ready'' \<longleftrightarrow> ap_status p = Ready)
    \<and> pr_status (build_plan_record k m False) = ''Blocked''
    \<and> (\<forall>b. pr_block_reason (build_plan_record k m b) = None \<longleftrightarrow> pr_status (build_plan_record k m b) = ''Ready'')"
proof -
  have m: "mf_open m \<longrightarrow> has_cutoff m" "target_origin_asns (mf_target m) \<noteq> []"
    "tp_validate (target_transit_predicate (mf_target m)) = Inr ()"
    "w_end (event_window_utc m) = [] \<longrightarrow> mf_open m"
    using assms(1) by (auto simp: manifest_validate_Inr_iff)
  have "\<exists>win. p = plan_analysis ev ex (if mf_open m then TicketOpen else TicketClosed) win
      (target_origin_asns (mf_target m)) (target_transit_predicate (mf_target m))"
    using assms(2) m(1,4) has_cutoff_nonempty [of m]
    by (auto simp: plan_from_manifest_def Let_def and_then_Inr_iff split: if_splits option.splits sum.splits)
  then have "ap_status p = Ready \<longleftrightarrow> tp_status (target_transit_predicate (mf_target m)) = Reviewed"
    using plan_analysis_status [OF m(2,3)] by (auto split: if_splits)
  then show ?thesis
    using m tp_validate_ready [OF m(3)] by (auto simp: build_plan_record_def Let_def)
qed

text \<open>Whatever blocks a stored plan, the event is reported as needing a transit predicate: the
  readiness texts look for \<open>window\<close> or \<open>Window\<close> in the reason, and none of the reasons that are
  stored contains it, so a missing analysis end or a missing origin mapping is never reported.\<close>

theorem blocked_plan_always_needs_predicate:
  assumes "pr_status (build_plan_record k m b) = ''Blocked''"
  shows "fst (blocked_readiness (pr_block_reason (build_plan_record k m b))) = ''NeedsTransitPredicate''"
proof -
  have reasons: "fst (blocked_readiness (Some r)) = ''NeedsTransitPredicate''"
    if "r \<in> set [''MissingAnalysisEndForOpenTicket'', ''OriginMappingNeedsReview'', ''MissingReviewedEntityMapping'',
               ''MissingReviewedTransitPredicate'']" for r
  proof -
    have "list_all (\<lambda>r. fst (blocked_readiness (Some r)) = ''NeedsTransitPredicate'')
        [''MissingAnalysisEndForOpenTicket'', ''OriginMappingNeedsReview'', ''MissingReviewedEntityMapping'',
         ''MissingReviewedTransitPredicate'']"
      by code_simp
    with that show ?thesis
      unfolding list_all_iff by blast
  qed
  then show ?thesis
    using assms by (auto simp: build_plan_record_def Let_def split: if_splits)
qed

definition sample_corpus :: corpus where
  "sample_corpus = \<lparr>co_events = [\<lparr>er_id = 1, er_source_kind = ''grnoc'', er_external_id = ''INC1'', er_first_seen = ''2026'', er_last_seen = ''2026''\<rparr>],
     co_snapshots = [\<lparr>sn_id = 4, sn_event = 1, fetched_at = ''2026'', normalized_json = ''{}''\<rparr>],
     co_manifests = [\<lparr>mr_id = 2, mr_event = 1, mr_snapshot = 4, mr_payload = ''x'', mr_review_status = ''Reviewed''\<rparr>],
     co_plans = [\<lparr>pr_id = 3, pr_manifest = 2, pr_status = ''Ready'', pr_block_reason = None\<rparr>],
     co_runs = [\<lparr>rn_id = 5, rn_plan = 3, rn_status = ''Complete'', rn_started_at = ''2026''\<rparr>],
     co_reviews = [], co_case_study_plan_events = []\<rparr>"

theorem complete_status_witness:
  "derive_status sample_corpus 1 = Complete \<and> (\<exists>r \<in> set (co_runs sample_corpus). rn_status r = ''Complete'')"
proof
  show status: "derive_status sample_corpus 1 = Complete"
    by code_simp
  show "\<exists>r \<in> set (co_runs sample_corpus). rn_status r = ''Complete''"
    using complete_status_is_current [OF status] by blast
qed

theorem stored_plan_witness:
  "pr_status (build_plan_record 1 sample_manifest True) = ''Ready'' \<and> pr_status (build_plan_record 1 sample_manifest False) = ''Blocked''"
proof -
  obtain p where p: "plan_from_manifest (\<lambda>s. Some (int (length s))) ''INC1'' (expect_unknown ''x'') sample_manifest = Inr p"
    using validated_plan_sample by blast
  have "ap_status p = Ready"
    using p plan_sample_ready by simp
  with stored_plan_agrees_with_planner [OF sample_manifest_valid p] show ?thesis
    by simp
qed

definition unmapped_manifest :: manifest where
  "unmapped_manifest = sample_manifest\<lparr>mf_target := (mf_target sample_manifest)\<lparr>target_origin_asns := []\<rparr>\<rparr>"

theorem blocked_plan_witness:
  "pr_block_reason (build_plan_record 1 unmapped_manifest True) = Some ''MissingReviewedEntityMapping''
   \<and> fst (blocked_readiness (pr_block_reason (build_plan_record 1 unmapped_manifest True))) = ''NeedsTransitPredicate''"
proof
  show "pr_block_reason (build_plan_record 1 unmapped_manifest True) = Some ''MissingReviewedEntityMapping''"
    by (simp add: build_plan_record_def Let_def unmapped_manifest_def sample_manifest_def)
  show "fst (blocked_readiness (pr_block_reason (build_plan_record 1 unmapped_manifest True))) = ''NeedsTransitPredicate''"
    by (rule blocked_plan_always_needs_predicate) (simp add: build_plan_record_def Let_def unmapped_manifest_def)
qed

end
