(* ===== verification/Relationships.thy ===== *)
theory Relationships
  imports Catalog_Status "HOL-Library.While_Combinator"
begin

text \<open>
  The ticket relationship graph: \<open>catalog/relationships.rs\<close>, the rows and queries of
  \<open>catalog/store.rs\<close> it works on and the extraction of identifiers of \<open>catalog/discovery.rs\<close>.
  The matches of the identifier regex and the string fields of a JSON text are parameters. A write
  that fails leaves the writes before it in the table, so an operation returns its result beside
  the state; \<open>i64\<close> ids are integers.
\<close>

section \<open>Rows\<close>

record ticket_relationship =
  rel_id :: int
  from_event_id :: int
  to_event_id :: "int option"
  to_external_id :: string
  relationship_kind :: string
  evidence_kind :: string
  source_snapshot_id :: "int option"
  source_document_id :: "int option"
  reviewed_status :: string
  rel_note :: "string option"
  created_utc :: string

record ticket_db =
  td_corpus :: corpus
  td_documents :: "int list"
  ticket_relationships :: "ticket_relationship list"

datatype catalog_error =
    CatalogWriteFailed
  | NoEventRow int
  | SliceNotOnCharBoundary

definition get_event :: "ticket_db \<Rightarrow> int \<Rightarrow> event_rec option" where
  "get_event db i = find (\<lambda>e. er_id e = i) (co_events (td_corpus db))"

definition get_event_by_external :: "ticket_db \<Rightarrow> string \<Rightarrow> string \<Rightarrow> event_rec option" where
  "get_event_by_external db src ext =
     find (\<lambda>e. er_source_kind e = src \<and> er_external_id e = ext) (co_events (td_corpus db))"

text \<open>SQLite numbers a new row with the successor of the largest id.\<close>

definition next_rowid :: "int list \<Rightarrow> int" where
  "next_rowid ids = (if ids = [] then 1 else Max (set ids) + 1)"

text \<open>The columns of the unique index \<open>uq_relationship_dedup\<close>.\<close>

definition dedup_key :: "ticket_relationship \<Rightarrow> int \<times> string \<times> string \<times> string \<times> int \<times> int" where
  "dedup_key e =
     (from_event_id e, to_external_id e, relationship_kind e, evidence_kind e,
      (case source_snapshot_id e of None \<Rightarrow> 0 | Some s \<Rightarrow> s),
      (case source_document_id e of None \<Rightarrow> 0 | Some d \<Rightarrow> d))"

definition references_exist :: "ticket_db \<Rightarrow> ticket_relationship \<Rightarrow> bool" where
  "references_exist db e =
     (from_event_id e \<in> er_id ` set (co_events (td_corpus db))
      \<and> (case to_event_id e of None \<Rightarrow> True | Some t \<Rightarrow> t \<in> er_id ` set (co_events (td_corpus db)))
      \<and> (case source_snapshot_id e of None \<Rightarrow> True | Some s \<Rightarrow> s \<in> sn_id ` set (co_snapshots (td_corpus db)))
      \<and> (case source_document_id e of None \<Rightarrow> True | Some d \<Rightarrow> d \<in> set (td_documents db)))"

definition insert_relationship :: "ticket_relationship \<Rightarrow> ticket_db \<Rightarrow> (catalog_error + bool) \<times> ticket_db" where
  "insert_relationship e db =
     (if dedup_key e \<in> dedup_key ` set (ticket_relationships db) then (Inr False, db)
      else if \<not> references_exist db e then (Inl CatalogWriteFailed, db)
      else (Inr True, db\<lparr>ticket_relationships :=
              ticket_relationships db @ [e\<lparr>rel_id := next_rowid (map rel_id (ticket_relationships db))\<rparr>]\<rparr>))"

definition list_relationships :: "ticket_db \<Rightarrow> int option \<Rightarrow> ticket_relationship list" where
  "list_relationships db from_ev =
     sort_key (\<lambda>e. from_event_id e) (sort_key (\<lambda>e. to_external_id e) (sort_key rel_id
       (filter (\<lambda>e. case from_ev of None \<Rightarrow> True | Some i \<Rightarrow> from_event_id e = i) (ticket_relationships db))))"

definition relationship_neighbors :: "ticket_relationship list \<Rightarrow> int \<Rightarrow> int list" where
  "relationship_neighbors rows ev =
     sort (remdups
       (List.map_filter (\<lambda>r. if from_event_id r = ev then to_event_id r else None) rows
        @ map from_event_id (filter (\<lambda>r. to_event_id r = Some ev) rows)))"

definition has_reviewed_edge :: "ticket_db \<Rightarrow> int \<Rightarrow> string \<Rightarrow> bool" where
  "has_reviewed_edge db from_ev ext =
     (0 < length (filter (\<lambda>r. from_event_id r = from_ev \<and> to_external_id r = ext
                            \<and> reviewed_status r \<noteq> ''Unreviewed'') (ticket_relationships db)))"

section \<open>Extraction\<close>

definition to_ascii_lowercase :: "string \<Rightarrow> string" where
  "to_ascii_lowercase s = map ascii_lower s"

definition classify_relationship :: "string \<Rightarrow> string \<Rightarrow> string" where
  "classify_relationship context_before external_id =
     (let window = to_ascii_lowercase context_before;
          lower_id = to_ascii_lowercase external_id
      in if contains_str ''tracked in'' window \<or> contains_str ''tracking in'' window
            \<or> contains_str ''being tracked'' window then ''TracksRemainingImpactIn''
         else if contains_str ''supersed'' window then ''SupersededBy''
         else if contains_str ''related change'' window \<and> starts_with ''chg'' lower_id then ''RelatedChange''
         else if contains_str ''related incident'' window \<and> starts_with ''inc'' lower_id then ''RelatedIncident''
         else if contains_str ''related task'' window \<and> starts_with ''task'' lower_id then ''RelatedTask''
         else ''References'')"

record extracted_reference =
  ex_external_id :: string
  ex_start :: nat
  ex_end :: nat
  ex_kind :: string

text \<open>\<open>str::is_char_boundary\<close>: the byte at the index does not continue a character. Slicing a
  \<open>str\<close> elsewhere panics.\<close>

definition is_char_boundary :: "string \<Rightarrow> nat \<Rightarrow> bool" where
  "is_char_boundary s i =
     (i = 0 \<or> i = length s \<or> (i < length s \<and> \<not> (128 \<le> (of_char (s ! i) :: nat) \<and> (of_char (s ! i) :: nat) < 192)))"

definition str_slice :: "string \<Rightarrow> nat \<Rightarrow> nat \<Rightarrow> string option" where
  "str_slice s a b =
     (if a \<le> b \<and> is_char_boundary s a \<and> is_char_boundary s b then Some (take (b - a) (drop a s)) else None)"

text \<open>The regex yields the spans of its matches.\<close>

definition extract_ticket_references :: "(string \<Rightarrow> (nat \<times> nat) list) \<Rightarrow> string \<Rightarrow> (string \<times> nat \<times> nat) list" where
  "extract_ticket_references find_iter text = map (\<lambda>(a, b). (take (b - a) (drop a text), a, b)) (find_iter text)"

definition classify_reference :: "string \<Rightarrow> nat \<Rightarrow> string \<times> nat \<times> nat \<Rightarrow> extracted_reference option" where
  "classify_reference text context_chars r =
     (case r of (ext, a, b) \<Rightarrow>
        map_option (\<lambda>context_before. \<lparr>ex_external_id = ext, ex_start = a, ex_end = b,
                                     ex_kind = classify_relationship context_before ext\<rparr>)
          (str_slice text (a - context_chars) a))"

definition extract_with_kind ::
    "(string \<Rightarrow> (nat \<times> nat) list) \<Rightarrow> string \<Rightarrow> nat \<Rightarrow> extracted_reference list option" where
  "extract_with_kind find_iter text context_chars =
     those (map (classify_reference text context_chars) (extract_ticket_references find_iter text))"

definition snapshot_reference_text :: "(string \<Rightarrow> string \<Rightarrow> string option) \<Rightarrow> snapshot_rec \<Rightarrow> string" where
  "snapshot_reference_text json_str s =
     concat (map (\<lambda>field. case json_str (normalized_json s) field of None \<Rightarrow> [] | Some v \<Rightarrow> v @ [CHR 0x0A])
               [''description'', ''notification_text''])"

section \<open>Recording edges\<close>

text \<open>A loop that adds up counts and returns at the first error, keeping the state reached.\<close>

fun sum_ops :: "('s \<Rightarrow> ('e + nat) \<times> 's) list \<Rightarrow> 's \<Rightarrow> ('e + nat) \<times> 's" where
  "sum_ops [] s = (Inr 0, s)"
| "sum_ops (f # fs) s =
     (case f s of
        (Inl e, s') \<Rightarrow> (Inl e, s')
      | (Inr n, s') \<Rightarrow>
          (case sum_ops fs s' of (Inl e, s'') \<Rightarrow> (Inl e, s'') | (Inr m, s'') \<Rightarrow> (Inr (n + m), s'')))"

definition counting :: "('e + bool) \<times> 's \<Rightarrow> ('e + nat) \<times> 's" where
  "counting r = (case r of (Inl e, s) \<Rightarrow> (Inl e, s) | (Inr b, s) \<Rightarrow> (Inr (if b then 1 else 0), s))"

definition text_edge :: "ticket_db \<Rightarrow> string \<Rightarrow> string \<Rightarrow> event_rec \<Rightarrow> snapshot_rec \<Rightarrow> extracted_reference \<Rightarrow> ticket_relationship" where
  "text_edge db source_kind created event latest r =
     \<lparr>rel_id = 0, from_event_id = er_id event,
      to_event_id = map_option er_id (get_event_by_external db source_kind (ex_external_id r)),
      to_external_id = ex_external_id r, relationship_kind = ex_kind r,
      evidence_kind = ''ExplicitTicketText'', source_snapshot_id = Some (sn_id latest),
      source_document_id = None, reviewed_status = ''Unreviewed'',
      rel_note = Some (''extracted from snapshot '' @ show_int (sn_id latest) @ '' at bytes ''
                       @ show_nat (ex_start r) @ ''..'' @ show_nat (ex_end r)),
      created_utc = created\<rparr>"

definition record_reference ::
    "string \<Rightarrow> string \<Rightarrow> event_rec \<Rightarrow> snapshot_rec \<Rightarrow> extracted_reference \<Rightarrow> ticket_db
       \<Rightarrow> (catalog_error + nat) \<times> ticket_db" where
  "record_reference source_kind created event latest r db =
     (if ex_external_id r = er_external_id event then (Inr 0, db)
      else if has_reviewed_edge db (er_id event) (ex_external_id r) then (Inr 0, db)
      else counting (insert_relationship (text_edge db source_kind created event latest r) db))"

definition event_references ::
    "(string \<Rightarrow> (nat \<times> nat) list) \<Rightarrow> (string \<Rightarrow> string \<Rightarrow> string option) \<Rightarrow> string \<Rightarrow> corpus \<Rightarrow> event_rec
       \<Rightarrow> (snapshot_rec \<times> extracted_reference list option) option" where
  "event_references find_iter json_str source_kind c event =
     (if er_source_kind event \<noteq> source_kind then None
      else map_option (\<lambda>latest. (latest, extract_with_kind find_iter (snapshot_reference_text json_str latest) 120))
             (first (list_snapshots c (er_id event))))"

definition extract_event_relationships ::
    "(string \<Rightarrow> (nat \<times> nat) list) \<Rightarrow> (string \<Rightarrow> string \<Rightarrow> string option) \<Rightarrow> string \<Rightarrow> string \<Rightarrow> event_rec \<Rightarrow> ticket_db
       \<Rightarrow> (catalog_error + nat) \<times> ticket_db" where
  "extract_event_relationships find_iter json_str source_kind created event db =
     (case event_references find_iter json_str source_kind (td_corpus db) event of
        None \<Rightarrow> (Inr 0, db)
      | Some (latest, None) \<Rightarrow> (Inl SliceNotOnCharBoundary, db)
      | Some (latest, Some refs) \<Rightarrow> sum_ops (map (record_reference source_kind created event latest) refs) db)"

definition extract_relationships_from_snapshots ::
    "(string \<Rightarrow> (nat \<times> nat) list) \<Rightarrow> (string \<Rightarrow> string \<Rightarrow> string option) \<Rightarrow> string \<Rightarrow> string \<Rightarrow> ticket_db
       \<Rightarrow> (catalog_error + nat) \<times> ticket_db" where
  "extract_relationships_from_snapshots find_iter json_str source_kind created db =
     sum_ops (map (extract_event_relationships find_iter json_str source_kind created) (list_events (td_corpus db))) db"

definition overlap_edge :: "int \<Rightarrow> event_rec \<Rightarrow> string \<Rightarrow> string \<Rightarrow> ticket_relationship" where
  "overlap_edge from_ev to_ev why created =
     \<lparr>rel_id = 0, from_event_id = from_ev, to_event_id = Some (er_id to_ev),
      to_external_id = er_external_id to_ev, relationship_kind = ''TemporalOverlap'',
      evidence_kind = ''DerivedTemporalOverlap'', source_snapshot_id = None,
      source_document_id = None, reviewed_status = ''Unreviewed'', rel_note = Some why, created_utc = created\<rparr>"

definition record_temporal_overlap ::
    "int \<Rightarrow> int \<Rightarrow> string \<Rightarrow> string \<Rightarrow> ticket_db \<Rightarrow> (catalog_error + bool) \<times> ticket_db" where
  "record_temporal_overlap from_ev to_ev why created db =
     (case get_event db to_ev of
        None \<Rightarrow> (Inl (NoEventRow to_ev), db)
      | Some e \<Rightarrow> insert_relationship (overlap_edge from_ev e why created) db)"

definition snapshot_window ::
    "(string \<Rightarrow> string \<Rightarrow> string option) \<Rightarrow> string \<Rightarrow> corpus \<Rightarrow> event_rec \<Rightarrow> (int \<times> string \<times> string) option" where
  "snapshot_window json_str source_kind c event =
     (if er_source_kind event \<noteq> source_kind then None
      else Option.bind (first (list_snapshots c (er_id event))) (\<lambda>latest.
        let field = (\<lambda>f. case json_str (normalized_json latest) f of None \<Rightarrow> [] | Some v \<Rightarrow> v);
            win_start = field ''start'';
            win_end = field ''end''
        in if win_start = [] \<or> win_end = [] then None else Some (er_id event, win_start, win_end)))"

fun later_pairs :: "'a list \<Rightarrow> ('a \<times> 'a) list" where
  "later_pairs [] = []"
| "later_pairs (x # xs) = map (Pair x) xs @ later_pairs xs"

definition windows_overlap :: "(int \<times> string \<times> string) \<times> (int \<times> string \<times> string) \<Rightarrow> bool" where
  "windows_overlap w = (case w of ((a, a_start, a_end), (b, b_start, b_end)) \<Rightarrow> a_start < b_end \<and> b_start < a_end)"

definition overlap_note :: "(int \<times> string \<times> string) \<times> (int \<times> string \<times> string) \<Rightarrow> string" where
  "overlap_note w =
     (case w of ((a, a_start, a_end), (b, b_start, b_end)) \<Rightarrow>
        ''event windows overlap ('' @ a_start @ ''..'' @ a_end @ '') vs ('' @ b_start @ ''..'' @ b_end
        @ ''); overlap is not causal attribution'')"

definition record_overlap_pair ::
    "string \<Rightarrow> (int \<times> string \<times> string) \<times> (int \<times> string \<times> string) \<Rightarrow> ticket_db \<Rightarrow> (catalog_error + nat) \<times> ticket_db" where
  "record_overlap_pair created w =
     (if windows_overlap w
      then sum_ops
        [\<lambda>db. counting (record_temporal_overlap (fst (fst w)) (fst (snd w)) (overlap_note w) created db),
         \<lambda>db. counting (record_temporal_overlap (fst (snd w)) (fst (fst w)) (overlap_note w) created db)]
      else sum_ops [])"

definition derive_temporal_overlaps ::
    "(string \<Rightarrow> string \<Rightarrow> string option) \<Rightarrow> string \<Rightarrow> string \<Rightarrow> ticket_db \<Rightarrow> (catalog_error + nat) \<times> ticket_db" where
  "derive_temporal_overlaps json_str source_kind created db =
     sum_ops (map (record_overlap_pair created)
       (later_pairs (List.map_filter (snapshot_window json_str source_kind (td_corpus db)) (list_events (td_corpus db))))) db"

definition resolve_edge :: "string \<Rightarrow> ticket_relationship \<Rightarrow> nat \<times> ticket_db \<Rightarrow> nat \<times> ticket_db" where
  "resolve_edge source_kind edge r =
     (case r of (resolved, db) \<Rightarrow>
        if to_event_id edge \<noteq> None then (resolved, db)
        else (case get_event_by_external db source_kind (to_external_id edge) of
                None \<Rightarrow> (resolved, db)
              | Some event \<Rightarrow> (resolved + 1, db\<lparr>ticket_relationships :=
                  map (\<lambda>x. if rel_id x = rel_id edge then x\<lparr>to_event_id := Some (er_id event)\<rparr> else x)
                    (ticket_relationships db)\<rparr>)))"

definition resolve_unresolved_edges :: "string \<Rightarrow> ticket_db \<Rightarrow> nat \<times> ticket_db" where
  "resolve_unresolved_edges source_kind db = fold (resolve_edge source_kind) (list_relationships db None) (0, db)"

section \<open>Traversal\<close>

text \<open>The loop state is the visited set and the stack; the head of the list is the element that
  \<open>Vec::pop\<close> takes.\<close>

type_synonym traversal = "int set \<times> (int \<times> nat) list"

definition push_unvisited :: "nat \<Rightarrow> int \<Rightarrow> traversal \<Rightarrow> traversal" where
  "push_unvisited depth n s =
     (case s of (visited, frontier) \<Rightarrow>
        if n \<in> visited then (visited, frontier) else (insert n visited, (n, depth + 1) # frontier))"

definition traverse_step :: "(int \<Rightarrow> int list) \<Rightarrow> nat \<Rightarrow> traversal \<Rightarrow> traversal" where
  "traverse_step neighbors max_depth s =
     (case s of
        (visited, []) \<Rightarrow> (visited, [])
      | (visited, (current, depth) # frontier) \<Rightarrow>
          if max_depth \<le> depth then (visited, frontier)
          else fold (push_unvisited depth) (neighbors current) (visited, frontier))"

definition bounded_neighbors :: "ticket_relationship list \<Rightarrow> int \<Rightarrow> nat \<Rightarrow> int set option" where
  "bounded_neighbors rows event_id max_depth =
     map_option (\<lambda>s. fst s - {event_id})
       (while_option (\<lambda>s. snd s \<noteq> []) (traverse_step (relationship_neighbors rows) max_depth)
          ({event_id}, [(event_id, 0)]))"

section \<open>Correctness of the traversal\<close>

inductive hops :: "(int \<Rightarrow> int list) \<Rightarrow> int \<Rightarrow> nat \<Rightarrow> int \<Rightarrow> bool" for neighbors src_ev where
  hops_start: "hops neighbors src_ev 0 src_ev"
| hops_next: "hops neighbors src_ev k m \<Longrightarrow> n \<in> set (neighbors m) \<Longrightarrow> hops neighbors src_ev (Suc k) n"

inductive_cases hops_SucE: "hops neighbors src_ev (Suc k) n"
inductive_simps hops_0 [simp]: "hops neighbors src_ev 0 n"

lemma push_unvisited_simps [simp]:
  "n \<in> V \<Longrightarrow> push_unvisited d n (V, F) = (V, F)"
  "n \<notin> V \<Longrightarrow> push_unvisited d n (V, F) = (insert n V, (n, Suc d) # F)"
  by (simp_all add: push_unvisited_def)

lemma fold_push_unvisited:
  assumes "finite V"
  shows "\<exists>P. fold (push_unvisited d) ns (V, F) = (V \<union> set ns, P @ F) \<and> fst ` set P = set ns - V
           \<and> snd ` set P \<subseteq> {d + 1} \<and> card (V \<union> set ns) = card V + length P"
  using assms
proof (induction ns arbitrary: V F)
  case Nil
  then show ?case by simp
next
  case (Cons n ns)
  show ?case
  proof (cases "n \<in> V")
    case True
    then show ?thesis using Cons.IH [OF Cons.prems, of F] by (auto simp: insert_absorb)
  next
    case False
    from Cons.IH [of "insert n V" "(n, d + 1) # F"] Cons.prems obtain P where
      P: "fold (push_unvisited d) ns (insert n V, (n, d + 1) # F) = (insert n V \<union> set ns, P @ (n, d + 1) # F)"
        "fst ` set P = set ns - insert n V" "snd ` set P \<subseteq> {d + 1}"
        "card (insert n V \<union> set ns) = card (insert n V) + length P" by auto
    show ?thesis
      by (rule exI [of _ "P @ [(n, d + 1)]"])
        (use P False Cons.prems in \<open>auto simp: image_Un\<close>)
  qed
qed

text \<open>What the traversal needs of the adjacency query: all ids it returns lie in a finite set.\<close>

locale adjacency =
  fixes neighbors :: "int \<Rightarrow> int list"
    and nodes :: "int set"
  assumes finite_nodes: "finite nodes"
    and neighbors_nodes: "set (neighbors m) \<subseteq> nodes"
begin

definition reached :: "int \<Rightarrow> nat \<Rightarrow> nat \<Rightarrow> traversal" where
  "reached src_ev D k = (traverse_step neighbors D ^^ k) ({src_ev}, [(src_ev, 0)])"

definition traversal_ok :: "int \<Rightarrow> nat \<Rightarrow> nat \<Rightarrow> traversal \<Rightarrow> bool" where
  "traversal_ok src_ev D k s =
     (case s of (V, F) \<Rightarrow>
        src_ev \<in> V \<and> V \<subseteq> insert src_ev nodes \<and> card V = k + length F
        \<and> (\<forall>n \<in> V. \<exists>d \<le> D. hops neighbors src_ev d n)
        \<and> (\<forall>(n, d) \<in> set F. n \<in> V \<and> d \<le> D \<and> d < card V \<and> hops neighbors src_ev d n)
        \<and> ((src_ev, 0) \<in> set F \<or> D = 0 \<or> set (neighbors src_ev) \<subseteq> V)
        \<and> (card (insert src_ev nodes) \<le> D \<longrightarrow> (\<forall>n \<in> V. n \<in> fst ` set F \<or> set (neighbors n) \<subseteq> V)))"

lemma traversal_okD:
  assumes "traversal_ok src_ev D k (V, F)"
  shows "src_ev \<in> V" "V \<subseteq> insert src_ev nodes" "card V = k + length F" "finite V"
    "n \<in> V \<Longrightarrow> \<exists>d \<le> D. hops neighbors src_ev d n"
    "(n, d) \<in> set F \<Longrightarrow> n \<in> V \<and> d \<le> D \<and> d < card V \<and> hops neighbors src_ev d n"
    "(src_ev, 0) \<in> set F \<or> D = 0 \<or> set (neighbors src_ev) \<subseteq> V"
    "card (insert src_ev nodes) \<le> D \<Longrightarrow> n \<in> V \<Longrightarrow> n \<in> fst ` set F \<or> set (neighbors n) \<subseteq> V"
    "card V \<le> card (insert src_ev nodes)"
proof -
  show sub: "V \<subseteq> insert src_ev nodes" using assms by (simp add: traversal_ok_def)
  with finite_nodes show "finite V" by (simp add: finite_subset)
  show "card V \<le> card (insert src_ev nodes)" using sub finite_nodes by (simp add: card_mono)
  show "n \<in> V \<Longrightarrow> \<exists>d \<le> D. hops neighbors src_ev d n"
    using assms unfolding traversal_ok_def by blast
  have "\<forall>(n, d) \<in> set F. n \<in> V \<and> d \<le> D \<and> d < card V \<and> hops neighbors src_ev d n"
    using assms unfolding traversal_ok_def prod.case by (elim conjE)
  then show "(n, d) \<in> set F \<Longrightarrow> n \<in> V \<and> d \<le> D \<and> d < card V \<and> hops neighbors src_ev d n"
    by (auto dest: bspec [of _ _ "(n, d)"])
  have "card (insert src_ev nodes) \<le> D \<longrightarrow> (\<forall>n \<in> V. n \<in> fst ` set F \<or> set (neighbors n) \<subseteq> V)"
    using assms unfolding traversal_ok_def by simp
  then show "card (insert src_ev nodes) \<le> D \<Longrightarrow> n \<in> V \<Longrightarrow> n \<in> fst ` set F \<or> set (neighbors n) \<subseteq> V"
    by (rule mp [THEN bspec])
qed (use assms in \<open>simp_all add: traversal_ok_def\<close>)

lemma traversal_ok_step:
  assumes ok: "traversal_ok src_ev D k (V, (c, d) # F)"
  shows "traversal_ok src_ev D (Suc k) (traverse_step neighbors D (V, (c, d) # F))"
proof (cases "D \<le> d")
  case True
  note okD = traversal_okD [OF ok]
  have "card (insert src_ev nodes) \<le> D \<longrightarrow> False" using True okD(6) [of c d] okD(9) by auto
  moreover have "(src_ev, 0) \<in> set F \<or> D = 0 \<or> set (neighbors src_ev) \<subseteq> V" using True okD(7) by auto
  ultimately have "traversal_ok src_ev D (Suc k) (V, F)"
    unfolding traversal_ok_def prod.case using okD(1,2,3,5,6) by auto
  then show ?thesis using True by (simp add: traverse_step_def)
next
  case False
  note okD = traversal_okD [OF ok]
  from fold_push_unvisited [OF okD(4), of d "neighbors c" F] obtain P where
    P: "fold (push_unvisited d) (neighbors c) (V, F) = (V \<union> set (neighbors c), P @ F)"
      "fst ` set P = set (neighbors c) - V" "snd ` set P \<subseteq> {d + 1}"
      "card (V \<union> set (neighbors c)) = card V + length P" by blast
  have new: "n \<in> set (neighbors c)" "n \<notin> V" "e = d + 1" "P \<noteq> []" if "(n, e) \<in> set P" for n e
    using P(2,3) that by force+
  have c: "hops neighbors src_ev d c" "d < card V" "c \<in> V" using okD(6) [of c d] by simp_all
  then have hop: "hops neighbors src_ev (d + 1) n" if "n \<in> set (neighbors c)" for n
    using that by (simp add: hops_next)
  have vis: "\<exists>e \<le> D. hops neighbors src_ev e n" if "n \<in> V \<union> set (neighbors c)" for n
    using that okD(5) [of n] hop [of n] False by (auto intro: exI [of _ "Suc d"])
  have front: "n \<in> V \<union> set (neighbors c) \<and> e \<le> D \<and> e < card (V \<union> set (neighbors c)) \<and> hops neighbors src_ev e n"
    if "(n, e) \<in> set (P @ F)" for n e
  proof (cases "(n, e) \<in> set P")
    case True
    then show ?thesis using new [OF True] hop [of n] False c(2) P(4) by (cases P) auto
  next
    case old: False
    then show ?thesis using that okD(6) [of n e] P(4) by auto
  qed
  have "traversal_ok src_ev D (Suc k) (V \<union> set (neighbors c), P @ F)"
    unfolding traversal_ok_def prod.case
  proof (intro conjI)
    show "V \<union> set (neighbors c) \<subseteq> insert src_ev nodes" using okD(2) neighbors_nodes [of c] by auto
    show "card (V \<union> set (neighbors c)) = Suc k + length (P @ F)" using okD(3) P(4) by simp
    show "(src_ev, 0) \<in> set (P @ F) \<or> D = 0 \<or> set (neighbors src_ev) \<subseteq> V \<union> set (neighbors c)"
      using okD(7) by auto
    show "card (insert src_ev nodes) \<le> D \<longrightarrow>
        (\<forall>n \<in> V \<union> set (neighbors c). n \<in> fst ` set (P @ F) \<or> set (neighbors n) \<subseteq> V \<union> set (neighbors c))"
      using okD(8) P(2) by (auto simp: image_Un)
  qed (use okD(1) vis front in auto)
  then show ?thesis using False P(1) by (simp add: traverse_step_def)
qed

lemma reached_ok:
  assumes "\<And>j. j < k \<Longrightarrow> snd (reached src_ev D j) \<noteq> []"
  shows "traversal_ok src_ev D k (reached src_ev D k)"
  using assms
proof (induction k)
  case 0
  show ?case by (auto simp: reached_def traversal_ok_def)
next
  case (Suc k)
  then have "traversal_ok src_ev D k (reached src_ev D k)" "snd (reached src_ev D k) \<noteq> []" by simp_all
  moreover have "reached src_ev D (Suc k) = traverse_step neighbors D (reached src_ev D k)"
    by (simp add: reached_def)
  ultimately show ?case
    by (cases "reached src_ev D k") (auto simp: neq_Nil_conv traversal_ok_step)
qed

lemma traversal_stops: "\<exists>k. snd (reached src_ev D k) = []"
proof (rule ccontr)
  assume never: "\<not> ?thesis"
  let ?n = "Suc (card (insert src_ev nodes))"
  have "traversal_ok src_ev D ?n (reached src_ev D ?n)" by (rule reached_ok) (use never in simp)
  then obtain V F where "traversal_ok src_ev D ?n (V, F)" by (metis prod.collapse)
  from traversal_okD(3,9) [OF this] show False by simp
qed

lemma traversal_result:
  "\<exists>V. while_option (\<lambda>s. snd s \<noteq> []) (traverse_step neighbors D) ({src_ev}, [(src_ev, 0)]) = Some (V, [])
     \<and> reached src_ev D (card V) = (V, []) \<and> (\<forall>j < card V. snd (reached src_ev D j) \<noteq> [])
     \<and> traversal_ok src_ev D (card V) (V, [])"
proof -
  define k where "k = (LEAST k. snd (reached src_ev D k) = [])"
  have stop: "snd (reached src_ev D k) = []" unfolding k_def by (rule LeastI_ex [OF traversal_stops])
  have run: "snd (reached src_ev D j) \<noteq> []" if "j < k" for j using that not_less_Least unfolding k_def by blast
  obtain V where V: "reached src_ev D k = (V, [])" using stop by (metis prod.collapse)
  then have ok: "traversal_ok src_ev D k (V, [])" using reached_ok [OF run] by metis
  then have "k = card V" by (simp add: traversal_ok_def)
  moreover have "while_option (\<lambda>s. snd s \<noteq> []) (traverse_step neighbors D) ({src_ev}, [(src_ev, 0)]) = Some (V, [])"
    using V stop unfolding while_option_def k_def reached_def by (metis (mono_tags, lifting))
  ultimately show ?thesis using V run ok by blast
qed

lemma closed_reaches:
  assumes "src_ev \<in> V" "\<And>n. n \<in> V \<Longrightarrow> set (neighbors n) \<subseteq> V" "hops neighbors src_ev k n"
  shows "n \<in> V"
  using assms(3) by induction (use assms(1,2) in auto)

end

definition related_ids :: "ticket_relationship list \<Rightarrow> int set" where
  "related_ids rows = set (map from_event_id rows) \<union> set (List.map_filter to_event_id rows)"

lemma set_relationship_neighbors:
  "set (relationship_neighbors rows ev) =
     {n. \<exists>r \<in> set rows. from_event_id r = ev \<and> to_event_id r = Some n \<or> from_event_id r = n \<and> to_event_id r = Some ev}"
  by (force simp: relationship_neighbors_def set_map_filter split: if_splits)

interpretation rel: adjacency "relationship_neighbors rows" "related_ids rows" for rows
proof unfold_locales
  show "finite (related_ids rows)" by (simp add: related_ids_def)
  show "set (relationship_neighbors rows m) \<subseteq> related_ids rows" for m
    by (auto simp: related_ids_def set_relationship_neighbors set_map_filter)
qed

lemma bounded_neighbors_run:
  "\<exists>V. bounded_neighbors rows ev D = Some (V - {ev}) \<and> rel.reached rows ev D (card V) = (V, [])
     \<and> (\<forall>j < card V. snd (rel.reached rows ev D j) \<noteq> []) \<and> rel.traversal_ok rows ev D (card V) (V, [])"
  using rel.traversal_result [of rows D ev] by (auto simp: bounded_neighbors_def)

lemma hops_1: "hops nb ev (Suc 0) n \<longleftrightarrow> n \<in> set (nb ev)"
  by (auto elim: hops_SucE intro: hops_next hops_start)

text \<open>C34: The traversal ends, after one iteration per event it visits, however large the
  depth and whatever cycles the graph has.\<close>

theorem bounded_neighbors_terminates:
  "\<exists>S. bounded_neighbors rows ev D = Some S \<and> S \<subseteq> related_ids rows - {ev}
     \<and> snd ((traverse_step (relationship_neighbors rows) D ^^ Suc (card S)) ({ev}, [(ev, 0)])) = []
     \<and> (\<forall>j < Suc (card S). snd ((traverse_step (relationship_neighbors rows) D ^^ j) ({ev}, [(ev, 0)])) \<noteq> [])"
proof -
  obtain V where V: "bounded_neighbors rows ev D = Some (V - {ev})" "rel.reached rows ev D (card V) = (V, [])"
    "\<forall>j < card V. snd (rel.reached rows ev D j) \<noteq> []" "rel.traversal_ok rows ev D (card V) (V, [])"
    using bounded_neighbors_run [of rows ev D] by blast
  note ok = rel.traversal_okD [OF V(4)]
  have card: "Suc (card (V - {ev})) = card V" by (rule card_Suc_Diff1 [OF ok(4) ok(1)])
  show ?thesis
    by (rule exI [of _ "V - {ev}"], unfold card) (use V(1-3) ok(2) in \<open>auto simp: rel.reached_def\<close>)
qed

text \<open>C35: Every id the traversal returns is within the depth; at depth one, and at
  a depth of at least the number of related events, it returns all of them.\<close>

theorem bounded_neighbors_reach:
  assumes "bounded_neighbors rows ev D = Some S"
  shows "(\<forall>n \<in> S. n \<noteq> ev \<and> (\<exists>d \<le> D. hops (relationship_neighbors rows) ev d n))
    \<and> (D = 1 \<longrightarrow> S = {n. n \<noteq> ev \<and> hops (relationship_neighbors rows) ev 1 n})
    \<and> (card (insert ev (related_ids rows)) \<le> D \<longrightarrow> S = {n. n \<noteq> ev \<and> (\<exists>d. hops (relationship_neighbors rows) ev d n)})"
proof -
  obtain V where "bounded_neighbors rows ev D = Some (V - {ev})" and V: "rel.traversal_ok rows ev D (card V) (V, [])"
    using bounded_neighbors_run [of rows ev D] by blast
  with assms have S: "S = V - {ev}" by simp
  note ok = rel.traversal_okD [OF V]
  have near: "\<forall>n \<in> S. n \<noteq> ev \<and> (\<exists>d \<le> D. hops (relationship_neighbors rows) ev d n)"
    unfolding S using ok(5) by auto
  moreover have "D = 1 \<longrightarrow> S = {n. n \<noteq> ev \<and> hops (relationship_neighbors rows) ev 1 n}"
  proof
    assume D: "D = 1"
    with near have "\<forall>n \<in> S. n \<noteq> ev \<and> hops (relationship_neighbors rows) ev 1 n"
      by (metis One_nat_def hops_0 le_Suc_eq le_zero_eq)
    moreover have "n \<in> V" if "hops (relationship_neighbors rows) ev 1 n" for n
      using that ok(7) D by (auto simp: hops_1)
    ultimately show "S = {n. n \<noteq> ev \<and> hops (relationship_neighbors rows) ev 1 n}" unfolding S by blast
  qed
  moreover have "card (insert ev (related_ids rows)) \<le> D \<longrightarrow> S = {n. n \<noteq> ev \<and> (\<exists>d. hops (relationship_neighbors rows) ev d n)}"
  proof
    assume D: "card (insert ev (related_ids rows)) \<le> D"
    have "set (relationship_neighbors rows n) \<subseteq> V" if "n \<in> V" for n using ok(8) [OF D that] by simp
    then have "n \<in> V" if "hops (relationship_neighbors rows) ev d n" for d n
      by (rule rel.closed_reaches [OF ok(1) _ that])
    with near show "S = {n. n \<noteq> ev \<and> (\<exists>d. hops (relationship_neighbors rows) ev d n)}" unfolding S by blast
  qed
  ultimately show ?thesis by blast
qed

definition edge_between :: "int \<Rightarrow> int \<Rightarrow> ticket_relationship" where
  "edge_between a b =
     \<lparr>rel_id = 10 * a + b, from_event_id = a, to_event_id = Some b, to_external_id = show_int b,
      relationship_kind = ''References'', evidence_kind = ''ExplicitTicketText'', source_snapshot_id = None,
      source_document_id = None, reviewed_status = ''Unreviewed'', rel_note = None, created_utc = ''2026''\<rparr>"

definition sample_edges :: "ticket_relationship list" where
  "sample_edges = [edge_between 1 2, edge_between 1 3, edge_between 3 4, edge_between 4 5, edge_between 2 5, edge_between 5 6]"

lemma sample_neighbors:
  "relationship_neighbors sample_edges 1 = [2, 3]" "relationship_neighbors sample_edges 2 = [1, 5]"
  "relationship_neighbors sample_edges 3 = [1, 4]" "relationship_neighbors sample_edges 4 = [3, 5]"
  "relationship_neighbors sample_edges 5 = [2, 4, 6]" "relationship_neighbors sample_edges 6 = [5]"
  by (simp_all add: relationship_neighbors_def sample_edges_def edge_between_def List.map_filter_def)

lemma sample_traversals:
  "bounded_neighbors sample_edges 1 3 = Some {2, 3, 4, 5}"
  "bounded_neighbors sample_edges 1 1 = Some {2, 3}"
  by (auto simp: bounded_neighbors_def while_option_unfold traverse_step_def push_unvisited_def sample_neighbors)

theorem bounded_neighbors_terminates_witness:
  "snd ((traverse_step (relationship_neighbors sample_edges) 3 ^^ 5) ({1}, [(1, 0)])) = []
   \<and> snd ((traverse_step (relationship_neighbors sample_edges) 3 ^^ 4) ({1}, [(1, 0)])) \<noteq> []"
proof -
  obtain S where S: "bounded_neighbors sample_edges 1 3 = Some S"
    "snd ((traverse_step (relationship_neighbors sample_edges) 3 ^^ Suc (card S)) ({1}, [(1, 0)])) = []"
    "\<forall>j < Suc (card S). snd ((traverse_step (relationship_neighbors sample_edges) 3 ^^ j) ({1}, [(1, 0)])) \<noteq> []"
    using bounded_neighbors_terminates [of sample_edges 1 3] by blast
  have "S = {2, 3, 4, 5}" using S(1) by (simp add: sample_traversals(1))
  then have "Suc (card S) = 5" by simp
  moreover from this have "4 < Suc (card S)" by simp
  ultimately show ?thesis using S(2,3) by metis
qed

theorem bounded_neighbors_reach_witness:
  "bounded_neighbors sample_edges 1 1 = Some {2, 3}
   \<and> {2, 3} = {n. n \<noteq> 1 \<and> hops (relationship_neighbors sample_edges) 1 1 n}"
  using bounded_neighbors_reach [OF sample_traversals(2)] sample_traversals(2) by blast

text \<open>The stack makes the traversal depth first, so an event first met
  on a longer path is not expanded again on a shorter one: an event three hops away is missing from
  the traversal of depth three.\<close>

theorem bounded_neighbors_misses_near_event:
  "bounded_neighbors sample_edges 1 3 = Some {2, 3, 4, 5} \<and> hops (relationship_neighbors sample_edges) 1 3 6"
proof
  have "hops (relationship_neighbors sample_edges) 1 (Suc 0) 2"
    by (rule hops_next [OF hops_start]) (simp add: sample_neighbors)
  then have "hops (relationship_neighbors sample_edges) 1 (Suc (Suc 0)) 5"
    by (rule hops_next) (simp add: sample_neighbors)
  then have "hops (relationship_neighbors sample_edges) 1 (Suc (Suc (Suc 0))) 6"
    by (rule hops_next) (simp add: sample_neighbors)
  then show "hops (relationship_neighbors sample_edges) 1 3 6" by (simp add: eval_nat_numeral)
qed (rule sample_traversals)

section \<open>Correctness of the recording of edges\<close>

lemma next_rowid_fresh: "next_rowid ids \<notin> set ids"
  by (auto simp: next_rowid_def dest: Max_ge [rotated])

text \<open>Operations that only add to a state, and what their second run finds.\<close>

locale growing_state =
  fixes grows :: "'s \<Rightarrow> 's \<Rightarrow> bool"
  assumes grows_refl: "grows s s"
    and grows_trans: "grows s t \<Longrightarrow> grows t u \<Longrightarrow> grows s u"
begin

lemma sum_ops_grows:
  assumes "\<And>f s. f \<in> set fs \<Longrightarrow> grows s (snd (f s))"
  shows "grows s (snd (sum_ops fs s))"
  using assms
proof (induction fs arbitrary: s)
  case (Cons f fs)
  have "grows s (snd (f s))" "grows (snd (f s)) (snd (sum_ops fs (snd (f s))))"
    using Cons by simp_all
  then show ?case by (auto split: prod.splits sum.splits intro: grows_trans)
qed (simp add: grows_refl)

lemma sum_ops_settles:
  assumes grow: "\<And>x s. x \<in> set xs \<Longrightarrow> grows s (snd (f x s))"
    and settle: "\<And>x s n s1 s2. x \<in> set xs \<Longrightarrow> f x s = (Inr n, s1) \<Longrightarrow> grows s1 s2 \<Longrightarrow> g x s2 = (Inr 0, s2)"
    and run: "sum_ops (map f xs) s = (Inr n, s1)" and later: "grows s1 s2"
  shows "sum_ops (map g xs) s2 = (Inr 0, s2)"
  using assms
proof (induction xs arbitrary: s n)
  case (Cons x xs)
  from Cons.prems(3) obtain a t b where head: "f x s = (Inr a, t)" and rest: "sum_ops (map f xs) t = (Inr b, s1)"
    by (auto split: prod.splits sum.splits)
  have "grows t (snd (sum_ops (map f xs) t))" by (rule sum_ops_grows) (use Cons.prems(1) in auto)
  then have "grows t s2" using rest Cons.prems(4) grows_trans by auto
  with head have "g x s2 = (Inr 0, s2)" using Cons.prems(2) [of x s a t s2] by simp
  moreover have "sum_ops (map g xs) s2 = (Inr 0, s2)"
    by (rule Cons.IH [OF _ _ rest Cons.prems(4)]) (simp add: Cons.prems(1), rule Cons.prems(2), simp_all)
  ultimately show ?case by simp
qed simp

end

text \<open>Rows of a kind are appended; nothing else changes.\<close>

definition appends :: "(ticket_relationship \<Rightarrow> bool) \<Rightarrow> ticket_db \<Rightarrow> ticket_db \<Rightarrow> bool" where
  "appends P db db' \<longleftrightarrow>
     (\<exists>rows. db' = db\<lparr>ticket_relationships := ticket_relationships db @ rows\<rparr> \<and> (\<forall>r \<in> set rows. P r))"

lemma appends_trans: "appends P db db' \<Longrightarrow> appends P db' db'' \<Longrightarrow> appends P db db''"
  unfolding appends_def
proof (elim exE conjE)
  fix r r'
  assume "db' = db\<lparr>ticket_relationships := ticket_relationships db @ r\<rparr>" "\<forall>x \<in> set r. P x"
    "db'' = db'\<lparr>ticket_relationships := ticket_relationships db' @ r'\<rparr>" "\<forall>x \<in> set r'. P x"
  then show "\<exists>rows. db'' = db\<lparr>ticket_relationships := ticket_relationships db @ rows\<rparr> \<and> (\<forall>x \<in> set rows. P x)"
    by (intro exI [of _ "r @ r'"]) auto
qed

lemma appends_refl: "appends P db db"
  by (auto simp: appends_def intro!: exI [of _ "[]"])

interpretation edge_log: growing_state "appends P" for P
  by unfold_locales (auto intro: appends_refl appends_trans)

lemma appends_corpus: "appends P db db' \<Longrightarrow> td_corpus db' = td_corpus db"
  by (auto simp: appends_def)

lemma appends_rows: "appends P db db' \<Longrightarrow> set (ticket_relationships db) \<subseteq> set (ticket_relationships db')"
  by (auto simp: appends_def)

lemma appends_insert: "P e \<Longrightarrow> (\<And>i. P e \<Longrightarrow> P (e\<lparr>rel_id := i\<rparr>)) \<Longrightarrow> appends P db (snd (insert_relationship e db))"
  by (auto simp: insert_relationship_def appends_refl) (auto simp: appends_def)

lemma snd_counting [simp]: "snd (counting r) = snd r"
  by (auto simp: counting_def split: prod.splits sum.splits)

lemma insert_again:
  assumes "insert_relationship e db = (Inr b, db')" "appends P db' db''" "dedup_key e' = dedup_key e"
  shows "insert_relationship e' db'' = (Inr False, db'')"
proof -
  have key: "dedup_key (e\<lparr>rel_id := i\<rparr>) = dedup_key e" for i by (simp add: dedup_key_def)
  then have "dedup_key e \<in> dedup_key ` set (ticket_relationships db')"
    using assms(1) by (auto simp: insert_relationship_def key split: if_splits)
  then have "dedup_key e \<in> dedup_key ` set (ticket_relationships db'')" using appends_rows [OF assms(2)] by auto
  then show ?thesis using assms(3) by (simp add: insert_relationship_def)
qed

subsection \<open>Extraction from snapshots\<close>

lemma has_reviewed_edge_iff:
  "has_reviewed_edge db a ext \<longleftrightarrow>
     (\<exists>r \<in> set (ticket_relationships db). from_event_id r = a \<and> to_external_id r = ext \<and> reviewed_status r \<noteq> ''Unreviewed'')"
  by (auto simp: has_reviewed_edge_def filter_empty_conv)

text \<open>What a row that the extraction adds to \<^term>\<open>db\<close> is.\<close>

definition text_row ::
    "(string \<Rightarrow> (nat \<times> nat) list) \<Rightarrow> (string \<Rightarrow> string \<Rightarrow> string option) \<Rightarrow> string \<Rightarrow> string \<Rightarrow> ticket_db
       \<Rightarrow> ticket_relationship \<Rightarrow> bool" where
  "text_row find_iter json_str source_kind created db r \<longleftrightarrow>
     (\<exists>event latest refs x i. event \<in> set (co_events (td_corpus db)) \<and> er_source_kind event = source_kind
        \<and> first (list_snapshots (td_corpus db) (er_id event)) = Some latest
        \<and> extract_with_kind find_iter (snapshot_reference_text json_str latest) 120 = Some refs \<and> x \<in> set refs
        \<and> ex_external_id x \<noteq> er_external_id event
        \<and> \<not> has_reviewed_edge db (er_id event) (ex_external_id x)
        \<and> r = (text_edge db source_kind created event latest x)\<lparr>rel_id := i\<rparr>)"

lemma set_list_events [simp]: "set (list_events c) = set (co_events c)"
  by (simp add: list_events_def)

lemma text_row_Unreviewed: "text_row f j s t db r \<Longrightarrow> reviewed_status r = ''Unreviewed''"
  by (auto simp: text_row_def text_edge_def)

lemma text_edge_cong: "td_corpus db' = td_corpus db \<Longrightarrow> text_edge db' = text_edge db"
  by (simp add: text_edge_def get_event_by_external_def fun_eq_iff)

lemma text_row_later:
  assumes "appends (text_row f j s t db0) db0 db"
  shows "text_row f j s t db = text_row f j s t db0"
proof -
  obtain rows where rows: "db = db0\<lparr>ticket_relationships := ticket_relationships db0 @ rows\<rparr>"
    "\<forall>r \<in> set rows. text_row f j s t db0 r"
    using assms by (auto simp: appends_def)
  then have "\<forall>r \<in> set rows. reviewed_status r = ''Unreviewed''" using text_row_Unreviewed by blast
  with rows(1) have rev: "has_reviewed_edge db = has_reviewed_edge db0"
    by (intro ext) (simp add: has_reviewed_edge_iff bex_Un)
  note corpus = appends_corpus [OF assms]
  show ?thesis by (intro ext) (simp only: text_row_def rev corpus text_edge_cong [OF corpus])
qed

lemma record_reference_appends:
  assumes ok: "appends (text_row f j s t db0) db0 db"
    and ev: "event \<in> set (co_events (td_corpus db0))" "event_references f j s (td_corpus db0) event = Some (latest, Some refs)"
    and x: "x \<in> set refs"
  shows "appends (text_row f j s t db0) db (snd (record_reference s t event latest x db))"
proof -
  have row: "text_row f j s t db ((text_edge db s t event latest x)\<lparr>rel_id := i\<rparr>)"
    if "ex_external_id x \<noteq> er_external_id event" "\<not> has_reviewed_edge db (er_id event) (ex_external_id x)" for i
    unfolding text_row_def
    by (rule exI [of _ event], rule exI [of _ latest], rule exI [of _ refs], rule exI [of _ x], rule exI [of _ i])
      (use that ev x appends_corpus [OF ok] in \<open>auto simp: event_references_def split: if_splits\<close>)
  have "appends (text_row f j s t db0) db (snd (insert_relationship (text_edge db s t event latest x) db))"
    if "ex_external_id x \<noteq> er_external_id event" "\<not> has_reviewed_edge db (er_id event) (ex_external_id x)"
    using that row text_row_later [OF ok]
    by (auto simp: insert_relationship_def appends_refl) (auto simp: appends_def)
  then show ?thesis by (auto simp: record_reference_def appends_refl)
qed

lemma record_reference_settles:
  assumes run: "record_reference s t event latest x db = (Inr n, db1)" and later: "appends P db1 db2"
  shows "record_reference s t' event latest x db2 = (Inr 0, db2)"
proof (cases "ex_external_id x = er_external_id event \<or> has_reviewed_edge db2 (er_id event) (ex_external_id x)")
  case True
  then show ?thesis by (auto simp: record_reference_def)
next
  case False
  have "\<not> has_reviewed_edge db (er_id event) (ex_external_id x)"
  proof
    assume "has_reviewed_edge db (er_id event) (ex_external_id x)"
    with run False have "db1 = db" by (auto simp: record_reference_def split: if_splits)
    with \<open>has_reviewed_edge db (er_id event) (ex_external_id x)\<close> False appends_rows [OF later] show False
      by (auto simp: has_reviewed_edge_iff)
  qed
  with run False obtain b where "insert_relationship (text_edge db s t event latest x) db = (Inr b, db1)"
    by (auto simp: record_reference_def counting_def split: prod.splits sum.splits if_splits)
  moreover have "dedup_key (text_edge db2 s t' event latest x) = dedup_key (text_edge db s t event latest x)"
    by (simp add: dedup_key_def text_edge_def)
  ultimately have "insert_relationship (text_edge db2 s t' event latest x) db2 = (Inr False, db2)"
    by (rule insert_again [OF _ later])
  with False show ?thesis by (simp add: record_reference_def counting_def)
qed

lemma extract_event_appends:
  assumes "appends (text_row f j s t db0) db0 db" "event \<in> set (co_events (td_corpus db0))"
  shows "appends (text_row f j s t db0) db (snd (extract_event_relationships f j s t event db))"
proof (cases "event_references f j s (td_corpus db) event")
  case None
  then show ?thesis by (simp add: extract_event_relationships_def appends_refl)
next
  case (Some a)
  obtain latest ms where a: "a = (latest, ms)" by (cases a)
  show ?thesis
  proof (cases ms)
    case None
    then show ?thesis using Some a by (simp add: extract_event_relationships_def appends_refl)
  next
    case refs: (Some refs)
    have "appends (text_row f j s t db0) db (snd (sum_ops (map (record_reference s t event latest) xs) db))"
      if "set xs \<subseteq> set refs" "appends (text_row f j s t db0) db0 db" for xs db
      using that
    proof (induction xs arbitrary: db)
      case (Cons x xs)
      have one: "appends (text_row f j s t db0) db (snd (record_reference s t event latest x db))"
        by (rule record_reference_appends [OF Cons.prems(2) assms(2), where refs = refs])
          (use Some a refs appends_corpus [OF assms(1)] Cons.prems(1) in auto)
      from Cons.IH [OF _ appends_trans [OF Cons.prems(2) one]] Cons.prems(1)
      show ?case using one by (auto split: prod.splits sum.splits intro: appends_trans)
    qed (simp add: appends_refl)
    then show ?thesis using Some a refs assms(1) by (simp add: extract_event_relationships_def)
  qed
qed

lemma extract_events_append:
  assumes "appends (text_row f j s t db0) db0 db" "set evs \<subseteq> set (co_events (td_corpus db0))"
  shows "appends (text_row f j s t db0) db (snd (sum_ops (map (extract_event_relationships f j s t) evs) db))"
  using assms
proof (induction evs arbitrary: db)
  case (Cons e evs)
  have one: "appends (text_row f j s t db0) db (snd (extract_event_relationships f j s t e db))"
    by (rule extract_event_appends [OF Cons.prems(1)]) (use Cons.prems(2) in simp)
  from Cons.IH [OF appends_trans [OF Cons.prems(1) one]] Cons.prems(2)
  show ?case using one by (auto split: prod.splits sum.splits intro: appends_trans)
qed (simp add: appends_refl)


lemma appends_any: "appends P db db' \<Longrightarrow> appends (\<lambda>_. True) db db'"
  by (auto simp: appends_def)

lemma record_reference_grows: "appends (\<lambda>_. True) db (snd (record_reference s t event latest x db))"
  by (auto simp: record_reference_def appends_refl intro!: appends_insert)

lemma extract_event_grows: "appends (\<lambda>_. True) db (snd (extract_event_relationships f j s t event db))"
  by (auto simp: extract_event_relationships_def appends_refl record_reference_grows
      intro!: edge_log.sum_ops_grows split: option.splits)

lemma extract_event_settles:
  assumes run: "extract_event_relationships f j s t event db = (Inr n, db1)" and later: "appends (\<lambda>_. True) db1 db2"
  shows "extract_event_relationships f j s t' event db2 = (Inr 0, db2)"
proof -
  have "td_corpus db1 = td_corpus db" using appends_corpus [OF extract_event_grows [of db f j s t event]] run by simp
  then have corpus: "td_corpus db2 = td_corpus db" using appends_corpus [OF later] by simp
  show ?thesis
  proof (cases "event_references f j s (td_corpus db) event")
    case None
    then show ?thesis by (simp add: extract_event_relationships_def corpus)
  next
    case (Some a)
    obtain latest ms where a: "a = (latest, ms)" by (cases a)
    from run Some a obtain refs where refs: "ms = Some refs"
      and ops: "sum_ops (map (record_reference s t event latest) refs) db = (Inr n, db1)"
      by (auto simp: extract_event_relationships_def split: option.splits)
    have "sum_ops (map (record_reference s t' event latest) refs) db2 = (Inr 0, db2)"
      by (rule edge_log.sum_ops_settles [OF record_reference_grows _ ops later]) (rule record_reference_settles)
    then show ?thesis using Some a refs by (simp add: extract_event_relationships_def corpus)
  qed
qed

lemma extraction_grows: "appends (\<lambda>_. True) db (snd (extract_relationships_from_snapshots f j s t db))"
  unfolding extract_relationships_from_snapshots_def
  by (rule edge_log.sum_ops_grows) (auto simp: extract_event_grows)

text \<open>Extraction is idempotent: after a successful run, another one, at any
  later time, finds nothing new and leaves the database as it is.\<close>

theorem extraction_idempotent:
  assumes "extract_relationships_from_snapshots find_iter json_str source_kind created db = (Inr n, db')"
  shows "extract_relationships_from_snapshots find_iter json_str source_kind created' db' = (Inr 0, db')"
proof -
  have "snd (extract_relationships_from_snapshots find_iter json_str source_kind created db) = db'" using assms by simp
  then have corpus: "td_corpus db' = td_corpus db"
    using extraction_grows [of db find_iter json_str source_kind created] by (auto dest: appends_corpus)
  show ?thesis
    unfolding extract_relationships_from_snapshots_def corpus
    by (rule edge_log.sum_ops_settles [OF extract_event_grows _ assms [unfolded extract_relationships_from_snapshots_def]])
      (rule extract_event_settles, auto simp: appends_refl)
qed

subsection \<open>Slices of the text\<close>

lemma those_None_iff: "those xs = None \<longleftrightarrow> None \<in> set xs"
  by (induction xs) (auto split: option.splits)

lemma is_char_boundary_ascii:
  assumes "\<forall>c \<in> set s. (of_char c :: nat) < 128" "i \<le> length s"
  shows "is_char_boundary s i"
proof (cases "i < length s")
  case True
  then have "(of_char (s ! i) :: nat) < 128" using assms(1) by simp
  then show ?thesis using True by (simp add: is_char_boundary_def)
qed (use assms(2) in \<open>simp add: is_char_boundary_def\<close>)

lemma extract_with_kind_None_iff:
  assumes "\<forall>(a, b) \<in> set (find_iter text). is_char_boundary text a"
  shows "extract_with_kind find_iter text n = None \<longleftrightarrow> (\<exists>(a, b) \<in> set (find_iter text). \<not> is_char_boundary text (a - n))"
proof -
  have "classify_reference text n (ext, a, b) = None \<longleftrightarrow> \<not> is_char_boundary text (a - n)"
    if "(a, b) \<in> set (find_iter text)" for a b ext
    using assms that by (auto simp: classify_reference_def str_slice_def)
  moreover have "extract_with_kind find_iter text n = None
      \<longleftrightarrow> (\<exists>(a, b) \<in> set (find_iter text). classify_reference text n (take (b - a) (drop a text), a, b) = None)"
    by (auto simp: extract_with_kind_def extract_ticket_references_def those_None_iff image_iff split_beta)
      (force simp: eq_commute)+
  ultimately show ?thesis unfolding Bex_def split_paired_Ex prod.case by blast
qed

text \<open>The context before an identifier is cut at a byte offset, so the
  extraction panics exactly when that offset falls inside a character of several bytes before some
  identifier; on ASCII text it never does. The matches of a regex start at character boundaries.\<close>

theorem extraction_panics_iff_context_splits_char:
  assumes "\<forall>(a, b) \<in> set (find_iter text). a \<le> length text \<and> is_char_boundary text a"
  shows "(extract_with_kind find_iter text n = None
          \<longleftrightarrow> (\<exists>(a, b) \<in> set (find_iter text). \<not> is_char_boundary text (a - n)))
     \<and> ((\<forall>c \<in> set text. (of_char c :: nat) < 128) \<longrightarrow> extract_with_kind find_iter text n \<noteq> None)"
proof -
  have iff: "extract_with_kind find_iter text n = None
          \<longleftrightarrow> (\<exists>(a, b) \<in> set (find_iter text). \<not> is_char_boundary text (a - n))"
    by (rule extract_with_kind_None_iff) (use assms in fast)
  moreover have "extract_with_kind find_iter text n \<noteq> None" if ascii: "\<forall>c \<in> set text. (of_char c :: nat) < 128"
  proof -
    have "is_char_boundary text (a - n)" if ab: "(a, b) \<in> set (find_iter text)" for a b
    proof (rule is_char_boundary_ascii [OF ascii])
      show "a - n \<le> length text" using assms ab by auto
    qed
    then show ?thesis unfolding iff by fast
  qed
  ultimately show ?thesis by blast
qed

definition sample_text :: string where
  "sample_text = [CHR 0xC3, CHR 0xA9] @ replicate 119 (CHR '' '') @ ''INC0040257''"

definition sample_find :: "string \<Rightarrow> (nat \<times> nat) list" where
  "sample_find s = (if s = sample_text then [(121, 131)] else [])"

theorem extraction_panics_witness:
  "list_all (\<lambda>(a, b). a \<le> length sample_text \<and> is_char_boundary sample_text a) (sample_find sample_text)
   \<and> extract_with_kind sample_find sample_text 120 = None"
proof -
  have pre: "\<forall>(a, b) \<in> set (sample_find sample_text). a \<le> length sample_text \<and> is_char_boundary sample_text a"
    by (simp add: sample_find_def sample_text_def is_char_boundary_def nth_append)
  moreover have "\<not> is_char_boundary sample_text (121 - 120)"
    by (simp add: sample_text_def is_char_boundary_def)
  then have "\<exists>(a, b) \<in> set (sample_find sample_text). \<not> is_char_boundary sample_text (a - 120)"
    by (simp add: sample_find_def)
  ultimately show ?thesis using extraction_panics_iff_context_splits_char [of sample_find sample_text 120, OF pre] by (simp add: list_all_iff)
qed

subsection \<open>Temporal overlaps\<close>

definition overlap_row :: "ticket_relationship \<Rightarrow> bool" where
  "overlap_row r \<longleftrightarrow> relationship_kind r = ''TemporalOverlap'' \<and> evidence_kind r = ''DerivedTemporalOverlap''
     \<and> reviewed_status r = ''Unreviewed''"

definition overlap_recorded :: "ticket_db \<Rightarrow> int \<Rightarrow> int \<Rightarrow> bool" where
  "overlap_recorded db a b \<longleftrightarrow>
     (\<exists>r \<in> set (ticket_relationships db). from_event_id r = a \<and> relationship_kind r = ''TemporalOverlap''
        \<and> (\<exists>e. get_event db b = Some e \<and> to_external_id r = er_external_id e))"

lemma get_event_later: "appends P db db' \<Longrightarrow> get_event db' = get_event db"
  by (simp add: get_event_def appends_corpus fun_eq_iff)

lemma record_temporal_overlap_appends: "appends overlap_row db (snd (record_temporal_overlap a b w t db))"
  by (auto simp: record_temporal_overlap_def appends_refl overlap_row_def overlap_edge_def
      intro!: appends_insert split: option.splits)

lemma record_temporal_overlap_settles:
  assumes run: "record_temporal_overlap a b w t db = (Inr c, db1)" and later: "appends overlap_row db1 db2"
  shows "record_temporal_overlap a b w' t' db2 = (Inr False, db2)" and "overlap_recorded db2 a b"
proof -
  have db1: "appends overlap_row db db1" using record_temporal_overlap_appends [of db a b w t] run by simp
  then have same: "get_event db2 = get_event db" using get_event_later [OF appends_trans [OF db1 later]] by simp
  from run obtain e where e: "get_event db b = Some e" "insert_relationship (overlap_edge a e w t) db = (Inr c, db1)"
    by (auto simp: record_temporal_overlap_def split: option.splits)
  have "insert_relationship (overlap_edge a e w' t') db2 = (Inr False, db2)"
    by (rule insert_again [OF e(2) later]) (simp add: dedup_key_def overlap_edge_def)
  with e(1) same show "record_temporal_overlap a b w' t' db2 = (Inr False, db2)"
    by (simp add: record_temporal_overlap_def)
  then have "dedup_key (overlap_edge a e w' t') \<in> dedup_key ` set (ticket_relationships db2)"
    using e(1) same by (auto simp: record_temporal_overlap_def insert_relationship_def split: if_splits)
  then show "overlap_recorded db2 a b" using e(1) same
    by (auto simp: overlap_recorded_def dedup_key_def overlap_edge_def)
qed

lemma record_overlap_pair_appends: "appends overlap_row db (snd (record_overlap_pair t w db))"
  unfolding record_overlap_pair_def
  by (auto simp: record_temporal_overlap_appends appends_refl simp del: sum_ops.simps intro!: edge_log.sum_ops_grows)

lemma record_overlap_pair_run:
  assumes "record_overlap_pair t w db = (Inr n, db')" "windows_overlap w"
  shows "\<exists>b1 db1 b2. record_temporal_overlap (fst (fst w)) (fst (snd w)) (overlap_note w) t db = (Inr b1, db1)
           \<and> record_temporal_overlap (fst (snd w)) (fst (fst w)) (overlap_note w) t db1 = (Inr b2, db')"
  using assms by (auto simp: record_overlap_pair_def counting_def split: prod.splits sum.splits)

lemma record_overlap_pair_settles:
  assumes run: "record_overlap_pair t w db = (Inr n, db1)" and later: "appends overlap_row db1 db2"
  shows "record_overlap_pair t' w db2 = (Inr 0, db2)"
    and "windows_overlap w \<Longrightarrow> overlap_recorded db2 (fst (fst w)) (fst (snd w)) \<and> overlap_recorded db2 (fst (snd w)) (fst (fst w))"
proof -
  have "record_overlap_pair t' w db2 = (Inr 0, db2)
      \<and> overlap_recorded db2 (fst (fst w)) (fst (snd w)) \<and> overlap_recorded db2 (fst (snd w)) (fst (fst w))"
    if over: "windows_overlap w"
  proof -
    from record_overlap_pair_run [OF run over] obtain b1 mid b2 where
      one: "record_temporal_overlap (fst (fst w)) (fst (snd w)) (overlap_note w) t db = (Inr b1, mid)"
      and two: "record_temporal_overlap (fst (snd w)) (fst (fst w)) (overlap_note w) t mid = (Inr b2, db1)" by blast
    have mid: "appends overlap_row mid db2"
      using record_temporal_overlap_appends [of mid "fst (snd w)" "fst (fst w)" "overlap_note w" t] two later
      by (auto intro: appends_trans)
    show ?thesis
      using record_temporal_overlap_settles [OF one mid] record_temporal_overlap_settles [OF two later] over
      by (simp add: record_overlap_pair_def counting_def)
  qed
  then show "record_overlap_pair t' w db2 = (Inr 0, db2)"
    and "windows_overlap w \<Longrightarrow> overlap_recorded db2 (fst (fst w)) (fst (snd w)) \<and> overlap_recorded db2 (fst (snd w)) (fst (fst w))"
    by (auto simp: record_overlap_pair_def)
qed

lemma sum_ops_recorded:
  assumes "sum_ops (map (record_overlap_pair t) ws) db = (Inr n, db')" "w \<in> set ws"
  shows "\<exists>db0 m db1. record_overlap_pair t w db0 = (Inr m, db1) \<and> appends overlap_row db1 db'"
  using assms
proof (induction ws arbitrary: db n)
  case (Cons v ws)
  from Cons.prems(1) obtain a mid b where head: "record_overlap_pair t v db = (Inr a, mid)"
    and rest: "sum_ops (map (record_overlap_pair t) ws) mid = (Inr b, db')"
    by (auto split: prod.splits sum.splits)
  have "appends overlap_row mid (snd (sum_ops (map (record_overlap_pair t) ws) mid))"
    by (rule edge_log.sum_ops_grows) (auto simp: record_overlap_pair_appends)
  then show ?case using Cons.IH [OF rest] Cons.prems(2) head rest by auto
qed simp

text \<open>Deriving overlaps only adds unreviewed candidate rows of the overlap
  kind, never a causal one; when it succeeds, every pair of overlapping event windows has its edge
  in both directions, and a further run changes nothing.\<close>

theorem temporal_overlaps_are_candidates:
  assumes run: "derive_temporal_overlaps json_str source_kind created db = (Inr n, db')"
  shows "appends overlap_row db db'
    \<and> (\<forall>w \<in> set (later_pairs (List.map_filter (snapshot_window json_str source_kind (td_corpus db)) (list_events (td_corpus db)))).
         windows_overlap w \<longrightarrow> overlap_recorded db' (fst (fst w)) (fst (snd w)) \<and> overlap_recorded db' (fst (snd w)) (fst (fst w)))
    \<and> derive_temporal_overlaps json_str source_kind created' db' = (Inr 0, db')"
proof -
  define ws where "ws = later_pairs (List.map_filter (snapshot_window json_str source_kind (td_corpus db)) (list_events (td_corpus db)))"
  have ops: "sum_ops (map (record_overlap_pair created) ws) db = (Inr n, db')"
    using run by (simp add: derive_temporal_overlaps_def ws_def)
  have "appends overlap_row db (snd (sum_ops (map (record_overlap_pair created) ws) db))"
    by (rule edge_log.sum_ops_grows) (auto simp: record_overlap_pair_appends)
  then have grow: "appends overlap_row db db'" using ops by simp
  have "sum_ops (map (record_overlap_pair created') ws) db' = (Inr 0, db')"
    by (rule edge_log.sum_ops_settles [OF record_overlap_pair_appends _ ops appends_refl])
      (rule record_overlap_pair_settles(1))
  then have "derive_temporal_overlaps json_str source_kind created' db' = (Inr 0, db')"
    by (simp add: derive_temporal_overlaps_def appends_corpus [OF grow] ws_def)
  moreover have "overlap_recorded db' (fst (fst w)) (fst (snd w)) \<and> overlap_recorded db' (fst (snd w)) (fst (fst w))"
    if "w \<in> set ws" "windows_overlap w" for w
    using sum_ops_recorded [OF ops that(1)] record_overlap_pair_settles(2) that(2) by blast
  ultimately show ?thesis using grow unfolding ws_def by blast
qed

section \<open>A sample database\<close>

definition sample_event :: "int \<Rightarrow> string \<Rightarrow> event_rec" where
  "sample_event i ext = \<lparr>er_id = i, er_source_kind = ''grnoc'', er_external_id = ext, er_first_seen = ''2026'', er_last_seen = ''2026''\<rparr>"

definition sample_db :: ticket_db where
  "sample_db =
     \<lparr>td_corpus = \<lparr>co_events = [sample_event 1 ''INC00001'', sample_event 2 ''CHG00002''],
        co_snapshots = [\<lparr>sn_id = 4, sn_event = 1, fetched_at = ''2026'', normalized_json = ''one''\<rparr>,
                        \<lparr>sn_id = 5, sn_event = 2, fetched_at = ''2026'', normalized_json = ''two''\<rparr>],
        co_manifests = [], co_plans = [], co_runs = [], co_reviews = [], co_case_study_plan_events = []\<rparr>,
      td_documents = [], ticket_relationships = []\<rparr>"

definition sample_json :: "string \<Rightarrow> string \<Rightarrow> string option" where
  "sample_json s f =
     (if f = ''start'' then Some ''2026-01-01'' else if f = ''end'' then Some ''2026-01-02''
      else if s = ''one'' \<and> f = ''description'' then Some ''related change CHG00002'' else None)"

definition sample_matches :: "string \<Rightarrow> (nat \<times> nat) list" where
  "sample_matches s = (if length s = 24 then [(15, 23)] else [])"

lemma sample_extraction:
  "extract_relationships_from_snapshots sample_matches sample_json ''grnoc'' ''t'' sample_db
   = (Inr 1, sample_db\<lparr>ticket_relationships := [\<lparr>rel_id = 1, from_event_id = 1, to_event_id = Some 2,
        to_external_id = ''CHG00002'', relationship_kind = ''RelatedChange'', evidence_kind = ''ExplicitTicketText'',
        source_snapshot_id = Some 4, source_document_id = None, reviewed_status = ''Unreviewed'',
        rel_note = Some ''extracted from snapshot 4 at bytes 15..23'', created_utc = ''t''\<rparr>]\<rparr>)"
  by code_simp


theorem extraction_idempotent_witness:
  "extract_relationships_from_snapshots sample_matches sample_json ''grnoc'' ''later''
     (snd (extract_relationships_from_snapshots sample_matches sample_json ''grnoc'' ''t'' sample_db))
   = (Inr 0, snd (extract_relationships_from_snapshots sample_matches sample_json ''grnoc'' ''t'' sample_db))"
  unfolding sample_extraction snd_conv by (rule extraction_idempotent [OF sample_extraction])

lemma sample_overlaps: "fst (derive_temporal_overlaps sample_json ''grnoc'' ''t'' sample_db) = Inr 2"
  by code_simp

theorem temporal_overlaps_witness:
  "\<exists>db'. derive_temporal_overlaps sample_json ''grnoc'' ''t'' sample_db = (Inr 2, db')
     \<and> appends overlap_row sample_db db' \<and> derive_temporal_overlaps sample_json ''grnoc'' ''later'' db' = (Inr 0, db')"
proof -
  obtain db' where run: "derive_temporal_overlaps sample_json ''grnoc'' ''t'' sample_db = (Inr 2, db')"
    using sample_overlaps by (metis prod.collapse)
  then show ?thesis using temporal_overlaps_are_candidates [OF run, of "''later''"] by blast
qed

end
