(* ===== verification/Review.thy ===== *)
theory Review
  imports Relationships
begin

text \<open>
  Reviewed interpretations of tickets and reviewed edges: \<open>catalog/review.rs\<close> with the review rows of
  \<open>catalog/store.rs\<close>. A review is checked against the vocabulary, the catalog and its provenance before
  it is stored, one row per event.
\<close>

section \<open>Rows\<close>

record review_provenance =
  rp_field :: string
  rp_source :: string
  rp_detail :: string
  rp_document_id :: "int option"

record ticket_review =
  tr_id :: int
  catalog_event_id :: int
  tr_external_id :: string
  reviewed_roles :: "string list"
  entity_labels :: "string list"
  linked_change_ids :: "string list"
  analysis_applicability :: string
  applicability_rationale :: string
  relationship_to_case_study :: string
  tr_review_status :: string
  reviewer :: string
  reviewed_at :: string
  provenance :: "review_provenance list"
  tr_source_document_id :: "int option"

record review_db =
  rd_tickets :: ticket_db
  rd_documents :: "(int \<times> string) list"
  rd_document_links :: "(int \<times> int) list"
  ticket_reviews :: "ticket_review list"

definition upsert_ticket_review :: "ticket_review \<Rightarrow> review_db \<Rightarrow> catalog_error + review_db" where
  "upsert_ticket_review review db =
     (if \<not> (catalog_event_id review \<in> er_id ` set (co_events (td_corpus (rd_tickets db)))
            \<and> (case tr_source_document_id review of None \<Rightarrow> True | Some d \<Rightarrow> d \<in> set (map fst (rd_documents db))))
      then Inl CatalogWriteFailed
      else Inr (db\<lparr>ticket_reviews :=
        (if catalog_event_id review \<in> catalog_event_id ` set (ticket_reviews db)
         then map (\<lambda>r. if catalog_event_id r = catalog_event_id review then review\<lparr>tr_id := tr_id r\<rparr> else r) (ticket_reviews db)
         else ticket_reviews db @ [review\<lparr>tr_id := next_rowid (map tr_id (ticket_reviews db))\<rparr>])\<rparr>))"

definition list_ticket_reviews :: "review_db \<Rightarrow> ticket_review list" where
  "list_ticket_reviews db = sort_key (\<lambda>r. tr_external_id r) (sort_key tr_id (ticket_reviews db))"

definition get_ticket_review :: "review_db \<Rightarrow> int \<Rightarrow> ticket_review option" where
  "get_ticket_review db ev = find (\<lambda>r. catalog_event_id r = ev) (ticket_reviews db)"

section \<open>Validation\<close>

record review_file_entry =
  fe_external_id :: string
  fe_roles :: "string list"
  fe_entity_labels :: "string list"
  fe_linked_change_ids :: "string list"
  fe_analysis_applicability :: string
  fe_applicability_rationale :: string
  fe_relationship_to_case_study :: string
  fe_provenance :: "review_provenance list"

definition into_review :: "review_file_entry \<Rightarrow> string \<Rightarrow> string \<Rightarrow> ticket_review" where
  "into_review e by_whom at_time =
     \<lparr>tr_id = 0, catalog_event_id = 0, tr_external_id = fe_external_id e, reviewed_roles = fe_roles e,
      entity_labels = fe_entity_labels e, linked_change_ids = fe_linked_change_ids e,
      analysis_applicability = fe_analysis_applicability e, applicability_rationale = fe_applicability_rationale e,
      relationship_to_case_study = fe_relationship_to_case_study e, tr_review_status = ''Reviewed'',
      reviewer = by_whom, reviewed_at = at_time, provenance = fe_provenance e, tr_source_document_id = None\<rparr>"

definition reviewed_role_all :: "string list" where
  "reviewed_role_all =
     [''ChangeWindow'', ''PrimaryIncident'', ''ParticipantImpact'', ''AlarmOrTelemetry'', ''RollbackOrRecovery'',
      ''OperationalTask'', ''Other'']"

definition valid_role :: "string \<Rightarrow> bool" where
  "valid_role role \<longleftrightarrow> role \<in> set reviewed_role_all"

definition valid_applicability :: "string \<Rightarrow> bool" where
  "valid_applicability app \<longleftrightarrow>
     app \<in> {''PotentiallyVisibleInPublicBgp'', ''NotApplicableToPublicBgp'', ''ApplicableTargetNotYetMapped''}"

definition valid_reviewed_evidence :: "string \<Rightarrow> bool" where
  "valid_reviewed_evidence kind \<longleftrightarrow> kind \<in> {''ExplicitTicketText'', ''ReferenceDocument'', ''AnalystReviewed''}"

definition case_study_document :: "review_db \<Rightarrow> int \<Rightarrow> string \<Rightarrow> int option" where
  "case_study_document db cs doc_type =
     first (sort (map fst (filter (\<lambda>(d, t). t = doc_type \<and> (cs, d) \<in> set (rd_document_links db)) (rd_documents db))))"

datatype review_error =
    NotACatalogEvent string
  | RoleRequired string
  | UnknownRole string string
  | UnknownApplicability string string
  | FieldWithoutProvenance string string
  | DocumentRequired string string
  | NoDocumentResolved string
  | InvalidEvidenceKind string string string
  | SourceNotACatalogEvent string
  | DocumentNotCited string string
  | ReviewStoreError catalog_error

definition interpretation_fields :: "ticket_review \<Rightarrow> (string \<times> bool) list" where
  "interpretation_fields r =
     [(''roles'', reviewed_roles r \<noteq> []), (''entity_labels'', entity_labels r \<noteq> []),
      (''linked_change_ids'', linked_change_ids r \<noteq> []), (''applicability'', analysis_applicability r \<noteq> []),
      (''relationship_to_case_study'', relationship_to_case_study r \<noteq> [])]"

definition uncovered_field :: "ticket_review \<Rightarrow> string option" where
  "uncovered_field r =
     map_option fst (find (\<lambda>(f, present). present \<and> f \<notin> set (map rp_field (provenance r))) (interpretation_fields r))"

text \<open>The loop over the provenance entries, which fills in the cited document.\<close>

fun resolve_provenance :: "string \<Rightarrow> int option \<Rightarrow> review_provenance list \<Rightarrow> review_error + review_provenance list" where
  "resolve_provenance ext aar [] = Inr []"
| "resolve_provenance ext aar (p # ps) =
     (let p' = (if starts_with ''ReferenceDocument'' (rp_source p) \<and> rp_document_id p = None
                then p\<lparr>rp_document_id := aar\<rparr> else p)
      in and_then (refuse (starts_with ''ReferenceDocument'' (rp_source p) \<and> rp_document_id p' = None)
           (DocumentRequired ext (rp_field p))) (\<lambda>_.
         and_then (resolve_provenance ext aar ps) (\<lambda>ps'. Inr (p' # ps'))))"

definition cited_document :: "review_provenance list \<Rightarrow> int option" where
  "cited_document ps = Option.bind (find (\<lambda>p. rp_document_id p \<noteq> None) ps) rp_document_id"

definition resolve_document :: "int option \<Rightarrow> ticket_review \<Rightarrow> review_error + ticket_review" where
  "resolve_document aar r =
     (if list_ex (\<lambda>p. rp_document_id p \<noteq> None) (provenance r)
      then map_sum id (\<lambda>d. r\<lparr>tr_source_document_id := Some d\<rparr>)
             (ok_or (case cited_document (provenance r) of Some d \<Rightarrow> Some d | None \<Rightarrow> aar) (NoDocumentResolved (tr_external_id r)))
      else Inr r)"

definition validate_review ::
    "ticket_db \<Rightarrow> string \<Rightarrow> ticket_review \<Rightarrow> int option \<Rightarrow> review_error + ticket_review" where
  "validate_review db source_kind review0 aar =
     (let ext = tr_external_id review0 in
      and_then (ok_or (get_event_by_external db source_kind ext) (NotACatalogEvent ext)) (\<lambda>event.
      let review = review0\<lparr>catalog_event_id := er_id event\<rparr> in
      and_then (refuse (reviewed_roles review = []) (RoleRequired ext)) (\<lambda>_.
      and_then (case find (\<lambda>role. \<not> valid_role role) (reviewed_roles review) of
                  None \<Rightarrow> Inr () | Some role \<Rightarrow> Inl (UnknownRole ext role)) (\<lambda>_.
      and_then (refuse (\<not> valid_applicability (analysis_applicability review))
                  (UnknownApplicability ext (analysis_applicability review))) (\<lambda>_.
      and_then (case uncovered_field review of None \<Rightarrow> Inr () | Some f \<Rightarrow> Inl (FieldWithoutProvenance ext f)) (\<lambda>_.
      and_then (resolve_provenance ext aar (provenance review)) (\<lambda>ps.
      and_then (resolve_document aar (review\<lparr>provenance := ps\<rparr>)) (\<lambda>r.
      Inr (if tr_review_status r = [] then r\<lparr>tr_review_status := ''Reviewed''\<rparr> else r)))))))))"

section \<open>Reviewed and derived edges\<close>

record reviewed_edge_input =
  ei_from :: string
  ei_to :: string
  ei_kind :: string
  ei_evidence :: string
  ei_note :: "string option"
  document_cited :: bool

definition reviewed_edge :: "ticket_db \<Rightarrow> string \<Rightarrow> reviewed_edge_input \<Rightarrow> int option \<Rightarrow> string \<Rightarrow> event_rec \<Rightarrow> ticket_relationship" where
  "reviewed_edge db source_kind edge aar created frm =
     \<lparr>rel_id = 0, from_event_id = er_id frm,
      to_event_id = map_option er_id (get_event_by_external db source_kind (ei_to edge)),
      to_external_id = ei_to edge, relationship_kind = ei_kind edge, evidence_kind = ei_evidence edge,
      source_snapshot_id = map_option sn_id (first (list_snapshots (td_corpus db) (er_id frm))),
      source_document_id = (if document_cited edge then aar else None),
      reviewed_status = ''Accepted'', rel_note = ei_note edge, created_utc = created\<rparr>"

definition import_reviewed_edge ::
    "string \<Rightarrow> reviewed_edge_input \<Rightarrow> int option \<Rightarrow> string \<Rightarrow> ticket_db \<Rightarrow> (review_error + bool) \<times> ticket_db" where
  "import_reviewed_edge source_kind edge aar created db =
     (if \<not> valid_reviewed_evidence (ei_evidence edge)
      then (Inl (InvalidEvidenceKind (ei_from edge) (ei_to edge) (ei_evidence edge)), db)
      else case get_event_by_external db source_kind (ei_from edge) of
        None \<Rightarrow> (Inl (SourceNotACatalogEvent (ei_from edge)), db)
      | Some frm \<Rightarrow>
          if ei_evidence edge = ''ReferenceDocument'' \<and> \<not> document_cited edge
          then (Inl (DocumentNotCited (ei_from edge) (ei_to edge)), db)
          else map_prod (map_sum ReviewStoreError id) id
                 (insert_relationship (reviewed_edge db source_kind edge aar created frm) db))"

definition entity_overlap_edge :: "string \<Rightarrow> ticket_review \<times> ticket_review \<Rightarrow> string list \<Rightarrow> ticket_relationship" where
  "entity_overlap_edge created w shared =
     (case w of (a, b) \<Rightarrow>
       \<lparr>rel_id = 0, from_event_id = catalog_event_id a, to_event_id = Some (catalog_event_id b),
        to_external_id = tr_external_id b, relationship_kind = ''EntityOverlap'',
        evidence_kind = ''DerivedEntityOverlap'', source_snapshot_id = None, source_document_id = None,
        reviewed_status = ''Unreviewed'',
        rel_note = Some (''shared reviewed entity label(s): '' @ join '', '' shared), created_utc = created\<rparr>)"

definition record_entity_overlap ::
    "string \<Rightarrow> ticket_review \<times> ticket_review \<Rightarrow> ticket_db \<Rightarrow> (catalog_error + nat) \<times> ticket_db" where
  "record_entity_overlap created w db =
     (let shared = filter (\<lambda>l. l \<in> set (entity_labels (snd w))) (entity_labels (fst w))
      in if shared = [] then (Inr 0, db)
         else counting (insert_relationship (entity_overlap_edge created w shared) db))"

definition derive_entity_overlaps :: "string \<Rightarrow> review_db \<Rightarrow> (catalog_error + nat) \<times> review_db" where
  "derive_entity_overlaps created db =
     map_prod id (\<lambda>t. db\<lparr>rd_tickets := t\<rparr>)
       (sum_ops (map (record_entity_overlap created) (later_pairs (list_ticket_reviews db))) (rd_tickets db))"

section \<open>Graph audit\<close>

record graph_audit_row =
  ga_from_external :: string
  ga_to_external :: string
  ga_to_resolved :: bool
  ga_relationship_kind :: string
  ga_evidence_kind :: string
  ga_exact_source :: string
  ga_review_status :: string

definition exact_source :: "ticket_relationship \<Rightarrow> string" where
  "exact_source e =
     (case (source_snapshot_id e, source_document_id e) of
        (Some s, Some d) \<Rightarrow> ''snapshot #'' @ show_int s @ '' (ticket text) + reference document #'' @ show_int d
      | (Some s, None) \<Rightarrow> ''snapshot #'' @ show_int s @ '' (ticket text)''
      | (None, Some d) \<Rightarrow> ''reference document #'' @ show_int d
      | (None, None) \<Rightarrow>
          if evidence_kind e = ''DerivedTemporalOverlap'' then ''derived: temporal overlap''
          else if evidence_kind e = ''DerivedEntityOverlap'' then ''derived: shared reviewed entity''
          else if evidence_kind e = ''SharedCaseStudy'' then ''derived: shared case study''
          else (case rel_note e of None \<Rightarrow> [] | Some n \<Rightarrow> n))"

definition graph_audit_entry :: "ticket_db \<Rightarrow> string \<Rightarrow> ticket_relationship \<Rightarrow> graph_audit_row option" where
  "graph_audit_entry db source_kind e =
     (case get_event db (from_event_id e) of
        None \<Rightarrow> None
      | Some frm \<Rightarrow>
          if er_source_kind frm \<noteq> source_kind then None
          else Some \<lparr>ga_from_external = er_external_id frm, ga_to_external = to_external_id e,
                 ga_to_resolved = (to_event_id e \<noteq> None), ga_relationship_kind = relationship_kind e,
                 ga_evidence_kind = evidence_kind e, ga_exact_source = exact_source e,
                 ga_review_status = reviewed_status e\<rparr>)"

definition graph_audit :: "ticket_db \<Rightarrow> string \<Rightarrow> graph_audit_row list" where
  "graph_audit db source_kind =
     sort_key (\<lambda>r. ga_from_external r) (sort_key (\<lambda>r. ga_to_external r)
       (sort_key (\<lambda>r. ga_relationship_kind r) (sort_key (\<lambda>r. ga_evidence_kind r)
         (List.map_filter (graph_audit_entry db source_kind) (list_relationships db None)))))"

section \<open>Correctness\<close>

text \<open>What makes a review well formed: its target and roles are known, each interpretation that is
  present has provenance, and each cited reference document is resolved.\<close>

definition review_ok :: "ticket_db \<Rightarrow> string \<Rightarrow> ticket_review \<Rightarrow> bool" where
  "review_ok db source_kind r \<longleftrightarrow>
     (\<exists>event. get_event_by_external db source_kind (tr_external_id r) = Some event \<and> catalog_event_id r = er_id event)
     \<and> reviewed_roles r \<noteq> [] \<and> list_all valid_role (reviewed_roles r)
     \<and> valid_applicability (analysis_applicability r)
     \<and> list_all (\<lambda>(f, present). present \<longrightarrow> f \<in> set (map rp_field (provenance r))) (interpretation_fields r)
     \<and> list_all (\<lambda>p. starts_with ''ReferenceDocument'' (rp_source p) \<longrightarrow> rp_document_id p \<noteq> None) (provenance r)
     \<and> (list_ex (\<lambda>p. rp_document_id p \<noteq> None) (provenance r) \<longrightarrow> tr_source_document_id r = cited_document (provenance r))"

definition citable :: "int option \<Rightarrow> review_provenance \<Rightarrow> bool" where
  "citable aar p \<longleftrightarrow> (starts_with ''ReferenceDocument'' (rp_source p) \<longrightarrow> rp_document_id p \<noteq> None \<or> aar \<noteq> None)"

lemma resolve_provenance_Inr:
  assumes "resolve_provenance ext aar ps = Inr ps'"
  shows "map rp_field ps' = map rp_field ps" "map rp_source ps' = map rp_source ps"
    "list_all (\<lambda>p. starts_with ''ReferenceDocument'' (rp_source p) \<longrightarrow> rp_document_id p \<noteq> None) ps'"
    "list_all (citable aar) ps"
  using assms
  by (induction ps arbitrary: ps')
    (auto simp: Let_def and_then_Inr_iff citable_def split: if_splits)

lemma resolve_provenance_succeeds:
  "list_all (citable aar) ps \<Longrightarrow> \<exists>ps'. resolve_provenance ext aar ps = Inr ps'"
  by (induction ps) (auto simp: Let_def citable_def)

lemma cited_document_Some:
  "list_ex (\<lambda>p. rp_document_id p \<noteq> None) ps \<Longrightarrow> cited_document ps \<noteq> None"
  by (induction ps) (auto simp: cited_document_def)

lemma resolve_document_Inr:
  "resolve_document aar r = Inr (if list_ex (\<lambda>p. rp_document_id p \<noteq> None) (provenance r)
     then r\<lparr>tr_source_document_id := cited_document (provenance r)\<rparr> else r)"
  using cited_document_Some [of "provenance r"] by (auto simp: resolve_document_def)

lemma find_None_all: "find P xs = None \<longleftrightarrow> list_all (\<lambda>x. \<not> P x) xs"
  by (induction xs) auto

lemma uncovered_field_None:
  "uncovered_field r = None \<longleftrightarrow> list_all (\<lambda>(f, present). present \<longrightarrow> f \<in> set (map rp_field (provenance r))) (interpretation_fields r)"
  by (simp add: uncovered_field_def find_None_all split_def)

lemma validate_review_Inr_iff:
  "validate_review db source_kind r aar = Inr r' \<longleftrightarrow>
     (\<exists>event ps. get_event_by_external db source_kind (tr_external_id r) = Some event
        \<and> reviewed_roles r \<noteq> [] \<and> list_all valid_role (reviewed_roles r)
        \<and> valid_applicability (analysis_applicability r) \<and> uncovered_field r = None
        \<and> resolve_provenance (tr_external_id r) aar (provenance r) = Inr ps
        \<and> r' = r\<lparr>catalog_event_id := er_id event, provenance := ps,
             tr_source_document_id := (if list_ex (\<lambda>p. rp_document_id p \<noteq> None) ps then cited_document ps else tr_source_document_id r),
             tr_review_status := (if tr_review_status r = [] then ''Reviewed'' else tr_review_status r)\<rparr>)"
proof -
  have unc: "uncovered_field (r\<lparr>catalog_event_id := i\<rparr>) = uncovered_field r" for i
    by (simp add: uncovered_field_def interpretation_fields_def)
  have roles: "(case find (\<lambda>role. \<not> valid_role role) xs of None \<Rightarrow> Inr () | Some role \<Rightarrow> Inl (UnknownRole e role)) = Inr u
      \<longleftrightarrow> list_all valid_role xs" for xs e u
    using find_None_all [of "\<lambda>role. \<not> valid_role role" xs] by (auto split: option.splits)
  have field: "(case uncovered_field r of None \<Rightarrow> Inr () | Some f \<Rightarrow> Inl (FieldWithoutProvenance e f)) = Inr u
      \<longleftrightarrow> uncovered_field r = None" for e u
    by (auto split: option.splits)
  show ?thesis
    unfolding validate_review_def Let_def and_then_Inr_iff ok_or_Inr_iff refuse_Inr_iff resolve_document_Inr
    by (simp add: unc roles field eq_commute [of _ r'])
qed

text \<open>C37: A review is accepted exactly when its target is in the catalog, it has roles
  and only known ones, its applicability is in the vocabulary, every interpretation that is present
  has provenance and every reference document can be resolved; the accepted review is well formed
  and keeps the interpretation as submitted.\<close>

theorem validate_review_correct:
  "((\<exists>r'. validate_review db source_kind r aar = Inr r') \<longleftrightarrow>
      get_event_by_external db source_kind (tr_external_id r) \<noteq> None
      \<and> reviewed_roles r \<noteq> [] \<and> list_all valid_role (reviewed_roles r)
      \<and> valid_applicability (analysis_applicability r) \<and> uncovered_field r = None
      \<and> list_all (citable aar) (provenance r))
   \<and> (validate_review db source_kind r aar = Inr r' \<longrightarrow>
        review_ok db source_kind r' \<and> reviewed_roles r' = reviewed_roles r \<and> entity_labels r' = entity_labels r
        \<and> linked_change_ids r' = linked_change_ids r \<and> analysis_applicability r' = analysis_applicability r
        \<and> relationship_to_case_study r' = relationship_to_case_study r \<and> tr_review_status r' \<noteq> [])"
proof (intro conjI)
  show "(\<exists>r'. validate_review db source_kind r aar = Inr r') \<longleftrightarrow>
      get_event_by_external db source_kind (tr_external_id r) \<noteq> None
      \<and> reviewed_roles r \<noteq> [] \<and> list_all valid_role (reviewed_roles r)
      \<and> valid_applicability (analysis_applicability r) \<and> uncovered_field r = None
      \<and> list_all (citable aar) (provenance r)"
    unfolding validate_review_Inr_iff
    using resolve_provenance_Inr(4) [of "tr_external_id r" aar "provenance r"]
      resolve_provenance_succeeds [of aar "provenance r" "tr_external_id r"]
    by blast
  show "validate_review db source_kind r aar = Inr r' \<longrightarrow>
        review_ok db source_kind r' \<and> reviewed_roles r' = reviewed_roles r \<and> entity_labels r' = entity_labels r
        \<and> linked_change_ids r' = linked_change_ids r \<and> analysis_applicability r' = analysis_applicability r
        \<and> relationship_to_case_study r' = relationship_to_case_study r \<and> tr_review_status r' \<noteq> []"
  proof
    assume "validate_review db source_kind r aar = Inr r'"
    then obtain event ps where r: "get_event_by_external db source_kind (tr_external_id r) = Some event"
        "reviewed_roles r \<noteq> []" "list_all valid_role (reviewed_roles r)"
        "valid_applicability (analysis_applicability r)" "uncovered_field r = None"
        "resolve_provenance (tr_external_id r) aar (provenance r) = Inr ps"
      and r': "r' = r\<lparr>catalog_event_id := er_id event, provenance := ps,
             tr_source_document_id := (if list_ex (\<lambda>p. rp_document_id p \<noteq> None) ps then cited_document ps else tr_source_document_id r),
             tr_review_status := (if tr_review_status r = [] then ''Reviewed'' else tr_review_status r)\<rparr>"
      unfolding validate_review_Inr_iff by blast
    note ps = resolve_provenance_Inr [OF r(6)]
    have "interpretation_fields r' = interpretation_fields r" by (simp add: r' interpretation_fields_def)
    moreover have "map rp_field (provenance r') = map rp_field (provenance r)" by (simp add: r' ps(1))
    ultimately have "list_all (\<lambda>(f, present). present \<longrightarrow> f \<in> set (map rp_field (provenance r'))) (interpretation_fields r')"
      using r(5) unfolding uncovered_field_None by metis
    then show "review_ok db source_kind r' \<and> reviewed_roles r' = reviewed_roles r \<and> entity_labels r' = entity_labels r
        \<and> linked_change_ids r' = linked_change_ids r \<and> analysis_applicability r' = analysis_applicability r
        \<and> relationship_to_case_study r' = relationship_to_case_study r \<and> tr_review_status r' \<noteq> []"
      using r ps(3) by (simp add: review_ok_def r')
  qed
qed

text \<open>At most one review per event.\<close>

definition reviews_ok :: "review_db \<Rightarrow> bool" where
  "reviews_ok db \<longleftrightarrow> distinct (map catalog_event_id (ticket_reviews db))"

text \<open>After a review is stored, looking up its event returns it, with the id of
  its row; the reviews of other events are as before, and there is still one review per event.\<close>

theorem stored_review_roundtrip:
  assumes ok: "reviews_ok db" and run: "upsert_ticket_review review db = Inr db'"
  shows "reviews_ok db'
    \<and> (\<exists>i. get_ticket_review db' (catalog_event_id review) = Some (review\<lparr>tr_id := i\<rparr>))
    \<and> (\<forall>ev. ev \<noteq> catalog_event_id review \<longrightarrow> get_ticket_review db' ev = get_ticket_review db ev)
    \<and> rd_tickets db' = rd_tickets db"
proof (cases "catalog_event_id review \<in> catalog_event_id ` set (ticket_reviews db)")
  case True
  let ?f = "\<lambda>r. if catalog_event_id r = catalog_event_id review then review\<lparr>tr_id := tr_id r\<rparr> else r"
  have db': "db' = db\<lparr>ticket_reviews := map ?f (ticket_reviews db)\<rparr>"
    using run True by (auto simp: upsert_ticket_review_def split: if_splits)
  have key: "map catalog_event_id (ticket_reviews db') = map catalog_event_id (ticket_reviews db)" by (auto simp: db')
  have hit: "\<exists>i. find (\<lambda>r. catalog_event_id r = catalog_event_id review) (map ?f rs) = Some (review\<lparr>tr_id := i\<rparr>)"
    if "catalog_event_id review \<in> catalog_event_id ` set rs" for rs
    using that by (induction rs) auto
  have miss: "find (\<lambda>r. catalog_event_id r = ev) (map ?f rs) = find (\<lambda>r. catalog_event_id r = ev) rs"
    if "ev \<noteq> catalog_event_id review" for ev rs
    using that by (induction rs) auto
  have "reviews_ok db'" using ok key by (simp add: reviews_ok_def)
  with hit [OF True] miss show ?thesis by (simp add: db' get_ticket_review_def)
next
  case False
  obtain i where db': "db' = db\<lparr>ticket_reviews := ticket_reviews db @ [review\<lparr>tr_id := i\<rparr>]\<rparr>"
    using run False by (auto simp: upsert_ticket_review_def split: if_splits)
  have "find (\<lambda>r. catalog_event_id r = catalog_event_id review) (ticket_reviews db) = None"
    using False by (metis (mono_tags, lifting) find_None_iff imageI)
  then show ?thesis using ok False
    by (auto simp: db' reviews_ok_def get_ticket_review_def find_append image_iff split: option.splits)
qed

text \<open>The two applicabilities that the readiness derivation treats as final,
  an unobservable relationship and one without an origin, are not in the vocabulary that the
  validation accepts: no review with one of them is ever stored through it.\<close>

theorem unobservable_reviews_refused:
  "validate_review db source_kind (r\<lparr>analysis_applicability := ''NotDirectlyObservableInPublicBgp''\<rparr>) aar \<noteq> Inr r'
   \<and> validate_review db source_kind (r\<lparr>analysis_applicability := ''NotOriginAttributable''\<rparr>) aar \<noteq> Inr r'"
  by (simp add: validate_review_Inr_iff valid_applicability_def)

text \<open>An edge can cite a reference document without any document: the import checks
  the flag and not that a document is resolved.\<close>

theorem reviewed_edge_without_document:
  assumes "get_event_by_external db source_kind (ei_from edge) = Some frm"
    and "ei_evidence edge = ''ReferenceDocument''" "document_cited edge"
    and "import_reviewed_edge source_kind edge None created db = (Inr True, db')"
  shows "\<exists>row \<in> set (ticket_relationships db'). evidence_kind row = ''ReferenceDocument'' \<and> source_document_id row = None
           \<and> reviewed_status row = ''Accepted''"
  using assms by (auto simp: import_reviewed_edge_def valid_reviewed_evidence_def insert_relationship_def reviewed_edge_def
      split: if_splits)

subsection \<open>Derived edges\<close>

text \<open>Entity overlaps are added as unreviewed candidates only.\<close>

definition entity_row :: "ticket_relationship \<Rightarrow> bool" where
  "entity_row r \<longleftrightarrow> relationship_kind r = ''EntityOverlap'' \<and> evidence_kind r = ''DerivedEntityOverlap''
     \<and> reviewed_status r = ''Unreviewed''"

lemma record_entity_overlap_appends: "appends entity_row db (snd (record_entity_overlap t w db))"
  by (auto simp: record_entity_overlap_def Let_def appends_refl entity_row_def entity_overlap_edge_def split_beta
      intro!: appends_insert)

lemma entity_overlaps_are_candidates: "appends entity_row (rd_tickets db) (rd_tickets (snd (derive_entity_overlaps t db)))"
proof -
  have "appends entity_row (rd_tickets db)
      (snd (sum_ops (map (record_entity_overlap t) (later_pairs (list_ticket_reviews db))) (rd_tickets db)))"
    by (rule edge_log.sum_ops_grows) (auto simp: record_entity_overlap_appends)
  then show ?thesis by (simp add: derive_entity_overlaps_def)
qed

section \<open>A sample review\<close>

definition sample_review :: ticket_review where
  "sample_review =
     \<lparr>tr_id = 0, catalog_event_id = 0, tr_external_id = ''INC00001'', reviewed_roles = [''PrimaryIncident''],
      entity_labels = [''Campus''], linked_change_ids = [], analysis_applicability = ''PotentiallyVisibleInPublicBgp'',
      applicability_rationale = ''r'', relationship_to_case_study = [], tr_review_status = [], reviewer = ''a'',
      reviewed_at = ''2026'',
      provenance = [\<lparr>rp_field = ''roles'', rp_source = ''ReferenceDocument: AAR'', rp_detail = ''p1'', rp_document_id = None\<rparr>,
        \<lparr>rp_field = ''entity_labels'', rp_source = ''SnapshotField:title'', rp_detail = ''t'', rp_document_id = None\<rparr>,
        \<lparr>rp_field = ''applicability'', rp_source = ''SnapshotField:title'', rp_detail = ''t'', rp_document_id = None\<rparr>],
      tr_source_document_id = None\<rparr>"

definition sample_review_db :: review_db where
  "sample_review_db = \<lparr>rd_tickets = sample_db, rd_documents = [(7, ''AAR'')], rd_document_links = [], ticket_reviews = []\<rparr>"

definition accepted_review :: ticket_review where
  "accepted_review = sample_review\<lparr>catalog_event_id := 1, tr_review_status := ''Reviewed'', tr_source_document_id := Some 7,
     provenance := [\<lparr>rp_field = ''roles'', rp_source = ''ReferenceDocument: AAR'', rp_detail = ''p1'', rp_document_id = Some 7\<rparr>,
        \<lparr>rp_field = ''entity_labels'', rp_source = ''SnapshotField:title'', rp_detail = ''t'', rp_document_id = None\<rparr>,
        \<lparr>rp_field = ''applicability'', rp_source = ''SnapshotField:title'', rp_detail = ''t'', rp_document_id = None\<rparr>]\<rparr>"

lemma sample_review_accepted: "validate_review sample_db ''grnoc'' sample_review (Some 7) = Inr accepted_review"
  by code_simp

theorem validate_review_witness: "review_ok sample_db ''grnoc'' accepted_review"
  using validate_review_correct [of sample_db "''grnoc''" sample_review "Some 7" accepted_review] sample_review_accepted by blast

lemma sample_review_stored:
  "upsert_ticket_review accepted_review sample_review_db = Inr (sample_review_db\<lparr>ticket_reviews := [accepted_review\<lparr>tr_id := 1\<rparr>]\<rparr>)"
  by code_simp

theorem stored_review_witness:
  "\<exists>i. get_ticket_review (sample_review_db\<lparr>ticket_reviews := [accepted_review\<lparr>tr_id := 1\<rparr>]\<rparr>) 1 = Some (accepted_review\<lparr>tr_id := i\<rparr>)"
proof -
  have "reviews_ok sample_review_db" by (simp add: reviews_ok_def sample_review_db_def)
  moreover have "catalog_event_id accepted_review = 1" by (simp add: accepted_review_def)
  ultimately show ?thesis using stored_review_roundtrip [OF _ sample_review_stored] by simp
qed

definition sample_edge_input :: reviewed_edge_input where
  "sample_edge_input = \<lparr>ei_from = ''INC00001'', ei_to = ''CHG00002'', ei_kind = ''RelatedChange'',
     ei_evidence = ''ReferenceDocument'', ei_note = None, document_cited = True\<rparr>"

theorem reviewed_edge_without_document_witness:
  "\<exists>db'. import_reviewed_edge ''grnoc'' sample_edge_input None ''t'' sample_db = (Inr True, db')
     \<and> (\<exists>row \<in> set (ticket_relationships db'). evidence_kind row = ''ReferenceDocument'' \<and> source_document_id row = None)"
proof -
  have "fst (import_reviewed_edge ''grnoc'' sample_edge_input None ''t'' sample_db) = Inr True" by code_simp
  then obtain db' where run: "import_reviewed_edge ''grnoc'' sample_edge_input None ''t'' sample_db = (Inr True, db')"
    by (metis prod.collapse)
  have frm: "get_event_by_external sample_db ''grnoc'' (ei_from sample_edge_input) = Some (sample_event 1 ''INC00001'')"
    by code_simp
  have "ei_evidence sample_edge_input = ''ReferenceDocument''" "document_cited sample_edge_input"
    by (simp_all add: sample_edge_input_def)
  from reviewed_edge_without_document [OF frm this run] run show ?thesis by blast
qed

end
