(* ===== verification/Grouping.thy ===== *)
theory Grouping
  imports Review "HOL-Library.Product_Lexorder"
begin

text \<open>
  Candidate incident groups: \<open>catalog/grouping.rs\<close> and the candidate rows of \<open>catalog/store.rs\<close>. The
  hash of the JSON payload that makes the fingerprint is a parameter, a function of the sorted
  member ids and the sorted signals. The JSON columns of a row are the lists they encode.
\<close>

section \<open>Rows\<close>

record group_evidence =
  ev_signal :: string
  ev_detail :: string

record incident_group_candidate =
  gc_id :: int
  gc_label :: string
  member_event_ids :: "int list"
  gc_evidence :: "group_evidence list"
  gc_confidence :: string
  gc_review_status :: string
  evidence_fingerprint_of :: string
  gc_created_utc :: string
  gc_updated_utc :: string

text \<open>A link row names its case study, the event when it is resolved, and the order.\<close>

record case_study_link =
  cl_case_study :: int
  cl_event :: "int option"
  cl_sort_order :: int

record group_db =
  gd_reviews :: review_db
  gd_case_studies :: "(int \<times> string) list"
  gd_links :: "case_study_link list"
  group_candidates :: "incident_group_candidate list"

definition evidence_fingerprint :: "(int list \<Rightarrow> string list \<Rightarrow> string) \<Rightarrow> int list \<Rightarrow> group_evidence list \<Rightarrow> string" where
  "evidence_fingerprint hash members evidence =
     hash (sort members) (sort (map (\<lambda>e. ev_signal e @ '':'' @ ev_detail e) evidence))"

definition existing_by_fingerprint :: "string \<Rightarrow> incident_group_candidate list \<Rightarrow> incident_group_candidate option" where
  "existing_by_fingerprint fp rows = find (\<lambda>c. evidence_fingerprint_of c = fp) rows"

definition insert_group_candidate ::
    "incident_group_candidate \<Rightarrow> incident_group_candidate list \<Rightarrow> bool \<times> incident_group_candidate list" where
  "insert_group_candidate cand rows =
     (case existing_by_fingerprint (evidence_fingerprint_of cand) rows of
        Some existing \<Rightarrow>
          if gc_confidence existing = ''Rejected'' then (False, rows)
          else if gc_review_status existing = ''Unreviewed''
          then (False, map (\<lambda>c. if gc_id c = gc_id existing
                 then c\<lparr>gc_confidence := gc_confidence cand, gc_label := gc_label cand, gc_updated_utc := gc_updated_utc cand\<rparr>
                 else c) rows)
          else (False, rows)
      | None \<Rightarrow> (True, rows @ [cand\<lparr>gc_id := next_rowid (map gc_id rows)\<rparr>]))"

definition list_group_candidates :: "incident_group_candidate list \<Rightarrow> incident_group_candidate list" where
  "list_group_candidates rows = rev (sort_key gc_id rows)"

definition superseded :: "int list \<Rightarrow> string list \<Rightarrow> incident_group_candidate \<Rightarrow> bool" where
  "superseded members merged c \<longleftrightarrow>
     gc_review_status c = ''Unreviewed'' \<and> sort (member_event_ids c) = sort members
     \<and> (let signals = map ev_signal (gc_evidence c)
        in signals \<noteq> [] \<and> length signals < length merged \<and> list_all (\<lambda>s. s \<in> set merged) signals)"

definition supersede_pair_groups ::
    "int list \<Rightarrow> string list \<Rightarrow> incident_group_candidate list \<Rightarrow> nat \<times> incident_group_candidate list" where
  "supersede_pair_groups members merged rows =
     fold (\<lambda>c (removed, rs). if superseded members merged c
            then (removed + 1, filter (\<lambda>r. gc_id r \<noteq> gc_id c) rs) else (removed, rs))
       (list_group_candidates rows) (0, rows)"

section \<open>Generation\<close>

definition insert_candidate ::
    "incident_group_candidate \<Rightarrow> incident_group_candidate list \<Rightarrow> bool \<times> incident_group_candidate list" where
  "insert_candidate cand rows = insert_group_candidate cand rows"

definition reject_candidate :: "string \<Rightarrow> int \<Rightarrow> incident_group_candidate list \<Rightarrow> incident_group_candidate list" where
  "reject_candidate now i rows =
     map (\<lambda>c. if gc_id c = i then c\<lparr>gc_confidence := ''Rejected'', gc_review_status := ''Reviewed'', gc_updated_utc := now\<rparr> else c) rows"

definition is_rejected_fingerprint :: "string \<Rightarrow> incident_group_candidate list \<Rightarrow> bool" where
  "is_rejected_fingerprint fp rows =
     (0 < length (filter (\<lambda>c. evidence_fingerprint_of c = fp \<and> gc_confidence c = ''Rejected'') rows))"

definition list_candidates :: "incident_group_candidate list \<Rightarrow> incident_group_candidate list" where
  "list_candidates rows = list_group_candidates rows"

definition upsert_group ::
    "(int list \<Rightarrow> string list \<Rightarrow> string) \<Rightarrow> string \<Rightarrow> int list \<Rightarrow> group_evidence list \<Rightarrow> string \<Rightarrow> string
       \<Rightarrow> incident_group_candidate list \<Rightarrow> bool \<times> incident_group_candidate list" where
  "upsert_group hash label members evidence conf created rows =
     (let fp = evidence_fingerprint hash members evidence
      in if is_rejected_fingerprint fp rows then (False, rows)
         else insert_group_candidate
           \<lparr>gc_id = 0, gc_label = label, member_event_ids = members, gc_evidence = evidence, gc_confidence = conf,
            gc_review_status = ''Unreviewed'', evidence_fingerprint_of = fp, gc_created_utc = created, gc_updated_utc = created\<rparr>
           (snd (supersede_pair_groups members (map ev_signal evidence) rows)))"

definition classify_pair :: "bool \<Rightarrow> bool \<Rightarrow> bool \<Rightarrow> string option" where
  "classify_pair has_explicit has_support has_temporal =
     (if has_explicit then Some ''ExplicitlyLinked''
      else if has_support then Some ''WeakCandidate''
      else if has_temporal then Some ''TemporalCoincidence''
      else None)"

definition sort_pair :: "int \<Rightarrow> int \<Rightarrow> int \<times> int" where
  "sort_pair a b = (if a < b then (a, b) else (b, a))"

text \<open>A group to upsert: label, members, evidence, category.\<close>

type_synonym group_request = "string \<times> int list \<times> group_evidence list \<times> string"

text \<open>The rows of the join of links and case studies, in the order of the query.\<close>

definition study_members :: "group_db \<Rightarrow> (int \<times> int \<times> string) list" where
  "study_members db =
     concat (map (\<lambda>l. case (cl_event l, map_of (gd_case_studies db) (cl_case_study l)) of
                        (Some ev, Some title) \<Rightarrow> [(cl_case_study l, ev, title)] | _ \<Rightarrow> [])
       (sort_key cl_case_study (sort_key cl_sort_order (gd_links db))))"

definition add_member :: "int \<times> int \<times> string \<Rightarrow> (int, string \<times> int list) btree \<Rightarrow> (int, string \<times> int list) btree" where
  "add_member row groups =
     (case row of (cs, ev, title) \<Rightarrow>
        let (t, ms) = (case bt_get groups cs of None \<Rightarrow> (title, []) | Some g \<Rightarrow> g)
        in bt_insert cs (t, ms @ [ev]) groups)"

definition study_requests :: "group_db \<Rightarrow> group_request list" where
  "study_requests db =
     List.map_filter (\<lambda>(cs, title, members).
       if length members < 2 then None
       else Some (''Case study '' @ show_int cs @ '': '' @ title, members,
              [\<lparr>ev_signal = ''SharedCaseStudy'', ev_detail = ''reviewed case study '' @ show_int cs @ '' ('' @ title @ '')''\<rparr>],
              ''StrongCandidate''))
       (fold add_member (study_members db) [])"

definition push_evidence :: "int \<times> int \<Rightarrow> group_evidence list \<Rightarrow> (int \<times> int, group_evidence list) btree
    \<Rightarrow> (int \<times> int, group_evidence list) btree" where
  "push_evidence pr es pairs =
     bt_insert pr ((case bt_get pairs pr of None \<Rightarrow> [] | Some xs \<Rightarrow> xs) @ es) pairs"

definition explicit_evidence :: "ticket_relationship \<Rightarrow> ((int \<times> int) \<times> group_evidence) option" where
  "explicit_evidence edge =
     (if evidence_kind edge \<noteq> ''ExplicitTicketText'' then None
      else map_option (\<lambda>t. (sort_pair (from_event_id edge) t,
             \<lparr>ev_signal = ''ExplicitTicketText'',
              ev_detail = relationship_kind edge @ '' ('' @ evidence_kind edge @ ''): '' @ show_int (from_event_id edge)
                          @ '' -> '' @ to_external_id edge\<rparr>)) (to_event_id edge))"

definition temporal_evidence :: "ticket_relationship \<Rightarrow> ((int \<times> int) \<times> group_evidence) option" where
  "temporal_evidence edge =
     (if evidence_kind edge \<noteq> ''DerivedTemporalOverlap'' then None
      else map_option (\<lambda>t. (sort_pair (from_event_id edge) t,
             \<lparr>ev_signal = ''DerivedTemporalOverlap'', ev_detail = (case rel_note edge of None \<Rightarrow> [] | Some n \<Rightarrow> n)\<rparr>))
             (to_event_id edge))"

definition review_evidence :: "ticket_review \<times> ticket_review \<Rightarrow> (int \<times> int) \<times> group_evidence list" where
  "review_evidence w =
     (case w of (a, b) \<Rightarrow>
        let shared_entities = filter (\<lambda>l. l \<in> set (entity_labels b)) (entity_labels a);
            shared_changes = filter (\<lambda>l. l \<in> set (linked_change_ids b)) (linked_change_ids a)
        in (sort_pair (catalog_event_id a) (catalog_event_id b),
            (if shared_entities = [] then [] else
              [\<lparr>ev_signal = ''SharedReviewedEntity'',
                ev_detail = ''shared reviewed entity/asset label(s): '' @ join '', '' shared_entities\<rparr>])
            @ (if shared_changes = [] then [] else
              [\<lparr>ev_signal = ''SharedMaintenanceChange'',
                ev_detail = ''shared reviewed maintenance/change identifier(s): '' @ join '', '' shared_changes\<rparr>])))"

definition collect_pairs :: "group_db \<Rightarrow> (int \<times> int, group_evidence list) btree" where
  "collect_pairs db =
     (let edges = list_relationships (rd_tickets (gd_reviews db)) None
      in fold (\<lambda>(pr, es). push_evidence pr es) (map review_evidence (later_pairs (list_ticket_reviews (gd_reviews db))))
           (fold (\<lambda>(pr, e). push_evidence pr [e]) (List.map_filter temporal_evidence edges)
             (fold (\<lambda>(pr, e). push_evidence pr [e]) (List.map_filter explicit_evidence edges) [])))"

definition merge_evidence :: "group_evidence list \<Rightarrow> group_evidence list" where
  "merge_evidence es = remdups_adj (sort_key (\<lambda>e. (ev_signal e, ev_detail e)) es)"

definition pair_request :: "(int \<times> int) \<times> group_evidence list \<Rightarrow> group_request option" where
  "pair_request p =
     (case p of ((a, b), es) \<Rightarrow>
        let evidence = merge_evidence es
        in map_option (\<lambda>category.
             ((if category = ''ExplicitlyLinked'' then ''Explicit link ''
               else if category = ''WeakCandidate'' then ''Weak candidate ''
               else ''Temporal coincidence '') @ show_int a @ '' <-> '' @ show_int b,
              [a, b], evidence, category))
           (classify_pair (list_ex (\<lambda>e. ev_signal e = ''ExplicitTicketText'') evidence)
              (list_ex (\<lambda>e. ev_signal e = ''SharedReviewedEntity'' \<or> ev_signal e = ''SharedMaintenanceChange'') evidence)
              (list_ex (\<lambda>e. ev_signal e = ''DerivedTemporalOverlap'') evidence)))"

definition group_requests :: "group_db \<Rightarrow> group_request list" where
  "group_requests db = study_requests db @ List.map_filter pair_request (collect_pairs db)"

definition apply_request ::
    "(int list \<Rightarrow> string list \<Rightarrow> string) \<Rightarrow> string \<Rightarrow> group_request
       \<Rightarrow> nat \<times> incident_group_candidate list \<Rightarrow> nat \<times> incident_group_candidate list" where
  "apply_request hash created req s =
     (case req of (label, members, evidence, category) \<Rightarrow> case s of (n, rows) \<Rightarrow>
        case upsert_group hash label members evidence category created rows of
          (inserted, rows') \<Rightarrow> (if inserted then n + 1 else n, rows'))"

definition generate_candidates ::
    "(int list \<Rightarrow> string list \<Rightarrow> string) \<Rightarrow> string \<Rightarrow> group_db \<Rightarrow> nat \<times> group_db" where
  "generate_candidates hash created db =
     (case fold (apply_request hash created) (group_requests db) (0, group_candidates db) of
        (n, rows) \<Rightarrow> (n, db\<lparr>group_candidates := rows\<rparr>))"

definition default_queue_candidates :: "incident_group_candidate list \<Rightarrow> incident_group_candidate list" where
  "default_queue_candidates groups = filter (\<lambda>g. gc_confidence g \<noteq> ''TemporalCoincidence'') groups"

section \<open>Correctness\<close>

definition candidates_ok :: "incident_group_candidate list \<Rightarrow> bool" where
  "candidates_ok rows \<longleftrightarrow> distinct (map gc_id rows) \<and> distinct (map evidence_fingerprint_of rows)"

lemma distinct_singleton_list:
  assumes "distinct xs" "set xs = {c}"
  shows "xs = [c]"
proof (cases xs)
  case (Cons x ys)
  then have "x = c" "set ys \<subseteq> {c}" "x \<notin> set ys" using assms by auto
  then have "ys = []" by (cases ys) auto
  then show ?thesis using Cons \<open>x = c\<close> by simp
qed (use assms in simp)

lemma candidates_ok_filter: "candidates_ok rows \<Longrightarrow> candidates_ok (filter P rows)"
  by (simp add: candidates_ok_def distinct_map_filter)

lemma same_id: "candidates_ok rows \<Longrightarrow> c \<in> set rows \<Longrightarrow> d \<in> set rows \<Longrightarrow> gc_id c = gc_id d \<Longrightarrow> c = d"
  by (auto simp: candidates_ok_def distinct_map inj_on_def)

lemma same_fingerprint:
  "candidates_ok rows \<Longrightarrow> c \<in> set rows \<Longrightarrow> d \<in> set rows \<Longrightarrow> evidence_fingerprint_of c = evidence_fingerprint_of d \<Longrightarrow> c = d"
  by (auto simp: candidates_ok_def distinct_map inj_on_def)

lemma supersede_fold:
  "snd (fold (\<lambda>c (removed, rs). if superseded ms merged c then (removed + 1, filter (\<lambda>r. gc_id r \<noteq> gc_id c) rs) else (removed, rs)) cs (n, rs))
   = filter (\<lambda>r. \<not> (\<exists>c \<in> set cs. superseded ms merged c \<and> gc_id c = gc_id r)) rs"
  by (induction cs arbitrary: n rs) (auto intro!: filter_cong)

lemma supersede_removes:
  assumes "candidates_ok rows"
  shows "snd (supersede_pair_groups ms merged rows) = filter (\<lambda>c. \<not> superseded ms merged c) rows"
  unfolding supersede_pair_groups_def supersede_fold
  by (rule filter_cong) (use same_id [OF assms] in \<open>auto simp: list_group_candidates_def\<close>)

lemma is_rejected_fingerprint_iff:
  "is_rejected_fingerprint fp rows \<longleftrightarrow> (\<exists>c \<in> set rows. evidence_fingerprint_of c = fp \<and> gc_confidence c = ''Rejected'')"
  by (auto simp: is_rejected_fingerprint_def filter_empty_conv)

lemma existing_by_fingerprint_Some:
  "existing_by_fingerprint fp rows = Some c \<Longrightarrow> c \<in> set rows \<and> evidence_fingerprint_of c = fp"
  by (auto simp: existing_by_fingerprint_def find_Some_iff)

lemma existing_by_fingerprint_None:
  "existing_by_fingerprint fp rows = None \<longleftrightarrow> fp \<notin> evidence_fingerprint_of ` set rows"
  by (auto simp: existing_by_fingerprint_def find_None_iff)

lemma insert_group_candidate_ok:
  assumes ok: "candidates_ok rows"
  shows "candidates_ok (snd (insert_group_candidate cand rows))"
proof (cases "existing_by_fingerprint (evidence_fingerprint_of cand) rows")
  case None
  then show ?thesis
    using ok next_rowid_fresh [of "map gc_id rows"] unfolding existing_by_fingerprint_None
    by (auto simp: insert_group_candidate_def existing_by_fingerprint_None [symmetric] candidates_ok_def None
        split: option.splits)
next
  case (Some e)
  have keep: "map gc_id (map (\<lambda>c. if gc_id c = i then f c else c) rs) = map gc_id rs"
    "map evidence_fingerprint_of (map (\<lambda>c. if gc_id c = i then f c else c) rs) = map evidence_fingerprint_of rs"
    if "\<And>c. gc_id (f c) = gc_id c" "\<And>c. evidence_fingerprint_of (f c) = evidence_fingerprint_of c" for i f rs
    using that by auto
  show ?thesis using ok Some by (auto simp: insert_group_candidate_def candidates_ok_def keep simp del: map_map)
qed

lemma insert_group_candidate_keeps:
  assumes ok: "candidates_ok rows" and c: "c \<in> set rows" "gc_review_status c \<noteq> ''Unreviewed''"
  shows "c \<in> set (snd (insert_group_candidate cand rows))"
proof (cases "existing_by_fingerprint (evidence_fingerprint_of cand) rows")
  case None
  then show ?thesis using c by (simp add: insert_group_candidate_def)
next
  case (Some e)
  show ?thesis
  proof (cases "gc_review_status e = ''Unreviewed'' \<and> gc_confidence e \<noteq> ''Rejected''")
    case True
    then have "gc_id c \<noteq> gc_id e" using same_id [OF ok c(1)] existing_by_fingerprint_Some [OF Some] c(2) by blast
    then show ?thesis using True Some c(1) by (auto simp: insert_group_candidate_def intro: rev_image_eqI)
  qed (use Some c in \<open>auto simp: insert_group_candidate_def\<close>)
qed

lemma upsert_group_ok: "candidates_ok rows \<Longrightarrow> candidates_ok (snd (upsert_group hash l ms es conf t rows))"
  by (simp add: upsert_group_def Let_def insert_group_candidate_ok supersede_removes candidates_ok_filter)

lemma upsert_group_keeps:
  "candidates_ok rows \<Longrightarrow> c \<in> set rows \<Longrightarrow> gc_review_status c \<noteq> ''Unreviewed''
   \<Longrightarrow> c \<in> set (snd (upsert_group hash l ms es conf t rows))"
  by (auto simp: upsert_group_def Let_def supersede_removes superseded_def
      intro!: insert_group_candidate_keeps candidates_ok_filter)

lemma apply_requests:
  assumes "candidates_ok rows"
  shows "candidates_ok (snd (fold (apply_request hash t) reqs (n, rows)))
    \<and> (\<forall>c \<in> set rows. gc_review_status c \<noteq> ''Unreviewed'' \<longrightarrow> c \<in> set (snd (fold (apply_request hash t) reqs (n, rows))))"
  using assms
proof (induction reqs arbitrary: n rows)
  case (Cons req reqs)
  obtain l ms es conf where req: "req = (l, ms, es, conf)" by (cases req)
  obtain b rows' where up: "upsert_group hash l ms es conf t rows = (b, rows')" by (cases "upsert_group hash l ms es conf t rows")
  have ok: "candidates_ok rows'" using upsert_group_ok [OF Cons.prems, of hash l ms es conf t] up by simp
  have "c \<in> set rows'" if "c \<in> set rows" "gc_review_status c \<noteq> ''Unreviewed''" for c
    using upsert_group_keeps [OF Cons.prems that, of hash l ms es conf t] up by simp
  with Cons.IH [OF ok] show ?case by (simp add: apply_request_def req up)
qed simp

lemma generate_rows:
  "group_candidates (snd (generate_candidates hash t db)) = snd (fold (apply_request hash t) (group_requests db) (0, group_candidates db))"
  by (simp add: generate_candidates_def split: prod.splits)

text \<open>C38: A candidate an analyst has decided on survives every regeneration as it is,
  and no other row has its fingerprint: a rejected group does not come back on the same evidence.
  Row ids and fingerprints stay unique.\<close>

theorem reviewed_groups_survive:
  assumes ok: "candidates_ok (group_candidates db)"
    and c: "c \<in> set (group_candidates db)" "gc_review_status c \<noteq> ''Unreviewed''"
  shows "candidates_ok (group_candidates (snd (generate_candidates hash t db)))
    \<and> filter (\<lambda>r. evidence_fingerprint_of r = evidence_fingerprint_of c) (group_candidates (snd (generate_candidates hash t db))) = [c]"
proof -
  let ?rows = "group_candidates (snd (generate_candidates hash t db))"
  have ok': "candidates_ok ?rows" and mem: "c \<in> set ?rows"
    unfolding generate_rows using apply_requests [OF ok, of hash t "group_requests db" 0] c by blast+
  have "set (filter (\<lambda>r. evidence_fingerprint_of r = evidence_fingerprint_of c) ?rows) = {c}"
    using same_fingerprint [OF ok'] mem by auto
  moreover have "distinct (filter (\<lambda>r. evidence_fingerprint_of r = evidence_fingerprint_of c) ?rows)"
    using ok' by (simp add: candidates_ok_def distinct_map)
  ultimately have "filter (\<lambda>r. evidence_fingerprint_of r = evidence_fingerprint_of c) ?rows = [c]"
    by (rule distinct_singleton_list [rotated])
  with ok' show ?thesis by blast
qed

text \<open>Upserting a group that no analyst rejected leaves exactly one row with its
  fingerprint, which has the category and label of the request unless it was reviewed; the unreviewed rows
  of the same members with fewer signals, all among the new ones, are gone, and all other rows stay.\<close>

theorem upsert_group_spec:
  assumes ok: "candidates_ok rows"
    and fresh: "\<not> is_rejected_fingerprint (evidence_fingerprint hash ms es) rows"
  shows "(\<exists>c. filter (\<lambda>r. evidence_fingerprint_of r = evidence_fingerprint hash ms es) (snd (upsert_group hash l ms es conf t rows)) = [c]
        \<and> (gc_review_status c = ''Unreviewed'' \<longrightarrow> gc_confidence c = conf \<and> gc_label c = l))
    \<and> filter (\<lambda>r. evidence_fingerprint_of r \<noteq> evidence_fingerprint hash ms es) (snd (upsert_group hash l ms es conf t rows))
      = filter (\<lambda>r. evidence_fingerprint_of r \<noteq> evidence_fingerprint hash ms es \<and> \<not> superseded ms (map ev_signal es) r) rows"
proof -
  define fp where "fp = evidence_fingerprint hash ms es"
  define kept where "kept = filter (\<lambda>c. \<not> superseded ms (map ev_signal es) c) rows"
  define cand where "cand = \<lparr>gc_id = 0, gc_label = l, member_event_ids = ms, gc_evidence = es, gc_confidence = conf,
    gc_review_status = ''Unreviewed'', evidence_fingerprint_of = fp, gc_created_utc = t, gc_updated_utc = t\<rparr>"
  have up: "upsert_group hash l ms es conf t rows = insert_group_candidate cand kept"
    using fresh by (simp add: upsert_group_def Let_def supersede_removes [OF ok] kept_def cand_def fp_def)
  have kept: "candidates_ok kept" by (simp add: kept_def candidates_ok_filter ok)
  have others: "filter (\<lambda>r. evidence_fingerprint_of r \<noteq> fp) kept
      = filter (\<lambda>r. evidence_fingerprint_of r \<noteq> fp \<and> \<not> superseded ms (map ev_signal es) r) rows"
    by (simp add: kept_def conj_commute)
  show ?thesis
    unfolding up fp_def [symmetric] others [symmetric]
  proof (cases "existing_by_fingerprint fp kept")
    case None
    then have "filter (\<lambda>r. evidence_fingerprint_of r = fp) kept = []"
      unfolding existing_by_fingerprint_None by (auto simp: filter_empty_conv)
    then show "(\<exists>c. filter (\<lambda>r. evidence_fingerprint_of r = fp) (snd (insert_group_candidate cand kept)) = [c]
        \<and> (gc_review_status c = ''Unreviewed'' \<longrightarrow> gc_confidence c = conf \<and> gc_label c = l))
      \<and> filter (\<lambda>r. evidence_fingerprint_of r \<noteq> fp) (snd (insert_group_candidate cand kept)) = filter (\<lambda>r. evidence_fingerprint_of r \<noteq> fp) kept"
      using None by (simp add: insert_group_candidate_def cand_def)
  next
    case (Some e)
    note e = existing_by_fingerprint_Some [OF Some]
    have one: "filter (\<lambda>r. evidence_fingerprint_of r = fp) kept = [e]"
      by (rule distinct_singleton_list)
        (use kept e same_fingerprint [OF kept] in \<open>auto simp: candidates_ok_def distinct_map\<close>)
    have "gc_confidence e \<noteq> ''Rejected''"
      using fresh e by (auto simp: is_rejected_fingerprint_iff fp_def kept_def)
    moreover have "filter (\<lambda>r. evidence_fingerprint_of r = fp) (map f kept) = [f e]"
      "filter (\<lambda>r. evidence_fingerprint_of r \<noteq> fp) (map f kept) = filter (\<lambda>r. evidence_fingerprint_of r \<noteq> fp) kept"
      if f: "f = (\<lambda>c. if gc_id c = gc_id e then g c else c)" and g: "\<And>c. evidence_fingerprint_of (g c) = evidence_fingerprint_of c" for f g
    proof -
      have fp: "evidence_fingerprint_of (f c) = evidence_fingerprint_of c" for c by (simp add: f g)
      show "filter (\<lambda>r. evidence_fingerprint_of r = fp) (map f kept) = [f e]"
        using one by (simp add: filter_map o_def fp)
      have "f c = c" if "c \<in> set kept" "evidence_fingerprint_of c \<noteq> fp" for c
        using same_id [OF kept that(1), of e] that(2) e by (auto simp: f)
      then show "filter (\<lambda>r. evidence_fingerprint_of r \<noteq> fp) (map f kept) = filter (\<lambda>r. evidence_fingerprint_of r \<noteq> fp) kept"
        by (auto simp: filter_map o_def fp intro: map_idI)
    qed
    ultimately show "(\<exists>c. filter (\<lambda>r. evidence_fingerprint_of r = fp) (snd (insert_group_candidate cand kept)) = [c]
        \<and> (gc_review_status c = ''Unreviewed'' \<longrightarrow> gc_confidence c = conf \<and> gc_label c = l))
      \<and> filter (\<lambda>r. evidence_fingerprint_of r \<noteq> fp) (snd (insert_group_candidate cand kept)) = filter (\<lambda>r. evidence_fingerprint_of r \<noteq> fp) kept"
      using Some one by (simp add: insert_group_candidate_def cand_def)
  qed
qed

section \<open>A sample\<close>

definition sample_hash :: "int list \<Rightarrow> string list \<Rightarrow> string" where
  "sample_hash members signals = concat (map show_int members) @ concat signals"

definition labelled_review :: "int \<Rightarrow> string \<Rightarrow> string list \<Rightarrow> ticket_review" where
  "labelled_review i ext labels = sample_review\<lparr>tr_id := i, catalog_event_id := i, tr_external_id := ext, entity_labels := labels\<rparr>"

definition sample_group_db :: "string list \<Rightarrow> incident_group_candidate list \<Rightarrow> group_db" where
  "sample_group_db labels rows =
     \<lparr>gd_reviews = sample_review_db\<lparr>ticket_reviews := [labelled_review 1 ''INC00001'' labels, labelled_review 2 ''CHG00002'' labels]\<rparr>,
      gd_case_studies = [], gd_links = [], group_candidates = rows\<rparr>"

definition sample_candidate :: "int \<Rightarrow> string \<Rightarrow> incident_group_candidate" where
  "sample_candidate i labels =
     \<lparr>gc_id = i, gc_label = ''Weak candidate 1 <-> 2'', member_event_ids = [1, 2],
      gc_evidence = [\<lparr>ev_signal = ''SharedReviewedEntity'', ev_detail = ''shared reviewed entity/asset label(s): '' @ labels\<rparr>],
      gc_confidence = ''WeakCandidate'', gc_review_status = ''Unreviewed'',
      evidence_fingerprint_of = ''12SharedReviewedEntity:shared reviewed entity/asset label(s): '' @ labels,
      gc_created_utc = ''t'', gc_updated_utc = ''t''\<rparr>"

text \<open>When a shared label is added to the reviews of a pair, the next generation
  keeps the old row beside the new one, since the new evidence has no more signals than the old: the pair is
  in the queue twice.\<close>

theorem changed_labels_duplicate_pair:
  "group_candidates (snd (generate_candidates sample_hash ''t'' (sample_group_db [''A''] []))) = [sample_candidate 1 ''A'']
   \<and> group_candidates (snd (generate_candidates sample_hash ''t'' (sample_group_db [''A'', ''B''] [sample_candidate 1 ''A''])))
      = [sample_candidate 1 ''A'', sample_candidate 2 ''A, B'']"
proof
  show "group_candidates (snd (generate_candidates sample_hash ''t'' (sample_group_db [''A''] []))) = [sample_candidate 1 ''A'']"
    by code_simp
  show "group_candidates (snd (generate_candidates sample_hash ''t'' (sample_group_db [''A'', ''B''] [sample_candidate 1 ''A''])))
      = [sample_candidate 1 ''A'', sample_candidate 2 ''A, B'']"
    by code_simp
qed

theorem reviewed_groups_survive_witness:
  "filter (\<lambda>r. evidence_fingerprint_of r = evidence_fingerprint_of (sample_candidate 1 ''A''))
     (group_candidates (snd (generate_candidates sample_hash ''t''
        (sample_group_db [''A''] (reject_candidate ''u'' 1 [sample_candidate 1 ''A''])))))
   = reject_candidate ''u'' 1 [sample_candidate 1 ''A'']"
proof -
  let ?db = "sample_group_db [''A''] (reject_candidate ''u'' 1 [sample_candidate 1 ''A''])"
  let ?c = "(sample_candidate 1 ''A'')\<lparr>gc_confidence := ''Rejected'', gc_review_status := ''Reviewed'', gc_updated_utc := ''u''\<rparr>"
  have rows: "reject_candidate ''u'' 1 [sample_candidate 1 ''A''] = [?c]" by (simp add: reject_candidate_def sample_candidate_def)
  then have db: "group_candidates ?db = [?c]" by (simp add: sample_group_db_def)
  have "candidates_ok (group_candidates ?db)" by (simp add: db candidates_ok_def)
  moreover have "?c \<in> set (group_candidates ?db)" "gc_review_status ?c \<noteq> ''Unreviewed''" by (simp_all add: db)
  ultimately have "filter (\<lambda>r. evidence_fingerprint_of r = evidence_fingerprint_of ?c)
      (group_candidates (snd (generate_candidates sample_hash ''t'' ?db))) = [?c]"
    using reviewed_groups_survive by blast
  then show ?thesis using rows by simp
qed

theorem upsert_group_witness:
  "\<exists>c. filter (\<lambda>r. evidence_fingerprint_of r = evidence_fingerprint sample_hash [1, 2] [])
        (snd (upsert_group sample_hash ''l'' [1, 2] [] ''WeakCandidate'' ''t'' [sample_candidate 1 ''A''])) = [c]"
proof -
  have "candidates_ok [sample_candidate 1 ''A'']" by (simp add: candidates_ok_def)
  moreover have "\<not> is_rejected_fingerprint (evidence_fingerprint sample_hash [1, 2] []) [sample_candidate 1 ''A'']"
    by (simp add: is_rejected_fingerprint_def sample_candidate_def)
  ultimately show ?thesis using upsert_group_spec [of "[sample_candidate 1 ''A'']" sample_hash "[1, 2]" "[]"] by blast
qed

end
