(* ===== verification/Target.thy ===== *)
theory Target
  imports Route "HOL-Library.Product_Lexorder"
begin

text \<open>
  The target set of \<open>target.rs\<close>: the scan of a RIB for the relevant observer-prefix streams, and the
  admission of updates to them. The hash map of streams per collector is an ordered map; nothing
  below depends on the order of its entries.
\<close>

section \<open>Definitions\<close>

record target_stream =
  tg_peer_ip :: ip_addr
  tg_prefix :: prefix
  tg_origin_as :: u32
  tg_as_path :: "u32 list"
  tg_path_id :: "u32 option"

type_synonym target_set = "(string, target_stream list) btree"

text \<open>\<open>Vec::dedup_by\<close> compares each element with the last one kept.\<close>

fun dedup_by :: "('a \<Rightarrow> 'a \<Rightarrow> bool) \<Rightarrow> 'a list \<Rightarrow> 'a list" where
  "dedup_by same [] = []"
| "dedup_by same [x] = [x]"
| "dedup_by same (x # y # xs) = (if same y x then dedup_by same (x # xs) else x # dedup_by same (y # xs))"

text \<open>The loop body of the scan: the stream of a relevant RIB entry.\<close>

definition relevant_stream :: "u32 list \<Rightarrow> transit_predicate \<Rightarrow> route_observation \<Rightarrow> target_stream option" where
  "relevant_stream origins pred obs =
     (if obs_kind obs \<noteq> RibEntry then None
      else case obs_attributes obs of
        None \<Rightarrow> None
      | Some attrs \<Rightarrow>
          let origin = (case oa_origin_asns attrs of [] \<Rightarrow> 0 | a # _ \<Rightarrow> a)
          in if origin \<notin> set origins then None
             else if \<not> evaluate pred (oa_as_path attrs) then None
             else Some \<lparr>tg_peer_ip = obs_peer_ip obs, tg_prefix = obs_prefix obs, tg_origin_as = origin,
                        tg_as_path = oa_as_path attrs, tg_path_id = obs_path_id obs\<rparr>)"

definition push_stream :: "string \<Rightarrow> target_stream list \<Rightarrow> target_set \<Rightarrow> target_set" where
  "push_stream collector ss ts =
     bt_insert collector ((case bt_get ts collector of None \<Rightarrow> [] | Some xs \<Rightarrow> xs) @ ss) ts"

definition scan_step :: "u32 list \<Rightarrow> transit_predicate \<Rightarrow> route_observation \<Rightarrow> target_set \<Rightarrow> target_set" where
  "scan_step origins pred obs ts =
     (case relevant_stream origins pred obs of None \<Rightarrow> ts | Some s \<Rightarrow> push_stream (obs_collector obs) [s] ts)"

definition dedup_streams :: "target_stream list \<Rightarrow> target_stream list" where
  "dedup_streams entries =
     dedup_by (\<lambda>a b. tg_peer_ip a = tg_peer_ip b \<and> tg_prefix a = tg_prefix b)
       (sort_key (\<lambda>s. (ip_to_string (tg_peer_ip s), tg_prefix s)) entries)"

definition scan_rib_and_freeze :: "route_observation list \<Rightarrow> u32 list \<Rightarrow> transit_predicate \<Rightarrow> target_set" where
  "scan_rib_and_freeze rib origins pred =
     map (\<lambda>(c, ss). (c, dedup_streams ss)) (fold (scan_step origins pred) rib [])"

definition ts_merge :: "target_set \<Rightarrow> target_set \<Rightarrow> target_set" where
  "ts_merge ts other = fold (\<lambda>(c, ss). push_stream c ss) other ts"

definition has_relevant_streams :: "target_set \<Rightarrow> string \<Rightarrow> bool" where
  "has_relevant_streams ts collector = (case bt_get ts collector of None \<Rightarrow> False | Some ss \<Rightarrow> ss \<noteq> [])"

definition ts_contains :: "target_set \<Rightarrow> string \<Rightarrow> ip_addr \<Rightarrow> prefix \<Rightarrow> bool" where
  "ts_contains ts collector peer_ip pfx =
     (case bt_get ts collector of
        None \<Rightarrow> False
      | Some entries \<Rightarrow> list_ex (\<lambda>s. tg_peer_ip s = peer_ip \<and> tg_prefix s = pfx) entries)"

definition total_streams :: "target_set \<Rightarrow> nat" where
  "total_streams ts = sum_list (map length (bt_values ts))"

definition collector_count :: "target_set \<Rightarrow> nat" where
  "collector_count ts = length ts"

definition frozen_prefixes :: "target_set \<Rightarrow> prefix set" where
  "frozen_prefixes ts = (\<Union>ss \<in> set (bt_values ts). tg_prefix ` set ss)"

definition distinct_peers :: "target_set \<Rightarrow> nat" where
  "distinct_peers ts = card (\<Union>ss \<in> set (bt_values ts). tg_peer_ip ` set ss)"

definition admit_observation :: "route_observation \<Rightarrow> target_set \<Rightarrow> prefix set \<Rightarrow> bool" where
  "admit_observation obs target frozen =
     (if obs_prefix obs \<notin> frozen then False
      else ts_contains target (obs_collector obs) (obs_peer_ip obs) (obs_prefix obs))"

record preflight_counts =
  collectors_requested :: nat
  collectors_with_usable_ribs :: nat
  origin_matching_routes :: nat
  transit_matching_routes :: nat
  frozen_streams :: nat
  pc_distinct_prefixes :: nat
  pc_distinct_peers :: nat

definition from_target_set :: "target_set \<Rightarrow> nat \<Rightarrow> nat \<Rightarrow> nat \<Rightarrow> preflight_counts" where
  "from_target_set ts requested origin_matching transit_matching =
     \<lparr>collectors_requested = requested, collectors_with_usable_ribs = collector_count ts,
      origin_matching_routes = origin_matching, transit_matching_routes = transit_matching,
      frozen_streams = total_streams ts, pc_distinct_prefixes = card (frozen_prefixes ts),
      pc_distinct_peers = distinct_peers ts\<rparr>"

section \<open>Deduplication\<close>

lemma dedup_by_subset: "set (dedup_by same xs) \<subseteq> set xs"
  by (induction same xs rule: dedup_by.induct) auto

lemma dedup_by_covers:
  assumes "\<And>a b. same a b \<longleftrightarrow> key a = key b"
  shows "key ` set (dedup_by same xs) = key ` set xs"
  using assms
proof (induction same xs rule: dedup_by.induct)
  case (3 same x y xs)
  then show ?case by (cases "same y x") (simp_all add: insert_absorb)
qed simp_all

lemma dedup_by_distinct:
  assumes same: "\<And>a b. same a b \<longleftrightarrow> key a = key b"
    and sorted: "sorted (map rank xs)"
    and inj: "\<And>a b. a \<in> set xs \<Longrightarrow> b \<in> set xs \<Longrightarrow> key a = key b \<longleftrightarrow> rank a = rank b"
  shows "distinct (map key (dedup_by same xs))"
  using assms
proof (induction same xs rule: dedup_by.induct)
  case (3 same x y xs)
  show ?case
  proof (cases "same y x")
    case True
    have "distinct (map key (dedup_by same (x # xs)))"
      by (rule "3.IH"(1) [OF True "3.prems"(1)]) (use "3.prems"(2,3) in auto)
    then show ?thesis using True by simp
  next
    case False
    have rest: "distinct (map key (dedup_by same (y # xs)))"
      by (rule "3.IH"(2) [OF False "3.prems"(1)]) (use "3.prems"(2,3) in auto)
    have "key x \<noteq> key z" if "z \<in> set (y # xs)" for z
    proof
      assume "key x = key z"
      then have "rank x = rank z" using "3.prems"(3) [of x z] that by simp
      moreover have "rank x \<le> rank y" "rank y \<le> rank z" using "3.prems"(2) that by auto
      ultimately have "rank x = rank y" by simp
      then have "key x = key y" using "3.prems"(3) [of x y] by simp
      with False show False using "3.prems"(1) [of y x] by simp
    qed
    then show ?thesis using False rest dedup_by_subset [of same "y # xs"] by auto
  qed
qed simp_all

definition stream_key :: "target_stream \<Rightarrow> ip_addr \<times> prefix" where
  "stream_key s = (tg_peer_ip s, tg_prefix s)"

lemma dedup_streams_keys: "stream_key ` set (dedup_streams ss) = stream_key ` set ss"
  unfolding dedup_streams_def by (subst dedup_by_covers [where key = stream_key]) (auto simp: stream_key_def)

lemma dedup_streams_distinct:
  assumes "inj_on ip_to_string (tg_peer_ip ` set ss)"
  shows "distinct (map stream_key (dedup_streams ss))"
  unfolding dedup_streams_def
  by (rule dedup_by_distinct [where rank = "\<lambda>s. (ip_to_string (tg_peer_ip s), tg_prefix s)"])
    (use assms in \<open>auto simp: stream_key_def inj_on_def\<close>)

section \<open>The scan\<close>

lemma bt_get_push:
  "bt_ok ts \<Longrightarrow> bt_get (push_stream c ss ts) = (bt_get ts)(c \<mapsto> (case bt_get ts c of None \<Rightarrow> [] | Some xs \<Rightarrow> xs) @ ss)"
  by (simp add: push_stream_def bt_get_insert)

lemma bt_ok_push: "bt_ok ts \<Longrightarrow> bt_ok (push_stream c ss ts)"
  by (simp add: push_stream_def bt_ok_insert)

definition streams_at :: "target_set \<Rightarrow> string \<Rightarrow> target_stream list" where
  "streams_at ts c = (case bt_get ts c of None \<Rightarrow> [] | Some ss \<Rightarrow> ss)"

lemma bt_ok_scan: "bt_ok ts \<Longrightarrow> bt_ok (fold (scan_step origins pred) rib ts)"
  by (induction rib arbitrary: ts) (auto simp: scan_step_def bt_ok_push split: option.splits)

lemma streams_at_scan:
  "bt_ok ts \<Longrightarrow> streams_at (fold (scan_step origins pred) rib ts) c =
     streams_at ts c @ List.map_filter (\<lambda>x. if obs_collector x = c then relevant_stream origins pred x else None) rib"
proof (induction rib arbitrary: ts)
  case (Cons x rib)
  have ok: "bt_ok (scan_step origins pred x ts)" using Cons.prems by (auto simp: scan_step_def bt_ok_push split: option.splits)
  have "streams_at (scan_step origins pred x ts) c =
      streams_at ts c @ (if obs_collector x = c then (case relevant_stream origins pred x of None \<Rightarrow> [] | Some s \<Rightarrow> [s]) else [])"
    using Cons.prems by (auto simp: scan_step_def streams_at_def bt_get_push split: option.splits)
  then show ?case using Cons.IH [OF ok] by (auto simp: List.map_filter_simps split: option.splits)
qed (simp add: List.map_filter_simps)

lemma scan_entries:
  "bt_get (fold (scan_step origins pred) rib ts) c \<noteq> None \<longleftrightarrow>
     bt_get ts c \<noteq> None \<or> (\<exists>x \<in> set rib. obs_collector x = c \<and> relevant_stream origins pred x \<noteq> None)" if "bt_ok ts"
  using that
proof (induction rib arbitrary: ts)
  case (Cons x rib)
  have ok: "bt_ok (scan_step origins pred x ts)" using Cons.prems by (auto simp: scan_step_def bt_ok_push split: option.splits)
  have "bt_get (scan_step origins pred x ts) c \<noteq> None \<longleftrightarrow> bt_get ts c \<noteq> None \<or> (obs_collector x = c \<and> relevant_stream origins pred x \<noteq> None)"
    using Cons.prems by (auto simp: scan_step_def bt_get_push split: option.splits)
  then show ?case using Cons.IH [OF ok] by auto
qed simp

lemma bt_get_map_values: "bt_get (map (\<lambda>(k, v). (k, f v)) m) k = map_option f (bt_get m k)"
  by (induction m) (auto simp: bt_get_def split: if_splits)

lemma relevant_stream_key:
  "relevant_stream origins pred obs = Some s \<Longrightarrow> stream_key s = (obs_peer_ip obs, obs_prefix obs)"
  by (auto simp: relevant_stream_def stream_key_def Let_def split: if_splits option.splits)

lemma ts_contains_streams: "ts_contains ts c ip p \<longleftrightarrow> (ip, p) \<in> stream_key ` set (streams_at ts c)"
  by (auto simp: ts_contains_def streams_at_def stream_key_def list_ex_iff split: option.splits)

lemma streams_at_freeze:
  "streams_at (scan_rib_and_freeze rib origins pred) c =
     dedup_streams (List.map_filter (\<lambda>x. if obs_collector x = c then relevant_stream origins pred x else None) rib)"
proof -
  have empty: "dedup_streams [] = []" by (simp add: dedup_streams_def)
  have ok: "bt_ok ([] :: target_set)" by (simp add: bt_ok_def)
  have "streams_at (scan_rib_and_freeze rib origins pred) c = dedup_streams (streams_at (fold (scan_step origins pred) rib []) c)"
    by (simp add: scan_rib_and_freeze_def streams_at_def bt_get_map_values empty split: option.splits)
  then show ?thesis using streams_at_scan [OF ok, of origins pred rib c] by (simp add: streams_at_def bt_get_def)
qed

lemma set_found:
  "s \<in> set (List.map_filter (\<lambda>x. if obs_collector x = c then relevant_stream origins pred x else None) rib)
   \<longleftrightarrow> (\<exists>x \<in> set rib. obs_collector x = c \<and> relevant_stream origins pred x = Some s)"
  by (auto simp: set_map_filter split: if_splits)

lemma scan_contains:
  "ts_contains (scan_rib_and_freeze rib origins pred) c ip p \<longleftrightarrow>
     (\<exists>x. x \<in> set rib \<and> obs_collector x = c \<and> obs_peer_ip x = ip \<and> obs_prefix x = p \<and> relevant_stream origins pred x \<noteq> None)"
  (is "?L \<longleftrightarrow> ?R")
proof
  assume ?L
  then show ?R
    unfolding ts_contains_streams streams_at_freeze dedup_streams_keys image_iff Bex_def set_found
    by (force dest: relevant_stream_key)
next
  assume ?R
  then obtain x s where "x \<in> set rib" "obs_collector x = c" "relevant_stream origins pred x = Some s" "(ip, p) = stream_key s"
    by (force dest: relevant_stream_key)
  then show ?L
    unfolding ts_contains_streams streams_at_freeze dedup_streams_keys image_iff Bex_def set_found by blast
qed

text \<open>C14: The frozen set contains a stream exactly when some RIB entry of that
  collector, peer and prefix has an origin of interest and a path that satisfies the predicate.
  When the peers of the RIB have distinct texts, each stream is in it once.\<close>

theorem scan_rib_exact:
  "(ts_contains (scan_rib_and_freeze rib origins pred) c ip p \<longleftrightarrow>
      (\<exists>x. x \<in> set rib \<and> obs_collector x = c \<and> obs_peer_ip x = ip \<and> obs_prefix x = p \<and> relevant_stream origins pred x \<noteq> None))
   \<and> (inj_on ip_to_string (obs_peer_ip ` set rib) \<longrightarrow>
        distinct (map stream_key (streams_at (scan_rib_and_freeze rib origins pred) c)))"
proof (intro conjI impI scan_contains)
  let ?found = "List.map_filter (\<lambda>x. if obs_collector x = c then relevant_stream origins pred x else None) rib"
  assume inj: "inj_on ip_to_string (obs_peer_ip ` set rib)"
  have "tg_peer_ip ` set ?found \<subseteq> obs_peer_ip ` set rib"
  proof
    fix i assume "i \<in> tg_peer_ip ` set ?found"
    then obtain s x where "i = tg_peer_ip s" "x \<in> set rib" "relevant_stream origins pred x = Some s" unfolding image_iff Bex_def set_found by blast
    then show "i \<in> obs_peer_ip ` set rib" using relevant_stream_key [of origins pred x s] by (auto simp: stream_key_def)
  qed
  from inj_on_subset [OF inj this] show "distinct (map stream_key (streams_at (scan_rib_and_freeze rib origins pred) c))"
    unfolding streams_at_freeze by (rule dedup_streams_distinct)
qed

text \<open>A collector without relevant streams has no entry in the frozen set.\<close>

theorem scan_rib_no_empty_entry:
  "bt_get (scan_rib_and_freeze rib origins pred) c \<noteq> None \<longleftrightarrow>
     (\<exists>x. x \<in> set rib \<and> obs_collector x = c \<and> relevant_stream origins pred x \<noteq> None)"
  using scan_entries [of "[]" origins pred rib c]
  by (simp add: scan_rib_and_freeze_def bt_get_map_values bt_ok_def) (auto simp: bt_get_def)

section \<open>Merging and admission\<close>

lemma streams_at_push: "bt_ok ts \<Longrightarrow> streams_at (push_stream c ss ts) d = streams_at ts d @ (if d = c then ss else [])"
  by (auto simp: streams_at_def bt_get_push split: option.splits)

lemma bt_ok_merge: "bt_ok ts \<Longrightarrow> bt_ok (ts_merge ts other)"
  unfolding ts_merge_def by (induction other arbitrary: ts) (auto simp: bt_ok_push)

lemma streams_at_merge:
  assumes "bt_ok ts" "bt_ok other"
  shows "streams_at (ts_merge ts other) c = streams_at ts c @ streams_at other c"
proof -
  have "streams_at (fold (\<lambda>(c, ss). push_stream c ss) es ts) c = streams_at ts c @ concat (map snd (filter (\<lambda>e. fst e = c) es))"
    if "bt_ok ts" for es ts
    using that
  proof (induction es arbitrary: ts)
    case (Cons e es)
    then show ?case using Cons.IH [of "push_stream (fst e) (snd e) ts"]
      by (cases e) (simp add: bt_ok_push streams_at_push)
  qed simp
  moreover have "concat (map snd (filter (\<lambda>e. fst e = c) other)) = streams_at other c"
    using assms(2) by (induction other) (auto simp: streams_at_def bt_get_def bt_ok_def filter_empty_conv)
  ultimately show ?thesis using assms(1) by (simp add: ts_merge_def)
qed

lemma frozen_prefixes_iff:
  assumes "bt_ok ts"
  shows "p \<in> frozen_prefixes ts \<longleftrightarrow> (\<exists>c ip. ts_contains ts c ip p)"
proof -
  have "ts_contains ts c ip p \<longleftrightarrow> (\<exists>ss s. bt_get ts c = Some ss \<and> s \<in> set ss \<and> tg_peer_ip s = ip \<and> tg_prefix s = p)" for c ip
    by (auto simp: ts_contains_def list_ex_iff split: option.splits)
  moreover have "p \<in> frozen_prefixes ts \<longleftrightarrow> (\<exists>c ss s. bt_get ts c = Some ss \<and> s \<in> set ss \<and> tg_prefix s = p)"
    unfolding frozen_prefixes_def bt_values_get [OF assms] ran_def by blast
  ultimately show ?thesis by blast
qed

text \<open>An update is admitted exactly when its stream is in the target set: the
  prefix filter that runs first rejects nothing that the full key would admit. \<close>

lemma admission_by_key_alone:
  assumes "bt_ok ts"
  shows "admit_observation obs ts (frozen_prefixes ts) \<longleftrightarrow> ts_contains ts (obs_collector obs) (obs_peer_ip obs) (obs_prefix obs)"
  using frozen_prefixes_iff [OF assms] by (auto simp: admit_observation_def)

lemma bt_ok_freeze: "bt_ok (scan_rib_and_freeze rib origins pred)"
proof -
  have "bt_ok (fold (scan_step origins pred) rib [])" by (rule bt_ok_scan) (simp add: bt_ok_def)
  then show ?thesis by (simp add: scan_rib_and_freeze_def bt_ok_def split_def o_def)
qed

definition merged_scans :: "route_observation list list \<Rightarrow> u32 list \<Rightarrow> transit_predicate \<Rightarrow> target_set" where
  "merged_scans ribs origins pred = foldl ts_merge [] (map (\<lambda>rib. scan_rib_and_freeze rib origins pred) ribs)"

text \<open>The target set that the pipeline merges from the scans of single collectors
  admits an update exactly when one of the RIBs has a relevant entry for its stream.\<close>

theorem merged_scans_admit:
  "admit_observation obs (merged_scans ribs origins pred) (frozen_prefixes (merged_scans ribs origins pred)) \<longleftrightarrow>
     (\<exists>rib x. rib \<in> set ribs \<and> x \<in> set rib \<and> obs_collector x = obs_collector obs \<and> obs_peer_ip x = obs_peer_ip obs
        \<and> obs_prefix x = obs_prefix obs \<and> relevant_stream origins pred x \<noteq> None)"
proof -
  have step: "bt_ok (foldl ts_merge acc (map (\<lambda>rib. scan_rib_and_freeze rib origins pred) rs))
      \<and> (ts_contains (foldl ts_merge acc (map (\<lambda>rib. scan_rib_and_freeze rib origins pred) rs)) c ip p
         \<longleftrightarrow> ts_contains acc c ip p \<or> (\<exists>rib \<in> set rs. ts_contains (scan_rib_and_freeze rib origins pred) c ip p))"
    if "bt_ok acc" for acc rs c ip p
    using that
  proof (induction rs arbitrary: acc)
    case (Cons r rs)
    then show ?case using Cons.IH [OF bt_ok_merge [OF Cons.prems], of "scan_rib_and_freeze r origins pred"]
      by (auto simp: ts_contains_streams streams_at_merge bt_ok_freeze image_Un)
  qed simp
  have "bt_ok ([] :: target_set)" by (simp add: bt_ok_def)
  note step = step [OF this, of ribs]
  define ts where "ts = merged_scans ribs origins pred"
  have "bt_ok ts" using step by (simp add: ts_def merged_scans_def)
  then have "admit_observation obs ts (frozen_prefixes ts) \<longleftrightarrow> ts_contains ts (obs_collector obs) (obs_peer_ip obs) (obs_prefix obs)"
    by (rule admission_by_key_alone)
  also have "\<dots> \<longleftrightarrow> (\<exists>rib \<in> set ribs. ts_contains (scan_rib_and_freeze rib origins pred) (obs_collector obs) (obs_peer_ip obs) (obs_prefix obs))"
    using step unfolding ts_def merged_scans_def by (simp add: ts_contains_def bt_get_def)
  finally show ?thesis unfolding ts_def using scan_contains by blast
qed

definition sample_rib_entry :: route_observation where
  "sample_rib_entry =
     \<lparr>obs_id = 1, obs_source = LocalFile ''rib'', obs_timestamp = 0, obs_collector = ''rv2'', obs_peer_ip = V4 16909060,
      obs_peer_asn = 1, obs_prefix = ''10.0.0.0/8'', obs_kind = RibEntry,
      obs_attributes = Some \<lparr>oa_as_path = [1, 11537, 7], oa_origin_asns = [7], oa_next_hop = None, oa_origin = None,
        oa_local_pref = None, oa_med = None, oa_atomic_aggregate = False, oa_communities = \<lparr>comm_values = []\<rparr>\<rparr>,
      obs_path_id = None,
      obs_provenance = \<lparr>pv_input = ''rib'', pv_source_url = None, pv_archive_sha256 = None, pv_role = Rib,
        pv_parser_representation = ''p'', pv_mrt_timestamp = 0, pv_element_seq = 0, pv_archive_order = 0\<rparr>\<rparr>"

theorem scan_rib_witness:
  "distinct (map stream_key (streams_at (scan_rib_and_freeze [sample_rib_entry, sample_rib_entry] [7] (ContainsAny [11537])) ''rv2''))
   \<and> ts_contains (scan_rib_and_freeze [sample_rib_entry, sample_rib_entry] [7] (ContainsAny [11537])) ''rv2'' (V4 16909060) ''10.0.0.0/8''"
proof -
  have "relevant_stream [7] (ContainsAny [11537]) sample_rib_entry \<noteq> None"
    by (simp add: relevant_stream_def sample_rib_entry_def)
  moreover have "obs_collector sample_rib_entry = ''rv2''" "obs_peer_ip sample_rib_entry = V4 16909060"
    "obs_prefix sample_rib_entry = ''10.0.0.0/8''" by (simp_all add: sample_rib_entry_def)
  moreover have "inj_on ip_to_string (obs_peer_ip ` set [sample_rib_entry, sample_rib_entry])" by simp
  ultimately show ?thesis
    using scan_rib_exact [of "[sample_rib_entry, sample_rib_entry]" "[7]" "ContainsAny [11537]" "''rv2''" "V4 16909060" "''10.0.0.0/8''"]
    by auto
qed

end
