(* ===== verification/Access.thy ===== *)
theory Access
  imports Std_Text Complex_Main
begin

text \<open>
  The reviewed HTTP access policy, \<open>catalog/access.rs\<close>: the policy and its validation, the jittered
  backoff, the adaptive rate limiter and the retry loop of the polite client. What the network
  answers, the clock readings and the date parser of \<open>chrono\<close> are parameters: request number \<open>n\<close> of a
  client has an exchange with the instants read while pacing it, the reply and its latency. Rates and
  tokens are \<open>f64\<close>; halving, doubling, minimum and maximum of rates are exact, and the token count is
  kept exactly here. The jitter of the backoff is rounded to 53 significant bits as the hardware
  does. Pacing that never gets its token is \<open>None\<close>.
\<close>

section \<open>The policy\<close>

text \<open>A rate as the command line gives it: infinities and NaN are \<open>NotFinite\<close>.\<close>

datatype rate = Finite rat | NotFinite

record access_policy =
  max_concurrency :: nat
  requests_per_second :: rate
  policy_burst :: nat
  max_requests :: nat
  max_retries :: nat
  backoff_base_ms :: nat
  backoff_max_ms :: nat
  contact :: "string option"

definition conservative :: access_policy where
  "conservative = \<lparr>max_concurrency = 5, requests_per_second = Finite 5, policy_burst = 2, max_requests = 100,
     max_retries = 3, backoff_base_ms = 500, backoff_max_ms = 30000, contact = None\<rparr>"

definition policy_validate :: "access_policy \<Rightarrow> string + unit" where
  "policy_validate p =
     (if max_concurrency p = 0 then Inl ''max_concurrency must be >= 1''
      else if (case requests_per_second p of Finite r \<Rightarrow> r \<le> 0 | NotFinite \<Rightarrow> True)
        then Inl ''requests_per_second must be positive and finite''
      else if policy_burst p = 0 then Inl ''burst must be >= 1''
      else if max_requests p = 0 then Inl ''max_requests must be >= 1 (an unbounded crawl is not allowed)''
      else if backoff_base_ms p = 0 then Inl ''backoff_base_ms must be >= 1''
      else Inr ())"

definition user_agent :: "string \<Rightarrow> access_policy \<Rightarrow> string" where
  "user_agent version p =
     (case contact p of
        Some c \<Rightarrow> if c \<noteq> [] then ''inim/'' @ version @ '' (public-ticket corpus research; contact '' @ c @ '')''
                  else ''inim/'' @ version @ '' (public-ticket corpus research; no contact configured)''
      | None \<Rightarrow> ''inim/'' @ version @ '' (public-ticket corpus research; no contact configured)'')"

section \<open>Backoff\<close>

definition jitter_rng_new :: "u64 \<Rightarrow> u64" where
  "jitter_rng_new seed = max seed 1"

definition next_u64 :: "u64 \<Rightarrow> u64 \<times> u64" where
  "next_u64 s =
     (let x = s XOR drop_bit 12 s;
          x = x XOR push_bit 25 x;
          x = x XOR drop_bit 27 x
      in (x * 0x2545F4914F6CDD1D, x))"

definition next_f64 :: "u64 \<Rightarrow> rat \<times> u64" where
  "next_f64 s = (let (v, s') = next_u64 s in (of_nat (unat (drop_bit 11 v)) / 2 ^ 53, s'))"

text \<open>Rounding to nearest, ties to even, of a number that is at least one, to 53 significant bits.\<close>

definition round_half_even :: "rat \<Rightarrow> int" where
  "round_half_even y =
     (let f = \<lfloor>y\<rfloor>; d = y - of_int f
      in if d < 1 / 2 then f else if 1 / 2 < d then f + 1 else if even f then f else f + 1)"

fun exponent_of :: "nat \<Rightarrow> nat" where
  "exponent_of n = (if n < 2 then 0 else Suc (exponent_of (n div 2)))"

definition f64_round :: "rat \<Rightarrow> rat" where
  "f64_round x =
     (if x < 1 then x
      else let ulps = 2 ^ 52 / 2 ^ exponent_of (nat \<lfloor>x\<rfloor>)
           in of_int (round_half_even (x * ulps)) / ulps)"

definition saturating_mul :: "nat \<Rightarrow> nat \<Rightarrow> nat" where
  "saturating_mul a b = min (a * b) (2 ^ 64 - 1)"

definition backoff_capped :: "nat \<Rightarrow> nat \<Rightarrow> nat \<Rightarrow> nat" where
  "backoff_capped attempt base_ms max_ms = min (saturating_mul base_ms (2 ^ min attempt 10)) max_ms"

definition millis :: "nat \<Rightarrow> duration" where
  "millis n = int n * 1000000"

definition backoff_delay :: "nat \<Rightarrow> nat \<Rightarrow> nat \<Rightarrow> u64 \<Rightarrow> duration \<times> u64" where
  "backoff_delay attempt base_ms max_ms rng =
     (let capped = f64_round (of_nat (backoff_capped attempt base_ms max_ms));
          (u, rng') = next_f64 rng;
          jittered = f64_round (capped * f64_round (1 + 1 / 2 * u))
      in (millis (min (nat \<lfloor>jittered\<rfloor>) (2 ^ 64 - 1)), rng'))"

definition backoff_bounds :: "nat \<Rightarrow> nat \<Rightarrow> nat \<Rightarrow> duration \<times> duration" where
  "backoff_bounds attempt base_ms max_ms =
     (let capped = backoff_capped attempt base_ms max_ms
      in (millis capped, millis (min (nat \<lfloor>f64_round (f64_round (of_nat capped) * (1 + 1 / 2))\<rfloor>) (2 ^ 64 - 1))))"

section \<open>The rate limiter\<close>

record rate_limiter =
  configured_rps :: rat
  effective_rps :: rat
  rl_burst :: rat
  tokens :: rat
  last_refill :: "rat option"
  max_inflight :: nat
  inflight :: nat
  successes :: nat
  rate_reductions :: nat
  rate_recoveries :: nat
  max_observed_inflight :: nat

definition adaptive_rate_floor :: rat where
  "adaptive_rate_floor = 1 / 4"

definition recovery_success_window :: nat where
  "recovery_success_window = 20"

definition limiter_new :: "rat \<Rightarrow> nat \<Rightarrow> nat \<Rightarrow> rate_limiter" where
  "limiter_new rps burst cap =
     \<lparr>configured_rps = rps, effective_rps = rps, rl_burst = of_nat burst, tokens = of_nat burst, last_refill = None,
      max_inflight = cap, inflight = 0, successes = 0, rate_reductions = 0, rate_recoveries = 0,
      max_observed_inflight = 0\<rparr>"

definition refill :: "rat \<Rightarrow> rate_limiter \<Rightarrow> rate_limiter" where
  "refill now l =
     (let l' = (case last_refill l of
                  None \<Rightarrow> l
                | Some earlier \<Rightarrow>
                    let elapsed = max 0 (now - earlier)
                    in l\<lparr>tokens := min (tokens l + elapsed * effective_rps l) (rl_burst l)\<rparr>)
      in l'\<lparr>last_refill := Some now\<rparr>)"

text \<open>How long the loop sleeps before it reads the clock again.\<close>

definition token_wait :: "rate_limiter \<Rightarrow> rat" where
  "token_wait l = max ((1 - tokens l) / effective_rps l) (1 / 1000)"

text \<open>The pacing loop over the instants it reads.\<close>

fun acquire :: "rat list \<Rightarrow> rate_limiter \<Rightarrow> rate_limiter option" where
  "acquire [] l = None"
| "acquire (now # later) l =
     (let l = refill now l
      in if 1 \<le> tokens l then Some (l\<lparr>tokens := tokens l - 1\<rparr>) else acquire later l)"

definition acquire_inflight :: "rate_limiter \<Rightarrow> string + rate_limiter" where
  "acquire_inflight l =
     (if max_inflight l \<le> inflight l then Inl (''in-flight cap '' @ show_nat (max_inflight l) @ '' reached'')
      else Inr (l\<lparr>inflight := inflight l + 1, max_observed_inflight := max (max_observed_inflight l) (inflight l + 1)\<rparr>))"

definition release_inflight :: "rate_limiter \<Rightarrow> rate_limiter" where
  "release_inflight l = l\<lparr>inflight := inflight l - 1\<rparr>"

definition note_success :: "rate_limiter \<Rightarrow> rate_limiter" where
  "note_success l =
     (let l = l\<lparr>successes := successes l + 1\<rparr>
      in if recovery_success_window \<le> successes l \<and> effective_rps l < configured_rps l
         then l\<lparr>effective_rps := min (effective_rps l * 2) (configured_rps l),
                rate_recoveries := rate_recoveries l + 1, successes := 0\<rparr>
         else l)"

definition note_throttle :: "rate_limiter \<Rightarrow> rate_limiter" where
  "note_throttle l =
     l\<lparr>effective_rps := max (effective_rps l / 2) adaptive_rate_floor,
       rate_reductions := rate_reductions l + 1, successes := 0\<rparr>"

section \<open>The polite client\<close>

record sync_metrics =
  status_counts :: "nat \<Rightarrow> nat"
  retry_after_responses :: nat
  met_rate_reductions :: nat
  met_rate_recoveries :: nat
  control_messages :: "string list"
  latencies :: "rat list"
  met_max_observed_inflight :: nat
  met_configured_rps :: rat
  final_effective_rps :: rat

record polite_client =
  policy :: access_policy
  rng :: u64
  requests_made :: nat
  budget_remaining :: nat
  limiter :: rate_limiter
  last_retries :: nat
  bytes_transferred :: nat
  metrics :: sync_metrics

definition new_with_seed :: "access_policy \<Rightarrow> u64 \<Rightarrow> string + polite_client" where
  "new_with_seed p seed =
     and_then (policy_validate p) (\<lambda>_.
       let rps = (case requests_per_second p of Finite r \<Rightarrow> r | NotFinite \<Rightarrow> 0)
       in Inr \<lparr>policy = p, rng = jitter_rng_new seed, requests_made = 0, budget_remaining = 2 ^ 64 - 1,
            limiter = limiter_new rps (policy_burst p) (max_concurrency p), last_retries = 0, bytes_transferred = 0,
            metrics = \<lparr>status_counts = (\<lambda>_. 0), retry_after_responses = 0, met_rate_reductions = 0,
              met_rate_recoveries = 0, control_messages = [], latencies = [], met_max_observed_inflight = 0,
              met_configured_rps = rps, final_effective_rps = 0\<rparr>\<rparr>)"

definition client_new :: "access_policy \<Rightarrow> string + polite_client" where
  "client_new p = new_with_seed p 0x5EED2026"

definition set_budget :: "nat \<Rightarrow> polite_client \<Rightarrow> polite_client" where
  "set_budget b c = c\<lparr>budget_remaining := b\<rparr>"

record http_request =
  req_method :: string
  req_url :: string
  req_headers :: "(string \<times> string) list"
  req_body :: "string option"

record http_response =
  status :: nat
  retry_after_header :: "string option"
  content_type :: "string option"
  etag :: "string option"
  last_modified :: "string option"
  body_text :: "string + string"

text \<open>One request of a client as the outside sees it: the instants read while pacing, the reply,
  how long it took and the wall clock at the two evaluations of the retry header.\<close>

record exchange =
  readings :: "rat list"
  reply :: "string + http_response"
  latency :: rat
  wall_counted :: timestamp
  wall_slept :: timestamp

record fetched_body =
  fb_body :: string
  fb_status :: nat
  fb_content_type :: "string option"
  fb_etag :: "string option"
  fb_last_modified :: "string option"

datatype fetch_outcome = FetchedOk fetched_body | NotModified | NotFound | ForbiddenOutcome | UnauthorizedOutcome
datatype stop_reason = BudgetExhausted | Forbidden | AuthenticationRequired | RepeatedRateLimited
datatype client_error = Stop stop_reason | TooManyRetries string | UnexpectedStatus nat | Transport string

definition conditional_headers :: "string option \<Rightarrow> string option \<Rightarrow> (string \<times> string) list" where
  "conditional_headers tag modified =
     (case tag of None \<Rightarrow> [] | Some e \<Rightarrow> [(''if-none-match'', e)])
     @ (case modified of None \<Rightarrow> [] | Some m \<Rightarrow> [(''if-modified-since'', m)])"

definition get_request :: "string \<Rightarrow> string option \<Rightarrow> string option \<Rightarrow> http_request" where
  "get_request url tag modified =
     \<lparr>req_method = ''GET'', req_url = url, req_headers = conditional_headers tag modified, req_body = None\<rparr>"

definition post_request :: "string \<Rightarrow> string \<Rightarrow> string option \<Rightarrow> string option \<Rightarrow> http_request" where
  "post_request url json tag modified =
     \<lparr>req_method = ''POST'', req_url = url,
      req_headers = (''content-type'', ''application/json'') # conditional_headers tag modified, req_body = Some json\<rparr>"

text \<open>A paced, budgeted request: \<open>send_get\<close> and \<open>send_post\<close> share everything but the request built.\<close>

definition send_request :: "exchange \<Rightarrow> polite_client \<Rightarrow> (polite_client \<times> (string + http_response)) option" where
  "send_request x c =
     map_option (\<lambda>l.
       (c\<lparr>limiter := l, requests_made := requests_made c + 1, budget_remaining := budget_remaining c - 1\<rparr>, reply x))
       (acquire (readings x) (limiter c))"

definition retry_after :: "(string \<Rightarrow> timestamp option) \<Rightarrow> timestamp \<Rightarrow> http_response \<Rightarrow> duration option" where
  "retry_after rfc2822 now r =
     Option.bind (retry_after_header r) (\<lambda>value.
       let text = trim value
       in case parse_u64 text of
            Some n \<Rightarrow> Some (secs (int n))
          | None \<Rightarrow> (case rfc2822 text of
                       Some target \<Rightarrow> if now < target then Some (target - now) else None
                     | None \<Rightarrow> None))"

definition body_of :: "http_response \<Rightarrow> polite_client \<Rightarrow> polite_client \<times> (client_error + fetched_body)" where
  "body_of r c =
     (case body_text r of
        Inl e \<Rightarrow> (c, Inl (Transport (''cannot read response body: '' @ e)))
      | Inr b \<Rightarrow>
          (c\<lparr>bytes_transferred := bytes_transferred c + length b\<rparr>,
           Inr \<lparr>fb_body = b, fb_status = status r, fb_content_type = content_type r, fb_etag = etag r,
                fb_last_modified = last_modified r\<rparr>))"

text \<open>What the loop does with a reply: it returns, or it sleeps and tries again.\<close>

datatype reaction = Finish "client_error + fetch_outcome" | Retry duration

definition update_limiter :: "(rate_limiter \<Rightarrow> rate_limiter) \<Rightarrow> polite_client \<Rightarrow> polite_client" where
  "update_limiter f c = c\<lparr>limiter := f (limiter c)\<rparr>"

definition count_response ::
    "(string \<Rightarrow> timestamp option) \<Rightarrow> exchange \<Rightarrow> http_response \<Rightarrow> polite_client \<Rightarrow> polite_client" where
  "count_response rfc2822 x r c =
     (let m = metrics c
      in c\<lparr>metrics := m\<lparr>status_counts := (status_counts m)(status r := status_counts m (status r) + 1),
             latencies := latencies m @ [latency x],
             retry_after_responses := retry_after_responses m
               + (if retry_after rfc2822 (wall_counted x) r = None then 0 else 1)\<rparr>\<rparr>)"

definition copy_metrics :: "polite_client \<Rightarrow> polite_client" where
  "copy_metrics c =
     (let l = limiter c
      in c\<lparr>metrics := (metrics c)\<lparr>met_rate_reductions := rate_reductions l, met_rate_recoveries := rate_recoveries l,
             met_max_observed_inflight := max_observed_inflight l, final_effective_rps := effective_rps l\<rparr>\<rparr>)"

definition sleep_or_backoff :: "duration option \<Rightarrow> nat \<Rightarrow> polite_client \<Rightarrow> polite_client \<times> reaction" where
  "sleep_or_backoff after attempt c =
     (case after of
        Some d \<Rightarrow> (c, Retry d)
      | None \<Rightarrow> let (d, s) = backoff_delay attempt (backoff_base_ms (policy c)) (backoff_max_ms (policy c)) (rng c)
                in (c\<lparr>rng := s\<rparr>, Retry d))"

definition handle_response ::
    "(string \<Rightarrow> timestamp option) \<Rightarrow> exchange \<Rightarrow> nat \<Rightarrow> http_response \<Rightarrow> polite_client \<Rightarrow> polite_client \<times> reaction" where
  "handle_response rfc2822 x attempt r c =
     (if status r = 200 then
        (let c = copy_metrics (update_limiter note_success c)
         in case body_of r c of
              (c, Inl e) \<Rightarrow> (c, Finish (Inl e))
            | (c, Inr b) \<Rightarrow> (c, Finish (Inr (FetchedOk b))))
      else if status r = 304 then
        ((update_limiter note_success c)\<lparr>last_retries := attempt\<rparr>, Finish (Inr NotModified))
      else if status r = 404 then
        ((update_limiter note_success c)\<lparr>last_retries := attempt\<rparr>, Finish (Inr NotFound))
      else if status r = 401 then (c, Finish (Inl (Stop AuthenticationRequired)))
      else if status r = 403 then (c, Finish (Inl (Stop Forbidden)))
      else if status r = 429 then
        (let c = update_limiter note_throttle c
         in if max_retries (policy c) \<le> attempt then (c, Finish (Inl (Stop RepeatedRateLimited)))
            else sleep_or_backoff (retry_after rfc2822 (wall_slept x) r) attempt c)
      else if status r \<in> {503, 500, 502, 504} then
        (if max_retries (policy c) \<le> attempt
         then (c, Finish (Inl (TooManyRetries
           (''status '' @ show_nat (status r) @ '' after '' @ show_nat (max_retries (policy c)) @ '' retries''))))
         else sleep_or_backoff (retry_after rfc2822 (wall_slept x) r) attempt c)
      else (c, Finish (Inl (UnexpectedStatus (status r)))))"

lemma sleep_or_backoff_policy: "policy (fst (sleep_or_backoff d attempt c)) = policy c"
  by (simp add: sleep_or_backoff_def split: option.split prod.split)

lemma handle_response_retry:
  assumes "handle_response rfc2822 x attempt r c = (c', Retry d)"
  shows "attempt < max_retries (policy c) \<and> policy c' = policy c"
  using assms sleep_or_backoff_policy [of "retry_after rfc2822 (wall_slept x) r" attempt c]
    sleep_or_backoff_policy [of "retry_after rfc2822 (wall_slept x) r" attempt "update_limiter note_throttle c"]
  by (auto simp: handle_response_def Let_def update_limiter_def split: if_splits prod.splits sum.splits)

text \<open>One turn of the loop up to the reaction; the sum is the early return before a reply.\<close>

definition fetch_turn ::
    "(string \<Rightarrow> timestamp option) \<Rightarrow> (nat \<Rightarrow> http_request \<Rightarrow> exchange) \<Rightarrow> http_request \<Rightarrow> nat \<Rightarrow> polite_client
       \<Rightarrow> (polite_client \<times> reaction) option" where
  "fetch_turn rfc2822 net req attempt c =
     (if budget_remaining c = 0 then Some (c, Finish (Inl (Stop BudgetExhausted)))
      else case acquire_inflight (limiter c) of
        Inl e \<Rightarrow> Some (c, Finish (Inl (Transport e)))
      | Inr l \<Rightarrow>
          let x = net (requests_made c) req
          in Option.bind (send_request x (c\<lparr>limiter := l\<rparr>)) (\<lambda>(c, response).
             let c = update_limiter release_inflight c
             in case response of
                  Inl e \<Rightarrow> Some (c, Finish (Inl (Transport e)))
                | Inr r \<Rightarrow> Some (handle_response rfc2822 x attempt r (count_response rfc2822 x r c))))"

lemma fetch_turn_retry:
  assumes "fetch_turn rfc2822 net req attempt c = Some (c', Retry d)"
  shows "attempt < max_retries (policy c) \<and> policy c' = policy c"
  using assms
  by (auto simp: fetch_turn_def Let_def acquire_inflight_def send_request_def update_limiter_def count_response_def
      dest!: handle_response_retry split: if_splits sum.splits Option.bind_splits)

function fetch_with ::
    "(string \<Rightarrow> timestamp option) \<Rightarrow> (nat \<Rightarrow> http_request \<Rightarrow> exchange) \<Rightarrow> http_request \<Rightarrow> nat \<Rightarrow> polite_client
       \<Rightarrow> duration list \<Rightarrow> (polite_client \<times> duration list \<times> (client_error + fetch_outcome)) option" where
  "fetch_with rfc2822 net req attempt c slept =
     (case fetch_turn rfc2822 net req attempt c of
        None \<Rightarrow> None
      | Some (c', Finish result) \<Rightarrow> Some (c', slept, result)
      | Some (c', Retry d) \<Rightarrow> fetch_with rfc2822 net req (attempt + 1) c' (slept @ [d]))"
  by pat_completeness auto
termination
  by (relation "measure (\<lambda>(_, _, _, attempt, c, _). max_retries (policy c) - attempt)")
    (auto dest!: fetch_turn_retry)

declare fetch_with.simps [simp del]

definition fetch where
  "fetch rfc2822 net url tag modified c = fetch_with rfc2822 net (get_request url tag modified) 0 c []"

definition fetch_post where
  "fetch_post rfc2822 net url json tag modified c = fetch_with rfc2822 net (post_request url json tag modified) 0 c []"

section \<open>The limiter\<close>

text \<open>The bucket never holds more than the burst, and the effective rate stays between the floor and
  the configured rate; a configured rate below the floor is the exception.\<close>

definition limiter_ok :: "rate_limiter \<Rightarrow> bool" where
  "limiter_ok l \<longleftrightarrow> 1 \<le> rl_burst l \<and> 0 \<le> tokens l \<and> tokens l \<le> rl_burst l \<and> 0 < configured_rps l
     \<and> min (configured_rps l) adaptive_rate_floor \<le> effective_rps l
     \<and> effective_rps l \<le> max (configured_rps l) adaptive_rate_floor"

lemma limiter_ok_rate: "limiter_ok l \<Longrightarrow> 0 < effective_rps l"
  by (auto simp: limiter_ok_def adaptive_rate_floor_def min_def split: if_splits)

lemma refill_frame [inim_frame]:
  "configured_rps (refill t l) = configured_rps l" "effective_rps (refill t l) = effective_rps l"
  "rl_burst (refill t l) = rl_burst l" "max_inflight (refill t l) = max_inflight l" "inflight (refill t l) = inflight l"
  "max_observed_inflight (refill t l) = max_observed_inflight l"
  by (simp_all add: refill_def Let_def split: option.split)

lemma refill_ok [inim_inv]:
  assumes "limiter_ok l"
  shows "limiter_ok (refill t l)"
proof -
  have "0 \<le> tokens l + max 0 (t - e) * effective_rps l" for e
    using assms limiter_ok_rate [OF assms] by (simp add: limiter_ok_def)
  with assms show ?thesis
    by (auto simp: limiter_ok_def refill_def Let_def split: option.split)
qed

lemma acquire_induct [consumes 1, case_names granted waited]:
  assumes "acquire ts l = Some l'"
    and "\<And>t l. 1 \<le> tokens (refill t l) \<Longrightarrow> P l ((refill t l)\<lparr>tokens := tokens (refill t l) - 1\<rparr>)"
    and "\<And>t l l'. P (refill t l) l' \<Longrightarrow> P l l'"
  shows "P l l'"
  using assms(1) by (induction ts arbitrary: l) (auto simp: Let_def intro: assms(2,3) split: if_splits)

lemma acquire_frame:
  assumes "acquire ts l = Some l'"
  shows "configured_rps l' = configured_rps l \<and> effective_rps l' = effective_rps l \<and> rl_burst l' = rl_burst l
    \<and> max_inflight l' = max_inflight l \<and> inflight l' = inflight l \<and> max_observed_inflight l' = max_observed_inflight l"
  using assms by (induction rule: acquire_induct) (simp_all add: inim_frame)

lemma acquire_ok [inim_inv]:
  assumes "acquire ts l = Some l'"
  shows "limiter_ok l \<longrightarrow> limiter_ok l'"
  using assms
proof (induction rule: acquire_induct)
  case (granted t l)
  then show ?case
    using refill_ok [of l t] by (auto simp: limiter_ok_def)
qed (simp add: inim_inv)

lemma note_success_ok [inim_inv]: "limiter_ok l \<Longrightarrow> limiter_ok (note_success l)"
  by (auto simp: limiter_ok_def note_success_def Let_def adaptive_rate_floor_def min_def split: if_splits)

lemma note_throttle_ok [inim_inv]: "limiter_ok l \<Longrightarrow> limiter_ok (note_throttle l)"
  by (auto simp: limiter_ok_def note_throttle_def adaptive_rate_floor_def)

text \<open>A reading that is late enough ends the loop.\<close>

lemma acquire_after_wait:
  assumes "limiter_ok l" "t + token_wait (refill t l) \<le> t'"
  shows "\<exists>l'. acquire (t # t' # ts) l = Some l'"
proof (cases "1 \<le> tokens (refill t l)")
  case False
  define m where "m = refill t l"
  have ok: "limiter_ok m" and last: "last_refill m = Some t"
    using refill_ok [OF assms(1)] by (simp_all add: m_def refill_def Let_def split: option.split)
  have "(1 - tokens m) / effective_rps m \<le> token_wait m" "1 / 1000 \<le> token_wait m"
    by (simp_all only: token_wait_def max.cobounded1 max.cobounded2)
  with assms(2) have "(1 - tokens m) / effective_rps m \<le> t' - t" "0 \<le> t' - t"
    unfolding m_def by linarith+
  then have "1 \<le> tokens m + (t' - t) * effective_rps m"
    using limiter_ok_rate [OF ok] by (simp add: pos_divide_le_eq)
  moreover have "1 \<le> rl_burst m"
    using ok by (simp add: limiter_ok_def)
  ultimately have "1 \<le> tokens (refill t' m)"
    using \<open>0 \<le> t' - t\<close> last by (simp add: refill_def)
  with False show ?thesis
    by (simp add: Let_def m_def)
qed (simp add: Let_def)

section \<open>The retry loop\<close>

definition client_ok :: "polite_client \<Rightarrow> bool" where
  "client_ok c \<longleftrightarrow> limiter_ok (limiter c) \<and> inflight (limiter c) = 0 \<and> 0 < max_inflight (limiter c)
     \<and> max_observed_inflight (limiter c) \<le> 1"

lemma new_client_ok:
  assumes "new_with_seed p seed = Inr c"
  shows "client_ok c \<and> requests_made c = 0 \<and> policy c = p"
proof (cases "requests_per_second p")
  case (Finite r)
  have "1 \<le> policy_burst p \<Longrightarrow> (1 :: rat) \<le> of_nat (policy_burst p)"
    by simp
  with assms Finite show ?thesis
    by (auto simp: new_with_seed_def policy_validate_def client_ok_def limiter_ok_def limiter_new_def split: if_splits)
qed (use assms in \<open>simp add: new_with_seed_def policy_validate_def split: if_splits\<close>)

text \<open>How a reply ends a fetch; \<open>None\<close> is a reply the loop retries.\<close>

definition verdict :: "http_response \<Rightarrow> (client_error + fetch_outcome) option" where
  "verdict r =
     (if status r = 200 then Some (case body_text r of
           Inl e \<Rightarrow> Inl (Transport (''cannot read response body: '' @ e))
         | Inr b \<Rightarrow> Inr (FetchedOk \<lparr>fb_body = b, fb_status = 200, fb_content_type = content_type r, fb_etag = etag r,
                                    fb_last_modified = last_modified r\<rparr>))
      else if status r = 304 then Some (Inr NotModified)
      else if status r = 404 then Some (Inr NotFound)
      else if status r = 401 then Some (Inl (Stop AuthenticationRequired))
      else if status r = 403 then Some (Inl (Stop Forbidden))
      else if status r \<in> {429, 500, 502, 503, 504} then None
      else Some (Inl (UnexpectedStatus (status r))))"

definition gave_up :: "nat \<Rightarrow> http_response \<Rightarrow> client_error + fetch_outcome" where
  "gave_up retries r =
     (if status r = 429 then Inl (Stop RepeatedRateLimited)
      else Inl (TooManyRetries (''status '' @ show_nat (status r) @ '' after '' @ show_nat retries @ '' retries'')))"

definition settle :: "nat \<Rightarrow> string + http_response \<Rightarrow> client_error + fetch_outcome" where
  "settle retries response =
     (case response of
        Inl e \<Rightarrow> Inl (Transport e)
      | Inr r \<Rightarrow> (case verdict r of Some result \<Rightarrow> result | None \<Rightarrow> gave_up retries r))"

definition retried :: "string + http_response \<Rightarrow> bool" where
  "retried response = (case response of Inl _ \<Rightarrow> False | Inr r \<Rightarrow> verdict r = None)"

text \<open>What handling a reply leaves alone.\<close>

definition same_account :: "polite_client \<Rightarrow> polite_client \<Rightarrow> bool" where
  "same_account c c' \<longleftrightarrow> policy c' = policy c \<and> requests_made c' = requests_made c \<and> budget_remaining c' = budget_remaining c
     \<and> configured_rps (limiter c') = configured_rps (limiter c) \<and> (client_ok c \<longrightarrow> client_ok c')"

lemma same_account_limiter:
  assumes "\<And>l. limiter_ok l \<Longrightarrow> limiter_ok (f l)" "\<And>l. inflight (f l) = inflight l"
    "\<And>l. max_inflight (f l) = max_inflight l" "\<And>l. max_observed_inflight (f l) = max_observed_inflight l"
    "\<And>l. configured_rps (f l) = configured_rps l"
  shows "same_account c (update_limiter f c)"
  using assms by (simp add: same_account_def update_limiter_def client_ok_def)

lemma same_account_success: "same_account c (update_limiter note_success c)"
  by (rule same_account_limiter, erule note_success_ok) (simp_all add: note_success_def Let_def)

lemma same_account_throttle: "same_account c (update_limiter note_throttle c)"
  by (rule same_account_limiter, erule note_throttle_ok) (simp_all add: note_throttle_def)

lemma same_account_trans: "same_account a b \<Longrightarrow> same_account b c \<Longrightarrow> same_account a c"
  by (simp add: same_account_def)

lemma same_account_fields:
  "same_account c c" "same_account c (c\<lparr>rng := s\<rparr>)" "same_account c (c\<lparr>last_retries := n\<rparr>)"
  "same_account c (copy_metrics c)" "same_account c (count_response f x r c)" "same_account c (fst (body_of r c))"
  by (simp_all add: same_account_def client_ok_def copy_metrics_def count_response_def body_of_def Let_def split: sum.split)

lemma sleep_or_backoff_spec:
  "same_account c (fst (sleep_or_backoff after attempt c)) \<and> (\<exists>d. snd (sleep_or_backoff after attempt c) = Retry d)"
  by (auto simp: sleep_or_backoff_def same_account_fields split: option.split prod.split)

lemma handle_response_spec:
  "same_account c (fst (handle_response f x attempt r c))
   \<and> (case verdict r of
        Some result \<Rightarrow> snd (handle_response f x attempt r c) = Finish result
      | None \<Rightarrow> if max_retries (policy c) \<le> attempt then snd (handle_response f x attempt r c) = Finish (gave_up (max_retries (policy c)) r)
                else \<exists>d. snd (handle_response f x attempt r c) = Retry d)"
proof -
  have throttled: "policy (update_limiter note_throttle c) = policy c"
    by (simp add: update_limiter_def)
  have ok: "same_account c (fst (body_of r (copy_metrics (update_limiter note_success c))))"
    by (rule same_account_trans [OF same_account_success same_account_trans [OF same_account_fields(4,6)]])
  have done_: "same_account c ((update_limiter note_success c)\<lparr>last_retries := attempt\<rparr>)"
    by (rule same_account_trans [OF same_account_success same_account_fields(3)])
  have slept: "same_account c (fst (sleep_or_backoff d attempt (update_limiter note_throttle c)))" for d
    by (rule same_account_trans [OF same_account_throttle conjunct1 [OF sleep_or_backoff_spec]])
  note slept_c = sleep_or_backoff_spec [of c "retry_after f (wall_slept x) r" attempt]
  note slept_t = sleep_or_backoff_spec [of "update_limiter note_throttle c" "retry_after f (wall_slept x) r" attempt]
  consider (ok) "status r = 200" | (settled) "status r \<in> {304, 404}" | (refused) "status r \<in> {401, 403}"
    | (throttle) "status r = 429" | (busy) "status r \<in> {500, 502, 503, 504}"
    | (other) "status r \<notin> {200, 304, 404, 401, 403, 429, 500, 502, 503, 504}"
    by blast
  then show ?thesis
  proof cases
    case ok
    then show ?thesis
      using \<open>same_account c (fst (body_of r (copy_metrics (update_limiter note_success c))))\<close>
      by (simp add: handle_response_def verdict_def body_of_def Let_def split: sum.splits)
  next
    case settled
    then show ?thesis
      using done_ by (auto simp: handle_response_def verdict_def)
  next
    case refused
    then show ?thesis
      by (auto simp: handle_response_def verdict_def same_account_fields)
  next
    case throttle
    then show ?thesis
      using slept slept_t same_account_throttle [of c]
      by (simp add: handle_response_def verdict_def gave_up_def Let_def throttled)
  next
    case busy
    then show ?thesis
      using slept_c by (auto simp: handle_response_def verdict_def gave_up_def same_account_fields)
  qed (simp add: handle_response_def verdict_def same_account_fields)
qed

lemma fetch_turn_spec:
  assumes ok: "client_ok c" and turn: "fetch_turn f net req attempt c = Some (c', rx)"
  shows "client_ok c' \<and> policy c' = policy c \<and> configured_rps (limiter c') = configured_rps (limiter c)
    \<and> (if budget_remaining c = 0 then c' = c \<and> rx = Finish (Inl (Stop BudgetExhausted))
       else requests_made c' = requests_made c + 1 \<and> budget_remaining c' = budget_remaining c - 1
         \<and> (if retried (reply (net (requests_made c) req)) \<and> attempt < max_retries (policy c) then \<exists>d. rx = Retry d
            else rx = Finish (settle (max_retries (policy c)) (reply (net (requests_made c) req)))))"
proof (cases "budget_remaining c = 0")
  case False
  define x where "x = net (requests_made c) req"
  define l where "l = (limiter c)\<lparr>inflight := 1, max_observed_inflight := 1\<rparr>"
  have "acquire_inflight (limiter c) = Inr l"
    using ok by (simp add: acquire_inflight_def client_ok_def l_def max_def)
  with turn False obtain l' where l': "acquire (readings x) l = Some l'"
    and rest: "(let c = update_limiter release_inflight (c\<lparr>limiter := l', requests_made := requests_made c + 1,
                     budget_remaining := budget_remaining c - 1\<rparr>)
                in case reply x of Inl e \<Rightarrow> Some (c, Finish (Inl (Transport e)))
                   | Inr r \<Rightarrow> Some (handle_response f x attempt r (count_response f x r c))) = Some (c', rx)"
    unfolding x_def by (auto simp: fetch_turn_def send_request_def Let_def split: Option.bind_splits)
  define d where "d = update_limiter release_inflight (c\<lparr>limiter := l', requests_made := requests_made c + 1,
                     budget_remaining := budget_remaining c - 1\<rparr>)"
  note rest = rest [folded d_def, unfolded Let_def]
  have "limiter_ok l"
    using ok by (simp add: client_ok_def l_def limiter_ok_def)
  then have d: "client_ok d" "policy d = policy c" "requests_made d = requests_made c + 1"
      "budget_remaining d = budget_remaining c - 1" "configured_rps (limiter d) = configured_rps (limiter c)"
    using ok acquire_ok [OF l'] acquire_frame [OF l']
    by (simp_all add: d_def l_def update_limiter_def release_inflight_def client_ok_def limiter_ok_def)
  show ?thesis
  proof (cases "reply x")
    case (Inl e)
    with rest d False show ?thesis
      by (auto simp flip: x_def simp: settle_def retried_def)
  next
    case (Inr r)
    then have "handle_response f x attempt r (count_response f x r d) = (c', rx)"
      using rest by simp
    then show ?thesis
      using Inr d False handle_response_spec [of "count_response f x r d" f x attempt r] same_account_fields(5) [of d f x r]
      by (auto simp: settle_def retried_def same_account_def simp flip: x_def split: option.splits if_splits)
  qed
qed (use assms in \<open>simp add: fetch_turn_def\<close>)

lemma fetch_with_spec:
  assumes "fetch_with f net req attempt c slept = Some (c', slept', result)" "client_ok c"
  shows "client_ok c' \<and> policy c' = policy c \<and> configured_rps (limiter c') = configured_rps (limiter c)
    \<and> (\<exists>ds. slept' = slept @ ds \<and> length ds \<le> max_retries (policy c) - attempt \<and> length ds \<le> budget_remaining c
         \<and> (\<forall>i < length ds. retried (reply (net (requests_made c + i) req)))
         \<and> (if budget_remaining c = length ds
            then result = Inl (Stop BudgetExhausted) \<and> requests_made c' = requests_made c + length ds \<and> budget_remaining c' = 0
            else result = settle (max_retries (policy c)) (reply (net (requests_made c + length ds) req))
              \<and> (retried (reply (net (requests_made c + length ds) req)) \<longrightarrow> max_retries (policy c) \<le> attempt + length ds)
              \<and> requests_made c' = requests_made c + length ds + 1
              \<and> budget_remaining c' = budget_remaining c - length ds - 1))"
  using assms
proof (induction f net req attempt c slept arbitrary: c' slept' result rule: fetch_with.induct)
  case (1 f net req attempt c slept)
  from "1.prems"(1) obtain d rx where turn: "fetch_turn f net req attempt c = Some (d, rx)"
    by (simp add: fetch_with.simps [of f net req attempt c] split: option.splits) auto
  note spec = fetch_turn_spec [OF "1.prems"(2) turn]
  show ?case
  proof (cases rx)
    case (Finish res)
    with "1.prems"(1) turn have "c' = d" "slept' = slept" "result = res"
      by (simp_all add: fetch_with.simps [of f net req attempt c])
    with spec Finish show ?thesis
      by (intro conjI exI [of _ "[]"]) (auto split: if_splits)
  next
    case (Retry t)
    with "1.prems"(1) turn have next_turn: "fetch_with f net req (attempt + 1) d (slept @ [t]) = Some (c', slept', result)"
      by (simp add: fetch_with.simps [of f net req attempt c])
    have d: "client_ok d" "policy d = policy c" "requests_made d = requests_made c + 1" "0 < budget_remaining c"
      "budget_remaining d = budget_remaining c - 1" "retried (reply (net (requests_made c) req))"
      "attempt < max_retries (policy c)" "configured_rps (limiter d) = configured_rps (limiter c)"
      using spec Retry by (auto split: if_splits)
    from "1.IH" [OF turn refl Retry next_turn d(1)] obtain ds where ds: "slept' = slept @ t # ds"
      "length ds \<le> max_retries (policy c) - (attempt + 1)" "length ds \<le> budget_remaining c - 1"
      "\<forall>i < length ds. retried (reply (net (requests_made c + 1 + i) req))"
      and res: "if budget_remaining c - 1 = length ds
            then result = Inl (Stop BudgetExhausted) \<and> requests_made c' = requests_made c + 1 + length ds \<and> budget_remaining c' = 0
            else result = settle (max_retries (policy c)) (reply (net (requests_made c + 1 + length ds) req))
              \<and> (retried (reply (net (requests_made c + 1 + length ds) req)) \<longrightarrow> max_retries (policy c) \<le> attempt + 1 + length ds)
              \<and> requests_made c' = requests_made c + 1 + length ds + 1
              \<and> budget_remaining c' = budget_remaining c - 1 - length ds - 1"
      and c': "client_ok c'" "policy c' = policy c" "configured_rps (limiter c') = configured_rps (limiter c)"
      unfolding d(2,3,5,8) by auto
    have "\<forall>i < length (t # ds). retried (reply (net (requests_made c + i) req))"
      using ds(4) d(6) by (auto simp: less_Suc_eq_0_disj)
    with ds(1-3) res c' d(4,7) show ?thesis
      by (intro conjI exI [of _ "t # ds"]) (auto split: if_splits)
  qed
qed

text \<open>C25: What a fetch returns, and how many requests it makes: the loop passes over replies that
  are throttled or report a busy server, at most as often as the policy allows, and its result is
  decided by the first other reply, by the reply after the last retry, or by the budget. Each
  request takes one unit of the budget and none is made without it.\<close>

theorem fetch_outcome_exact:
  assumes "client_ok c" "fetch rfc2822 net url tag modified c = Some (c', slept, result)"
  shows "client_ok c' \<and> length slept \<le> max_retries (policy c)
    \<and> requests_made c' + budget_remaining c' = requests_made c + budget_remaining c
    \<and> requests_made c' \<le> requests_made c + max_retries (policy c) + 1
    \<and> (let answer = (\<lambda>i. reply (net (requests_made c + i) (get_request url tag modified)))
       in (\<forall>i < length slept. retried (answer i))
        \<and> (if budget_remaining c = length slept then result = Inl (Stop BudgetExhausted)
           else result = settle (max_retries (policy c)) (answer (length slept))
             \<and> (retried (answer (length slept)) \<longrightarrow> length slept = max_retries (policy c))))"
  using fetch_with_spec [OF assms(2) [unfolded fetch_def] assms(1)]
  by (auto simp: Let_def split: if_splits)

text \<open>With a clock that advances across the sleeps a fetch always returns.\<close>

lemma fetch_turn_returns:
  assumes "client_ok c" "adaptive_rate_floor \<le> configured_rps (limiter c)"
    and "\<exists>t t' ts. readings (net (requests_made c) req) = t # t' # ts \<and> t + 4 \<le> t'"
  shows "fetch_turn f net req attempt c \<noteq> None"
proof -
  define l where "l = (limiter c)\<lparr>inflight := 1, max_observed_inflight := 1\<rparr>"
  have l: "acquire_inflight (limiter c) = Inr l" "limiter_ok l" "adaptive_rate_floor \<le> effective_rps l"
    using assms(1,2) by (simp_all add: acquire_inflight_def client_ok_def l_def max_def limiter_ok_def)
  from assms(3) obtain t t' ts where ts: "readings (net (requests_made c) req) = t # t' # ts" "t + 4 \<le> t'"
    by blast
  have "0 \<le> tokens (refill t l)"
    using refill_ok [OF l(2)] by (simp add: limiter_ok_def)
  then have "1 - tokens (refill t l) \<le> 4 * effective_rps l"
    using l(3) by (simp add: adaptive_rate_floor_def)
  then have "(1 - tokens (refill t l)) / effective_rps l \<le> 4"
    using limiter_ok_rate [OF l(2)] by (simp add: pos_divide_le_eq)
  then have "t + token_wait (refill t l) \<le> t'"
    using ts(2) by (simp add: token_wait_def inim_frame)
  from acquire_after_wait [OF l(2) this] obtain l' where "acquire (t # t' # ts) l = Some l'"
    by blast
  with l(1) ts(1) show ?thesis
    by (auto simp: fetch_turn_def Let_def send_request_def simp del: acquire.simps split: sum.split)
qed

lemma fetch_with_returns:
  assumes "client_ok c" "adaptive_rate_floor \<le> configured_rps (limiter c)"
    and "\<And>n. \<exists>t t' ts. readings (net n req) = t # t' # ts \<and> t + 4 \<le> t'"
  shows "fetch_with f net req attempt c slept \<noteq> None"
  using assms
proof (induction f net req attempt c slept rule: fetch_with.induct)
  case (1 f net req attempt c slept)
  obtain d rx where turn: "fetch_turn f net req attempt c = Some (d, rx)"
    using fetch_turn_returns [of c net req f attempt] "1.prems" by fastforce
  show ?case
  proof (cases rx)
    case (Finish res)
    with turn show ?thesis
      by (simp add: fetch_with.simps [of f net req attempt c])
  next
    case (Retry t)
    have "client_ok d" "adaptive_rate_floor \<le> configured_rps (limiter d)"
      using fetch_turn_spec [OF "1.prems"(1) turn] "1.prems"(2) by simp_all
    from "1.IH" [OF turn refl Retry this "1.prems"(3)] show ?thesis
      using turn Retry by (simp add: fetch_with.simps [of f net req attempt c])
  qed
qed

theorem fetch_returns:
  assumes "client_ok c" "adaptive_rate_floor \<le> configured_rps (limiter c)"
    and "\<And>n req. \<exists>t t' ts. readings (net n req) = t # t' # ts \<and> t + 4 \<le> t'"
  shows "\<exists>c' slept result. fetch rfc2822 net url tag modified c = Some (c', slept, result)"
  using fetch_with_returns [where req = "get_request url tag modified", OF assms(1,2,3)] unfolding fetch_def by fastforce

text \<open>The number of retries of the last completed fetch is not recorded for a fetch that succeeds.\<close>

lemma handle_response_ok_retries:
  assumes "handle_response f x attempt r c = (c', Finish (Inr (FetchedOk b)))"
  shows "last_retries c' = last_retries c"
  using assms
  by (auto simp: handle_response_def sleep_or_backoff_def body_of_def copy_metrics_def update_limiter_def Let_def
      split: if_splits option.splits prod.splits sum.splits)

lemma handle_response_retry_retries:
  assumes "handle_response f x attempt r c = (c', Retry d)"
  shows "last_retries c' = last_retries c"
  using assms
  by (auto simp: handle_response_def sleep_or_backoff_def body_of_def copy_metrics_def update_limiter_def Let_def
      split: if_splits option.splits prod.splits sum.splits)

lemma fetch_turn_retries:
  assumes "fetch_turn f net req attempt c = Some (c', rx)" "rx = Finish (Inr (FetchedOk b)) \<or> rx = Retry d"
  shows "last_retries c' = last_retries c"
  using assms
  by (auto simp: fetch_turn_def send_request_def Let_def update_limiter_def count_response_def
      dest!: handle_response_ok_retries handle_response_retry_retries split: if_splits sum.splits Option.bind_splits)

theorem successful_fetch_forgets_retries:
  assumes "fetch_with rfc2822 net req attempt c slept = Some (c', slept', Inr (FetchedOk b))"
  shows "last_retries c' = last_retries c"
  using assms
proof (induction rfc2822 net req attempt c slept arbitrary: c' slept' rule: fetch_with.induct)
  case (1 f net req attempt c slept)
  from "1.prems" obtain d rx where turn: "fetch_turn f net req attempt c = Some (d, rx)"
    by (simp add: fetch_with.simps [of f net req attempt c] split: option.splits) auto
  with "1.prems" "1.IH" [OF turn refl] show ?case
    using fetch_turn_retries [OF turn]
    by (cases rx) (auto simp: fetch_with.simps [of f net req attempt c])
qed

section \<open>Clients over time\<close>

inductive client_reachable :: "access_policy \<Rightarrow> polite_client \<Rightarrow> bool" for p where
  created: "new_with_seed p seed = Inr c \<Longrightarrow> client_reachable p c"
| budgeted: "client_reachable p c \<Longrightarrow> client_reachable p (set_budget b c)"
| fetched: "client_reachable p c \<Longrightarrow> fetch f net url tag modified c = Some (c', slept, result) \<Longrightarrow> client_reachable p c'"
| posted: "client_reachable p c \<Longrightarrow> fetch_post f net url json tag modified c = Some (c', slept, result) \<Longrightarrow> client_reachable p c'"

lemma reachable_ok:
  assumes "client_reachable p c"
  shows "client_ok c \<and> policy c = p \<and> requests_per_second p = Finite (configured_rps (limiter c))"
  using assms
proof induction
  case (created seed c)
  moreover from this have "requests_per_second p = Finite (configured_rps (limiter c))"
    by (cases "requests_per_second p")
      (auto simp: new_with_seed_def policy_validate_def limiter_new_def split: if_splits)
  ultimately show ?case
    using new_client_ok by blast
next
  case (budgeted c b)
  then show ?case
    by (simp add: set_budget_def client_ok_def)
next
  case (fetched c f net url tag modified c' slept result)
  then show ?case
    using fetch_with_spec [of f net _ 0 c "[]" c' slept result] by (simp add: fetch_def)
next
  case (posted c f net url json tag modified c' slept result)
  then show ?case
    using fetch_with_spec [of f net _ 0 c "[]" c' slept result] by (simp add: fetch_post_def)
qed


text \<open>A rate configured below the floor is raised, not reduced, by a throttle.\<close>

theorem throttle_raises_slow_rate:
  assumes "effective_rps l = configured_rps l" "configured_rps l < 1 / 4"
  shows "configured_rps (note_throttle l) < effective_rps (note_throttle l)"
  using assms by (simp add: note_throttle_def adaptive_rate_floor_def max_def)

subsection \<open>The token bucket\<close>

datatype limiter_event = Paced "rat list" | Succeeded | Throttled

fun limiter_run :: "limiter_event list \<Rightarrow> rate_limiter \<Rightarrow> rate_limiter option" where
  "limiter_run [] l = Some l"
| "limiter_run (Paced ts # es) l = Option.bind (acquire ts l) (limiter_run es)"
| "limiter_run (Succeeded # es) l = limiter_run es (note_success l)"
| "limiter_run (Throttled # es) l = limiter_run es (note_throttle l)"

fun event_readings :: "limiter_event \<Rightarrow> rat list" where
  "event_readings (Paced ts) = ts"
| "event_readings _ = []"

definition granted :: "limiter_event list \<Rightarrow> nat" where
  "granted es = length (filter (\<lambda>e. case e of Paced _ \<Rightarrow> True | _ \<Rightarrow> False) es)"

lemma acquire_potential:
  assumes "acquire ts l = Some l'" "limiter_ok l" "last_refill l = Some t" "sorted (t # ts)" "effective_rps l \<le> r"
  shows "\<exists>t'. last_refill l' = Some t' \<and> t \<le> t'
    \<and> tokens l' + 1 \<le> tokens l + r * (t' - t) \<and> t' \<in> set ts"
  using assms
proof (induction ts arbitrary: l t)
  case (Cons a ts)
  define m where "m = refill a l"
  have "last_refill m = Some a"
    by (simp add: m_def refill_def Let_def)
  then have m: "limiter_ok m" "last_refill m = Some a" "effective_rps m = effective_rps l" "t \<le> a" "sorted (a # ts)"
    using Cons.prems(4) refill_ok [OF Cons.prems(2)] by (simp_all add: m_def inim_frame)
  have "tokens m \<le> tokens l + (a - t) * effective_rps l"
    using Cons.prems(3) m(4) by (simp add: m_def refill_def Let_def)
  also have "(a - t) * effective_rps l \<le> (a - t) * r"
    using Cons.prems(5) m(4) by (simp add: mult_left_mono)
  finally have grown: "tokens m \<le> tokens l + r * (a - t)"
    by (simp add: mult.commute)
  show ?case
  proof (cases "1 \<le> tokens m")
    case True
    then have "l' = m\<lparr>tokens := tokens m - 1\<rparr>"
      using Cons.prems(1) by (simp add: Let_def flip: m_def)
    with grown m show ?thesis
      by simp
  next
    case False
    then have "acquire ts m = Some l'"
      using Cons.prems(1) by (simp add: Let_def flip: m_def)
    from Cons.IH [OF this m(1,2,5)] obtain t' where t': "last_refill l' = Some t'" "a \<le> t'"
        "tokens l' + 1 \<le> tokens m + r * (t' - a)" "t' \<in> set ts"
      using m(3) Cons.prems(5) by auto
    with grown m(4) show ?thesis
      by (intro exI [of _ t']) (auto simp: algebra_simps)
  qed
qed simp

lemma note_frame [inim_frame]:
  "last_refill (note_success l) = last_refill l" "last_refill (note_throttle l) = last_refill l"
  "tokens (note_success l) = tokens l" "tokens (note_throttle l) = tokens l"
  "configured_rps (note_success l) = configured_rps l" "configured_rps (note_throttle l) = configured_rps l"
  "rl_burst (note_success l) = rl_burst l" "rl_burst (note_throttle l) = rl_burst l"
  by (simp_all add: note_success_def note_throttle_def Let_def)

lemma limiter_run_potential:
  assumes "limiter_run es l = Some l'" "limiter_ok l" "last_refill l = Some t"
    "sorted (t # concat (map event_readings es))" "adaptive_rate_floor \<le> configured_rps l"
  shows "\<exists>t'. last_refill l' = Some t' \<and> t \<le> t' \<and> limiter_ok l'
    \<and> tokens l' + of_nat (granted es) \<le> tokens l + configured_rps l * (t' - t)"
  using assms
proof (induction es l arbitrary: t rule: limiter_run.induct)
  case (2 ts es l)
  then obtain m where m: "acquire ts l = Some m" "limiter_run es m = Some l'"
    by (auto split: Option.bind_splits)
  have "sorted (t # ts)" "effective_rps l \<le> configured_rps l"
    using "2.prems" by (auto simp: sorted_append limiter_ok_def)
  from acquire_potential [OF m(1) "2.prems"(2,3) this] obtain u where u: "last_refill m = Some u" "t \<le> u"
      "tokens m + 1 \<le> tokens l + configured_rps l * (u - t)" "u \<in> set ts"
    by auto
  have "limiter_ok m" "configured_rps m = configured_rps l" "sorted (u # concat (map event_readings es))"
    using acquire_ok [OF m(1)] acquire_frame [OF m(1)] "2.prems"(2,4) u(4) by (auto simp: sorted_append)
  with "2.IH" [OF m(1,2), of u] "2.prems"(5) u(1) obtain t' where t': "last_refill l' = Some t'" "u \<le> t'" "limiter_ok l'"
      "tokens l' + of_nat (granted es) \<le> tokens m + configured_rps l * (t' - u)"
    by auto
  have "granted (Paced ts # es) = granted es + 1"
    by (simp add: granted_def)
  with t' u(2,3) show ?case
    by (intro exI [of _ t']) (auto simp: algebra_simps)
next
  case (3 es l)
  then show ?case
    using "3.IH" [of t] by (simp add: inim_frame inim_inv granted_def)
next
  case (4 es l)
  then show ?case
    using "4.IH" [of t] by (simp add: inim_frame inim_inv granted_def)
qed (simp add: granted_def)


section \<open>Backoff\<close>

lemma round_half_even_le: "y \<le> of_int k \<Longrightarrow> round_half_even y \<le> k"
  unfolding round_half_even_def Let_def by (auto simp: floor_le_iff)

lemma round_half_even_ge:
  assumes "of_int k \<le> y"
  shows "k \<le> round_half_even y"
proof -
  have "k \<le> \<lfloor>y\<rfloor>"
    using assms by (simp add: le_floor_iff)
  then show ?thesis
    by (auto simp: round_half_even_def Let_def)
qed

lemma exponent_of_le: "1 \<le> n \<Longrightarrow> 2 ^ exponent_of n \<le> n"
proof (induction n rule: exponent_of.induct)
  case (1 n)
  show ?case
  proof (cases "n < 2")
    case False
    then have "2 ^ exponent_of (n div 2) \<le> n div 2"
      using 1 by simp
    then have "2 * 2 ^ exponent_of (n div 2) \<le> n"
      by linarith
    with False show ?thesis
      by (simp add: exponent_of.simps [of n])
  qed (use 1 in \<open>simp add: exponent_of.simps [of n]\<close>)
qed

declare exponent_of.simps [simp del]

lemma exponent_of_eq: "2 ^ e \<le> n \<Longrightarrow> n < 2 ^ Suc e \<Longrightarrow> exponent_of n = e"
proof (induction e arbitrary: n)
  case (Suc e)
  have "(1 :: nat) \<le> 2 ^ e"
    by (rule one_le_power) simp
  then have "\<not> n < 2"
    using Suc.prems(1) unfolding power_Suc by linarith
  moreover have "exponent_of (n div 2) = e"
    using Suc.prems by (intro Suc.IH) auto
  ultimately show ?case
    by (simp add: exponent_of.simps [of n])
qed (simp add: exponent_of.simps)

lemma f64_round_eval:
  assumes x: "2 ^ e \<le> x" "x < 2 ^ Suc e"
    and k: "of_int k \<le> x * (2 ^ 52 / 2 ^ e)" "x * (2 ^ 52 / 2 ^ e) < of_int k + 1 / 2"
  shows "f64_round x = of_int k / (2 ^ 52 / 2 ^ e)"
proof -
  have "2 ^ e \<le> \<lfloor>x\<rfloor>" "\<lfloor>x\<rfloor> < 2 ^ Suc e"
    using x by (simp_all add: le_floor_iff floor_less_iff)
  then have "exponent_of (nat \<lfloor>x\<rfloor>) = e"
    by (intro exponent_of_eq) (simp_all add: le_nat_iff nat_less_iff zless_nat_eq_int_zless [symmetric] del: power_Suc)
  moreover have "\<lfloor>x * (2 ^ 52 / 2 ^ e)\<rfloor> = k"
    using k by (intro floor_unique) linarith+
  moreover have "1 \<le> x"
    by (rule order_trans [OF one_le_power x(1)]) simp
  ultimately show ?thesis
    using k(2) by (simp add: f64_round_def round_half_even_def Let_def)
qed

text \<open>Rounding respects the half integers below 2 to the 52.\<close>

lemma f64_round_half_integer:
  assumes "1 \<le> x" "x < 2 ^ 52"
  shows "x \<le> of_int k / 2 \<Longrightarrow> f64_round x \<le> of_int k / 2" "of_int k / 2 \<le> x \<Longrightarrow> of_int k / 2 \<le> f64_round x"
proof -
  define e where "e = exponent_of (nat \<lfloor>x\<rfloor>)"
  have "1 \<le> nat \<lfloor>x\<rfloor>" "nat \<lfloor>x\<rfloor> < 2 ^ 52"
    using assms by (auto simp: le_nat_iff le_floor_iff nat_less_iff floor_less_iff)
  then have "(2 :: nat) ^ e < 2 ^ 52"
    unfolding e_def by (intro order.strict_trans1 [OF exponent_of_le])
  then have "e < 52"
    using power_less_imp_less_exp [of "2 :: nat" e 52] by simp
  then obtain n where n: "52 = e + Suc n"
    using less_imp_Suc_add [of e 52] by auto
  define u where "u = (2 :: rat) ^ Suc n"
  have u: "2 ^ 52 / 2 ^ e = u"
    unfolding n u_def power_add by simp
  have fr: "f64_round x = of_int (round_half_even (x * u)) / u"
    using assms(1) unfolding f64_round_def Let_def e_def [symmetric] u by (simp only: not_less [symmetric] if_not_P if_False)
  have k: "of_int k / 2 * u = of_int (k * 2 ^ n)" and "0 < u"
    by (simp_all add: u_def)
  show "f64_round x \<le> of_int k / 2" if "x \<le> of_int k / 2"
  proof -
    have "x * u \<le> of_int (k * 2 ^ n)"
      unfolding k [symmetric] using that \<open>0 < u\<close> by (intro mult_right_mono) auto
    then have "of_int (round_half_even (x * u)) \<le> of_int k / 2 * u"
      unfolding k by (simp only: of_int_le_iff round_half_even_le)
    then show ?thesis
      using \<open>0 < u\<close> by (simp add: fr pos_divide_le_eq)
  qed
  show "of_int k / 2 \<le> f64_round x" if "of_int k / 2 \<le> x"
  proof -
    have "of_int (k * 2 ^ n) \<le> x * u"
      unfolding k [symmetric] using that \<open>0 < u\<close> by (intro mult_right_mono) auto
    then have "of_int k / 2 * u \<le> of_int (round_half_even (x * u))"
      unfolding k by (simp only: of_int_le_iff round_half_even_ge)
    then show ?thesis
      using \<open>0 < u\<close> by (simp add: fr pos_le_divide_eq)
  qed
qed

lemma f64_round_of_nat: "n < 2 ^ 52 \<Longrightarrow> f64_round (of_nat n) = of_nat n"
proof (cases "n = 0")
  case False
  assume n: "n < 2 ^ 52"
  then have "(of_nat n :: rat) < of_nat (2 ^ 52)"
    by (simp only: of_nat_less_iff)
  then have "(of_nat n :: rat) < 2 ^ 52"
    by simp
  with False show ?thesis
    using f64_round_half_integer [of "of_nat n" "2 * int n"] by simp
qed (simp add: f64_round_def)

lemma next_f64_range: "0 \<le> fst (next_f64 s)" "fst (next_f64 s) < 1"
proof -
  have "unat (drop_bit 11 w) < 2 ^ 53" for w :: u64
  proof -
    have "unat w < 2 ^ 64"
      using unsigned_less [of w, where ?'a = nat] by simp
    then show ?thesis
      by (simp add: unat_drop_bit_eq) (simp add: drop_bit_eq_div less_mult_imp_div_less)
  qed
  then have "(of_nat (unat (drop_bit 11 w)) :: rat) < 2 ^ 53" for w :: u64
    by (metis of_nat_less_iff of_nat_numeral of_nat_power)
  then show "0 \<le> fst (next_f64 s)" "fst (next_f64 s) < 1"
    unfolding next_f64_def by (simp_all only: prod.case_eq_if Let_def fst_conv divide_less_eq_1 of_nat_0_le_iff zero_le_power
        zero_le_numeral divide_nonneg_nonneg) simp
qed

lemma jittered_range:
  assumes "n < 2 ^ 50" "1 \<le> g" "g \<le> 3 / 2"
  shows "of_nat n \<le> f64_round (of_nat n * g) \<and> f64_round (of_nat n * g) \<le> of_nat n * (3 / 2)"
proof (cases "n = 0")
  case False
  then have one: "1 \<le> (of_nat n :: rat)"
    by simp
  have b: "of_nat n \<le> of_nat n * g" "of_nat n * g \<le> of_nat n * (3 / 2)"
    using assms(2,3) mult_left_mono [of 1 g "of_nat n"] mult_left_mono [of g "3 / 2" "of_nat n"] by simp_all
  have "(of_nat n :: rat) < of_nat (2 ^ 50)"
    using assms(1) by (simp only: of_nat_less_iff)
  then have top: "of_nat n * (3 / 2) < (2 ^ 52 :: rat)"
    by simp
  have x: "1 \<le> of_nat n * g" "of_nat n * g < 2 ^ 52"
    using one b top by linarith+
  show ?thesis
    using f64_round_half_integer(2) [OF x, of "2 * int n"] f64_round_half_integer(1) [OF x, of "3 * int n"] b
    by (simp add: mult.commute)
qed (simp add: f64_round_def)

lemma floor_three_halves: "nat \<lfloor>(of_nat n :: rat) * (3 / 2)\<rfloor> = 3 * n div 2"
proof -
  have "\<lfloor>(of_nat n :: rat) * (3 / 2)\<rfloor> = \<lfloor>(of_int (int (3 * n)) :: rat) / of_int 2\<rfloor>"
    by (simp add: mult.commute)
  also have "\<dots> = int (3 * n) div 2"
    by (rule floor_divide_of_int_eq)
  finally show ?thesis
    by (simp add: nat_div_distrib)
qed

lemma jittered_exact: "n < 2 ^ 50 \<Longrightarrow> f64_round (of_nat n * (3 / 2)) = of_nat n * (3 / 2)"
proof (cases "n = 0")
  case False
  assume n: "n < 2 ^ 50"
  then have "(of_nat n :: rat) < of_nat (2 ^ 50)"
    by (simp only: of_nat_less_iff)
  then have "1 \<le> of_nat n * (3 / 2 :: rat)" "of_nat n * (3 / 2) < (2 ^ 52 :: rat)"
    using False by simp_all
  from f64_round_half_integer [OF this, of "3 * int n"] show ?thesis
    by simp
qed (simp add: f64_round_def)

text \<open>The delay lies between the two bounds the code computes, which are the capped exponential and
  half as much again; the ceiling of the policy is a bound on the first.\<close>

theorem backoff_within_bounds:
  assumes "max_ms < 2 ^ 50"
  shows "fst (backoff_bounds attempt base_ms max_ms) \<le> fst (backoff_delay attempt base_ms max_ms seed)
    \<and> fst (backoff_delay attempt base_ms max_ms seed) \<le> snd (backoff_bounds attempt base_ms max_ms)
    \<and> fst (backoff_bounds attempt base_ms max_ms) \<le> millis max_ms
    \<and> 2 * snd (backoff_bounds attempt base_ms max_ms) \<le> 3 * millis max_ms"
proof -
  define n where "n = backoff_capped attempt base_ms max_ms"
  have n: "n \<le> max_ms" "n < 2 ^ 50"
    using assms by (simp_all add: n_def backoff_capped_def)
  have round_n: "f64_round (of_nat n) = of_nat n"
    using n(2) by (intro f64_round_of_nat) simp
  define g where "g = f64_round (1 + 1 / 2 * fst (next_f64 seed))"
  have "1 \<le> g" "g \<le> 3 / 2"
    using next_f64_range [of seed] f64_round_half_integer(1) [of "1 + 1 / 2 * fst (next_f64 seed)" 3]
      f64_round_half_integer(2) [of "1 + 1 / 2 * fst (next_f64 seed)" 2] by (simp_all add: g_def)
  note range = jittered_range [OF n(2) this]
  define d where "d = nat \<lfloor>f64_round (of_nat n * g)\<rfloor>"
  have "nat \<lfloor>of_nat n :: rat\<rfloor> \<le> d" "d \<le> nat \<lfloor>(of_nat n :: rat) * (3 / 2)\<rfloor>"
    using range unfolding d_def by (auto simp only: intro!: nat_mono floor_mono)
  then have d: "n \<le> d" "d \<le> 3 * n div 2"
    unfolding floor_three_halves by simp_all
  have delay: "fst (backoff_delay attempt base_ms max_ms seed) = millis (min d (2 ^ 64 - 1))"
    by (simp add: backoff_delay_def Let_def g_def d_def round_n n_def [symmetric] split: prod.split)
  have bounds: "backoff_bounds attempt base_ms max_ms = (millis n, millis (min (3 * n div 2) (2 ^ 64 - 1)))"
    using jittered_exact [OF n(2)] floor_three_halves [of n]
    by (simp add: backoff_bounds_def Let_def round_n n_def [symmetric] del: times_divide_eq_right)
  show ?thesis
    unfolding delay bounds using d n by (simp add: millis_def)
qed

end
