(* ===== verification/Access_Runs.thy ===== *)
theory Access_Runs
  imports Access
begin

text \<open>
  Runs of the polite client against a source that gives a list of statuses: the theorems on
  \<open>catalog/access.rs\<close> at concrete inputs, and what the client reports where its documentation says
  otherwise.
\<close>

definition sample_response :: "nat \<Rightarrow> http_response" where
  "sample_response code =
     \<lparr>status = code, retry_after_header = Some ''1'', content_type = None, etag = Some ''v1'', last_modified = None,
      body_text = Inr ''{}''\<rparr>"

text \<open>A source that gives the listed statuses and then stays at the last, with a clock that advances.\<close>

definition sample_net :: "nat list \<Rightarrow> nat \<Rightarrow> http_request \<Rightarrow> exchange" where
  "sample_net codes n req =
     \<lparr>readings = [of_nat (10 * n), of_nat (10 * n + 5)],
      reply = Inr (sample_response (codes ! min n (length codes - 1))), latency = 1,
      wall_counted = 0, wall_slept = 0\<rparr>"

definition sample_client :: polite_client where
  "sample_client =
     \<lparr>policy = conservative, rng = 0x5EED2026, requests_made = 0, budget_remaining = 100, limiter = limiter_new 5 2 5,
      last_retries = 0, bytes_transferred = 0,
      metrics = \<lparr>status_counts = (\<lambda>_. 0), retry_after_responses = 0, met_rate_reductions = 0,
        met_rate_recoveries = 0, control_messages = [], latencies = [], met_max_observed_inflight = 0,
        met_configured_rps = 5, final_effective_rps = 0\<rparr>\<rparr>"

lemma sample_client_reachable: "client_reachable conservative sample_client"
proof -
  have "new_with_seed conservative 0x5EED2026 = Inr (set_budget (2 ^ 64 - 1) sample_client)"
    by (simp add: new_with_seed_def policy_validate_def conservative_def jitter_rng_new_def sample_client_def set_budget_def)
  from created [OF this] have "client_reachable conservative (set_budget 100 (set_budget (2 ^ 64 - 1) sample_client))"
    by (rule budgeted)
  then show ?thesis
    by (simp add: set_budget_def sample_client_def)
qed

lemma sample_client_ok: "client_ok sample_client" "adaptive_rate_floor \<le> configured_rps (limiter sample_client)"
  using reachable_ok [OF sample_client_reachable] by (simp_all add: sample_client_def limiter_new_def adaptive_rate_floor_def)

lemma sample_net_advances:
  "\<exists>t t' ts. readings (sample_net codes n req) = t # t' # ts \<and> t + 4 \<le> t'"
  by (simp add: sample_net_def)

text \<open>A fetch from the sample source passes over the statuses that are retried.\<close>

definition retry_status :: "nat \<Rightarrow> bool" where
  "retry_status code \<longleftrightarrow> code \<in> {429, 500, 502, 503, 504}"

lemma retried_sample: "retried (Inr (sample_response code)) \<longleftrightarrow> retry_status code"
  by (simp add: retried_def verdict_def sample_response_def retry_status_def)

lemma sample_run:
  assumes "k \<le> 3" "k < length codes" "\<forall>i < k. retry_status (codes ! i)" "k = 3 \<or> \<not> retry_status (codes ! k)"
  shows "\<exists>c' slept. fetch_with (\<lambda>_. None) (sample_net codes) req 0 sample_client [] = Some (c', slept, settle 3 (Inr (sample_response (codes ! k))))
     \<and> length slept = k \<and> requests_made c' = Suc k"
proof -
  have fields: "max_retries (policy sample_client) = 3" "requests_made sample_client = 0" "budget_remaining sample_client = 100"
    by (simp_all add: sample_client_def conservative_def)
  have answer: "reply (sample_net codes i req) = Inr (sample_response (codes ! i))" if "i \<le> k" for i
    using that assms(2) by (simp add: sample_net_def min_def)
  obtain c' slept result where run: "fetch_with (\<lambda>_. None) (sample_net codes) req 0 sample_client [] = Some (c', slept, result)"
    using fetch_with_returns [OF sample_client_ok, of "sample_net codes" req "\<lambda>_. None" 0 "[]"] sample_net_advances by fastforce
  have spec: "length slept \<le> 3" "\<forall>i < length slept. retried (reply (sample_net codes i req))"
      "result = settle 3 (reply (sample_net codes (length slept) req))" "requests_made c' = Suc (length slept)"
      "retried (reply (sample_net codes (length slept) req)) \<longrightarrow> 3 \<le> length slept"
    using fetch_with_spec [OF run sample_client_ok(1)] by (auto simp: fields split: if_splits)
  have "length slept = k"
  proof (rule linorder_cases [of "length slept" k])
    assume less: "length slept < k"
    then have "retried (reply (sample_net codes (length slept) req))"
      using assms(3) answer [of "length slept"] by (simp add: retried_sample)
    with spec(5) less assms(1) show ?thesis
      by simp
  next
    assume "k < length slept"
    with spec(1,2) assms(4) answer [of k] show ?thesis
      by (auto simp: retried_sample)
  qed simp
  with run spec(3,4) answer show ?thesis
    by simp
qed

text \<open>Three busy replies and a single throttle are reported as repeated throttling.\<close>

theorem single_throttle_reported_as_repeated:
  "\<exists>c' slept. fetch (\<lambda>_. None) (sample_net [503, 500, 502, 429]) ''u'' None None sample_client
     = Some (c', slept, Inl (Stop RepeatedRateLimited)) \<and> requests_made c' = 4"
  using sample_run [of 3 "[503, 500, 502, 429]" "get_request ''u'' None None"]
  by (auto simp: fetch_def less_Suc_eq numeral_eq_Suc retry_status_def settle_def verdict_def gave_up_def sample_response_def)

theorem fetch_returns_witness:
  "\<exists>c' slept result. fetch (\<lambda>_. None) (sample_net [503, 200]) ''u'' None None sample_client = Some (c', slept, result)"
  using fetch_returns [OF sample_client_ok sample_net_advances] .

theorem fetch_outcome_witness:
  "\<exists>c' slept. fetch (\<lambda>_. None) (sample_net [503, 404]) ''u'' None None sample_client = Some (c', slept, Inr NotFound)
     \<and> client_ok c' \<and> length slept = 1"
proof -
  obtain c' slept result where run: "fetch (\<lambda>_. None) (sample_net [503, 404]) ''u'' None None sample_client = Some (c', slept, result)"
      "length slept = 1"
    using sample_run [of 1 "[503, 404]" "get_request ''u'' None None"] by (auto simp: fetch_def retry_status_def)
  have "budget_remaining sample_client \<noteq> 1" "requests_made sample_client = 0"
    by (simp_all add: sample_client_def)
  then show ?thesis
    using fetch_outcome_exact [OF sample_client_ok(1) run(1)] run
    by (simp add: Let_def settle_def verdict_def sample_net_def sample_response_def)
qed


theorem slow_rate_witness:
  "configured_rps (note_throttle (limiter_new (1 / 10) 2 5)) < effective_rps (note_throttle (limiter_new (1 / 10) 2 5))"
  by (rule throttle_raises_slow_rate) (simp_all add: limiter_new_def)

theorem forgotten_retries_witness:
  "\<exists>c' slept b. fetch_with (\<lambda>_. None) (sample_net [503, 503, 200]) (get_request ''u'' None None) 0 sample_client []
       = Some (c', slept, Inr (FetchedOk b)) \<and> length slept = 2 \<and> last_retries c' = 0"
proof -
  obtain c' slept b where run: "fetch_with (\<lambda>_. None) (sample_net [503, 503, 200]) (get_request ''u'' None None) 0 sample_client []
       = Some (c', slept, Inr (FetchedOk b))" "length slept = 2"
    using sample_run [of 2 "[503, 503, 200]" "get_request ''u'' None None"]
    by (auto simp: less_Suc_eq numeral_eq_Suc retry_status_def settle_def verdict_def sample_response_def)
  then show ?thesis
    using successful_fetch_forgets_retries [OF run(1)] by (simp add: sample_client_def)
qed


theorem backoff_witness:
  "millis 500 \<le> fst (backoff_delay 0 500 30000 1) \<and> fst (backoff_delay 0 500 30000 1) \<le> millis 45000"
proof -
  have "fst (backoff_bounds 0 500 30000) = millis 500"
    by (simp add: backoff_bounds_def Let_def backoff_capped_def saturating_mul_def)
  then show ?thesis
    using backoff_within_bounds [of 30000 0 500 1] by (simp add: millis_def)
qed

text \<open>The jitter is added after the cap: the delay exceeds the ceiling of the policy.\<close>

theorem backoff_exceeds_ceiling:
  "millis 30000 < fst (backoff_delay 10 500 30000 (jitter_rng_new 0x5EED2026))"
proof -
  have "next_u64 (jitter_rng_new 0x5EED2026) = (5543043475183807098, 53429245544955202)"
    by (simp add: next_u64_def jitter_rng_new_def Let_def)
  then have u: "next_f64 (jitter_rng_new 0x5EED2026) = (2706564196867093 / 9007199254740992, 53429245544955202)"
    by (simp add: next_f64_def)
  have c: "f64_round (of_nat (backoff_capped 10 500 30000)) = 30000"
    using f64_round_of_nat [of 30000] by (simp add: backoff_capped_def saturating_mul_def)
  have g: "f64_round (1 + 1 / 2 * (2706564196867093 / 9007199254740992)) = 5180240676587269 / 4503599627370496"
    by (subst f64_round_eval [of 0 _ 5180240676587269]) simp_all
  have d: "f64_round (30000 * (5180240676587269 / 4503599627370496)) = 4742651986621645 / 137438953472"
    by (subst f64_round_eval [of 15 _ 4742651986621645]) simp_all
  have "\<lfloor>4742651986621645 / 137438953472 :: rat\<rfloor> = 34507"
    by (rule floor_unique) simp_all
  then show ?thesis
    unfolding backoff_delay_def u c Let_def prod.case g d by (simp add: millis_def)
qed

end
