(* ===== verification/Sync.thy ===== *)
theory Sync
  imports Relationships "HOL-Library.Sublist"
begin

text \<open>
  Catalog synchronization, \<open>catalog/sync.rs\<close>, and the rows of \<open>catalog/store.rs\<close> it writes. The digest of
  a payload and the string fields of a JSON text are parameters, and so are the writes that SQLite
  refuses for reasons outside the data (a full disk): \<open>faults\<close> says which. An operation that runs in
  its own transaction leaves the tables as they were when it fails. Shown: snapshots are immutable and
  unique per event and digest, the counts of a sync add up, a repeated sync changes nothing, and a
  ticket that returns to an earlier content keeps the content in between as its latest.
\<close>

section \<open>Rows\<close>

record event_snapshot = snapshot_rec +
  sn_source_url :: string
  content_sha256 :: string
  raw_payload :: string
  parser_version :: string

record sync_run_row =
  sr_id :: int
  sr_source :: string
  sr_started_at :: string
  sr_completed_at :: "string option"
  sr_status :: string
  sr_events_examined :: nat
  sr_new_events :: nat
  sr_changed_events :: nat
  sr_unchanged_events :: nat
  sr_failures :: nat

record snapshot_fetch =
  sf_id :: int
  sf_event :: int
  sf_sync_run :: int
  sf_fetched_at :: string
  sf_source_url :: string
  sf_http_status :: int
  sf_content_type :: "string option"
  sf_etag :: "string option"
  sf_last_modified :: "string option"
  sf_acquisition_method :: string
  sf_retry_count :: int
  sf_snapshot :: "int option"
  sf_conditional_requested :: bool

record ticket_discovery =
  di_id :: int
  di_source_kind :: string
  di_external_id :: string
  di_provenance :: string
  di_source_snapshot :: "int option"
  di_source_document :: "int option"
  di_discovered_at :: string
  di_status :: string

record sync_db =
  sd_events :: "event_rec list"
  sd_snapshots :: "event_snapshot list"
  sd_sync_runs :: "sync_run_row list"
  sd_fetches :: "snapshot_fetch list"
  sd_discoveries :: "ticket_discovery list"

record source_item =
  si_source :: string
  si_external_id :: string
  si_fetched_at :: string
  si_source_url :: string
  si_raw_payload :: string
  si_normalized_json :: string

record faults =
  fails_event :: "source_item \<Rightarrow> bool"
  fails_snapshot :: "source_item \<Rightarrow> bool"
  fails_sync_run :: bool

definition no_faults :: faults where
  "no_faults = \<lparr>fails_event = (\<lambda>_. False), fails_snapshot = (\<lambda>_. False), fails_sync_run = False\<rparr>"

section \<open>Store operations\<close>

definition find_event :: "string \<Rightarrow> string \<Rightarrow> event_rec list \<Rightarrow> event_rec option" where
  "find_event src ext events = find (\<lambda>e. er_source_kind e = src \<and> er_external_id e = ext) events"

definition upsert_event :: "string \<Rightarrow> string \<Rightarrow> string \<Rightarrow> sync_db \<Rightarrow> int \<times> sync_db" where
  "upsert_event src ext seen_at db =
     (case find_event src ext (sd_events db) of
        Some e \<Rightarrow>
          (er_id e, db\<lparr>sd_events := map (\<lambda>r. if er_id r = er_id e then r\<lparr>er_last_seen := seen_at\<rparr> else r) (sd_events db)\<rparr>)
      | None \<Rightarrow>
          let i = next_rowid (map er_id (sd_events db))
          in (i, db\<lparr>sd_events := sd_events db @
                [\<lparr>er_id = i, er_source_kind = src, er_external_id = ext, er_first_seen = seen_at, er_last_seen = seen_at\<rparr>]\<rparr>))"

definition find_snapshot :: "int \<Rightarrow> string \<Rightarrow> sync_db \<Rightarrow> int option" where
  "find_snapshot ev sha db =
     map_option sn_id (find (\<lambda>s. sn_event s = ev \<and> content_sha256 s = sha) (sd_snapshots db))"

definition insert_snapshot :: "int \<Rightarrow> event_snapshot \<Rightarrow> sync_db \<Rightarrow> int \<times> sync_db" where
  "insert_snapshot ev s db =
     (case find_snapshot ev (content_sha256 s) db of
        Some i \<Rightarrow> (i, db)
      | None \<Rightarrow>
          let i = next_rowid (map sn_id (sd_snapshots db))
          in (i, db\<lparr>sd_snapshots := sd_snapshots db @ [s\<lparr>sn_id := i, sn_event := ev\<rparr>]\<rparr>))"

definition insert_sync_run :: "sync_run_row \<Rightarrow> sync_db \<Rightarrow> int \<times> sync_db" where
  "insert_sync_run run db =
     (let i = next_rowid (map sr_id (sd_sync_runs db))
      in (i, db\<lparr>sd_sync_runs := sd_sync_runs db @ [run\<lparr>sr_id := i\<rparr>]\<rparr>))"

definition insert_snapshot_fetch :: "snapshot_fetch \<Rightarrow> sync_db \<Rightarrow> (string + int) \<times> sync_db" where
  "insert_snapshot_fetch f db =
     (if sf_event f \<in> er_id ` set (sd_events db) \<and> sf_sync_run f \<in> sr_id ` set (sd_sync_runs db)
         \<and> (case sf_snapshot f of None \<Rightarrow> True | Some s \<Rightarrow> s \<in> sn_id ` set (sd_snapshots db))
      then let i = next_rowid (map sf_id (sd_fetches db))
           in (Inr i, db\<lparr>sd_fetches := sd_fetches db @ [f\<lparr>sf_id := i\<rparr>]\<rparr>)
      else (Inl ''catalog write failed'', db))"

section \<open>Synchronization\<close>

definition event_external_id :: "(string \<Rightarrow> string \<Rightarrow> string option) \<Rightarrow> source_item \<Rightarrow> string" where
  "event_external_id json_str item =
     (case json_str (si_normalized_json item) ''id'' of Some s \<Rightarrow> s | None \<Rightarrow> si_external_id item)"

definition snapshot_of :: "(string \<Rightarrow> string) \<Rightarrow> string \<Rightarrow> int \<Rightarrow> source_item \<Rightarrow> event_snapshot" where
  "snapshot_of hex_sha256 started_at ev item =
     \<lparr>sn_id = 0, sn_event = ev, fetched_at = started_at, normalized_json = si_normalized_json item,
      sn_source_url = si_source_url item, content_sha256 = hex_sha256 (si_raw_payload item),
      raw_payload = si_raw_payload item, parser_version = ''grnoc-record-1''\<rparr>"

record sync_summary =
  events_examined :: nat
  new_events :: nat
  changed_events :: nat
  unchanged_events :: nat
  sync_failures :: nat

definition sync_item ::
    "(string \<Rightarrow> string) \<Rightarrow> (string \<Rightarrow> string \<Rightarrow> string option) \<Rightarrow> faults \<Rightarrow> string \<Rightarrow> source_item
       \<Rightarrow> sync_summary \<times> sync_db \<Rightarrow> sync_summary \<times> sync_db" where
  "sync_item hex_sha256 json_str fx started_at item = (\<lambda>(summary, db).
     (let summary = summary\<lparr>events_examined := events_examined summary + 1\<rparr> in
      if fails_event fx item then (summary\<lparr>sync_failures := sync_failures summary + 1\<rparr>, db)
      else
        let (ev, db) = upsert_event (si_source item) (event_external_id json_str item) started_at db
        in case find_snapshot ev (hex_sha256 (si_raw_payload item)) db of
             Some _ \<Rightarrow> (summary\<lparr>unchanged_events := unchanged_events summary + 1\<rparr>, db)
           | None \<Rightarrow>
               if fails_snapshot fx item then (summary\<lparr>sync_failures := sync_failures summary + 1\<rparr>, db)
               else let (_, db) = insert_snapshot ev (snapshot_of hex_sha256 started_at ev item) db
                    in if length (filter (\<lambda>s. sn_event s = ev) (sd_snapshots db)) \<le> 1
                       then (summary\<lparr>new_events := new_events summary + 1\<rparr>, db)
                       else (summary\<lparr>changed_events := changed_events summary + 1\<rparr>, db)))"

definition empty_summary :: sync_summary where
  "empty_summary = \<lparr>events_examined = 0, new_events = 0, changed_events = 0, unchanged_events = 0, sync_failures = 0\<rparr>"

definition sync_items where
  "sync_items hex_sha256 json_str fx started_at items db =
     fold (sync_item hex_sha256 json_str fx started_at) items (empty_summary, db)"

definition sync_catalog ::
    "(string \<Rightarrow> string) \<Rightarrow> (string \<Rightarrow> string \<Rightarrow> string option) \<Rightarrow> faults \<Rightarrow> string \<Rightarrow> string + source_item list
       \<Rightarrow> string \<Rightarrow> sync_db \<Rightarrow> (string + sync_summary) \<times> sync_db" where
  "sync_catalog hex_sha256 json_str fx source_name listed started_at db =
     (case listed of
        Inl e \<Rightarrow> (Inl (''sync source failed: '' @ e), db)
      | Inr items \<Rightarrow>
          let (summary, db') = sync_items hex_sha256 json_str fx started_at items db
          in if fails_sync_run fx then (Inl ''catalog write failed'', db)
             else (Inr summary, snd (insert_sync_run
               \<lparr>sr_id = 0, sr_source = source_name, sr_started_at = started_at, sr_completed_at = Some started_at,
                sr_status = ''Complete'', sr_events_examined = events_examined summary,
                sr_new_events = new_events summary, sr_changed_events = changed_events summary,
                sr_unchanged_events = unchanged_events summary, sr_failures = sync_failures summary\<rparr> db')))"

section \<open>Fetch records\<close>

record fetch_metadata =
  fm_source_url :: string
  fm_http_status :: int
  fm_content_type :: "string option"
  fm_etag :: "string option"
  fm_last_modified :: "string option"
  fm_acquisition_method :: string
  fm_retry_count :: int
  fm_conditional_requested :: bool

record one_fetch_result =
  of_http_status :: int
  of_created_snapshot :: bool
  of_unchanged :: bool
  of_not_modified :: bool
  of_not_found :: bool
  of_snapshot :: "int option"
  of_fetch_record :: int

definition stored_content ::
    "(string \<Rightarrow> string) \<Rightarrow> (string \<Rightarrow> string \<Rightarrow> string option) \<Rightarrow> string \<Rightarrow> source_item \<Rightarrow> sync_db
       \<Rightarrow> int \<times> int \<times> bool \<times> sync_db" where
  "stored_content hex_sha256 json_str started_at item db =
     (let (ev, db) = upsert_event (si_source item) (event_external_id json_str item) started_at db
      in case find_snapshot ev (hex_sha256 (si_raw_payload item)) db of
           Some i \<Rightarrow> (ev, i, False, db)
         | None \<Rightarrow> let (i, db) = insert_snapshot ev (snapshot_of hex_sha256 started_at ev item) db in (ev, i, True, db))"

definition record_fetch ::
    "(string \<Rightarrow> string) \<Rightarrow> (string \<Rightarrow> string \<Rightarrow> string option) \<Rightarrow> int \<Rightarrow> int option \<Rightarrow> source_item option
       \<Rightarrow> fetch_metadata \<Rightarrow> string \<Rightarrow> sync_db \<Rightarrow> (string + one_fetch_result) \<times> sync_db" where
  "record_fetch hex_sha256 json_str sync_run_id event_id item meta started_at db =
     (let not_found = (fm_http_status meta = 404);
          (event_id, snapshot_id, created, unchanged, db) =
            (if not_found then (event_id, None, False, False, db)
             else case item of
               None \<Rightarrow> (event_id, None, False, False, db)
             | Some item \<Rightarrow>
                 let (ev, i, created, db) = stored_content hex_sha256 json_str started_at item db
                 in (Some ev, Some i, created, \<not> created, db))
      in case event_id of
           None \<Rightarrow> (Inl ''record_fetch requires an event id when no source item is provided'', db)
         | Some ev \<Rightarrow>
             case insert_snapshot_fetch
               \<lparr>sf_id = 0, sf_event = ev, sf_sync_run = sync_run_id, sf_fetched_at = started_at,
                sf_source_url = fm_source_url meta, sf_http_status = fm_http_status meta,
                sf_content_type = fm_content_type meta, sf_etag = fm_etag meta, sf_last_modified = fm_last_modified meta,
                sf_acquisition_method = fm_acquisition_method meta, sf_retry_count = fm_retry_count meta,
                sf_snapshot = snapshot_id, sf_conditional_requested = fm_conditional_requested meta\<rparr> db of
               (Inl e, db) \<Rightarrow> (Inl e, db)
             | (Inr i, db) \<Rightarrow>
                 (Inr \<lparr>of_http_status = fm_http_status meta, of_created_snapshot = created, of_unchanged = unchanged,
                       of_not_modified = (fm_http_status meta = 304), of_not_found = not_found,
                       of_snapshot = snapshot_id, of_fetch_record = i\<rparr>, db))"

text \<open>The tables the catalog reads its events and snapshots from.\<close>

definition catalog_view :: "sync_db \<Rightarrow> corpus \<Rightarrow> corpus" where
  "catalog_view db c = c\<lparr>co_events := sd_events db, co_snapshots := map snapshot_rec.truncate (sd_snapshots db)\<rparr>"

section \<open>The tables over time\<close>

definition event_identity :: "event_rec \<Rightarrow> int \<times> string \<times> string \<times> string" where
  "event_identity e = (er_id e, er_source_kind e, er_external_id e, er_first_seen e)"

definition snapshot_key :: "event_snapshot \<Rightarrow> int \<times> string" where
  "snapshot_key s = (sn_event s, content_sha256 s)"

text \<open>The unique columns, and the foreign key of the snapshots.\<close>

definition sync_db_ok :: "sync_db \<Rightarrow> bool" where
  "sync_db_ok db \<longleftrightarrow> distinct (map er_id (sd_events db))
     \<and> distinct (map (\<lambda>e. (er_source_kind e, er_external_id e)) (sd_events db))
     \<and> distinct (map sn_id (sd_snapshots db)) \<and> distinct (map snapshot_key (sd_snapshots db))
     \<and> (\<forall>s \<in> set (sd_snapshots db). sn_event s \<in> er_id ` set (sd_events db))"

text \<open>Rows are only added: a snapshot never changes, an event keeps all but the time it was last seen.\<close>

definition extends :: "sync_db \<Rightarrow> sync_db \<Rightarrow> bool" where
  "extends db db' \<longleftrightarrow> prefix (sd_snapshots db) (sd_snapshots db')
     \<and> prefix (map event_identity (sd_events db)) (map event_identity (sd_events db'))"

lemma extends_refl [simp]: "extends db db"
  by (simp add: extends_def)

lemma extends_trans: "extends a b \<Longrightarrow> extends b c \<Longrightarrow> extends a c"
  by (auto simp: extends_def intro: prefix_order.trans)

definition event_id_of :: "sync_db \<Rightarrow> string \<Rightarrow> string \<Rightarrow> int option" where
  "event_id_of db src ext = map_option er_id (find_event src ext (sd_events db))"

lemma find_SomeD: "find P xs = Some x \<Longrightarrow> x \<in> set xs \<and> P x"
  by (auto simp: find_Some_iff)

lemma find_prefix: "prefix xs ys \<Longrightarrow> find P xs = Some x \<Longrightarrow> find P ys = Some x"
  by (auto simp: prefix_def find_append)

lemma event_id_of_identity:
  "event_id_of db src ext = map_option fst (find (\<lambda>(_, s, x, _). s = src \<and> x = ext) (map event_identity (sd_events db)))"
proof -
  have "map_option er_id (find (\<lambda>e. er_source_kind e = src \<and> er_external_id e = ext) es)
    = map_option fst (find (\<lambda>(_, s, x, _). s = src \<and> x = ext) (map event_identity es))" for es
    by (induction es) (auto simp: event_identity_def)
  then show ?thesis
    by (simp add: event_id_of_def find_event_def)
qed

lemma extends_event_id: "extends db db' \<Longrightarrow> event_id_of db src ext = Some ev \<Longrightarrow> event_id_of db' src ext = Some ev"
  unfolding event_id_of_identity extends_def by (auto dest: find_prefix)

lemma extends_snapshot: "extends db db' \<Longrightarrow> find_snapshot ev sha db = Some i \<Longrightarrow> find_snapshot ev sha db' = Some i"
  unfolding find_snapshot_def extends_def by (auto dest: find_prefix)

lemma next_rowid_fresh_image: "next_rowid (map f xs) \<notin> f ` set xs"
  using next_rowid_fresh [of "map f xs"] by simp

lemma touch_identity:
  "map event_identity (map (\<lambda>r. if er_id r = i then r\<lparr>er_last_seen := t\<rparr> else r) es) = map event_identity es"
  "map er_id (map (\<lambda>r. if er_id r = i then r\<lparr>er_last_seen := t\<rparr> else r) es) = map er_id es"
  "map (\<lambda>e. (er_source_kind e, er_external_id e)) (map (\<lambda>r. if er_id r = i then r\<lparr>er_last_seen := t\<rparr> else r) es)
    = map (\<lambda>e. (er_source_kind e, er_external_id e)) es"
  by (simp_all add: event_identity_def)

lemma upsert_event_spec:
  assumes "sync_db_ok db" "upsert_event src ext t db = (ev, db')"
  shows "sync_db_ok db' \<and> extends db db' \<and> sd_snapshots db' = sd_snapshots db \<and> event_id_of db' src ext = Some ev
    \<and> sd_sync_runs db' = sd_sync_runs db \<and> sd_fetches db' = sd_fetches db \<and> sd_discoveries db' = sd_discoveries db
    \<and> (event_id_of db src ext = Some ev \<longrightarrow> map event_identity (sd_events db') = map event_identity (sd_events db))"
proof (cases "find_event src ext (sd_events db)")
  case None
  then have new: "(src, ext) \<notin> set (map (\<lambda>e. (er_source_kind e, er_external_id e)) (sd_events db))"
    by (auto simp: find_event_def find_None_iff)
  with assms None next_rowid_fresh_image [of er_id "sd_events db"] show ?thesis
    by (auto simp: upsert_event_def Let_def sync_db_ok_def extends_def event_id_of_def find_event_def find_append)
next
  case (Some e)
  define es where "es = map (\<lambda>r. if er_id r = er_id e then r\<lparr>er_last_seen := t\<rparr> else r) (sd_events db)"
  have db': "db' = db\<lparr>sd_events := es\<rparr>" "ev = er_id e"
    using assms(2) Some by (auto simp: upsert_event_def es_def)
  have ids: "map event_identity es = map event_identity (sd_events db)" "map er_id es = map er_id (sd_events db)"
    "map (\<lambda>e. (er_source_kind e, er_external_id e)) es = map (\<lambda>e. (er_source_kind e, er_external_id e)) (sd_events db)"
    unfolding es_def by (rule touch_identity)+
  have "er_id ` set es = er_id ` set (sd_events db)"
    using arg_cong [OF ids(2), of set] by simp
  moreover have "event_id_of db' src ext = event_id_of db src ext"
    by (simp add: event_id_of_identity db' ids)
  ultimately show ?thesis
    using assms(1) Some by (simp add: sync_db_ok_def extends_def db' ids event_id_of_def)
qed

lemma insert_snapshot_spec:
  assumes "sync_db_ok db" "ev \<in> er_id ` set (sd_events db)" "insert_snapshot ev s db = (i, db')"
  shows "sync_db_ok db' \<and> extends db db' \<and> sd_events db' = sd_events db \<and> find_snapshot ev (content_sha256 s) db' = Some i
    \<and> sd_sync_runs db' = sd_sync_runs db \<and> sd_fetches db' = sd_fetches db \<and> sd_discoveries db' = sd_discoveries db"
proof (cases "find_snapshot ev (content_sha256 s) db")
  case None
  then have "(ev, content_sha256 s) \<notin> set (map snapshot_key (sd_snapshots db))"
    by (auto simp: find_snapshot_def find_None_iff snapshot_key_def)
  with assms None next_rowid_fresh_image [of sn_id "sd_snapshots db"] show ?thesis
    by (auto simp: insert_snapshot_def Let_def sync_db_ok_def extends_def find_snapshot_def find_append snapshot_key_def)
qed (use assms in \<open>simp add: insert_snapshot_def\<close>)

lemma event_id_of_in: "event_id_of db src ext = Some ev \<Longrightarrow> ev \<in> er_id ` set (sd_events db)"
  by (auto simp: event_id_of_def find_event_def find_Some_iff)

text \<open>A payload is settled when its event has a snapshot with its digest.\<close>

definition settled :: "(string \<Rightarrow> string) \<Rightarrow> (string \<Rightarrow> string \<Rightarrow> string option) \<Rightarrow> sync_db \<Rightarrow> source_item \<Rightarrow> bool" where
  "settled hex_sha256 json_str db item \<longleftrightarrow>
     (\<exists>ev i. event_id_of db (si_source item) (event_external_id json_str item) = Some ev
        \<and> find_snapshot ev (hex_sha256 (si_raw_payload item)) db = Some i)"

lemma settled_extends: "extends db db' \<Longrightarrow> settled h j db item \<Longrightarrow> settled h j db' item"
  unfolding settled_def by (blast intro: extends_event_id extends_snapshot)

definition total :: "sync_summary \<Rightarrow> nat" where
  "total s = new_events s + changed_events s + unchanged_events s + sync_failures s"

lemma sync_item_spec:
  assumes "sync_db_ok db" "sync_item h j fx t item (s, db) = (s', db')"
  shows "sync_db_ok db' \<and> extends db db' \<and> total s' = total s + 1 \<and> events_examined s' = events_examined s + 1
    \<and> sync_failures s \<le> sync_failures s' \<and> (sync_failures s' = sync_failures s \<longrightarrow> settled h j db' item)
    \<and> (\<not> fails_event fx item \<and> settled h j db item \<longrightarrow> unchanged_events s' = unchanged_events s + 1
         \<and> sd_snapshots db' = sd_snapshots db \<and> map event_identity (sd_events db') = map event_identity (sd_events db))"
proof (cases "fails_event fx item")
  case False
  obtain ev d where up: "upsert_event (si_source item) (event_external_id j item) t db = (ev, d)"
    by fastforce
  note d = upsert_event_spec [OF assms(1) up]
  show ?thesis
  proof (cases "find_snapshot ev (h (si_raw_payload item)) d")
    case (Some i)
    then have "db' = d" "s' = s\<lparr>events_examined := events_examined s + 1, unchanged_events := unchanged_events s + 1\<rparr>"
      using assms(2) False up by (simp_all add: sync_item_def)
    moreover from this Some d have "settled h j db' item"
      by (auto simp: settled_def)
    moreover have "event_id_of db (si_source item) (event_external_id j item) = Some ev" if "settled h j db item"
      using that d extends_event_id by (fastforce simp: settled_def)
    ultimately show ?thesis
      using d by (auto simp: total_def)
  next
    case None
    have unsettled: "\<not> settled h j db item"
    proof
      assume "settled h j db item"
      then have "settled h j d item"
        using d settled_extends by blast
      with d None show False
        by (auto simp: settled_def)
    qed
    show ?thesis
    proof (cases "fails_snapshot fx item")
      case True
      then show ?thesis
        using assms(2) False up None d unsettled by (auto simp: sync_item_def total_def)
    next
      case writes: False
      obtain i e where ins: "insert_snapshot ev (snapshot_of h t ev item) d = (i, e)"
        by fastforce
      have e: "sync_db_ok e" "extends d e" "find_snapshot ev (h (si_raw_payload item)) e = Some i"
        using insert_snapshot_spec [OF _ event_id_of_in ins] d by (auto simp: snapshot_of_def)
      have "db' = e" "total s' = total s + 1" "events_examined s' = events_examined s + 1" "sync_failures s' = sync_failures s"
        using assms(2) False up None writes ins by (auto simp: sync_item_def Let_def total_def split: if_splits)
      moreover have "settled h j e item"
        using d e extends_event_id by (auto simp: settled_def)
      ultimately show ?thesis
        using d e unsettled extends_trans by auto
    qed
  qed
qed (use assms in \<open>auto simp: sync_item_def total_def\<close>)

lemma sync_items_step:
  "sync_items h j fx t (items @ [item]) db = sync_item h j fx t item (sync_items h j fx t items db)"
  by (simp add: sync_items_def)

lemma sync_items_spec:
  assumes "sync_db_ok db" "sync_items h j fx t items db = (s, db')"
  shows "sync_db_ok db' \<and> extends db db' \<and> total s = length items \<and> events_examined s = length items
    \<and> (sync_failures s = 0 \<longrightarrow> list_all (settled h j db') items)
    \<and> ((\<forall>item \<in> set items. \<not> fails_event fx item \<and> settled h j db item) \<longrightarrow> unchanged_events s = length items
         \<and> sd_snapshots db' = sd_snapshots db \<and> map event_identity (sd_events db') = map event_identity (sd_events db))"
  using assms(2)
proof (induction items arbitrary: s db' rule: rev_induct)
  case Nil
  then show ?case
    using assms(1) by (auto simp: sync_items_def empty_summary_def total_def)
next
  case (snoc item items)
  obtain s0 d where d: "sync_items h j fx t items db = (s0, d)"
    by fastforce
  note IH = snoc.IH [OF d]
  have step: "sync_item h j fx t item (s0, d) = (s, db')"
    using snoc.prems by (simp only: sync_items_step d)
  note sp = sync_item_spec [OF conjunct1 [OF IH] step]
  have "settled h j d item" if "settled h j db item"
    using that IH settled_extends by blast
  moreover have "list_all (settled h j db') items" if "list_all (settled h j d) items"
    using that sp settled_extends by (auto simp: list_all_iff)
  ultimately show ?case
    using IH sp extends_trans [of db d db'] by auto
qed

lemma no_fault_item: "sync_failures (fst (sync_item h j no_faults t item (s, db))) = sync_failures s"
  by (simp add: sync_item_def no_faults_def Let_def split: prod.split option.split)

lemma no_fault_items: "sync_failures (fst (sync_items h j no_faults t items db)) = 0"
proof (induction items rule: rev_induct)
  case (snoc item items)
  then show ?case
    using no_fault_item [of h j t item] by (metis prod.collapse sync_items_step)
qed (simp add: sync_items_def empty_summary_def)

lemma sync_run_frame:
  "sync_db_ok (snd (insert_sync_run run db)) = sync_db_ok db" "extends d (snd (insert_sync_run run db)) = extends d db"
  "settled h j (snd (insert_sync_run run db)) = settled h j db" "sd_events (snd (insert_sync_run run db)) = sd_events db"
  "sd_snapshots (snd (insert_sync_run run db)) = sd_snapshots db"
  by (auto simp: insert_sync_run_def Let_def sync_db_ok_def extends_def settled_def event_id_of_def find_snapshot_def)

text \<open>Whatever the source lists and whichever writes fail, a sync keeps the tables well formed and
  the stored snapshots as they are. When it fails nothing is written; when it succeeds every item
  is counted once.\<close>

theorem sync_catalog_safe:
  assumes "sync_db_ok db" "sync_catalog h j fx src listed t db = (result, db')"
  shows "sync_db_ok db' \<and> prefix (sd_snapshots db) (sd_snapshots db')
    \<and> prefix (map event_identity (sd_events db)) (map event_identity (sd_events db'))
    \<and> (case result of Inl _ \<Rightarrow> db' = db
       | Inr s \<Rightarrow> (\<exists>items. listed = Inr items \<and> events_examined s = length items
           \<and> new_events s + changed_events s + unchanged_events s + sync_failures s = length items))"
proof (cases listed)
  case (Inr items)
  obtain s d where d: "sync_items h j fx t items db = (s, d)"
    by fastforce
  have sp: "sync_db_ok d" "prefix (sd_snapshots db) (sd_snapshots d)"
      "prefix (map event_identity (sd_events db)) (map event_identity (sd_events d))"
      "total s = length items" "events_examined s = length items"
    using sync_items_spec [OF assms(1) d] by (simp_all add: extends_def)
  show ?thesis
    using assms sp Inr d by (auto simp: sync_catalog_def sync_run_frame total_def split: if_splits)
qed (use assms in \<open>auto simp: sync_catalog_def\<close>)

text \<open>C29: Without failing writes, every listed payload has a snapshot of its event afterwards, and a
  second sync of the same items finds them all unchanged and adds nothing.\<close>

theorem sync_catalog_idempotent:
  assumes "sync_db_ok db" "sync_catalog h j no_faults src (Inr items) t db = (result, db')"
  shows "list_all (settled h j db') items
    \<and> (\<exists>s db''. sync_catalog h j no_faults src (Inr items) t' db' = (Inr s, db'')
         \<and> unchanged_events s = length items \<and> new_events s = 0 \<and> changed_events s = 0 \<and> sync_failures s = 0
         \<and> sd_snapshots db'' = sd_snapshots db' \<and> map event_identity (sd_events db'') = map event_identity (sd_events db'))"
proof -
  obtain s d where d: "sync_items h j no_faults t items db = (s, d)"
    by fastforce
  note sp = sync_items_spec [OF assms(1) d]
  have clean: "\<not> fails_sync_run no_faults" "\<not> fails_event no_faults item" for item
    by (simp_all add: no_faults_def)
  have "sync_failures s = 0"
    using no_fault_items [of h j t items db] d by simp
  with sp assms(2) d clean have all: "list_all (settled h j db') items" and ok: "sync_db_ok db'"
    by (auto simp: sync_catalog_def sync_run_frame)
  obtain s' d' where d': "sync_items h j no_faults t' items db' = (s', d')"
    by fastforce
  note sp' = sync_items_spec [OF ok d']
  have same: "unchanged_events s' = length items" "sd_snapshots d' = sd_snapshots db'"
      "map event_identity (sd_events d') = map event_identity (sd_events db')"
    using sp' all clean(2) by (auto simp: list_all_iff)
  moreover have "new_events s' = 0" "changed_events s' = 0" "sync_failures s' = 0"
    using sp' same(1) by (auto simp: total_def)
  ultimately show ?thesis
    using all d' clean by (auto simp: sync_catalog_def sync_run_frame)
qed

lemma sync_catalog_settled:
  assumes "sync_db_ok db" "settled h j db item"
  shows "\<exists>s db'. sync_catalog h j no_faults src (Inr [item]) t db = (Inr s, db') \<and> unchanged_events s = 1
    \<and> sd_snapshots db' = sd_snapshots db"
proof -
  obtain s d where d: "sync_items h j no_faults t [item] db = (s, d)"
    by fastforce
  have "unchanged_events s = 1" "sd_snapshots d = sd_snapshots db"
    using sync_items_spec [OF assms(1) d] assms(2) by (simp_all add: no_faults_def)
  with d show ?thesis
    by (simp add: sync_catalog_def no_faults_def sync_run_frame)
qed

text \<open>C30: A ticket whose source returns to a content it had before is counted as unchanged, and the
  snapshots the catalog shows for it, newest first, stay what they were: the content in between
  remains the latest.\<close>

theorem reverted_ticket_keeps_latest:
  assumes "sync_db_ok db" "settled h j db item"
  shows "\<exists>s db'. sync_catalog h j no_faults src (Inr [item]) t db = (Inr s, db') \<and> unchanged_events s = 1
    \<and> list_snapshots (catalog_view db' c) ev = list_snapshots (catalog_view db c) ev"
  using sync_catalog_settled [OF assms, of src t] by (auto simp: list_snapshots_def catalog_view_def)

lemma stored_content_spec:
  assumes "sync_db_ok db" "stored_content h j t item db = (ev, i, created, db')"
  shows "sync_db_ok db' \<and> extends db db' \<and> event_id_of db' (si_source item) (event_external_id j item) = Some ev
    \<and> find_snapshot ev (h (si_raw_payload item)) db' = Some i
    \<and> sd_sync_runs db' = sd_sync_runs db \<and> sd_fetches db' = sd_fetches db \<and> sd_discoveries db' = sd_discoveries db
    \<and> (created \<longleftrightarrow> \<not> settled h j db item) \<and> (\<not> created \<longrightarrow> sd_snapshots db' = sd_snapshots db)"
proof -
  obtain ev' d where up: "upsert_event (si_source item) (event_external_id j item) t db = (ev', d)"
    by fastforce
  note d = upsert_event_spec [OF assms(1) up]
  have same: "settled h j db item \<longleftrightarrow> find_snapshot ev' (h (si_raw_payload item)) d \<noteq> None"
  proof
    assume "settled h j db item"
    then have "settled h j d item"
      using d settled_extends by blast
    with d show "find_snapshot ev' (h (si_raw_payload item)) d \<noteq> None"
      by (auto simp: settled_def)
  next
    assume found: "find_snapshot ev' (h (si_raw_payload item)) d \<noteq> None"
    then obtain s where "s \<in> set (sd_snapshots db)" "sn_event s = ev'"
      using d by (auto simp: find_snapshot_def dest!: find_SomeD)
    then have "ev' \<in> er_id ` set (sd_events db)"
      using assms(1) by (auto simp: sync_db_ok_def)
    then have "event_id_of db (si_source item) (event_external_id j item) = Some ev'"
      using up next_rowid_fresh_image [of er_id "sd_events db"]
      by (auto simp: upsert_event_def event_id_of_def Let_def split: option.splits)
    with found d show "settled h j db item"
      by (auto simp: settled_def find_snapshot_def)
  qed
  show ?thesis
  proof (cases "find_snapshot ev' (h (si_raw_payload item)) d")
    case (Some k)
    then have "ev = ev'" "i = k" "\<not> created" "db' = d"
      using assms(2) up by (auto simp: stored_content_def)
    with Some d same show ?thesis
      by auto
  next
    case None
    obtain k e where ins: "insert_snapshot ev' (snapshot_of h t ev' item) d = (k, e)"
      by fastforce
    have r: "ev = ev'" "i = k" "created" "db' = e"
      using assms(2) up None ins by (auto simp: stored_content_def)
    have e: "sync_db_ok e \<and> extends d e \<and> sd_events e = sd_events d \<and> find_snapshot ev' (h (si_raw_payload item)) e = Some k
      \<and> sd_sync_runs e = sd_sync_runs d \<and> sd_fetches e = sd_fetches d \<and> sd_discoveries e = sd_discoveries d"
      using insert_snapshot_spec [OF _ event_id_of_in ins] d by (auto simp: snapshot_of_def)
    with r d None same show ?thesis
      using extends_event_id [of d e] extends_trans [of db d e] by auto
  qed
qed

lemma record_fetch_found:
  assumes "sync_db_ok db" "run_id \<in> sr_id ` set (sd_sync_runs db)" "fm_http_status meta \<noteq> 404"
    and "record_fetch h j run_id event_id (Some it) meta t db = (result, db')"
  shows "\<exists>r f. result = Inr r \<and> sync_db_ok db' \<and> extends db db' \<and> sd_fetches db' = sd_fetches db @ [f] \<and> sf_id f = of_fetch_record r
    \<and> settled h j db' it \<and> sf_snapshot f = of_snapshot r \<and> of_snapshot r = find_snapshot (sf_event f) (h (si_raw_payload it)) db'
    \<and> event_id_of db' (si_source it) (event_external_id j it) = Some (sf_event f)
    \<and> of_created_snapshot r = (\<not> settled h j db it) \<and> of_unchanged r = settled h j db it
    \<and> sf_conditional_requested f = fm_conditional_requested meta
    \<and> sd_discoveries db' = sd_discoveries db \<and> sd_sync_runs db' = sd_sync_runs db"
proof -
  obtain ev i created d where sc: "stored_content h j t it db = (ev, i, created, d)"
    by (cases "stored_content h j t it db") auto
  note d = stored_content_spec [OF assms(1) sc]
  have "ev \<in> er_id ` set (sd_events d)" "i \<in> sn_id ` set (sd_snapshots d)" "run_id \<in> sr_id ` set (sd_sync_runs d)"
    using d assms(2) event_id_of_in by (auto simp: find_snapshot_def dest!: find_SomeD)
  then obtain r f where r: "result = Inr r" "db' = d\<lparr>sd_fetches := sd_fetches d @ [f]\<rparr>" "sf_event f = ev" "sf_snapshot f = Some i"
      "of_fetch_record r = sf_id f" "of_snapshot r = Some i" "of_created_snapshot r = created" "of_unchanged r = (\<not> created)"
      "sf_conditional_requested f = fm_conditional_requested meta"
    using assms(3,4) sc by (auto simp: record_fetch_def insert_snapshot_fetch_def Let_def)
  from r(2) have "settled h j db' = settled h j d" "sync_db_ok db' = sync_db_ok d" "extends db db' = extends db d"
      "find_snapshot ev (h (si_raw_payload it)) db' = find_snapshot ev (h (si_raw_payload it)) d"
      "event_id_of db' = event_id_of d"
    by (auto simp: settled_def sync_db_ok_def extends_def find_snapshot_def event_id_of_def fun_eq_iff)
  moreover have "settled h j d it"
    using d by (auto simp: settled_def)
  ultimately show ?thesis
    using d r by auto
qed

lemma add_fetch_frame:
  assumes "sync_db_ok db"
  shows "sync_db_ok (db\<lparr>sd_fetches := fs\<rparr>) \<and> extends db (db\<lparr>sd_fetches := fs\<rparr>)"
  using assms by (simp add: sync_db_ok_def extends_def)

lemma record_fetch_absent:
  assumes "sync_db_ok db" "run_id \<in> sr_id ` set (sd_sync_runs db)"
    and "record_fetch h j run_id event_id item meta t db = (result, db')"
    and "(if fm_http_status meta = 404 then None else item) = None"
  shows "sync_db_ok db' \<and> extends db db' \<and> sd_snapshots db' = sd_snapshots db \<and> sd_events db' = sd_events db
    \<and> (case event_id of
         None \<Rightarrow> (\<exists>e. result = Inl e) \<and> db' = db
       | Some ev \<Rightarrow> if ev \<in> er_id ` set (sd_events db)
           then \<exists>r f. result = Inr r \<and> sd_fetches db' = sd_fetches db @ [f] \<and> sf_event f = ev \<and> sf_snapshot f = None
             \<and> \<not> of_created_snapshot r
           else (\<exists>e. result = Inl e) \<and> db' = db)"
proof -
  have absent: "fm_http_status meta = 404 \<or> item = None"
    using assms(4) by (simp split: if_splits)
  show ?thesis
  proof (cases event_id)
    case None
    with absent assms(1,3) show ?thesis
      by (auto simp: record_fetch_def Let_def split: if_splits)
  next
    case (Some ev)
    define f where "f =
      \<lparr>sf_id = 0, sf_event = ev, sf_sync_run = run_id, sf_fetched_at = t,
       sf_source_url = fm_source_url meta, sf_http_status = fm_http_status meta,
       sf_content_type = fm_content_type meta, sf_etag = fm_etag meta, sf_last_modified = fm_last_modified meta,
       sf_acquisition_method = fm_acquisition_method meta, sf_retry_count = fm_retry_count meta,
       sf_snapshot = None, sf_conditional_requested = fm_conditional_requested meta\<rparr>"
    define answer where "answer = (\<lambda>i :: int.
      \<lparr>of_http_status = fm_http_status meta, of_created_snapshot = False, of_unchanged = False,
       of_not_modified = (fm_http_status meta = 304), of_not_found = (fm_http_status meta = 404),
       of_snapshot = None, of_fetch_record = i\<rparr>)"
    have "record_fetch h j run_id event_id item meta t db =
      (case insert_snapshot_fetch f db of (Inl e, d) \<Rightarrow> (Inl e, d) | (Inr i, d) \<Rightarrow> (Inr (answer i), d))"
      using absent Some
      by (cases "fm_http_status meta = 404") (simp_all add: record_fetch_def f_def answer_def split: prod.split sum.split)
    then have step: "(result, db') =
      (case insert_snapshot_fetch f db of (Inl e, d) \<Rightarrow> (Inl e, d) | (Inr i, d) \<Rightarrow> (Inr (answer i), d))"
      using assms(3) by simp
    have not_created: "\<not> of_created_snapshot (answer i)" for i
      by (simp add: answer_def)
    have "sf_event f = ev" "sf_sync_run f = run_id" "sf_snapshot f = None"
      by (simp_all add: f_def)
    then have ins: "insert_snapshot_fetch f db =
      (if ev \<in> er_id ` set (sd_events db)
       then (Inr (next_rowid (map sf_id (sd_fetches db))),
             db\<lparr>sd_fetches := sd_fetches db @ [f\<lparr>sf_id := next_rowid (map sf_id (sd_fetches db))\<rparr>]\<rparr>)
       else (Inl ''catalog write failed'', db))"
      using assms(2) by (simp add: insert_snapshot_fetch_def Let_def)
    show ?thesis
    proof (cases "ev \<in> er_id ` set (sd_events db)")
      case True
      with step ins Some add_fetch_frame [OF assms(1)] \<open>sf_event f = ev\<close> \<open>sf_snapshot f = None\<close> not_created show ?thesis
        by simp
    next
      case False
      with step ins Some assms(1) show ?thesis
        by simp
    qed
  qed
qed

text \<open>A fetched content is recorded: one fetch row is added, it names the snapshot of the event that
  has the digest of the payload, and a snapshot is created exactly if the content is new. A ticket
  that is not found, or a fetch without content, adds a fetch row for the given event and no
  snapshot; without an event it is refused.\<close>

theorem record_fetch_exact:
  assumes "sync_db_ok db" "run_id \<in> sr_id ` set (sd_sync_runs db)"
    and "record_fetch h j run_id event_id item meta t db = (result, db')"
  shows "sync_db_ok db' \<and> extends db db'
    \<and> (case (if fm_http_status meta = 404 then None else item) of
         Some it \<Rightarrow> (\<exists>r f. result = Inr r \<and> sd_fetches db' = sd_fetches db @ [f] \<and> sf_id f = of_fetch_record r
             \<and> settled h j db' it \<and> sf_snapshot f = of_snapshot r \<and> of_snapshot r = find_snapshot (sf_event f) (h (si_raw_payload it)) db'
             \<and> event_id_of db' (si_source it) (event_external_id j it) = Some (sf_event f)
             \<and> of_created_snapshot r = (\<not> settled h j db it) \<and> of_unchanged r = settled h j db it)
       | None \<Rightarrow> sd_snapshots db' = sd_snapshots db \<and> sd_events db' = sd_events db
           \<and> (case event_id of
                None \<Rightarrow> (\<exists>e. result = Inl e) \<and> db' = db
              | Some ev \<Rightarrow> if ev \<in> er_id ` set (sd_events db)
                  then \<exists>r f. result = Inr r \<and> sd_fetches db' = sd_fetches db @ [f] \<and> sf_event f = ev \<and> sf_snapshot f = None
                    \<and> \<not> of_created_snapshot r
                  else (\<exists>e. result = Inl e) \<and> db' = db))"
proof (cases "if fm_http_status meta = 404 then None else item")
  case None
  note frame = record_fetch_absent [OF assms None]
  show ?thesis
    using None frame by (cases event_id) (auto split: if_splits)
next
  case (Some it)
  then have it: "item = Some it" "fm_http_status meta \<noteq> 404"
    by (auto split: if_splits)
  show ?thesis
    using Some record_fetch_found [OF assms(1,2) it(2), of h j event_id it t result db'] assms(3) it(1) by auto
qed

section \<open>A sample catalog\<close>

definition sample_item :: "string \<Rightarrow> source_item" where
  "sample_item payload =
     \<lparr>si_source = ''grnoc'', si_external_id = ''INC1'', si_fetched_at = ''t'', si_source_url = ''u'',
      si_raw_payload = payload, si_normalized_json = payload\<rparr>"

definition empty_db :: sync_db where
  "empty_db = \<lparr>sd_events = [], sd_snapshots = [], sd_sync_runs = [], sd_fetches = [], sd_discoveries = []\<rparr>"

definition empty_corpus :: corpus where
  "empty_corpus = \<lparr>co_events = [], co_snapshots = [], co_manifests = [], co_plans = [], co_runs = [], co_reviews = [],
     co_case_study_plan_events = []\<rparr>"

abbreviation sample_sync :: "string \<Rightarrow> string \<Rightarrow> sync_db \<Rightarrow> (string + sync_summary) \<times> sync_db" where
  "sample_sync payload \<equiv> sync_catalog id (\<lambda>_ _. None) no_faults ''grnoc'' (Inr [sample_item payload])"

definition sample_tables :: sync_db where
  "sample_tables = snd (sample_sync ''b'' ''2'' (snd (sample_sync ''a'' ''1'' empty_db)))"

lemma sample_tables_ok: "sync_db_ok sample_tables"
  unfolding sync_db_ok_def by code_simp

lemma sample_tables_settled: "settled id (\<lambda>_ _. None) sample_tables (sample_item ''a'')"
proof -
  have "event_id_of sample_tables ''grnoc'' ''INC1'' = Some 1" "find_snapshot 1 ''a'' sample_tables = Some 1"
    by code_simp+
  then show ?thesis
    by (simp add: settled_def sample_item_def event_external_id_def)
qed

text \<open>The content goes from a to b and back to a; the catalog keeps showing b.\<close>

theorem reverted_ticket_witness:
  "\<exists>s db'. sample_sync ''a'' ''3'' sample_tables = (Inr s, db') \<and> unchanged_events s = 1
     \<and> map_option normalized_json (first (list_snapshots (catalog_view db' empty_corpus) 1)) = Some ''b''"
proof -
  have "map_option normalized_json (first (list_snapshots (catalog_view sample_tables empty_corpus) 1)) = Some ''b''"
    by code_simp
  then show ?thesis
    using reverted_ticket_keeps_latest [OF sample_tables_ok sample_tables_settled, of "''grnoc''" "''3''" empty_corpus 1]
    by auto
qed

theorem sync_catalog_safe_witness:
  "\<exists>result db'. sample_sync ''c'' ''3'' sample_tables = (result, db') \<and> sync_db_ok db'
     \<and> prefix (sd_snapshots sample_tables) (sd_snapshots db')"
proof -
  obtain result db' where run: "sample_sync ''c'' ''3'' sample_tables = (result, db')"
    by fastforce
  from sync_catalog_safe [OF sample_tables_ok run] run show ?thesis
    by blast
qed

theorem sync_catalog_idempotent_witness:
  "\<exists>s db' db''. snd (sample_sync ''c'' ''3'' sample_tables) = db' \<and> sample_sync ''c'' ''4'' db' = (Inr s, db'')
     \<and> unchanged_events s = 1 \<and> sd_snapshots db'' = sd_snapshots db'"
proof -
  obtain result db' where run: "sample_sync ''c'' ''3'' sample_tables = (result, db')"
    by fastforce
  from sync_catalog_idempotent [OF sample_tables_ok run, of "''4''"] run show ?thesis
    by auto
qed

definition sample_meta :: fetch_metadata where
  "sample_meta = \<lparr>fm_source_url = ''u'', fm_http_status = 200, fm_content_type = None, fm_etag = None,
     fm_last_modified = None, fm_acquisition_method = ''grnoc-viewer-api'', fm_retry_count = 0,
     fm_conditional_requested = False\<rparr>"

theorem record_fetch_witness:
  "\<exists>r f db'. record_fetch id (\<lambda>_ _. None) 1 None (Some (sample_item ''a'')) sample_meta ''3'' sample_tables = (Inr r, db')
     \<and> sd_fetches db' = [f] \<and> of_unchanged r \<and> \<not> of_created_snapshot r"
proof -
  obtain result db' where run: "record_fetch id (\<lambda>_ _. None) 1 None (Some (sample_item ''a'')) sample_meta ''3'' sample_tables = (result, db')"
    by fastforce
  have "1 \<in> sr_id ` set (sd_sync_runs sample_tables)" "sd_fetches sample_tables = []"
    by code_simp+
  with record_fetch_exact [OF sample_tables_ok _ run] run sample_tables_settled show ?thesis
    by (simp add: sample_meta_def) blast
qed

end
