(* ===== verification/Discovery.thy ===== *)
theory Discovery
  imports Sync
begin

text \<open>
  How ticket identifiers enter the corpus: \<open>catalog/discovery.rs\<close> and the discovery rows of
  \<open>catalog/store.rs\<close>. The matches of the identifier regex and the string fields of a JSON text are
  parameters, as is the case folding of Unicode.
\<close>

section \<open>Discovery rows\<close>

definition pending :: string where "pending = ''Pending''"
definition fetched :: string where "fetched = ''Fetched''"
definition unresolved :: string where "unresolved = ''Unresolved''"

definition discovery_key :: "ticket_discovery \<Rightarrow> string \<times> string \<times> string" where
  "discovery_key d = (di_source_kind d, di_external_id d, di_provenance d)"

definition record_discovery :: "int list \<Rightarrow> ticket_discovery \<Rightarrow> sync_db \<Rightarrow> (string + int) \<times> sync_db" where
  "record_discovery documents d db =
     (case find (\<lambda>r. discovery_key r = discovery_key d) (sd_discoveries db) of
        Some r \<Rightarrow> (Inr (di_id r), db)
      | None \<Rightarrow>
          if (case di_source_snapshot d of None \<Rightarrow> True | Some s \<Rightarrow> s \<in> sn_id ` set (sd_snapshots db))
             \<and> (case di_source_document d of None \<Rightarrow> True | Some s \<Rightarrow> s \<in> set documents)
          then let i = next_rowid (map di_id (sd_discoveries db))
               in (Inr i, db\<lparr>sd_discoveries := sd_discoveries db @ [d\<lparr>di_id := i\<rparr>]\<rparr>)
          else (Inl ''catalog write failed'', db))"

definition list_discoveries :: "sync_db \<Rightarrow> string \<Rightarrow> string option \<Rightarrow> ticket_discovery list" where
  "list_discoveries db src wanted =
     sort_key di_discovered_at (sort_key di_id
       (filter (\<lambda>d. di_source_kind d = src \<and> (case wanted of None \<Rightarrow> True | Some s \<Rightarrow> di_status d = s)) (sd_discoveries db)))"

definition pending_rows :: "sync_db \<Rightarrow> string \<Rightarrow> ticket_discovery list" where
  "pending_rows db src = filter (\<lambda>d. di_source_kind d = src \<and> di_status d = pending) (sd_discoveries db)"

definition rows_of :: "string \<Rightarrow> ticket_discovery list \<Rightarrow> ticket_discovery list" where
  "rows_of ext rows = filter (\<lambda>d. di_external_id d = ext) rows"

definition pending_frontier :: "sync_db \<Rightarrow> string \<Rightarrow> string list" where
  "pending_frontier db src =
     (let rows = pending_rows db src
      in sort_key (\<lambda>ext. Min (set (map di_discovered_at (rows_of ext rows))))
           (sort_key (\<lambda>ext. Min (set (map di_id (rows_of ext rows))))
              (remdups (map di_external_id rows))))"

definition update_discovery_status_rows :: "string \<Rightarrow> string \<Rightarrow> string \<Rightarrow> sync_db \<Rightarrow> sync_db" where
  "update_discovery_status_rows src ext new_status db =
     db\<lparr>sd_discoveries := map (\<lambda>d. if di_source_kind d = src \<and> di_external_id d = ext \<and> di_status d = pending
                                     then d\<lparr>di_status := new_status\<rparr> else d) (sd_discoveries db)\<rparr>"

definition mark_frontier_fetched :: "string \<Rightarrow> string \<Rightarrow> sync_db \<Rightarrow> sync_db" where
  "mark_frontier_fetched src ext = update_discovery_status_rows src ext fetched"

section \<open>Discovery\<close>

definition seed_row :: "string \<Rightarrow> string \<Rightarrow> string \<Rightarrow> int option \<Rightarrow> int option \<Rightarrow> string \<Rightarrow> ticket_discovery" where
  "seed_row src ext provenance snapshot document discovered_at =
     \<lparr>di_id = 0, di_source_kind = src, di_external_id = ext, di_provenance = provenance, di_source_snapshot = snapshot,
      di_source_document = document, di_discovered_at = discovered_at, di_status = pending\<rparr>"

definition record_analyst_seed :: "string \<Rightarrow> string \<Rightarrow> string \<Rightarrow> sync_db \<Rightarrow> (string + int) \<times> sync_db" where
  "record_analyst_seed src ext discovered_at =
     record_discovery [] (seed_row src ext ''AnalystSeed'' None None discovered_at)"

fun record_all :: "int list \<Rightarrow> ticket_discovery list \<Rightarrow> nat \<Rightarrow> sync_db \<Rightarrow> (string + nat) \<times> sync_db" where
  "record_all documents [] n db = (Inr n, db)"
| "record_all documents (d # ds) n db =
     (case record_discovery documents d db of
        (Inl e, db) \<Rightarrow> (Inl e, db)
      | (Inr _, db) \<Rightarrow> record_all documents ds (n + 1) db)"

definition record_document_references ::
    "int list \<Rightarrow> string \<Rightarrow> int \<Rightarrow> string list \<Rightarrow> string \<Rightarrow> sync_db \<Rightarrow> (string + nat) \<times> sync_db" where
  "record_document_references documents src document exts discovered_at =
     record_all documents (map (\<lambda>ext. seed_row src ext ''DocumentReference'' None (Some document) discovered_at) exts) 0"

text \<open>The identifiers a case study links, in the order of its links.\<close>

definition record_case_study_references :: "string \<Rightarrow> string list \<Rightarrow> string \<Rightarrow> sync_db \<Rightarrow> (string + nat) \<times> sync_db" where
  "record_case_study_references src links discovered_at =
     record_all [] (map (\<lambda>ext. seed_row src ext ''CaseStudyReference'' None None discovered_at) links) 0"

definition expansion_text :: "(string \<Rightarrow> string \<Rightarrow> string option) \<Rightarrow> snapshot_rec \<Rightarrow> string" where
  "expansion_text json_str s =
     concat (map (\<lambda>field. case json_str (normalized_json s) field of None \<Rightarrow> [] | Some v \<Rightarrow> v @ [CHR 0x0A])
               [''description'', ''notification_text'', ''title''])"

definition expansion_rows ::
    "(string \<Rightarrow> (nat \<times> nat) list) \<Rightarrow> (string \<Rightarrow> string \<Rightarrow> string option) \<Rightarrow> string \<Rightarrow> string \<Rightarrow> corpus \<Rightarrow> ticket_discovery list" where
  "expansion_rows find_iter json_str src discovered_at c =
     concat (map (\<lambda>event.
       if er_source_kind event \<noteq> src then []
       else case first (list_snapshots c (er_id event)) of
         None \<Rightarrow> []
       | Some latest \<Rightarrow>
           map (\<lambda>ext. seed_row src ext ''TicketDescriptionReference'' (Some (sn_id latest)) None discovered_at)
             (filter (\<lambda>ext. ext \<noteq> er_external_id event)
               (map fst (extract_ticket_references find_iter (expansion_text json_str latest)))))
       (list_events c))"

fun record_counting_new :: "ticket_discovery list \<Rightarrow> nat \<Rightarrow> sync_db \<Rightarrow> (string + nat) \<times> sync_db" where
  "record_counting_new [] n db = (Inr n, db)"
| "record_counting_new (d # ds) n db =
     (case record_discovery [] d db of
        (Inl e, db') \<Rightarrow> (Inl e, db')
      | (Inr _, db') \<Rightarrow>
          record_counting_new ds
            (if length (list_discoveries db (di_source_kind d) None) < length (list_discoveries db' (di_source_kind d) None)
             then n + 1 else n) db')"

definition expand_from_snapshots ::
    "(string \<Rightarrow> (nat \<times> nat) list) \<Rightarrow> (string \<Rightarrow> string \<Rightarrow> string option) \<Rightarrow> string \<Rightarrow> string \<Rightarrow> corpus
       \<Rightarrow> sync_db \<Rightarrow> (string + nat) \<times> sync_db" where
  "expand_from_snapshots find_iter json_str src discovered_at c db =
     record_counting_new (expansion_rows find_iter json_str src discovered_at (catalog_view db c)) 0 db"

definition budgeted_frontier :: "string list \<Rightarrow> nat \<Rightarrow> string list" where
  "budgeted_frontier frontier budget = take (min (length frontier) budget) frontier"

datatype candidate_relationship_hint = IpParticipant | PxPeer | NotBgpCandidate

definition candidate_relationship_hint :: "(string \<Rightarrow> string) \<Rightarrow> string \<Rightarrow> candidate_relationship_hint option" where
  "candidate_relationship_hint to_lowercase title =
     (let t = to_lowercase title in
      if contains_str ''px peer'' t \<or> contains_str ''pxpeer'' t then Some PxPeer
      else if contains_str ''participant'' t then
        (if list_ex (\<lambda>marker. contains_str marker t)
              [''optical'', ''alarm'', ''telemetry'', ''instability update'', ''inquiry'', ''decom'']
         then Some NotBgpCandidate else Some IpParticipant)
      else if list_ex (\<lambda>marker. contains_str marker t)
                [''optical'', ''alarm'', ''telemetry'', ''inquiry'', ''decom'', ''maintenance'']
        then Some NotBgpCandidate
      else None)"

section \<open>Correctness\<close>

definition discoveries_ok :: "sync_db \<Rightarrow> bool" where
  "discoveries_ok db \<longleftrightarrow> distinct (map discovery_key (sd_discoveries db)) \<and> distinct (map di_id (sd_discoveries db))"

text \<open>A row that can be written: its document and snapshot exist.\<close>

definition recordable :: "int list \<Rightarrow> sync_db \<Rightarrow> ticket_discovery \<Rightarrow> bool" where
  "recordable documents db d \<longleftrightarrow>
     (case di_source_snapshot d of None \<Rightarrow> True | Some s \<Rightarrow> s \<in> sn_id ` set (sd_snapshots db))
     \<and> (case di_source_document d of None \<Rightarrow> True | Some s \<Rightarrow> s \<in> set documents)"

definition known :: "sync_db \<Rightarrow> ticket_discovery \<Rightarrow> bool" where
  "known db d \<longleftrightarrow> discovery_key d \<in> discovery_key ` set (sd_discoveries db)"

lemma record_discovery_known: "known db d \<Longrightarrow> \<exists>i. record_discovery documents d db = (Inr i, db)"
  by (auto simp: known_def record_discovery_def find_None_iff split: option.split)

lemma record_discovery_new:
  assumes "\<not> known db d" "recordable documents db d"
  shows "record_discovery documents d db = (let i = next_rowid (map di_id (sd_discoveries db))
     in (Inr i, db\<lparr>sd_discoveries := sd_discoveries db @ [d\<lparr>di_id := i\<rparr>]\<rparr>))"
proof -
  have "find (\<lambda>r. discovery_key r = discovery_key d) (sd_discoveries db) = None"
    using assms(1) by (auto simp: known_def find_None_iff image_iff)
  with assms(2) show ?thesis
    by (auto simp: record_discovery_def recordable_def)
qed

lemma length_list_discoveries:
  "length (list_discoveries db src None) = length (filter (\<lambda>d. di_source_kind d = src) (sd_discoveries db))"
  by (simp add: list_discoveries_def)

lemma record_counting_known:
  "list_all (known db) ds \<Longrightarrow> record_counting_new ds n db = (Inr n, db)"
proof (induction ds)
  case (Cons d ds)
  then show ?case
    using record_discovery_known [of db d "[]"] by auto
qed simp

lemma discovery_key_id [simp]: "discovery_key (d\<lparr>di_id := i\<rparr>) = discovery_key d"
  by (simp add: discovery_key_def)

lemma record_counting_spec:
  assumes "list_all (recordable [] db) ds" "discoveries_ok db"
  shows "\<exists>rows db'. record_counting_new ds n db = (Inr (n + length rows), db')
    \<and> db' = db\<lparr>sd_discoveries := sd_discoveries db @ rows\<rparr> \<and> discoveries_ok db'
    \<and> list_all (\<lambda>r. \<exists>d \<in> set ds. \<exists>i. r = d\<lparr>di_id := i\<rparr>) rows \<and> list_all (known db') ds"
  using assms
proof (induction ds arbitrary: n db)
  case Nil
  then show ?case
    by (auto intro: exI [of _ "[]"])
next
  case (Cons d ds)
  show ?case
  proof (cases "known db d")
    case True
    from record_discovery_known [OF this, of "[]"] obtain i where "record_discovery [] d db = (Inr i, db)" ..
    then have step: "record_counting_new (d # ds) n db = record_counting_new ds n db"
      by simp
    from Cons.IH [of db n] Cons.prems obtain rows db' where r: "record_counting_new ds n db = (Inr (n + length rows), db')"
        "db' = db\<lparr>sd_discoveries := sd_discoveries db @ rows\<rparr>" "discoveries_ok db'"
        "list_all (\<lambda>r. \<exists>d \<in> set ds. \<exists>i. r = d\<lparr>di_id := i\<rparr>) rows" "list_all (known db') ds"
      by auto
    have "known db' d"
      using True r(2) by (auto simp: known_def)
    with r step show ?thesis
      by (intro exI [of _ rows] exI [of _ db']) (auto simp: list_all_iff)
  next
    case False
    define i where "i = next_rowid (map di_id (sd_discoveries db))"
    define e where "e = db\<lparr>sd_discoveries := sd_discoveries db @ [d\<lparr>di_id := i\<rparr>]\<rparr>"
    have rec: "record_discovery [] d db = (Inr i, e)"
      using record_discovery_new [OF False, of "[]"] Cons.prems(1) by (simp add: i_def e_def Let_def)
    have "length (list_discoveries db (di_source_kind d) None) < length (list_discoveries e (di_source_kind d) None)"
      by (simp add: length_list_discoveries e_def)
    then have step: "record_counting_new (d # ds) n db = record_counting_new ds (n + 1) e"
      by (simp add: rec)
    have "discoveries_ok e"
      using Cons.prems(2) False next_rowid_fresh_image [of di_id "sd_discoveries db"]
      by (auto simp: discoveries_ok_def e_def i_def known_def)
    moreover have "list_all (recordable [] e) ds"
    proof -
      have "recordable [] e = recordable [] db"
        by (simp add: recordable_def e_def fun_eq_iff split: option.split)
      then show ?thesis
        using Cons.prems(1) by simp
    qed
    ultimately obtain rows db' where r: "record_counting_new ds (n + 1) e = (Inr (n + 1 + length rows), db')"
        "db' = e\<lparr>sd_discoveries := sd_discoveries e @ rows\<rparr>" "discoveries_ok db'"
        "list_all (\<lambda>r. \<exists>d \<in> set ds. \<exists>i. r = d\<lparr>di_id := i\<rparr>) rows" "list_all (known db') ds"
      using Cons.IH [of e "n + 1"] by auto
    have "known db' d"
      by (simp add: r(2) e_def known_def)
    with r step show ?thesis
      by (intro exI [of _ "d\<lparr>di_id := i\<rparr> # rows"] exI [of _ db']) (auto simp: e_def list_all_iff)
  qed
qed

lemma expansion_rows_recordable: "list_all (recordable [] db) (expansion_rows f j src t (catalog_view db c))"
proof -
  have "sn_id latest \<in> sn_id ` set (sd_snapshots db)" if "first (list_snapshots (catalog_view db c) ev) = Some latest" for ev latest
  proof -
    have "latest \<in> set (list_snapshots (catalog_view db c) ev)"
      using that by (auto simp: first_def split: list.splits)
    then show ?thesis
      by (auto simp: list_snapshots_def catalog_view_def snapshot_rec.truncate_def)
  qed
  then show ?thesis
    by (auto simp: list_all_iff expansion_rows_def recordable_def seed_row_def split: option.splits)
qed

definition expansion_origin ::
    "(string \<Rightarrow> (nat \<times> nat) list) \<Rightarrow> (string \<Rightarrow> string \<Rightarrow> string option) \<Rightarrow> string \<Rightarrow> corpus \<Rightarrow> sync_db \<Rightarrow> ticket_discovery \<Rightarrow> bool" where
  "expansion_origin find_iter json_str src c db r \<longleftrightarrow>
     (\<exists>event latest. event \<in> set (sd_events db) \<and> er_source_kind event = src
        \<and> first (list_snapshots (catalog_view db c) (er_id event)) = Some latest
        \<and> di_source_snapshot r = Some (sn_id latest) \<and> di_external_id r \<noteq> er_external_id event
        \<and> di_external_id r \<in> fst ` set (extract_ticket_references find_iter (expansion_text json_str latest)))"

lemma expansion_row_origin:
  assumes "d \<in> set (expansion_rows find_iter json_str src t (catalog_view db c))"
  shows "di_status d = pending \<and> di_source_kind d = src \<and> expansion_origin find_iter json_str src c db d"
proof -
  have "set (list_events (catalog_view db c)) = set (sd_events db)"
    by (simp add: list_events_def catalog_view_def)
  with assms obtain event where event: "event \<in> set (sd_events db)" "er_source_kind event = src"
    and d: "d \<in> set (case first (list_snapshots (catalog_view db c) (er_id event)) of None \<Rightarrow> []
       | Some latest \<Rightarrow> map (\<lambda>ext. seed_row src ext ''TicketDescriptionReference'' (Some (sn_id latest)) None t)
             (filter (\<lambda>ext. ext \<noteq> er_external_id event)
               (map fst (extract_ticket_references find_iter (expansion_text json_str latest)))))"
    by (auto simp: expansion_rows_def split: if_splits)
  from d obtain latest where latest: "first (list_snapshots (catalog_view db c) (er_id event)) = Some latest"
    by (cases "first (list_snapshots (catalog_view db c) (er_id event))") auto
  with d obtain ext where "d = seed_row src ext ''TicketDescriptionReference'' (Some (sn_id latest)) None t"
      "ext \<noteq> er_external_id event" "ext \<in> fst ` set (extract_ticket_references find_iter (expansion_text json_str latest))"
    by (auto simp: image_iff)
  with event latest show ?thesis
    by (auto simp: expansion_origin_def seed_row_def)
qed

text \<open>Reference expansion only adds pending rows for identifiers that occur in the text of the
  latest snapshot of an event of the source and are not the event's own; it counts the rows it adds,
  no ticket gets two rows of one provenance, and a second expansion adds nothing.\<close>

theorem expansion_exact:
  assumes "discoveries_ok db"
  shows "\<exists>rows db'. expand_from_snapshots find_iter json_str src t c db = (Inr (length rows), db')
    \<and> db' = db\<lparr>sd_discoveries := sd_discoveries db @ rows\<rparr> \<and> discoveries_ok db'
    \<and> list_all (\<lambda>r. di_status r = pending \<and> di_source_kind r = src
        \<and> expansion_origin find_iter json_str src c db r) rows
    \<and> expand_from_snapshots find_iter json_str src t' c db' = (Inr 0, db')"
proof -
  define ds where "ds = expansion_rows find_iter json_str src t (catalog_view db c)"
  obtain rows db' where r: "record_counting_new ds 0 db = (Inr (length rows), db')"
      "db' = db\<lparr>sd_discoveries := sd_discoveries db @ rows\<rparr>" "discoveries_ok db'"
      "list_all (\<lambda>r. \<exists>d \<in> set ds. \<exists>i. r = d\<lparr>di_id := i\<rparr>) rows" "list_all (known db') ds"
    using record_counting_spec [OF _ assms, of ds 0] expansion_rows_recordable by (auto simp: ds_def)
  have view: "catalog_view db' c = catalog_view db c"
    by (simp add: r(2) catalog_view_def)
  have keys: "map discovery_key (expansion_rows find_iter json_str src t' (catalog_view db c)) = map discovery_key ds"
    by (auto simp: ds_def expansion_rows_def seed_row_def discovery_key_def map_concat comp_def
        intro!: arg_cong [of _ _ concat] split: option.split)
  have "list_all (known db') (expansion_rows find_iter json_str src t' (catalog_view db c))"
    using r(5) arg_cong [OF keys, of set] by (fastforce simp: list_all_iff known_def image_iff)
  then have "expand_from_snapshots find_iter json_str src t' c db' = (Inr 0, db')"
    by (simp add: expand_from_snapshots_def view record_counting_known)
  moreover have "di_status r = pending \<and> di_source_kind r = src \<and> expansion_origin find_iter json_str src c db r"
    if "r \<in> set rows" for r
  proof -
    from that r(4) obtain d k where "d \<in> set ds" "r = d\<lparr>di_id := k\<rparr>"
      by (auto simp: list_all_iff)
    with expansion_row_origin [of d] show ?thesis
      by (simp add: ds_def expansion_origin_def)
  qed
  ultimately show ?thesis
    using r(1-3) unfolding expand_from_snapshots_def ds_def [symmetric]
    by (intro exI [of _ rows] exI [of _ db']) (simp add: list_all_iff)
qed

subsection \<open>The frontier\<close>

lemma update_status_frame [simp]:
  "sd_events (update_discovery_status_rows src ext st db) = sd_events db"
  "sd_snapshots (update_discovery_status_rows src ext st db) = sd_snapshots db"
  "sd_sync_runs (update_discovery_status_rows src ext st db) = sd_sync_runs db"
  "sd_fetches (update_discovery_status_rows src ext st db) = sd_fetches db"
  by (simp_all add: update_discovery_status_rows_def)

lemma set_pending_frontier: "set (pending_frontier db src) = di_external_id ` set (pending_rows db src)"
  by (simp add: pending_frontier_def Let_def)

text \<open>The frontier lists every ticket with a pending row once, the earliest discovered first.\<close>

theorem pending_frontier_exact:
  "distinct (pending_frontier db src)
   \<and> (ext \<in> set (pending_frontier db src) \<longleftrightarrow>
        (\<exists>d \<in> set (sd_discoveries db). di_source_kind d = src \<and> di_external_id d = ext \<and> di_status d = pending))
   \<and> sorted_wrt (\<lambda>a b. Min (di_discovered_at ` {d \<in> set (pending_rows db src). di_external_id d = a})
                      \<le> Min (di_discovered_at ` {d \<in> set (pending_rows db src). di_external_id d = b})) (pending_frontier db src)"
proof -
  have "sorted_wrt (\<lambda>a b. f a \<le> f b) (sort_key f xs)" for f :: "string \<Rightarrow> string" and xs
    using sorted_sort_key [of f xs] by (simp add: sorted_map)
  moreover have "set (map di_discovered_at (rows_of ext rows)) = di_discovered_at ` {d \<in> set rows. di_external_id d = ext}" for ext rows
    by (auto simp: rows_of_def)
  ultimately show ?thesis
    by (auto simp: set_pending_frontier pending_rows_def) (simp_all add: pending_frontier_def Let_def pending_rows_def)
qed

lemma pending_rows_update:
  assumes "st \<noteq> pending"
  shows "pending_rows (update_discovery_status_rows src ext st db) src = filter (\<lambda>d. di_external_id d \<noteq> ext) (pending_rows db src)"
proof -
  have "filter (\<lambda>d. di_source_kind d = src \<and> di_status d = pending)
      (map (\<lambda>d. if di_source_kind d = src \<and> di_external_id d = ext \<and> di_status d = pending then d\<lparr>di_status := st\<rparr> else d) ds)
    = filter (\<lambda>d. di_external_id d \<noteq> ext) (filter (\<lambda>d. di_source_kind d = src \<and> di_status d = pending) ds)" for ds
    using assms by (induction ds) auto
  then show ?thesis
    by (simp add: pending_rows_def update_discovery_status_rows_def)
qed

lemma pending_after_update:
  assumes "st \<noteq> pending"
  shows "set (pending_frontier (update_discovery_status_rows src ext st db) src) = set (pending_frontier db src) - {ext}"
  unfolding set_pending_frontier pending_rows_update [OF assms] by auto

theorem expansion_witness:
  "\<exists>(rows :: ticket_discovery list) db'. expand_from_snapshots (\<lambda>_. [(0, 4)]) (\<lambda>_ field. if field = ''title'' then Some ''INC2'' else None) ''grnoc'' ''t'' empty_corpus
       sample_tables = (Inr (length rows), db') \<and> map di_external_id rows = [''INC2''] \<and> discoveries_ok db'"
proof -
  let ?f = "\<lambda>_. [(0, 4)]" and ?j = "\<lambda>_ field. if field = ''title'' then Some ''INC2'' else None"
  have "discoveries_ok sample_tables"
    unfolding discoveries_ok_def by code_simp
  from expansion_exact [OF this, of ?f ?j "''grnoc''" "''t''" empty_corpus] obtain rows db' where
    r: "expand_from_snapshots ?f ?j ''grnoc'' ''t'' empty_corpus sample_tables = (Inr (length rows), db')"
    "db' = sample_tables\<lparr>sd_discoveries := sd_discoveries sample_tables @ rows\<rparr>" "discoveries_ok db'"
    by blast
  have "map di_external_id (sd_discoveries (snd (expand_from_snapshots ?f ?j ''grnoc'' ''t'' empty_corpus sample_tables))) = [''INC2'']"
    "sd_discoveries sample_tables = []"
    by code_simp+
  then have "map di_external_id rows = [''INC2'']"
    using r(1,2) by simp
  from r(1) this r(3) show ?thesis
    by (rule exI [of _ rows, OF exI [of _ db', OF conjI [OF _ conjI]]])
qed

end
