(* ===== verification/Convention.thy ===== *)
theory Convention
  imports Std_Text
begin

text \<open>
  The naming convention for ticket titles: \<open>conventions/grnoc.rs\<close>. A title is its UTF-8 bytes; its
  characters are the byte groups. Slices of a \<open>str\<close> are by byte offsets and panic off a character
  boundary, which is \<open>None\<close>. The lower-casing of Unicode text is a parameter.
\<close>

section \<open>Text\<close>

definition is_cont :: "char \<Rightarrow> bool" where
  "is_cont c \<longleftrightarrow> 128 \<le> (of_char c :: nat) \<and> (of_char c :: nat) < 192"

text \<open>\<open>str::chars\<close> on UTF-8 bytes: a leading byte with its continuation bytes.\<close>

function utf8_chars :: "string \<Rightarrow> string list" where
  "utf8_chars [] = []"
| "utf8_chars (c # s) = (c # takeWhile is_cont s) # utf8_chars (dropWhile is_cont s)"
  by pat_completeness auto
termination
  by (relation "measure length") (auto simp: le_imp_less_Suc length_dropWhile_le)

definition char_boundary :: "string \<Rightarrow> nat \<Rightarrow> bool" where
  "char_boundary s i = (i = 0 \<or> i = length s \<or> (i < length s \<and> \<not> is_cont (s ! i)))"

definition slice :: "string \<Rightarrow> nat \<Rightarrow> nat \<Rightarrow> string option" where
  "slice s a b = (if a \<le> b \<and> char_boundary s a \<and> char_boundary s b then Some (take (b - a) (drop a s)) else None)"

fun find_str :: "string \<Rightarrow> string \<Rightarrow> nat option" where
  "find_str p [] = (if p = [] then Some 0 else None)"
| "find_str p (c # s) = (if starts_with p (c # s) then Some 0 else map_option Suc (find_str p s))"

section \<open>Interpretation\<close>

datatype named_entity_type = EntityPeer | EntityParticipant | EntityOther

record attachment_qualifier =
  aq_raw :: string
  aq_normalized :: string
  char_offset :: nat

datatype interpretation_confidence = ClearTitle | AmbiguousTitle

record convention_interpretation =
  raw_title :: string
  named_entity_type :: "named_entity_type option"
  named_entity_label :: "string option"
  attachment_qualifier :: "attachment_qualifier option"
  redundancy_expected :: "bool option"
  ci_provenance :: string
  ci_confidence :: interpretation_confidence
  ci_note :: "string option"

definition is_ascii_alphanumeric :: "string \<Rightarrow> bool" where
  "is_ascii_alphanumeric ch =
     (case ch of
        [c] \<Rightarrow> let n = (of_char c :: nat) in (48 \<le> n \<and> n \<le> 57) \<or> (65 \<le> n \<and> n \<le> 90) \<or> (97 \<le> n \<and> n \<le> 122)
      | _ \<Rightarrow> False)"

text \<open>The inner loop from the character after an opening parenthesis: the depth, the inner text and
  the rest from the closing one, with the number of characters passed.\<close>

fun scan_group :: "nat \<Rightarrow> string list \<Rightarrow> nat \<Rightarrow> string list \<Rightarrow> nat \<times> string list \<times> nat \<times> string list" where
  "scan_group depth inner n [] = (depth, inner, n, [])"
| "scan_group depth inner n (ch # rest) =
     (if ch = ''('' then scan_group (depth + 1) (inner @ [ch]) (n + 1) rest
      else if ch = '')'' then
        (if depth = 1 then (0, inner, n, ch # rest) else scan_group (depth - 1) (inner @ [ch]) (n + 1) rest)
      else scan_group depth (inner @ [ch]) (n + 1) rest)"

lemma scan_group_rest: "length (snd (snd (snd (scan_group d inner n cs)))) \<le> length cs"
  by (induction d inner n cs rule: scan_group.induct) (auto simp: Let_def)

lemma scan_group_shrinks:
  "(depth, inner', n', rest) = scan_group d inner n cs \<Longrightarrow> length rest - Suc 0 < Suc (length cs)"
  using scan_group_rest [of d inner n cs] by (metis One_nat_def diff_le_self le_imp_less_Suc le_trans snd_conv)

function find_groups :: "nat \<Rightarrow> string list \<Rightarrow> (nat \<times> nat \<times> string) list" where
  "find_groups i [] = []"
| "find_groups i (ch # rest) =
     (if ch = ''('' then
        (case scan_group 1 [] 0 rest of
           (depth, inner, n, rest') \<Rightarrow>
             (let found = (if depth = 0 \<and> 2 \<le> length (concat inner) \<and> length (concat inner) \<le> 10
                              \<and> list_all is_ascii_alphanumeric inner
                           then [(i, i + 1 + n + 1, concat inner)] else [])
              in found @ find_groups (i + 1 + n + 1) (drop 1 rest')))
      else find_groups (i + 1) rest)"
  by pat_completeness auto
termination
  by (relation "measure (length \<circ> snd)") (auto dest: scan_group_shrinks)

definition find_parentheticals :: "string \<Rightarrow> (nat \<times> nat \<times> string) list" where
  "find_parentheticals title = find_groups 0 (utf8_chars title)"

definition trim_commas :: "string \<Rightarrow> string" where
  "trim_commas s = rev (dropWhile (\<lambda>c. c = CHR '','') (rev s))"

text \<open>The label after a keyword: the first piece of the trimmed rest.\<close>

definition entity_label :: "string \<Rightarrow> string option" where
  "entity_label after =
     (let s = concat (takeWhile (\<lambda>ch. \<not> (ch \<in> set white_space \<or> ch = ''('' \<or> ch = ''-'')) (utf8_chars after))
      in if s \<noteq> [] \<and> 1 < length s then Some (trim_commas s) else None)"

definition extract_entity :: "(string \<Rightarrow> string) \<Rightarrow> string \<Rightarrow> (named_entity_type \<times> string option) option" where
  "extract_entity to_lowercase title =
     (let lower = to_lowercase title
      in case find_str ''participant'' lower of
           Some pos \<Rightarrow> map_option (\<lambda>rest. (EntityParticipant, entity_label (trim rest))) (slice title (pos + 11) (length title))
         | None \<Rightarrow>
             (case find_str ''peer'' lower of
                Some pos \<Rightarrow> map_option (\<lambda>rest. (EntityPeer, entity_label (trim rest))) (slice title (pos + 4) (length title))
              | None \<Rightarrow> Some (EntityOther, None)))"

definition interpretation_of ::
    "string \<Rightarrow> attachment_qualifier option \<Rightarrow> bool option \<Rightarrow> interpretation_confidence \<Rightarrow> string option
       \<Rightarrow> named_entity_type \<times> string option \<Rightarrow> convention_interpretation" where
  "interpretation_of title qualifier redundancy conf why entity =
     \<lparr>raw_title = title, named_entity_type = Some (fst entity), named_entity_label = snd entity,
      attachment_qualifier = qualifier, redundancy_expected = redundancy,
      ci_provenance = ''GRNOC title convention: trailing parenthesized code indicates expected redundancy'',
      ci_confidence = conf, ci_note = why\<rparr>"

definition interpret_title :: "(string \<Rightarrow> string) \<Rightarrow> string \<Rightarrow> convention_interpretation option" where
  "interpret_title to_lowercase title0 =
     (let title = trim title0 in
      case find_parentheticals title of
        [] \<Rightarrow> map_option (interpretation_of title None (Some False) ClearTitle None) (extract_entity to_lowercase title)
      | [(a, b, code)] \<Rightarrow>
          Option.bind (slice title b (length title)) (\<lambda>rest.
            if trim rest \<noteq> [] then
              map_option (interpretation_of title None (Some False) ClearTitle
                 (Some (''parenthetical '' @ [CHR 0x27] @ ''('' @ code @ '')'' @ [CHR 0x27] @ '' is not trailing '' @ dash_utf8 @ '' not interpreted as attachment qualifier'')))
                (extract_entity to_lowercase title)
            else Option.bind (slice title a b) (\<lambda>raw.
              map_option (interpretation_of title
                  (Some \<lparr>aq_raw = raw, aq_normalized = map ascii_upper code, char_offset = a\<rparr>) (Some True) ClearTitle None)
                (extract_entity to_lowercase title)))
      | _ \<Rightarrow> map_option (interpretation_of title None None AmbiguousTitle
               (Some ''ambiguous GRNOC title structure: multiple parenthetical phrases'')) (extract_entity to_lowercase title))"

section \<open>Correctness\<close>

subsection \<open>Trimming keeps what is not white space\<close>

lemma strip_front_keeps:
  assumes "\<And>w. w \<in> set ws \<Longrightarrow> c \<notin> set w" "c \<notin> set (take n s)" "c \<in> set s"
  shows "c \<in> set (strip_front ws n s)"
  using assms
proof (induction ws n s rule: strip_front.induct)
  case (3 ws x s)
  show ?case
  proof (cases "find (\<lambda>w. w \<noteq> [] \<and> starts_with w (x # s)) ws")
    case None
    then show ?thesis using "3.prems"(3) by simp
  next
    case (Some w)
    then have w: "w \<in> set ws" "w \<noteq> []" "starts_with w (x # s)" by (auto simp: find_Some_iff)
    obtain w' where w': "w = x # w'" "take (length w') s = w'"
    proof (cases w)
      case (Cons y w')
      then show thesis using w(3) that [of w'] by (simp add: starts_with_def)
    qed (use w(2) in simp)
    have "set (take (length w') s) = set w'" using w'(2) by simp
    have c: "c \<notin> set w" using "3.prems"(1) w(1) by simp
    have "c \<in> set (strip_front ws (length w - 1) s)"
      by (rule "3.IH" [OF Some "3.prems"(1)]) (use c w'(1) \<open>set (take (length w') s) = set w'\<close> "3.prems"(3) in auto)
    then show ?thesis using Some by simp
  qed
qed auto

lemma trim_keeps: "c \<notin> \<Union> (set ` set white_space) \<Longrightarrow> c \<in> set s \<Longrightarrow> c \<in> set (trim s)"
  unfolding trim_def set_rev by (rule strip_front_keeps) (auto intro!: strip_front_keeps)

lemma parens_not_white: "CHR '')'' \<notin> \<Union> (set ` set white_space)"
  by (simp add: white_space_def)

subsection \<open>Characters and groups\<close>

lemma utf8_chars_append: "\<not> is_cont c \<Longrightarrow> utf8_chars (s @ c # r) = utf8_chars s @ utf8_chars (c # r)"
proof (induction s rule: utf8_chars.induct)
  case (2 x s)
  have "takeWhile is_cont (s @ c # r) = takeWhile is_cont s"
    using "2.prems" by (induction s) auto
  moreover have "dropWhile is_cont (s @ c # r) = dropWhile is_cont s @ c # r"
    using "2.prems" by (induction s) auto
  ultimately show ?case using 2 by simp
qed simp

lemma concat_utf8_chars: "concat (utf8_chars s) = s"
  by (induction s rule: utf8_chars.induct) auto

lemma utf8_chars_plain: "list_all (\<lambda>c. \<not> is_cont c) s \<Longrightarrow> utf8_chars s = map (\<lambda>c. [c]) s"
proof (induction s)
  case (Cons c s)
  then have "takeWhile is_cont s = []" "dropWhile is_cont s = s" by (cases s; simp)+
  then show ?case using Cons by simp
qed simp

lemma length_utf8_chars: "length (utf8_chars s) \<le> length s"
  by (induction s rule: utf8_chars.induct) (auto intro: le_trans [OF _ length_dropWhile_le])

definition alnum :: "char \<Rightarrow> bool" where
  "alnum c \<longleftrightarrow> is_ascii_alphanumeric [c]"

lemma alnum_plain: "alnum c \<Longrightarrow> \<not> is_cont c \<and> c \<noteq> CHR ''('' \<and> c \<noteq> CHR '')''"
  by (auto simp: alnum_def is_ascii_alphanumeric_def is_cont_def Let_def)

lemma alnum_list_plain: "list_all alnum code \<Longrightarrow> list_all (\<lambda>c. \<not> is_cont c) code"
  by (induction code) (simp_all add: alnum_plain)

lemma find_groups_skip: "''('' \<notin> set cs \<Longrightarrow> find_groups i (cs @ rest) = find_groups (i + length cs) rest"
  by (induction cs arbitrary: i) auto

lemma scan_group_code:
  "list_all alnum code \<Longrightarrow> scan_group 1 inner n (map (\<lambda>c. [c]) code @ [[CHR '')'']])
     = (0, inner @ map (\<lambda>c. [c]) code, n + length code, [[CHR '')'']])"
  by (induction code arbitrary: inner n) (auto dest: alnum_plain)

lemma concat_map_single: "concat (map (\<lambda>c. [c]) s) = s"
  by (induction s) auto

text \<open>A title that ends in a code in parentheses and has no other parenthesis has one group; its
  offsets count characters.\<close>

lemma find_parentheticals_trailing:
  assumes "CHR ''('' \<notin> set pre" "list_all alnum code" "2 \<le> length code" "length code \<le> 10"
  shows "find_parentheticals (pre @ CHR ''('' # code @ [CHR '')''])
    = [(length (utf8_chars pre), length (utf8_chars pre) + length code + 2, code)]"
proof -
  have no: "''('' \<notin> set (utf8_chars pre)"
  proof
    assume "''('' \<in> set (utf8_chars pre)"
    then have "CHR ''('' \<in> set (concat (utf8_chars pre))" by force
    with assms(1) show False by (simp add: concat_utf8_chars)
  qed
  have plain: "list_all (\<lambda>c. \<not> is_cont c) (CHR ''('' # code @ [CHR '')''])"
    using alnum_list_plain [OF assms(2)] by (simp add: is_cont_def)
  then have "utf8_chars (pre @ CHR ''('' # code @ [CHR '')''])
      = utf8_chars pre @ ''('' # map (\<lambda>c. [c]) code @ ['')'']"
    using utf8_chars_append [of "CHR ''(''" pre "code @ [CHR '')'']"] utf8_chars_plain [OF plain] by simp
  moreover have "list_all is_ascii_alphanumeric (map (\<lambda>c. [c]) code)"
    using assms(2) by (auto simp: list_all_iff alnum_def)
  ultimately show ?thesis
    using assms scan_group_code [OF assms(2), of "[]" 0] find_groups_skip [OF no, of 0]
    by (simp add: find_parentheticals_def concat_map_single)
qed

lemma find_parentheticals_none:
  assumes "CHR ''('' \<notin> set s"
  shows "find_parentheticals s = []"
proof -
  have "''('' \<notin> set (utf8_chars s)"
  proof
    assume "''('' \<in> set (utf8_chars s)"
    then have "CHR ''('' \<in> set (concat (utf8_chars s))" by force
    with assms show False by (simp add: concat_utf8_chars)
  qed
  then show ?thesis using find_groups_skip [of "utf8_chars s" 0 "[]"] by (simp add: find_parentheticals_def)
qed

subsection \<open>The convention on ASCII titles\<close>

lemma starts_with_length: "starts_with p s \<Longrightarrow> length p \<le> length s"
  unfolding starts_with_def by (metis length_take min.cobounded1)

lemma find_str_bound: "find_str p s = Some i \<Longrightarrow> i + length p \<le> length s"
proof (induction s arbitrary: i)
  case (Cons c s)
  then show ?case using starts_with_length [of p "c # s"] by (auto split: if_splits)
qed (simp split: if_splits)

lemma char_boundary_plain: "list_all (\<lambda>c. \<not> is_cont c) s \<Longrightarrow> i \<le> length s \<Longrightarrow> char_boundary s i"
  by (auto simp: char_boundary_def list_all_length le_less)

lemma extract_entity_plain:
  assumes "list_all (\<lambda>c. \<not> is_cont c) title" "length (to_lowercase title) = length title"
  shows "\<exists>entity. extract_entity to_lowercase title = Some entity"
proof -
  have "\<exists>rest. slice title (i + n) (length title) = Some rest" if "find_str p (to_lowercase title) = Some i" "length p = n" for p i n
    using find_str_bound [OF that(1)] that(2) assms by (simp add: slice_def char_boundary_plain)
  note cut = this
  have "\<exists>rest. slice title (i + 11) (length title) = Some rest" if "find_str ''participant'' (to_lowercase title) = Some i" for i
    by (rule cut [OF that]) simp
  moreover have "\<exists>rest. slice title (i + 4) (length title) = Some rest" if "find_str ''peer'' (to_lowercase title) = Some i" for i
    by (rule cut [OF that]) simp
  ultimately show ?thesis
    by (auto simp: extract_entity_def Let_def split: option.splits)
qed

lemma convention_ascii:
  assumes ascii: "list_all (\<lambda>c. (of_char c :: nat) < 128) (trim title)"
    and lower: "length (to_lowercase (trim title)) = length (trim title)"
  shows "(CHR ''('' \<notin> set (trim title) \<longrightarrow>
      (\<exists>r. interpret_title to_lowercase title = Some r \<and> redundancy_expected r = Some False \<and> attachment_qualifier r = None))
    \<and> (trim title = pre @ CHR ''('' # code @ [CHR '')''] \<and> CHR ''('' \<notin> set pre \<and> list_all alnum code
        \<and> 2 \<le> length code \<and> length code \<le> 10 \<longrightarrow>
      (\<exists>r. interpret_title to_lowercase title = Some r \<and> redundancy_expected r = Some True
         \<and> attachment_qualifier r = Some \<lparr>aq_raw = CHR ''('' # code @ [CHR '')''], aq_normalized = map ascii_upper code,
                                          char_offset = length pre\<rparr>))"
proof -
  have plain: "list_all (\<lambda>c. \<not> is_cont c) (trim title)" using ascii by (auto simp: list_all_iff is_cont_def)
  obtain entity where entity: "extract_entity to_lowercase (trim title) = Some entity"
    using extract_entity_plain [of "trim title" to_lowercase, OF plain lower] by blast
  have "\<exists>r. interpret_title to_lowercase title = Some r \<and> redundancy_expected r = Some False \<and> attachment_qualifier r = None"
    if "CHR ''('' \<notin> set (trim title)"
    using entity find_parentheticals_none [OF that] by (simp add: interpret_title_def Let_def interpretation_of_def)
  moreover have "\<exists>r. interpret_title to_lowercase title = Some r \<and> redundancy_expected r = Some True
         \<and> attachment_qualifier r = Some \<lparr>aq_raw = CHR ''('' # code @ [CHR '')''], aq_normalized = map ascii_upper code,
                                          char_offset = length pre\<rparr>"
    if title: "trim title = pre @ CHR ''('' # code @ [CHR '')'']"
      and code: "CHR ''('' \<notin> set pre" "list_all alnum code" "2 \<le> length code" "length code \<le> 10"
  proof -
    have "length (utf8_chars pre) = length pre" using plain by (simp add: title utf8_chars_plain)
    then have groups: "find_parentheticals (trim title) = [(length pre, length pre + length code + 2, code)]"
      using find_parentheticals_trailing [OF code] by (simp add: title)
    have len: "length (trim title) = length pre + length code + 2" by (simp add: title)
    have "slice (trim title) (length pre + length code + 2) (length (trim title)) = Some []"
      by (simp add: slice_def len char_boundary_def)
    moreover have "slice (trim title) (length pre) (length pre + length code + 2) = Some (CHR ''('' # code @ [CHR '')''])"
      using char_boundary_plain [OF plain, of "length pre"] char_boundary_plain [OF plain, of "length pre + length code + 2"]
      by (simp add: slice_def len) (simp add: title)
    moreover have "trim [] = []" by (simp add: trim_def)
    ultimately show ?thesis using entity groups by (simp add: interpret_title_def Let_def interpretation_of_def)
  qed
  ultimately show ?thesis by blast
qed

text \<open>On an ASCII title the convention is the documented one: without a
  parenthesis the named relationship is expected to be unavailable, and a single trailing code of two
  to ten letters and digits is the attachment qualifier and means redundancy. Lower-casing keeps
  the length of ASCII text.\<close>

theorem convention_on_ascii_titles:
  assumes ascii: "list_all (\<lambda>c. (of_char c :: nat) < 128) (trim title)"
    and lower: "length (to_lowercase (trim title)) = length (trim title)"
  shows "(CHR ''('' \<notin> set (trim title) \<longrightarrow>
      (\<exists>r. interpret_title to_lowercase title = Some r \<and> redundancy_expected r = Some False \<and> attachment_qualifier r = None))
    \<and> (trim title = pre @ CHR ''('' # code @ [CHR '')''] \<and> CHR ''('' \<notin> set pre \<and> list_all alnum code
        \<and> 2 \<le> length code \<and> length code \<le> 10 \<longrightarrow>
      (\<exists>r. interpret_title to_lowercase title = Some r \<and> redundancy_expected r = Some True
         \<and> attachment_qualifier r = Some \<lparr>aq_raw = CHR ''('' # code @ [CHR '')''], aq_normalized = map ascii_upper code,
                                          char_offset = length pre\<rparr>))"
  by (rule convention_ascii [of title to_lowercase pre code, OF ascii lower])

text \<open>The offsets of a parenthetical count characters but slice bytes: when a
  character of several bytes stands before a trailing code, the code is never recognised; the
  interpretation panics or reports that the relationship is expected to be unavailable.\<close>

theorem non_ascii_title_loses_qualifier:
  assumes title: "trim title = pre @ CHR ''('' # code @ [CHR '')'']"
    and code: "CHR ''('' \<notin> set pre" "list_all alnum code" "2 \<le> length code" "length code \<le> 10"
    and wide: "length (utf8_chars pre) < length pre"
  shows "case interpret_title to_lowercase title of
      None \<Rightarrow> True
    | Some r \<Rightarrow> redundancy_expected r = Some False \<and> attachment_qualifier r = None"
proof -
  let ?b = "length (utf8_chars pre) + length code + 2"
  have groups: "find_parentheticals (trim title) = [(length (utf8_chars pre), ?b, code)]"
    using find_parentheticals_trailing [OF code] by (simp add: title)
  have "trim rest \<noteq> []" if "slice (trim title) ?b (length (trim title)) = Some rest" for rest
  proof -
    have "?b < length (trim title)" using wide by (simp add: title)
    then have "last (drop ?b (trim title)) = last (trim title)" "drop ?b (trim title) \<noteq> []" by simp_all
    moreover have "rest = drop ?b (trim title)" using that by (auto simp: slice_def split: if_splits)
    moreover have "last (trim title) = CHR '')''" by (simp add: title)
    ultimately have "CHR '')'' \<in> set rest" by (metis last_in_set)
    then have "CHR '')'' \<in> set (trim rest)" by (rule trim_keeps [OF parens_not_white])
    then show ?thesis by auto
  qed
  then show ?thesis using groups
    by (auto simp: interpret_title_def Let_def interpretation_of_def split: option.splits Option.bind_splits)
qed

definition sample_title :: "string \<Rightarrow> string" where
  "sample_title dash = ''Outage '' @ dash @ '' I2 PX Peer RIPE (NEWA)''"

theorem convention_on_ascii_witness:
  "\<exists>r. interpret_title (map ascii_lower) (sample_title ''-'') = Some r \<and> redundancy_expected r = Some True"
proof -
  have t: "trim (sample_title ''-'') = ''Outage - I2 PX Peer RIPE '' @ CHR ''('' # ''NEWA'' @ [CHR '')'']" by code_simp
  have "list_all (\<lambda>c. (of_char c :: nat) < 128) (trim (sample_title ''-''))" unfolding t by simp
  moreover have "length (map ascii_lower (trim (sample_title ''-''))) = length (trim (sample_title ''-''))" by simp
  moreover have "CHR ''('' \<notin> set ''Outage - I2 PX Peer RIPE ''" "list_all alnum ''NEWA''"
    by (simp_all add: alnum_def is_ascii_alphanumeric_def Let_def)
  ultimately show ?thesis
    using convention_on_ascii_titles [of "sample_title ''-''" "map ascii_lower" "''Outage - I2 PX Peer RIPE ''" "''NEWA''"] t by auto
qed

theorem non_ascii_title_witness:
  "\<exists>r. interpret_title (map ascii_lower) (sample_title [CHR 0xE2, CHR 0x80, CHR 0x93]) = Some r \<and> redundancy_expected r = Some False"
proof -
  let ?t = "sample_title [CHR 0xE2, CHR 0x80, CHR 0x93]"
  let ?pre = "''Outage '' @ [CHR 0xE2, CHR 0x80, CHR 0x93] @ '' I2 PX Peer RIPE ''"
  have t: "trim ?t = ?pre @ CHR ''('' # ''NEWA'' @ [CHR '')'']" by code_simp
  have wide: "length (utf8_chars ?pre) < length ?pre" by code_simp
  have some: "interpret_title (map ascii_lower) ?t \<noteq> None" by code_simp
  have "CHR ''('' \<notin> set ?pre" "list_all alnum ''NEWA''"
    by (simp_all add: alnum_def is_ascii_alphanumeric_def Let_def)
  from non_ascii_title_loses_qualifier [OF t this _ _ wide, of "map ascii_lower"] some
  show ?thesis by (auto split: option.splits)
qed

end
