(* ===== verification/Ticket_Source.thy ===== *)
theory Ticket_Source
  imports Convention Assess
begin

text \<open>
  Ticket records and the profiles that turn them into expectations: \<open>sources/grnoc.rs\<close>,
  \<open>profiles/mod.rs\<close> and \<open>profiles/internet2.rs\<close>. What \<open>chrono\<close> does with a text is a parameter; a panic
  of the title interpretation is \<open>None\<close>.
\<close>

section \<open>Viewer records\<close>

record grnoc_record =
  gr_number :: string
  gr_task_type :: string
  gr_short_description :: string
  gr_category :: string
  gr_start :: string
  gr_end :: "string option"
  gr_opened :: "string option"
  gr_state :: string
  gr_priority :: string
  gr_description :: string
  gr_source_url :: string
  gr_timezone :: "string option"
  gr_state_code :: "string option"
  gr_priority_code :: "string option"
  gr_planned_start :: "string option"
  gr_planned_end :: "string option"
  gr_maintenance_type :: "string option"
  gr_notification_text :: "string option"

record viewer_record =
  vr_number :: string
  vr_short_description :: string
  vr_description :: string
  vr_notification_text :: string
  vr_state :: string
  vr_category :: string
  vr_work_start :: string
  vr_work_end :: string
  vr_opened_at :: string
  vr_priority :: string
  vr_start_date :: string
  vr_end_date :: string
  vr_maintenance_type :: string

definition incident_state_label :: "string \<Rightarrow> string option" where
  "incident_state_label code =
     map_of [(''1'', ''New''), (''2'', ''In Progress''), (''3'', ''On Hold''), (''-1'', ''Review Needed''),
             (''-170'', ''Custodian Review''), (''6'', ''Resolved''), (''7'', ''Closed''), (''8'', ''Canceled'')] code"

definition change_state_label :: "string \<Rightarrow> string option" where
  "change_state_label code =
     map_of [(''0'', ''Review''), (''3'', ''Closed''), (''4'', ''Canceled''), (''7'', ''Impact Assessment''),
             (''-1'', ''Implement''), (''-2'', ''Scheduled''), (''-3'', ''Authorized''), (''-4'', ''Assess''),
             (''-5'', ''New''), (''-7'', ''Impact Assessment'')] code"

definition priority_label :: "string \<Rightarrow> string option" where
  "priority_label code = map_of [(''1'', ''Critical''), (''2'', ''High''), (''3'', ''Moderate''), (''4'', ''Low'')] code"

definition task_type_for_number :: "string \<Rightarrow> string" where
  "task_type_for_number number =
     (let lower = map ascii_lower number
      in if starts_with ''inc'' lower then ''Incident''
         else if starts_with ''chg'' lower then ''Change Request''
         else if starts_with ''task'' lower then ''Task''
         else ''Unknown'')"

text \<open>\<open>str::parse\<close> for \<open>i64\<close>: an optional sign and decimal digits, within the range of the type.\<close>

definition parse_i64 :: "string \<Rightarrow> int option" where
  "parse_i64 s =
     (let (neg, ds) = (case s of c # r \<Rightarrow> if c = CHR ''-'' then (True, r) else if c = CHR ''+'' then (False, r) else (False, s)
                               | [] \<Rightarrow> (False, []))
      in if ds = [] then None
         else Option.bind (parse_digits 0 ds) (\<lambda>n.
           let v = (if neg then - int n else int n)
           in if - (2 ^ 63) \<le> v \<and> v < 2 ^ 63 then Some v else None))"

definition epoch_to_rfc3339 :: "(int \<Rightarrow> string option) \<Rightarrow> string \<Rightarrow> string option" where
  "epoch_to_rfc3339 from_timestamp s = (if s = [] then None else Option.bind (parse_i64 s) from_timestamp)"

definition label_or_code :: "string option \<Rightarrow> string \<Rightarrow> string" where
  "label_or_code label code =
     (case label of
        Some l \<Rightarrow> l
      | None \<Rightarrow> if code = [] then ''Unknown'' else ''Unknown (code '' @ code @ '')'')"

definition nonempty :: "string \<Rightarrow> string option" where
  "nonempty s = (if s = [] then None else Some s)"

definition to_grnoc_record :: "(int \<Rightarrow> string option) \<Rightarrow> viewer_record \<Rightarrow> grnoc_record" where
  "to_grnoc_record from_timestamp v =
     (let is_change = starts_with ''chg'' (map ascii_lower (vr_number v));
          state_label = (if is_change then change_state_label (vr_state v) else incident_state_label (vr_state v));
          instant = epoch_to_rfc3339 from_timestamp
      in \<lparr>gr_number = vr_number v, gr_task_type = task_type_for_number (vr_number v),
          gr_short_description = vr_short_description v, gr_category = vr_category v,
          gr_start = (case instant (vr_work_start v) of None \<Rightarrow> [] | Some s \<Rightarrow> s),
          gr_end = instant (vr_work_end v), gr_opened = instant (vr_opened_at v),
          gr_state = label_or_code state_label (vr_state v),
          gr_priority = label_or_code (priority_label (vr_priority v)) (vr_priority v),
          gr_description = vr_description v,
          gr_source_url = ''https://ticket-viewer.grnoc.iu.edu/tickets/'' @ vr_number v @ ''/'',
          gr_timezone = None, gr_state_code = nonempty (vr_state v), gr_priority_code = nonempty (vr_priority v),
          gr_planned_start = instant (vr_start_date v), gr_planned_end = instant (vr_end_date v),
          gr_maintenance_type = nonempty (vr_maintenance_type v),
          gr_notification_text = nonempty (vr_notification_text v)\<rparr>)"

section \<open>Times\<close>

definition timezone_offset_secs :: "string option \<Rightarrow> int" where
  "timezone_offset_secs tz =
     (case Option.bind tz (map_of [(''EDT'', - 4), (''EST'', - 5), (''CDT'', - 5), (''CST'', - 6), (''MDT'', - 6),
                                   (''MST'', - 7), (''PDT'', - 7), (''PST'', - 8)]) of
        None \<Rightarrow> 0 | Some h \<Rightarrow> h * 3600)"

definition trim_end_z :: "string \<Rightarrow> string" where
  "trim_end_z s = rev (dropWhile (\<lambda>c. c = CHR ''Z'') (rev s))"

definition parse_time_to_utc ::
    "(string \<Rightarrow> timestamp option) \<Rightarrow> (string \<Rightarrow> string \<Rightarrow> timestamp option) \<Rightarrow> string \<Rightarrow> string option \<Rightarrow> string + timestamp" where
  "parse_time_to_utc rfc3339 naive s tz =
     (if contains_str ''T'' s \<and> (ends_with ''Z'' s \<or> contains_str ''+'' s \<or> contains_str ''-'' s)
      then (case rfc3339 s of
              Some t \<Rightarrow> Inr t
            | None \<Rightarrow> ok_or (naive ''%Y-%m-%dT%H:%M:%S'' (trim_end_z s)) s)
      else (case naive ''%Y-%m-%d %H:%M:%S'' s of
              None \<Rightarrow> Inl s
            | Some t \<Rightarrow> Inr (t - secs (timezone_offset_secs tz))))"

definition gr_parse_start ::
    "(string \<Rightarrow> timestamp option) \<Rightarrow> (string \<Rightarrow> string \<Rightarrow> timestamp option) \<Rightarrow> grnoc_record \<Rightarrow> string + timestamp" where
  "gr_parse_start rfc3339 naive r = parse_time_to_utc rfc3339 naive (gr_start r) (gr_timezone r)"

definition parse_optional ::
    "(string \<Rightarrow> timestamp option) \<Rightarrow> (string \<Rightarrow> string \<Rightarrow> timestamp option) \<Rightarrow> string option \<Rightarrow> string option \<Rightarrow> string + timestamp option" where
  "parse_optional rfc3339 naive field tz =
     (case field of
        Some s \<Rightarrow> if s \<noteq> [] then map_sum id Some (parse_time_to_utc rfc3339 naive s tz) else Inr None
      | None \<Rightarrow> Inr None)"

definition gr_parse_end ::
    "(string \<Rightarrow> timestamp option) \<Rightarrow> (string \<Rightarrow> string \<Rightarrow> timestamp option) \<Rightarrow> grnoc_record \<Rightarrow> string + timestamp option" where
  "gr_parse_end rfc3339 naive r = parse_optional rfc3339 naive (gr_end r) (gr_timezone r)"

definition gr_parse_opened ::
    "(string \<Rightarrow> timestamp option) \<Rightarrow> (string \<Rightarrow> string \<Rightarrow> timestamp option) \<Rightarrow> grnoc_record \<Rightarrow> string + timestamp option" where
  "gr_parse_opened rfc3339 naive r = parse_optional rfc3339 naive (gr_opened r) (gr_timezone r)"

section \<open>Profiles\<close>

datatype network_profile = Internet2 | IndianaGigaPop

record profile_context =
  pc_expectation :: impact_expectation
  pc_origin_asns :: "u32 list"
  pc_transit_asn :: u32
  pc_warmup_minutes :: int
  pc_cooldown_minutes :: int
  pc_collectors :: "string list"

definition qualifier_code :: "convention_interpretation \<Rightarrow> string option" where
  "qualifier_code interp = map_option aq_normalized (attachment_qualifier interp)"

definition internet2_expectation :: "convention_interpretation \<Rightarrow> impact_expectation" where
  "internet2_expectation interp =
     (let provenance = ''Internet2 (GRNOC): trailing parenthesized site code indicates expected redundancy''
      in case redundancy_expected interp of
           Some True \<Rightarrow> expect_redundant (qualifier_code interp) provenance
         | Some False \<Rightarrow>
             (case named_entity_type interp of
                Some EntityParticipant \<Rightarrow> expect_participant_unavailable provenance
              | Some EntityPeer \<Rightarrow> expect_peer_relationship_unavailable provenance
              | _ \<Rightarrow> expect_non_redundant provenance)
         | None \<Rightarrow> expect_unknown provenance)"

definition indiana_expectation :: "convention_interpretation \<Rightarrow> impact_expectation" where
  "indiana_expectation interp =
     (let provenance = ''Indiana GigaPOP (GRNOC): trailing parenthesized site code indicates expected redundancy''
      in case redundancy_expected interp of
           Some True \<Rightarrow> expect_redundant (qualifier_code interp) provenance
         | Some False \<Rightarrow> expect_peer_relationship_unavailable provenance
         | None \<Rightarrow> expect_unknown provenance)"

definition profile_defaults :: "impact_expectation \<Rightarrow> u32 \<Rightarrow> profile_context" where
  "profile_defaults e asn =
     \<lparr>pc_expectation = e, pc_origin_asns = [], pc_transit_asn = asn, pc_warmup_minutes = 60, pc_cooldown_minutes = 60,
      pc_collectors = [''route-views2'', ''route-views6'']\<rparr>"

definition internet2_apply :: "(string \<Rightarrow> string) \<Rightarrow> grnoc_record \<Rightarrow> profile_context option" where
  "internet2_apply to_lowercase r =
     map_option (\<lambda>interp. profile_defaults (internet2_expectation interp) 11537) (interpret_title to_lowercase (gr_short_description r))"

definition apply_indiana_gigapop :: "(string \<Rightarrow> string) \<Rightarrow> grnoc_record \<Rightarrow> profile_context option" where
  "apply_indiana_gigapop to_lowercase r =
     map_option (\<lambda>interp. profile_defaults (indiana_expectation interp) 19782) (interpret_title to_lowercase (gr_short_description r))"

definition apply_profile :: "(string \<Rightarrow> string) \<Rightarrow> grnoc_record \<Rightarrow> network_profile \<Rightarrow> profile_context option" where
  "apply_profile to_lowercase r profile =
     (case profile of Internet2 \<Rightarrow> internet2_apply to_lowercase r | IndianaGigaPop \<Rightarrow> apply_indiana_gigapop to_lowercase r)"

section \<open>Correctness\<close>

lemma find_str_None_iff: "find_str p s = None \<longleftrightarrow> \<not> contains_str p s"
  by (induction s) auto

lemma extract_entity_kind:
  assumes "extract_entity to_lowercase title = Some entity"
  shows "fst entity = (if contains_str ''participant'' (to_lowercase title) then EntityParticipant
     else if contains_str ''peer'' (to_lowercase title) then EntityPeer else EntityOther)"
  using assms find_str_None_iff [of "''participant''" "to_lowercase title"] find_str_None_iff [of "''peer''" "to_lowercase title"]
  by (auto simp: extract_entity_def Let_def split: option.splits)

lemma interpret_entity:
  assumes "interpret_title to_lowercase title = Some r"
  shows "named_entity_type r = Some (if contains_str ''participant'' (to_lowercase (trim title)) then EntityParticipant
     else if contains_str ''peer'' (to_lowercase (trim title)) then EntityPeer else EntityOther)"
  using assms
  by (auto simp: interpret_title_def Let_def interpretation_of_def dest!: extract_entity_kind
      split: list.splits prod.splits option.splits if_splits Option.bind_splits)


text \<open>The raw codes of the viewer are recoverable from the converted record.\<close>

lemma viewer_codes_preserved:
  "(case gr_state_code (to_grnoc_record f v) of None \<Rightarrow> [] | Some s \<Rightarrow> s) = vr_state v"
  "(case gr_priority_code (to_grnoc_record f v) of None \<Rightarrow> [] | Some s \<Rightarrow> s) = vr_priority v"
  "(case gr_maintenance_type (to_grnoc_record f v) of None \<Rightarrow> [] | Some s \<Rightarrow> s) = vr_maintenance_type v"
  "(case gr_notification_text (to_grnoc_record f v) of None \<Rightarrow> [] | Some s \<Rightarrow> s) = vr_notification_text v"
  by (simp_all add: to_grnoc_record_def nonempty_def Let_def)

text \<open>A ticket is open, with no end time, exactly when its end is absent or empty.\<close>

lemma open_ticket_iff:
  "gr_parse_end rfc3339 naive r = Inr None \<longleftrightarrow> gr_end r = None \<or> gr_end r = Some []"
  by (auto simp: gr_parse_end_def parse_optional_def map_sum_def split: option.splits sum.splits)

definition sample_record :: "string \<Rightarrow> grnoc_record" where
  "sample_record title =
     \<lparr>gr_number = ''INC1'', gr_task_type = ''Incident'', gr_short_description = title, gr_category = [], gr_start = [],
      gr_end = None, gr_opened = None, gr_state = ''Closed'', gr_priority = ''Low'', gr_description = [], gr_source_url = [],
      gr_timezone = None, gr_state_code = None, gr_priority_code = None, gr_planned_start = None, gr_planned_end = None,
      gr_maintenance_type = None, gr_notification_text = None\<rparr>"


text \<open>With an en dash in its title, the maintenance of a redundant attachment is
  taken for the loss of the peer.\<close>

theorem en_dash_title_expects_peer_loss:
  "map_option (\<lambda>ctx. ie_kind (pc_expectation ctx))
     (apply_profile (map ascii_lower) (sample_record (sample_title [CHR 0xE2, CHR 0x80, CHR 0x93])) Internet2)
   = Some PeerRelationshipUnavailable"
  by code_simp

end
