(* ===== verification/Viewer_Sync.thy ===== *)
theory Viewer_Sync
  imports Access_Runs Discovery Ticket_Source Scope
begin

text \<open>
  The live adapter for the ticket viewer, \<open>catalog/grnoc_viewer.rs\<close>: exact ticket lookups through the
  polite client and the sync of a frontier of identifiers into the catalog. Parsing and printing of
  JSON, the digest, the wall clock and the network are parameters, gathered in a record. Pacing that
  never ends is \<open>None\<close>; a failing write rolls the tables back, but not the requests made.
\<close>

section \<open>Lookups\<close>

record viewer_env =
  ve_rfc2822 :: "string \<Rightarrow> timestamp option"
  ve_net :: "nat \<Rightarrow> http_request \<Rightarrow> exchange"
  ve_from_timestamp :: "int \<Rightarrow> string option"
  ve_parse_response :: "string \<Rightarrow> string + viewer_record list"
  ve_number_json :: "string \<Rightarrow> string"
  ve_record_json :: "viewer_record \<Rightarrow> string"
  ve_normalized_json :: "grnoc_record \<Rightarrow> string"
  ve_now :: "nat \<Rightarrow> string"
  ve_sha256 :: "string \<Rightarrow> string"
  ve_json_str :: "string \<Rightarrow> string \<Rightarrow> string option"

record viewer_client =
  vc_client :: polite_client
  vc_base_url :: string

datatype viewer_ticket_fetch =
    Found (found_item: source_item) (found_status: nat) (found_content_type: "string option") (found_etag: "string option")
      (found_last_modified: "string option") (found_retries: nat) (found_conditional: bool)
  | TicketNotFound (missing_status: nat) (missing_retries: nat) (missing_conditional: bool)
  | Unsupported

datatype viewer_error =
    ViewerStop stop_reason
  | ViewerTransport string
  | ViewerUnexpectedStatus nat
  | ViewerParse string

definition viewer_base :: string where
  "viewer_base = ''https://ticket-viewer.grnoc.iu.edu''"

definition new_with_base :: "access_policy \<Rightarrow> string \<Rightarrow> string + viewer_client" where
  "new_with_base p base = and_then (client_new p) (\<lambda>c. Inr \<lparr>vc_client = c, vc_base_url = base\<rparr>)"

definition viewer_new :: "access_policy \<Rightarrow> string + viewer_client" where
  "viewer_new p =
     and_then (new_with_base p viewer_base) (\<lambda>vc.
       Inr (vc\<lparr>vc_client := set_budget (max_requests (policy (vc_client vc))) (vc_client vc)\<rparr>))"

definition map_client_error :: "client_error \<Rightarrow> viewer_error" where
  "map_client_error e =
     (case e of Stop s \<Rightarrow> ViewerStop s | TooManyRetries d \<Rightarrow> ViewerTransport d
      | UnexpectedStatus s \<Rightarrow> ViewerUnexpectedStatus s | Transport d \<Rightarrow> ViewerTransport d)"

definition endpoint_for :: "string \<Rightarrow> string option" where
  "endpoint_for number =
     (let lower = map ascii_lower number
      in if starts_with ''inc'' lower then Some ''/api/get_incidents''
         else if starts_with ''chg'' lower then Some ''/api/get_change_requests''
         else None)"

definition viewer_item :: "viewer_env \<Rightarrow> string \<Rightarrow> nat \<Rightarrow> viewer_record \<Rightarrow> source_item" where
  "viewer_item env base n r =
     (let g = to_grnoc_record (ve_from_timestamp env) r
      in \<lparr>si_source = ''grnoc-public-task-viewer'', si_external_id = gr_number g, si_fetched_at = ve_now env n,
          si_source_url = base @ ''/tickets/'' @ gr_number g @ ''/'', si_raw_payload = ve_record_json env r,
          si_normalized_json = ve_normalized_json env g\<rparr>)"

definition fetch_ticket ::
    "viewer_env \<Rightarrow> string \<Rightarrow> viewer_client \<Rightarrow> (viewer_client \<times> (viewer_error + viewer_ticket_fetch)) option" where
  "fetch_ticket env number vc =
     (case endpoint_for number of
        None \<Rightarrow> Some (vc, Inr Unsupported)
      | Some endpoint \<Rightarrow>
          map_option (\<lambda>(c, slept, outcome).
            let retries = last_retries c
            in (vc\<lparr>vc_client := c\<rparr>,
                case outcome of
                  Inl e \<Rightarrow> Inl (map_client_error e)
                | Inr (FetchedOk b) \<Rightarrow>
                    (case ve_parse_response env (fb_body b) of
                       Inl e \<Rightarrow> Inl (ViewerParse e)
                     | Inr [] \<Rightarrow> Inr (TicketNotFound (fb_status b) retries False)
                     | Inr (r # _) \<Rightarrow>
                         Inr (Found (viewer_item env (vc_base_url vc) (requests_made c) r) (fb_status b) (fb_content_type b)
                                (fb_etag b) (fb_last_modified b) retries False))
                | Inr NotModified \<Rightarrow> Inr (TicketNotFound 304 retries True)
                | Inr NotFound \<Rightarrow> Inr (TicketNotFound 404 retries False)
                | Inr ForbiddenOutcome \<Rightarrow> Inl (ViewerStop Forbidden)
                | Inr UnauthorizedOutcome \<Rightarrow> Inl (ViewerStop AuthenticationRequired)))
            (fetch_post (ve_rfc2822 env) (ve_net env) (vc_base_url vc @ endpoint) (ve_number_json env number) None None (vc_client vc)))"

definition ticket_url :: "string \<Rightarrow> string" where
  "ticket_url number = viewer_base @ ''/tickets/'' @ number @ ''/''"

definition metadata_for :: "viewer_ticket_fetch \<Rightarrow> string \<Rightarrow> bool \<Rightarrow> fetch_metadata option" where
  "metadata_for f url conditional =
     (case f of
        Found item code ctype tag modified retries _ \<Rightarrow>
          Some \<lparr>fm_source_url = url, fm_http_status = int code, fm_content_type = ctype, fm_etag = tag,
                fm_last_modified = modified, fm_acquisition_method = ''grnoc-viewer-api'', fm_retry_count = int retries,
                fm_conditional_requested = conditional\<rparr>
      | TicketNotFound code retries asked \<Rightarrow>
          Some \<lparr>fm_source_url = url, fm_http_status = int code, fm_content_type = None, fm_etag = None,
                fm_last_modified = None, fm_acquisition_method = ''grnoc-viewer-api'', fm_retry_count = int retries,
                fm_conditional_requested = asked\<rparr>
      | Unsupported \<Rightarrow> None)"

section \<open>Syncing a frontier\<close>

record corpus_sync_summary =
  examined :: nat
  scope_excluded :: nat
  new_snapshots :: nat
  cs_unchanged :: nat
  cs_not_modified :: nat
  cs_not_found :: nat
  cs_unsupported :: nat
  cs_failures :: nat
  stopped :: "stop_reason option"
  cs_requests_made :: nat

definition no_summary :: corpus_sync_summary where
  "no_summary = \<lparr>examined = 0, scope_excluded = 0, new_snapshots = 0, cs_unchanged = 0, cs_not_modified = 0,
     cs_not_found = 0, cs_unsupported = 0, cs_failures = 0, stopped = None, cs_requests_made = 0\<rparr>"

text \<open>The bookkeeping for one answered lookup; the sum is the write error that ends the sync.\<close>

definition record_lookup ::
    "viewer_env \<Rightarrow> string \<Rightarrow> int \<Rightarrow> string \<Rightarrow> string \<Rightarrow> viewer_ticket_fetch \<Rightarrow> corpus_sync_summary \<Rightarrow> sync_db
       \<Rightarrow> string + corpus_sync_summary \<times> sync_db" where
  "record_lookup env src run_id started_at number f s db =
     (case f of
        Found item code ctype tag modified retries _ \<Rightarrow>
          (let conditional = (tag \<noteq> None \<or> modified \<noteq> None)
           in case metadata_for f (ticket_url number) conditional of
                None \<Rightarrow> Inl ''found fetch always has metadata''
              | Some meta \<Rightarrow>
                  (case record_fetch (ve_sha256 env) (ve_json_str env) run_id None (Some item) meta started_at db of
                     (Inl e, _) \<Rightarrow> Inl e
                   | (Inr result, db) \<Rightarrow>
                       let s = (if of_created_snapshot result then s\<lparr>new_snapshots := new_snapshots s + 1\<rparr>
                                else if of_unchanged result then s\<lparr>cs_unchanged := cs_unchanged s + 1\<rparr>
                                else if of_not_modified result then s\<lparr>cs_not_modified := cs_not_modified s + 1\<rparr>
                                else s)
                       in Inr (s, mark_frontier_fetched src number db)))
      | TicketNotFound _ _ _ \<Rightarrow>
          Inr (s\<lparr>cs_not_found := cs_not_found s + 1\<rparr>, update_discovery_status_rows src number unresolved db)
      | Unsupported \<Rightarrow>
          Inr (s\<lparr>cs_unsupported := cs_unsupported s + 1\<rparr>, update_discovery_status_rows src number unresolved db))"

fun frontier_loop ::
    "viewer_env \<Rightarrow> project_scope \<Rightarrow> string \<Rightarrow> int \<Rightarrow> string \<Rightarrow> string list \<Rightarrow> corpus_sync_summary \<Rightarrow> viewer_client \<Rightarrow> sync_db
       \<Rightarrow> ((string + corpus_sync_summary \<times> sync_db) \<times> viewer_client) option" where
  "frontier_loop env scope src run_id started_at [] s vc db = Some (Inr (s, db), vc)"
| "frontier_loop env scope src run_id started_at (number # ids) s vc db =
     (if budget_remaining (vc_client vc) = 0 then Some (Inr (s\<lparr>stopped := Some BudgetExhausted\<rparr>, db), vc)
      else if excluded_source_record_by_id scope src number then
        frontier_loop env scope src run_id started_at ids (s\<lparr>scope_excluded := scope_excluded s + 1\<rparr>) vc db
      else let s = s\<lparr>examined := examined s + 1\<rparr> in
        case fetch_ticket env number vc of
          None \<Rightarrow> None
        | Some (vc, Inr f) \<Rightarrow>
            (case record_lookup env src run_id started_at number f s db of
               Inl e \<Rightarrow> Some (Inl e, vc)
             | Inr (s, db) \<Rightarrow> frontier_loop env scope src run_id started_at ids s vc db)
        | Some (vc, Inl (ViewerStop reason)) \<Rightarrow> Some (Inr (s\<lparr>stopped := Some reason\<rparr>, db), vc)
        | Some (vc, Inl e) \<Rightarrow>
            frontier_loop env scope src run_id started_at ids (s\<lparr>cs_failures := cs_failures s + 1\<rparr>) vc db)"

definition running_row :: "string \<Rightarrow> string \<Rightarrow> sync_run_row" where
  "running_row src started_at =
     \<lparr>sr_id = 0, sr_source = src, sr_started_at = started_at, sr_completed_at = None, sr_status = ''Running'',
      sr_events_examined = 0, sr_new_events = 0, sr_changed_events = 0, sr_unchanged_events = 0, sr_failures = 0\<rparr>"

definition complete_run :: "int \<Rightarrow> string \<Rightarrow> corpus_sync_summary \<Rightarrow> sync_db \<Rightarrow> sync_db" where
  "complete_run run_id started_at s db =
     db\<lparr>sd_sync_runs := map (\<lambda>r. if sr_id r = run_id then
          r\<lparr>sr_completed_at := Some started_at, sr_status := (if stopped s = None then ''Complete'' else ''Stopped''),
            sr_events_examined := examined s, sr_new_events := new_snapshots s, sr_changed_events := 0,
            sr_unchanged_events := cs_unchanged s, sr_failures := cs_failures s\<rparr> else r) (sd_sync_runs db)\<rparr>"

definition sync_frontier ::
    "viewer_env \<Rightarrow> project_scope \<Rightarrow> string \<Rightarrow> string list \<Rightarrow> string \<Rightarrow> viewer_client \<Rightarrow> sync_db
       \<Rightarrow> ((string + corpus_sync_summary) \<times> viewer_client \<times> sync_db) option" where
  "sync_frontier env scope src ids started_at vc db =
     (let (run_id, db0) = insert_sync_run (running_row src started_at) db
      in map_option (\<lambda>(result, vc).
           case result of
             Inl e \<Rightarrow> (Inl e, vc, db)
           | Inr (s, db') \<Rightarrow>
               let s = s\<lparr>cs_requests_made := requests_made (vc_client vc)\<rparr>
               in (Inr s, vc, complete_run run_id started_at s db'))
         (frontier_loop env scope src run_id started_at ids no_summary vc db0))"

section \<open>Correctness\<close>

subsection \<open>The requests of a lookup\<close>

lemma settle_ok_status: "settle n response = Inr (FetchedOk b) \<Longrightarrow> fb_status b = 200"
  by (auto simp: settle_def verdict_def gave_up_def split: sum.splits option.splits if_splits)

text \<open>The account of a client after at most the given number of lookups.\<close>

definition account :: "nat \<Rightarrow> polite_client \<Rightarrow> polite_client \<Rightarrow> bool" where
  "account lookups c c' \<longleftrightarrow> client_ok c' \<and> policy c' = policy c
     \<and> requests_made c' + budget_remaining c' = requests_made c + budget_remaining c
     \<and> requests_made c' \<le> requests_made c + (max_retries (policy c) + 1) * lookups"

lemma account_refl: "client_ok c \<Longrightarrow> account 0 c c"
  by (simp add: account_def)

lemma account_trans: "account k a b \<Longrightarrow> account l b c \<Longrightarrow> account (k + l) a c"
  by (simp add: account_def distrib_left)

lemma account_mono:
  assumes "account k a b" "k \<le> l"
  shows "account l a b"
  using assms mult_le_mono2 [OF assms(2), of "max_retries (policy a) + 1"] by (auto simp: account_def)

lemma fetch_with_account:
  assumes "client_ok c" "fetch_with f net req 0 c [] = Some (c', slept, result)"
  shows "account 1 c c' \<and> (\<forall>b. result = Inr (FetchedOk b) \<longrightarrow> fb_status b = 200)"
  using fetch_with_spec [OF assms(2,1)] by (auto simp: account_def dest: settle_ok_status split: if_splits)

definition supported :: "string \<Rightarrow> bool" where
  "supported number \<longleftrightarrow> endpoint_for number \<noteq> None"

text \<open>A found ticket always has status 200 and was asked for without conditions.\<close>

definition plain_found :: "viewer_ticket_fetch \<Rightarrow> bool" where
  "plain_found f = (case f of Found _ code _ _ _ _ asked \<Rightarrow> code = 200 \<and> \<not> asked | _ \<Rightarrow> True)"

lemma fetch_ticket_spec:
  assumes "client_ok (vc_client vc)" "fetch_ticket env number vc = Some (vc', r)"
  shows "account (if supported number then 1 else 0) (vc_client vc) (vc_client vc') \<and> (\<forall>f. r = Inr f \<longrightarrow> plain_found f)"
proof (cases "endpoint_for number")
  case None
  with assms show ?thesis
    by (auto simp: fetch_ticket_def supported_def plain_found_def account_refl)
next
  case (Some endpoint)
  then obtain c slept outcome where run:
      "fetch_with (ve_rfc2822 env) (ve_net env) (post_request (vc_base_url vc @ endpoint) (ve_number_json env number) None None) 0 (vc_client vc) []
         = Some (c, slept, outcome)" and vc': "vc' = vc\<lparr>vc_client := c\<rparr>"
    using assms(2) by (auto simp: fetch_ticket_def fetch_post_def Let_def)
  note acc = fetch_with_account [OF assms(1) run]
  have "plain_found f" if "r = Inr f" for f
    using assms(2) Some run that acc
    by (auto simp: fetch_ticket_def fetch_post_def Let_def plain_found_def
        split: sum.splits fetch_outcome.splits list.splits viewer_ticket_fetch.splits)
  with acc vc' Some show ?thesis
    by (simp add: supported_def)
qed

subsection \<open>The bookkeeping of a lookup\<close>

definition lookups :: "corpus_sync_summary \<Rightarrow> nat" where
  "lookups s = new_snapshots s + cs_unchanged s + cs_not_found s + cs_unsupported s"

definition same_control :: "corpus_sync_summary \<Rightarrow> corpus_sync_summary \<Rightarrow> bool" where
  "same_control s s' \<longleftrightarrow> examined s' = examined s \<and> scope_excluded s' = scope_excluded s \<and> cs_failures s' = cs_failures s
     \<and> stopped s' = stopped s"

definition run_ids :: "sync_db \<Rightarrow> int set" where
  "run_ids db = sr_id ` set (sd_sync_runs db)"

lemma update_status_ok [simp]:
  "sync_db_ok (update_discovery_status_rows src ext st db) = sync_db_ok db"
  "extends d (update_discovery_status_rows src ext st db) = extends d db"
  "run_ids (update_discovery_status_rows src ext st db) = run_ids db"
  by (simp_all add: sync_db_ok_def extends_def run_ids_def)

lemma pending_by_discoveries:
  "sd_discoveries db = sd_discoveries db' \<Longrightarrow> pending_frontier db src = pending_frontier db' src"
  by (simp add: pending_frontier_def pending_rows_def)

lemma statuses_differ [simp]: "fetched \<noteq> pending" "unresolved \<noteq> pending"
  by (simp_all add: fetched_def pending_def unresolved_def)

lemma record_lookup_spec:
  assumes ok: "sync_db_ok db" and run_id: "run_id \<in> run_ids db" and plain: "plain_found f"
  shows "\<exists>s' db'. record_lookup env src run_id t number f s db = Inr (s', db') \<and> sync_db_ok db' \<and> extends db db'
    \<and> run_ids db' = run_ids db \<and> set (pending_frontier db' src) = set (pending_frontier db src) - {number}
    \<and> lookups s' = lookups s + 1 \<and> same_control s s'"
proof (cases f)
  case (Found item code ctype tag modified retries asked)
  then have code: "code = 200"
    using plain by (simp add: plain_found_def)
  obtain meta where meta: "metadata_for f (ticket_url number) (tag \<noteq> None \<or> modified \<noteq> None) = Some meta"
      "fm_http_status meta = 200"
    by (simp add: Found metadata_for_def code)
  obtain result db' where run: "record_fetch (ve_sha256 env) (ve_json_str env) run_id None (Some item) meta t db = (result, db')"
    by fastforce
  from record_fetch_found [OF ok run_id [unfolded run_ids_def] _ run] meta(2) obtain r where
      r: "result = Inr r" "sync_db_ok db'" "extends db db'" "of_unchanged r = (\<not> of_created_snapshot r)"
      and frame: "sd_discoveries db' = sd_discoveries db" "run_ids db' = run_ids db"
    by (auto simp: run_ids_def)
  show ?thesis
    using meta run r frame pending_by_discoveries [OF frame(1)]
    by (auto simp: record_lookup_def Found mark_frontier_fetched_def pending_after_update lookups_def same_control_def Let_def)
qed (use assms in \<open>auto simp: record_lookup_def pending_after_update lookups_def same_control_def\<close>)

subsection \<open>The loop\<close>

definition wanted :: "project_scope \<Rightarrow> string \<Rightarrow> string list \<Rightarrow> string list" where
  "wanted scope src ids = filter (\<lambda>n. \<not> excluded_source_record_by_id scope src n) ids"

lemma wanted_simps [simp]:
  "wanted scope src [] = []"
  "wanted scope src (n # ids) = (if excluded_source_record_by_id scope src n then wanted scope src ids else n # wanted scope src ids)"
  by (simp_all add: wanted_def)

text \<open>What the loop has done to the tables and the counters when it returns normally.\<close>

definition loop_result ::
    "project_scope \<Rightarrow> string \<Rightarrow> string list \<Rightarrow> corpus_sync_summary \<Rightarrow> sync_db \<Rightarrow> corpus_sync_summary \<Rightarrow> sync_db \<Rightarrow> bool" where
  "loop_result scope src ids s db s' db' \<longleftrightarrow>
     sync_db_ok db' \<and> extends db db' \<and> run_ids db' = run_ids db
     \<and> set (pending_frontier db' src) \<subseteq> set (pending_frontier db src)
     \<and> set (pending_frontier db src) - set (wanted scope src ids) \<subseteq> set (pending_frontier db' src)
     \<and> cs_failures s \<le> cs_failures s'
     \<and> examined s' + lookups s + cs_failures s
         \<in> {examined s + lookups s' + cs_failures s', examined s + lookups s' + cs_failures s' + 1}
     \<and> (stopped s' = None \<longrightarrow> examined s' + lookups s + cs_failures s = examined s + lookups s' + cs_failures s'
          \<and> examined s' + scope_excluded s' = examined s + scope_excluded s + length ids
          \<and> (cs_failures s' = cs_failures s \<longrightarrow> set (pending_frontier db' src) = set (pending_frontier db src) - set (wanted scope src ids)))"

lemma loop_result_stop:
  "sync_db_ok db \<Longrightarrow> k \<le> 1 \<Longrightarrow>
   loop_result scope src ids s db (s\<lparr>examined := examined s + k, stopped := Some reason\<rparr>) db"
  by (auto simp: loop_result_def lookups_def le_Suc_eq)

lemma loop_result_excluded:
  assumes "excluded_source_record_by_id scope src n"
    "loop_result scope src ids (s\<lparr>scope_excluded := scope_excluded s + 1\<rparr>) db s' db'"
  shows "loop_result scope src (n # ids) s db s' db'"
  using assms by (auto simp: loop_result_def lookups_def)

lemma loop_result_failure:
  assumes "\<not> excluded_source_record_by_id scope src n"
    "loop_result scope src ids (s\<lparr>examined := examined s + 1, cs_failures := cs_failures s + 1\<rparr>) db s' db'"
  shows "loop_result scope src (n # ids) s db s' db'"
  using assms by (auto simp: loop_result_def lookups_def)

lemma loop_result_lookup:
  assumes "\<not> excluded_source_record_by_id scope src n"
    and "extends db d" "run_ids d = run_ids db" "set (pending_frontier d src) = set (pending_frontier db src) - {n}"
    and "lookups m = lookups s + 1" "same_control (s\<lparr>examined := examined s + 1\<rparr>) m"
    and "loop_result scope src ids m d s' db'"
  shows "loop_result scope src (n # ids) s db s' db'"
proof -
  have "extends db db'"
    using assms(2,7) extends_trans by (auto simp: loop_result_def)
  moreover have "cs_failures m = cs_failures s" "examined m = examined s + 1" "scope_excluded m = scope_excluded s"
    using assms(6) by (simp_all add: same_control_def)
  ultimately show ?thesis
    using assms(1,3,4,5,7) by (auto simp: loop_result_def)
qed

text \<open>The outcome of the loop: the requests it made and, on a normal return, what it did.\<close>

definition loop_spec ::
    "project_scope \<Rightarrow> string \<Rightarrow> string list \<Rightarrow> corpus_sync_summary \<Rightarrow> viewer_client \<Rightarrow> sync_db
       \<Rightarrow> string + corpus_sync_summary \<times> sync_db \<Rightarrow> viewer_client \<Rightarrow> bool" where
  "loop_spec scope src ids s vc db result vc' \<longleftrightarrow>
     account (length (filter supported (wanted scope src ids))) (vc_client vc) (vc_client vc')
     \<and> (\<exists>s' db'. result = Inr (s', db') \<and> loop_result scope src ids s db s' db')"

lemma loop_spec_lookup:
  assumes ok: "sync_db_ok db" "run_id \<in> run_ids db" and included: "\<not> excluded_source_record_by_id scope src n"
    and cost: "account (if supported n then 1 else 0) (vc_client vc) (vc_client vc1)" and plain: "plain_found f"
    and lookup: "record_lookup env src run_id t n f (s\<lparr>examined := examined s + 1\<rparr>) db = Inr (s1, d)"
    and rest: "sync_db_ok d \<Longrightarrow> run_id \<in> run_ids d \<Longrightarrow> stopped s1 = stopped s \<Longrightarrow> loop_spec scope src ids s1 vc1 d result vc'"
  shows "loop_spec scope src (n # ids) s vc db result vc'"
proof -
  define m where "m = s\<lparr>examined := examined s + 1\<rparr>"
  have rl: "sync_db_ok d" "extends db d" "run_ids d = run_ids db"
      "set (pending_frontier d src) = set (pending_frontier db src) - {n}" "lookups s1 = lookups m + 1" "same_control m s1"
    using record_lookup_spec [OF ok plain, of env src t n m] lookup by (auto simp: m_def)
  then have "loop_spec scope src ids s1 vc1 d result vc'"
    using rest ok(2) by (simp add: same_control_def m_def)
  moreover have "lookups s1 = lookups s + 1"
    using rl(5) by (simp add: m_def lookups_def)
  ultimately show ?thesis
    using included account_trans [OF cost] loop_result_lookup [OF included rl(2,3,4)] rl(6)
    unfolding loop_spec_def m_def by (auto split: if_splits)
qed

lemma loop_spec_failure:
  assumes "\<not> excluded_source_record_by_id scope src n" "account (if supported n then 1 else 0) (vc_client vc) (vc_client vc1)"
    and "loop_spec scope src ids (s\<lparr>examined := examined s + 1, cs_failures := cs_failures s + 1\<rparr>) vc1 db result vc'"
  shows "loop_spec scope src (n # ids) s vc db result vc'"
  using assms account_trans [OF assms(2)] loop_result_failure [OF assms(1)]
  unfolding loop_spec_def by (auto split: if_splits)

lemma loop_spec_stop:
  assumes "sync_db_ok db" "k \<le> 1" "account (length (filter supported (wanted scope src ids))) (vc_client vc) (vc_client vc')"
  shows "loop_spec scope src ids s vc db (Inr (s\<lparr>examined := examined s + k, stopped := Some reason\<rparr>, db)) vc'"
  using assms loop_result_stop [OF assms(1,2)] by (auto simp: loop_spec_def)

lemma frontier_loop_spec:
  assumes "client_ok (vc_client vc)" "sync_db_ok db" "run_id \<in> run_ids db" "stopped s = None"
    and "frontier_loop env scope src run_id t ids s vc db = Some (result, vc')"
  shows "loop_spec scope src ids s vc db result vc'"
  using assms
proof (induction ids arbitrary: s vc db)
  case Nil
  then show ?case
    by (auto simp: loop_result_def loop_spec_def account_refl)
next
  case (Cons n ids)
  consider (out) "budget_remaining (vc_client vc) = 0"
    | (excluded) "budget_remaining (vc_client vc) \<noteq> 0" "excluded_source_record_by_id scope src n"
    | (included) "budget_remaining (vc_client vc) \<noteq> 0" "\<not> excluded_source_record_by_id scope src n"
    by blast
  then show ?case
  proof cases
    case out
    then have "vc' = vc" "result = Inr (s\<lparr>examined := examined s + 0, stopped := Some BudgetExhausted\<rparr>, db)"
      using Cons.prems(5) by simp_all
    with Cons.prems(1,2) show ?thesis
      using account_mono [OF account_refl] by (blast intro: loop_spec_stop)
  next
    case excluded
    with Cons.prems Cons.IH [of vc db "s\<lparr>scope_excluded := scope_excluded s + 1\<rparr>"] show ?thesis
      using loop_result_excluded [OF excluded(2)] by (auto simp: loop_spec_def)
  next
    case included
    obtain vc1 r where ft: "fetch_ticket env n vc = Some (vc1, r)"
      using Cons.prems(5) included by (auto simp: Let_def split: option.splits)
    note cost = conjunct1 [OF fetch_ticket_spec [OF Cons.prems(1) ft]]
    then have ok: "client_ok (vc_client vc1)"
      by (simp add: account_def)
    show ?thesis
    proof (cases r)
      case (Inr f)
      then have plain: "plain_found f"
        using fetch_ticket_spec [OF Cons.prems(1) ft] by blast
      then obtain s1 d where rl: "record_lookup env src run_id t n f (s\<lparr>examined := examined s + 1\<rparr>) db = Inr (s1, d)"
        using record_lookup_spec [OF Cons.prems(2,3), of f] by blast
      then have "frontier_loop env scope src run_id t ids s1 vc1 d = Some (result, vc')"
        using Cons.prems(5) included ft Inr by (simp add: Let_def)
      from Cons.IH [OF ok _ _ _ this] Cons.prems(4) show ?thesis
        by (intro loop_spec_lookup [OF Cons.prems(2,3) included(2) cost plain rl]) auto
    next
      case (Inl e)
      show ?thesis
      proof (cases "\<exists>reason. e = ViewerStop reason")
        case True
        then obtain reason where "result = Inr (s\<lparr>examined := examined s + 1, stopped := Some reason\<rparr>, db)" "vc' = vc1"
          using Cons.prems(5) included ft Inl by (auto simp: Let_def)
        moreover have "account (length (filter supported (wanted scope src (n # ids)))) (vc_client vc) (vc_client vc1)"
          using included(2) by (intro account_mono [OF cost]) simp
        ultimately show ?thesis
          using loop_spec_stop [OF Cons.prems(2) order_refl] by simp
      next
        case False
        then have "frontier_loop env scope src run_id t ids (s\<lparr>examined := examined s + 1, cs_failures := cs_failures s + 1\<rparr>) vc1 db = Some (result, vc')"
          using Cons.prems(5) included ft Inl by (cases e) (simp_all add: Let_def)
        from Cons.IH [OF ok Cons.prems(2,3) _ this] Cons.prems(4) show ?thesis
          by (intro loop_spec_failure [OF included(2) cost]) simp
      qed
    qed
  qed
qed

subsection \<open>The sync\<close>

lemma viewer_new_client:
  assumes "viewer_new p = Inr vc"
  shows "client_ok (vc_client vc) \<and> policy (vc_client vc) = p \<and> requests_made (vc_client vc) = 0
    \<and> budget_remaining (vc_client vc) = max_requests p"
proof -
  obtain c where c: "new_with_seed p 0x5EED2026 = Inr c" and vc: "vc_client vc = set_budget (max_requests (policy c)) c"
    using assms by (auto simp: viewer_new_def new_with_base_def client_new_def and_then_Inr_iff)
  with new_client_ok [OF c] show ?thesis
    by (simp add: set_budget_def client_ok_def)
qed

lemma complete_run_frame [simp]:
  "sync_db_ok (complete_run i t s db) = sync_db_ok db" "extends d (complete_run i t s db) = extends d db"
  "pending_frontier (complete_run i t s db) src = pending_frontier db src"
  by (simp_all add: complete_run_def sync_db_ok_def extends_def pending_frontier_def pending_rows_def)

lemma insert_sync_run_frame:
  assumes "insert_sync_run run db = (i, db')"
  shows "sync_db_ok db' = sync_db_ok db" "extends db' d = extends db d" "pending_frontier db' src = pending_frontier db src"
    "i \<in> run_ids db'"
  using assms
  by (auto simp: insert_sync_run_def Let_def sync_db_ok_def extends_def pending_frontier_def pending_rows_def run_ids_def)

lemma sync_frontier_loop:
  assumes "client_ok (vc_client vc)" "sync_db_ok db" "sync_frontier env scope src ids t vc db = Some (result, vc', db')"
  shows "account (length (filter supported (wanted scope src ids))) (vc_client vc) (vc_client vc')
    \<and> (\<exists>s. result = Inr s \<and> cs_requests_made s = requests_made (vc_client vc') \<and> sync_db_ok db' \<and> extends db db'
        \<and> set (pending_frontier db' src) \<subseteq> set (pending_frontier db src)
        \<and> set (pending_frontier db src) - set (wanted scope src ids) \<subseteq> set (pending_frontier db' src)
        \<and> examined s \<in> {lookups s + cs_failures s, lookups s + cs_failures s + 1}
        \<and> (stopped s = None \<longrightarrow> examined s = lookups s + cs_failures s \<and> examined s + scope_excluded s = length ids
            \<and> (cs_failures s = 0 \<longrightarrow> set (pending_frontier db' src) = set (pending_frontier db src) - set (wanted scope src ids))))"
proof -
  obtain run_id d where d: "insert_sync_run (running_row src t) db = (run_id, d)"
    by fastforce
  from assms(3) d obtain r vc1 where loop: "frontier_loop env scope src run_id t ids no_summary vc d = Some (r, vc1)"
    and out: "(case r of Inl e \<Rightarrow> (Inl e, vc1, db)
       | Inr (s, db1) \<Rightarrow> let s = s\<lparr>cs_requests_made := requests_made (vc_client vc1)\<rparr>
           in (Inr s, vc1, complete_run run_id t s db1)) = (result, vc', db')"
    by (auto simp: sync_frontier_def)
  have "loop_spec scope src ids no_summary vc d r vc1"
    using frontier_loop_spec [OF assms(1) _ _ _ loop] insert_sync_run_frame [OF d] assms(2) by (simp add: no_summary_def)
  then obtain s db1 where "r = Inr (s, db1)" and res: "loop_result scope src ids no_summary d s db1"
    and acc: "account (length (filter supported (wanted scope src ids))) (vc_client vc) (vc_client vc1)"
    by (auto simp: loop_spec_def)
  with out have r: "vc' = vc1" "result = Inr (s\<lparr>cs_requests_made := requests_made (vc_client vc1)\<rparr>)"
      "db' = complete_run run_id t (s\<lparr>cs_requests_made := requests_made (vc_client vc1)\<rparr>) db1"
    by (auto simp: Let_def)
  have zero: "examined no_summary = 0" "scope_excluded no_summary = 0" "cs_failures no_summary = 0" "lookups no_summary = 0"
    by (simp_all add: no_summary_def lookups_def)
  have frame: "extends d db1 = extends db db1" "pending_frontier d src = pending_frontier db src"
    using insert_sync_run_frame [OF d] by simp_all
  have count: "lookups (s\<lparr>cs_requests_made := n\<rparr>) = lookups s" for n
    by (simp add: lookups_def)
  note res = res [unfolded loop_result_def zero frame add_0_left add_0_right]
  show ?thesis
    unfolding r using acc res
    by (intro conjI exI [of _ "s\<lparr>cs_requests_made := requests_made (vc_client vc1)\<rparr>"]) (simp_all add: count, auto)
qed

text \<open>A sync of a frontier never spends more requests than the policy's budget, and none for
  excluded records or tickets the viewer does not serve.\<close>

theorem frontier_sync_within_budget:
  assumes "viewer_new p = Inr vc" "sync_db_ok db" "sync_frontier env scope src ids t vc db = Some (result, vc', db')"
  shows "requests_made (vc_client vc') \<le> max_requests p
    \<and> requests_made (vc_client vc') + budget_remaining (vc_client vc') = max_requests p
    \<and> requests_made (vc_client vc') \<le> (max_retries p + 1)
        * length (filter (\<lambda>n. \<not> excluded_source_record_by_id scope src n \<and> endpoint_for n \<noteq> None) ids)"
proof -
  note new = viewer_new_client [OF assms(1)]
  have acc: "account (length (filter supported (wanted scope src ids))) (vc_client vc) (vc_client vc')"
    using sync_frontier_loop [OF _ assms(2,3)] new by blast
  have "filter supported (wanted scope src ids) = filter (\<lambda>n. \<not> excluded_source_record_by_id scope src n \<and> endpoint_for n \<noteq> None) ids"
    by (simp add: wanted_def supported_def conj_commute)
  with acc new show ?thesis
    by (simp add: account_def)
qed


text \<open>The fetch row of a found ticket says that a conditional request was made exactly if the reply
  carried a validator, although the lookup sends no condition.\<close>

theorem conditional_flag_without_condition:
  assumes "sync_db_ok db" "run_id \<in> run_ids db" "client_ok (vc_client vc)"
    and "fetch_ticket env number vc = Some (vc', Inr (Found item code ctype tag modified retries asked))"
    and "record_lookup env src run_id t number (Found item code ctype tag modified retries asked) s db = Inr (s', db')"
  shows "\<not> asked \<and> sf_conditional_requested (last (sd_fetches db')) = (tag \<noteq> None \<or> modified \<noteq> None)
    \<and> list_all (\<lambda>h. fst h \<noteq> ''if-none-match'' \<and> fst h \<noteq> ''if-modified-since'') (req_headers (post_request url json None None))"
proof -
  have plain: "\<not> asked" "code = 200"
    using fetch_ticket_spec [OF assms(3,4)] by (auto simp: plain_found_def)
  define meta where "meta = the (metadata_for (Found item code ctype tag modified retries asked) (ticket_url number) (tag \<noteq> None \<or> modified \<noteq> None))"
  have meta: "metadata_for (Found item code ctype tag modified retries asked) (ticket_url number) (tag \<noteq> None \<or> modified \<noteq> None) = Some meta"
      "fm_http_status meta \<noteq> 404" "fm_conditional_requested meta = (tag \<noteq> None \<or> modified \<noteq> None)"
    by (simp_all add: meta_def metadata_for_def plain)
  obtain result d where run: "record_fetch (ve_sha256 env) (ve_json_str env) run_id None (Some item) meta t db = (result, d)"
    by fastforce
  from record_fetch_found [OF assms(1) assms(2) [unfolded run_ids_def] meta(2) run] obtain r f where
      r: "result = Inr r" "sd_fetches d = sd_fetches db @ [f]" "sf_conditional_requested f = fm_conditional_requested meta"
    by blast
  have "db' = mark_frontier_fetched src number d"
    using assms(5) unfolding record_lookup_def viewer_ticket_fetch.case Let_def meta(1) option.case run r(1) by simp
  then have "last (sd_fetches db') = f"
    using r(2) by (simp add: mark_frontier_fetched_def)
  with r(3) meta(3) plain(1) show ?thesis
    by (simp add: post_request_def conditional_headers_def)
qed

section \<open>A sample sync\<close>

definition sample_viewer_record :: viewer_record where
  "sample_viewer_record =
     \<lparr>vr_number = ''INC1'', vr_short_description = ''x'', vr_description = [], vr_notification_text = [], vr_state = ''7'',
      vr_category = [], vr_work_start = [], vr_work_end = [], vr_opened_at = [], vr_priority = ''4'', vr_start_date = [],
      vr_end_date = [], vr_maintenance_type = []\<rparr>"

definition sample_env :: viewer_env where
  "sample_env =
     \<lparr>ve_rfc2822 = (\<lambda>_. None), ve_net = sample_net [200], ve_from_timestamp = (\<lambda>_. None),
      ve_parse_response = (\<lambda>_. Inr [sample_viewer_record]), ve_number_json = id, ve_record_json = vr_number,
      ve_normalized_json = gr_number, ve_now = (\<lambda>_. ''now''), ve_sha256 = id, ve_json_str = (\<lambda>_ _. None)\<rparr>"

definition sample_viewer :: viewer_client where
  "sample_viewer = \<lparr>vc_client = sample_client, vc_base_url = viewer_base\<rparr>"

definition open_scope :: project_scope where
  "open_scope = \<lparr>scope_schema_version = 1, entities = [], source_records = [], entity_name_index = Map.empty,
     asn_index = Map.empty, record_index = Map.empty\<rparr>"

lemma sample_viewer_new: "viewer_new conservative = Inr sample_viewer"
  by (simp add: viewer_new_def new_with_base_def client_new_def new_with_seed_def policy_validate_def conservative_def
      sample_viewer_def sample_client_def set_budget_def jitter_rng_new_def)

lemma sample_viewer_ok: "client_ok (vc_client sample_viewer)"
  by (simp add: sample_viewer_def sample_client_ok)

lemma sample_lookup:
  "\<exists>vc' item retries. fetch_ticket sample_env ''INC1'' sample_viewer = Some (vc', Inr (Found item 200 None (Some ''v1'') None retries False))"
proof -
  have endpoint: "endpoint_for ''INC1'' = Some ''/api/get_incidents''"
    by code_simp
  obtain c' slept where "fetch_with (\<lambda>_. None) (sample_net [200])
      (post_request (viewer_base @ ''/api/get_incidents'') ''INC1'' None None) 0 sample_client []
    = Some (c', slept, settle 3 (Inr (sample_response 200)))"
    using sample_run [of 0 "[200]" "post_request (viewer_base @ ''/api/get_incidents'') ''INC1'' None None"]
    by (auto simp: retry_status_def)
  then show ?thesis
    by (simp add: fetch_ticket_def endpoint fetch_post_def sample_env_def sample_viewer_def settle_def verdict_def
        sample_response_def Let_def)
qed

lemma sample_frontier:
  "\<exists>result vc' db'. sync_frontier sample_env open_scope ''grnoc'' [''INC1''] ''3'' sample_viewer sample_tables = Some (result, vc', db')"
proof -
  obtain run_id d where d: "insert_sync_run (running_row ''grnoc'' ''3'') sample_tables = (run_id, d)"
    by fastforce
  obtain vc' f where ft: "fetch_ticket sample_env ''INC1'' sample_viewer = Some (vc', Inr f)"
    using sample_lookup by blast
  have "plain_found f"
    using fetch_ticket_spec [OF sample_viewer_ok ft] by blast
  with record_lookup_spec [of d run_id f sample_env "''grnoc''" "''3''" "''INC1''" "no_summary\<lparr>examined := examined no_summary + 1\<rparr>"]
    insert_sync_run_frame [OF d] sample_tables_ok
  obtain s' d' where "record_lookup sample_env ''grnoc'' run_id ''3'' ''INC1'' f (no_summary\<lparr>examined := examined no_summary + 1\<rparr>) d = Inr (s', d')"
    by auto
  moreover have "budget_remaining (vc_client sample_viewer) \<noteq> 0" "\<not> excluded_source_record_by_id open_scope ''grnoc'' ''INC1''"
    by (simp_all add: sample_viewer_def sample_client_def excluded_source_record_by_id_def open_scope_def)
  ultimately show ?thesis
    using d ft by (auto simp: sync_frontier_def Let_def)
qed

theorem frontier_budget_witness:
  "\<exists>result vc' db'. sync_frontier sample_env open_scope ''grnoc'' [''INC1''] ''3'' sample_viewer sample_tables = Some (result, vc', db')
     \<and> requests_made (vc_client vc') \<le> 4"
proof -
  obtain result vc' db' where run:
      "sync_frontier sample_env open_scope ''grnoc'' [''INC1''] ''3'' sample_viewer sample_tables = Some (result, vc', db')"
    using sample_frontier by blast
  have "endpoint_for ''INC1'' \<noteq> None"
    by code_simp
  then have "requests_made (vc_client vc') \<le> 4"
    using frontier_sync_within_budget [OF sample_viewer_new sample_tables_ok run]
    by (simp add: conservative_def excluded_source_record_by_id_def open_scope_def)
  with run show ?thesis
    by blast
qed


theorem conditional_flag_witness:
  "\<exists>vc' f s' db'. fetch_ticket sample_env ''INC1'' sample_viewer = Some (vc', Inr f) \<and> \<not> found_conditional f
     \<and> record_lookup sample_env ''grnoc'' 1 ''3'' ''INC1'' f no_summary sample_tables = Inr (s', db')
     \<and> sf_conditional_requested (last (sd_fetches db'))"
proof -
  obtain vc' item retries where ft:
      "fetch_ticket sample_env ''INC1'' sample_viewer = Some (vc', Inr (Found item 200 None (Some ''v1'') None retries False))"
    using sample_lookup by blast
  have run_id: "1 \<in> run_ids sample_tables"
    unfolding run_ids_def by code_simp
  have "plain_found (Found item 200 None (Some ''v1'') None retries False)"
    by (simp add: plain_found_def)
  with record_lookup_spec [OF sample_tables_ok run_id] obtain s' db' where rl:
      "record_lookup sample_env ''grnoc'' 1 ''3'' ''INC1'' (Found item 200 None (Some ''v1'') None retries False) no_summary sample_tables
         = Inr (s', db')"
    by blast
  from conditional_flag_without_condition [OF sample_tables_ok run_id sample_viewer_ok ft rl] ft rl show ?thesis
    by (intro exI [of _ vc'] exI [of _ "Found item 200 None (Some ''v1'') None retries False"] exI [of _ s'] exI [of _ db']) simp
qed

end
