(* ===== verification/Archive_Plan.thy ===== *)
theory Archive_Plan
  imports Std_Text
begin

text \<open>
  Planning of historical archives for a case study, \<open>catalog/archive_plan.rs\<close>, and the plan row of
  \<open>catalog/store.rs\<close>. How \<open>chrono\<close> reads and prints an instant and how \<open>serde\<close> prints and reads a plan are
  parameters; a panic is \<open>None\<close>. Instants are nanoseconds, archive times are whole seconds since the
  epoch. Shown: the planned update files are the five minute archives that cover the horizon, none
  twice and none missing, the baseline is the last snapshot at or before the warmup, the totals are the
  sums over the collectors, and every target that is not reviewed is blocked or skipped.
\<close>

section \<open>Archives\<close>

datatype source_family = RouteViews | RipeRis

fun family_as_str :: "source_family \<Rightarrow> string" where
  "family_as_str RouteViews = ''RouteViews''"
| "family_as_str RipeRis = ''RipeRis''"

definition parse_family :: "string \<Rightarrow> source_family option" where
  "parse_family s =
     (if s \<in> {''RouteViews'', ''routeviews''} then Some RouteViews
      else if s \<in> {''RipeRis'', ''riperis'', ''RIPE RIS''} then Some RipeRis
      else None)"

fun rib_interval_secs :: "source_family \<Rightarrow> int" where
  "rib_interval_secs RouteViews = 2 * 3600"
| "rib_interval_secs RipeRis = 8 * 3600"

fun family_collectors :: "source_family \<Rightarrow> string list" where
  "family_collectors RouteViews = [''route-views2'', ''route-views6'']"
| "family_collectors RipeRis = [''rrc00'', ''rrc01'']"

text \<open>How an archive time is printed: the month directory, the stamp of a snapshot (full hours) and the
  stamp of an update archive; and how an instant is printed and read.\<close>

record calendar =
  cal_month :: "int \<Rightarrow> string"
  cal_rib_stamp :: "int \<Rightarrow> string"
  cal_update_stamp :: "int \<Rightarrow> string"
  cal_rfc3339 :: "timestamp \<Rightarrow> string"
  cal_parse :: "string \<Rightarrow> timestamp option"

definition rib_or_update_stamp :: "calendar \<Rightarrow> int \<Rightarrow> string \<Rightarrow> string" where
  "rib_or_update_stamp cal t kind = (if kind = ''RIBS'' then cal_rib_stamp cal t else cal_update_stamp cal t)"

definition routeviews_url :: "string \<Rightarrow> string \<Rightarrow> string \<Rightarrow> string \<Rightarrow> string" where
  "routeviews_url collector month kind stamp =
     (let base = (if collector = ''route-views2'' then ''http://archive.routeviews.org/bgpdata''
                  else ''http://archive.routeviews.org/'' @ collector @ ''/bgpdata'');
          file_prefix = (if kind = ''RIBS'' then ''rib'' else if kind = ''UPDATES'' then ''updates'' else kind)
      in base @ ''/'' @ month @ ''/'' @ kind @ ''/'' @ file_prefix @ ''.'' @ stamp @ ''.bz2'')"

definition routeviews_url_for :: "calendar \<Rightarrow> string \<Rightarrow> int \<Rightarrow> string \<Rightarrow> string" where
  "routeviews_url_for cal collector t kind =
     routeviews_url collector (cal_month cal t) kind (rib_or_update_stamp cal t kind)"

definition ris_url_for :: "calendar \<Rightarrow> string \<Rightarrow> int \<Rightarrow> string \<Rightarrow> string" where
  "ris_url_for cal collector t kind =
     (let stamp = rib_or_update_stamp cal t kind;
          arch = (if kind = ''RIBS'' then ''bview.'' @ stamp @ ''.gz'' else ''updates.'' @ stamp @ ''.gz'')
      in ''https://data.ris.ripe.net/'' @ collector @ ''/'' @ cal_month cal t @ ''/'' @ arch)"

fun archive_url_for :: "calendar \<Rightarrow> source_family \<Rightarrow> string \<Rightarrow> int \<Rightarrow> string \<Rightarrow> string" where
  "archive_url_for cal RouteViews collector t kind = routeviews_url_for cal collector t kind"
| "archive_url_for cal RipeRis collector t kind = ris_url_for cal collector t kind"

text \<open>\<open>str::trim_end_matches\<close> for a non-empty suffix.\<close>

function trim_end_matches :: "string \<Rightarrow> string \<Rightarrow> string" where
  "trim_end_matches suffix s =
     (if suffix \<noteq> [] \<and> s \<noteq> [] \<and> ends_with suffix s then trim_end_matches suffix (take (length s - length suffix) s) else s)"
  by pat_completeness auto
termination
  by (relation "measure (\<lambda>(_, s). length s)") auto

declare trim_end_matches.simps [simp del]

definition stamp_of :: "string \<Rightarrow> string" where
  "stamp_of url =
     (let name = last (split_on CHR ''/'' url);
          rest = (if CHR ''.'' \<in> set name then tl (dropWhile (\<lambda>c. c \<noteq> CHR ''.'') name) else name)
      in trim_end_matches ''.gz'' (trim_end_matches ''.bz2'' rest))"

section \<open>The plan\<close>

record expected_file =
  ef_url :: string
  size_estimated_bytes :: "int option"
  size_estimated :: bool

record collector_plan =
  cp_collector :: string
  cp_source_family :: string
  cp_availability :: string
  baseline_rib :: expected_file
  validation_rib :: "expected_file option"
  planned_updates :: "expected_file list"
  first_update_utc :: string
  last_update_utc :: string
  uncovered_intervals :: "string list"
  duplicate_urls :: nat
  estimated_compressed_bytes :: int
  estimated_uncompressed_bytes :: int

record blocked_target =
  bt_source_label :: string
  bt_reason :: string

record pilot_record =
  pilot_status :: string
  pilot_target :: string
  pilot_collector :: string
  window_start_utc :: string
  window_end_utc :: string
  pilot_run_id :: "int option"
  pilot_baseline_streams :: nat
  operator_evidence :: string
  bgp_observation :: string
  temporal_relationship :: string
  pilot_interpretation :: string
  pilot_limitation :: string
  pilot_finding :: string

record archive_plan =
  plan_collectors :: "collector_plan list"
  blocked_targets :: "blocked_target list"
  skipped_targets :: "blocked_target list"
  estimated_total_bytes :: int
  estimated_total_uncompressed_bytes :: int
  estimated_total_is_estimate :: bool
  plan_notes :: "string list"
  plan_pilot :: "pilot_record option"

record analysis_horizon =
  warmup_start_utc :: string
  incident_start_utc :: string
  incident_end_utc :: string
  cooldown_end_utc :: string
  warmup_hours :: int
  cooldown_hours :: int
  review_required :: bool

text \<open>Of a case study and its targets, the columns the planner reads.\<close>

record case_study =
  cs_start_utc :: "string option"
  cs_end_utc :: "string option"

record case_study_target =
  ct_source_label :: string
  ct_research_status :: string

definition update_interval_secs :: int where "update_interval_secs = 5 * 60"
definition rib_estimated_bytes :: int where "rib_estimated_bytes = 75000000"
definition update_estimated_bytes :: int where "update_estimated_bytes = 3000000"
definition rib_estimated_uncompressed_bytes :: int where "rib_estimated_uncompressed_bytes = 1100000000"
definition update_estimated_uncompressed_bytes :: int where "update_estimated_uncompressed_bytes = 20000000"

definition floor_to :: "timestamp \<Rightarrow> int \<Rightarrow> int" where
  "floor_to t interval = (let s = t div 1000000000 in s - s mod interval)"

definition rib_file :: "calendar \<Rightarrow> source_family \<Rightarrow> string \<Rightarrow> int \<Rightarrow> expected_file" where
  "rib_file cal family collector t =
     \<lparr>ef_url = archive_url_for cal family collector t ''RIBS'', size_estimated_bytes = Some rib_estimated_bytes, size_estimated = True\<rparr>"

definition update_file :: "string \<Rightarrow> expected_file" where
  "update_file url = \<lparr>ef_url = url, size_estimated_bytes = Some update_estimated_bytes, size_estimated = True\<rparr>"

text \<open>The loop over the update archives, with the running totals of the plan.\<close>

record update_scan =
  us_updates :: "expected_file list"
  us_seen :: "string set"
  us_duplicates :: nat
  us_total :: int
  us_total_uncompressed :: int

definition scan_update :: "string \<Rightarrow> update_scan \<Rightarrow> update_scan" where
  "scan_update url u =
     (if url \<in> us_seen u then u\<lparr>us_duplicates := us_duplicates u + 1\<rparr>
      else u\<lparr>us_seen := insert url (us_seen u), us_updates := us_updates u @ [update_file url],
             us_total := us_total u + update_estimated_bytes,
             us_total_uncompressed := us_total_uncompressed u + update_estimated_uncompressed_bytes\<rparr>)"

function scan_updates :: "(int \<Rightarrow> string) \<Rightarrow> int \<Rightarrow> int \<Rightarrow> update_scan \<Rightarrow> update_scan" where
  "scan_updates url u upd_end acc =
     (if u \<le> upd_end then scan_updates url (u + update_interval_secs) upd_end (scan_update (url u) acc) else acc)"
  by pat_completeness auto
termination
  by (relation "measure (\<lambda>(_, u, upd_end, _). nat (upd_end - u + 1))") (auto simp: update_interval_secs_def)

declare scan_updates.simps [simp del]

definition plan_collector ::
    "calendar \<Rightarrow> timestamp \<Rightarrow> timestamp \<Rightarrow> source_family \<Rightarrow> string \<Rightarrow> collector_plan list \<times> int \<times> int
       \<Rightarrow> collector_plan list \<times> int \<times> int" where
  "plan_collector cal warmup_start cooldown_end family collector = (\<lambda>(plans, total, total_uncompressed).
     let rib_interval = rib_interval_secs family;
         baseline_t = floor_to warmup_start rib_interval;
         validation_t = floor_to cooldown_end rib_interval;
         validation = (if baseline_t < validation_t then Some (rib_file cal family collector validation_t) else None);
         ribs = (if validation = None then 1 else 2);
         scanned = scan_updates (\<lambda>u. archive_url_for cal family collector u ''UPDATES'')
           (floor_to warmup_start update_interval_secs) (floor_to cooldown_end update_interval_secs)
           \<lparr>us_updates = [], us_seen = {}, us_duplicates = 0, us_total = total + ribs * rib_estimated_bytes,
            us_total_uncompressed = total_uncompressed + ribs * rib_estimated_uncompressed_bytes\<rparr>;
         updates = us_updates scanned
     in (plans @ [\<lparr>cp_collector = collector, cp_source_family = family_as_str family,
            cp_availability = ''candidate-2019 (verify at execution)'',
            baseline_rib = rib_file cal family collector baseline_t, validation_rib = validation, planned_updates = updates,
            first_update_utc = (case updates of [] \<Rightarrow> [] | f # _ \<Rightarrow> stamp_of (ef_url f)),
            last_update_utc = (if updates = [] then [] else stamp_of (ef_url (last updates))),
            uncovered_intervals = [], duplicate_urls = us_duplicates scanned,
            estimated_compressed_bytes = rib_estimated_bytes * ribs + int (length updates) * update_estimated_bytes,
            estimated_uncompressed_bytes = rib_estimated_uncompressed_bytes * ribs
              + int (length updates) * update_estimated_uncompressed_bytes\<rparr>],
         us_total scanned, us_total_uncompressed scanned))"

definition plan_target ::
    "case_study_target \<Rightarrow> blocked_target list \<times> blocked_target list \<Rightarrow> blocked_target list \<times> blocked_target list" where
  "plan_target t = (\<lambda>(blocked, skipped).
     if ct_research_status t = ''HistoricallyReviewed'' then (blocked, skipped)
     else if ct_research_status t = ''NotApplicableToPublicBgp'' then
       (blocked, skipped @ [\<lparr>bt_source_label = ct_source_label t, bt_reason = ''not applicable to public BGP (reviewed)''\<rparr>])
     else (blocked @ [\<lparr>bt_source_label = ct_source_label t,
             bt_reason = ''target mapping unresolved (research status: '' @ ct_research_status t @ '')''\<rparr>], skipped))"

definition plan_horizon :: "calendar \<Rightarrow> timestamp \<Rightarrow> timestamp \<Rightarrow> int \<Rightarrow> int \<Rightarrow> analysis_horizon" where
  "plan_horizon cal incident_start incident_end warmup cooldown =
     \<lparr>warmup_start_utc = cal_rfc3339 cal (incident_start - secs (warmup * 3600)),
      incident_start_utc = cal_rfc3339 cal incident_start, incident_end_utc = cal_rfc3339 cal incident_end,
      cooldown_end_utc = cal_rfc3339 cal (incident_end + secs (cooldown * 3600)),
      warmup_hours = warmup, cooldown_hours = cooldown, review_required = True\<rparr>"

definition plan_window ::
    "calendar \<Rightarrow> timestamp \<Rightarrow> timestamp \<Rightarrow> int \<Rightarrow> int \<Rightarrow> source_family list \<Rightarrow> case_study_target list
       \<Rightarrow> analysis_horizon \<times> archive_plan" where
  "plan_window cal incident_start incident_end warmup cooldown families targets =
     (let warmup_start = incident_start - secs (warmup * 3600);
          cooldown_end = incident_end + secs (cooldown * 3600);
          (plans, total, total_uncompressed) =
            fold (\<lambda>family. fold (plan_collector cal warmup_start cooldown_end family) (family_collectors family)) families ([], 0, 0);
          (blocked, skipped) = fold plan_target targets ([], [])
      in (plan_horizon cal incident_start incident_end warmup cooldown,
          \<lparr>plan_collectors = plans, blocked_targets = blocked, skipped_targets = skipped, estimated_total_bytes = total,
           estimated_total_uncompressed_bytes = total_uncompressed, estimated_total_is_estimate = True,
           plan_notes = [''initial reproducible horizon; final window requires review'',
             ''sizes are estimates; exact sizes recorded at acquisition'',
             ''2019 collector and peer availability verified at execution time'',
             ''no archives were downloaded to produce this plan'']
             @ (if blocked = [] \<and> skipped = [] then [''no analysis targets are blocked''] else []),
           plan_pilot = None\<rparr>))"

definition build_plan_for_families ::
    "calendar \<Rightarrow> case_study \<Rightarrow> case_study_target list \<Rightarrow> int \<Rightarrow> int \<Rightarrow> source_family list
       \<Rightarrow> (string + analysis_horizon \<times> archive_plan) option" where
  "build_plan_for_families cal cs targets warmup cooldown families =
     (case cs_start_utc cs of
        None \<Rightarrow> Some (Inl ''case study has no start time; cannot plan an analysis window'')
      | Some s \<Rightarrow> Option.bind (cal_parse cal s) (\<lambda>incident_start.
          case cs_end_utc cs of
            None \<Rightarrow> Some (Inl ''case study has no end time; cannot plan an analysis window'')
          | Some e \<Rightarrow> Option.bind (cal_parse cal e) (\<lambda>incident_end.
              if incident_end \<le> incident_start then Some (Inl ''case study end must be after start'')
              else Some (Inr (plan_window cal incident_start incident_end warmup cooldown families targets)))))"

definition build_plan ::
    "calendar \<Rightarrow> case_study \<Rightarrow> case_study_target list \<Rightarrow> int \<Rightarrow> int \<Rightarrow> (string + analysis_horizon \<times> archive_plan) option" where
  "build_plan cal cs targets warmup cooldown = build_plan_for_families cal cs targets warmup cooldown [RouteViews]"

section \<open>Stored plans\<close>

record case_study_analysis_plan =
  ap_id :: int
  ap_case_study_id :: int
  ap_horizon_json :: string
  ap_plan_json :: string
  ap_status :: string
  ap_created_utc :: string

definition load_plan :: "case_study_analysis_plan list \<Rightarrow> int \<Rightarrow> case_study_analysis_plan option" where
  "load_plan rows cs = find (\<lambda>r. ap_case_study_id r = cs) rows"

definition upsert_case_study_analysis_plan ::
    "case_study_analysis_plan \<Rightarrow> case_study_analysis_plan list \<Rightarrow> case_study_analysis_plan list" where
  "upsert_case_study_analysis_plan p rows =
     (if load_plan rows (ap_case_study_id p) \<noteq> None
      then map (\<lambda>r. if ap_case_study_id r = ap_case_study_id p
                    then r\<lparr>ap_horizon_json := ap_horizon_json p, ap_plan_json := ap_plan_json p, ap_status := ap_status p,
                           ap_created_utc := ap_created_utc p\<rparr> else r) rows
      else rows @ [p\<lparr>ap_id := (if rows = [] then 1 else Max (set (map ap_id rows)) + 1)\<rparr>])"

definition save_plan ::
    "(analysis_horizon \<Rightarrow> string) \<Rightarrow> (archive_plan \<Rightarrow> string) \<Rightarrow> string \<Rightarrow> int \<Rightarrow> analysis_horizon \<Rightarrow> archive_plan
       \<Rightarrow> case_study_analysis_plan list \<Rightarrow> case_study_analysis_plan list" where
  "save_plan horizon_json plan_json now cs horizon plan =
     upsert_case_study_analysis_plan
       \<lparr>ap_id = 0, ap_case_study_id = cs, ap_horizon_json = horizon_json horizon, ap_plan_json = plan_json plan,
        ap_status = ''Draft'', ap_created_utc = now\<rparr>"

definition save_pilot ::
    "(archive_plan \<Rightarrow> string) \<Rightarrow> (string \<Rightarrow> archive_plan option) \<Rightarrow> int \<Rightarrow> pilot_record \<Rightarrow> case_study_analysis_plan list
       \<Rightarrow> string + case_study_analysis_plan list" where
  "save_pilot plan_json parse_plan cs pilot rows =
     (case load_plan rows cs of
        None \<Rightarrow> Inl ''no analysis plan exists for this case study; run the planner first''
      | Some row \<Rightarrow>
          (case parse_plan (ap_plan_json row) of
             None \<Rightarrow> Inl ''invalid stored plan''
           | Some p \<Rightarrow> Inr (upsert_case_study_analysis_plan
                 (row\<lparr>ap_case_study_id := cs, ap_plan_json := plan_json (p\<lparr>plan_pilot := Some pilot\<rparr>)\<rparr>) rows)))"

record pilot_result_file =
  pr_schema_version :: nat
  case_study_slug :: string
  pr_reviewed_at :: string
  pr_record :: pilot_record

text \<open>The case studies by slug and the parsed file are arguments; the fields of the file that \<open>to_record\<close>
  copies are its field \<open>pr_record\<close>.\<close>

definition apply_pilot_result ::
    "(archive_plan \<Rightarrow> string) \<Rightarrow> (string \<Rightarrow> archive_plan option) \<Rightarrow> (string \<times> int) list \<Rightarrow> pilot_result_file
       \<Rightarrow> case_study_analysis_plan list \<Rightarrow> string + string \<times> case_study_analysis_plan list" where
  "apply_pilot_result plan_json parse_plan studies data rows =
     (if pr_schema_version data \<noteq> 1 then Inl (''unsupported pilot-result schema '' @ show_nat (pr_schema_version data))
      else case map_of studies (case_study_slug data) of
        None \<Rightarrow> Inl (''no case study with slug '' @ [CHR 0x27] @ case_study_slug data @ [CHR 0x27])
      | Some cs \<Rightarrow> (case save_pilot plan_json parse_plan cs (pr_record data) rows of
            Inl e \<Rightarrow> Inl e | Inr rows' \<Rightarrow> Inr (case_study_slug data, rows')))"

section \<open>Coverage\<close>

definition schedule :: "int \<Rightarrow> int \<Rightarrow> int list" where
  "schedule a b = map (\<lambda>k. a + update_interval_secs * k) [0..(b - a) div update_interval_secs]"

lemma interval_pos: "0 < update_interval_secs"
  by (simp add: update_interval_secs_def)

lemma schedule_empty: "b < a \<Longrightarrow> schedule a b = []"
  using interval_pos by (simp add: schedule_def div_neg_pos_less0)

lemma schedule_step:
  assumes "a \<le> b"
  shows "schedule a b = a # schedule (a + update_interval_secs) b"
proof -
  have "(b - (a + update_interval_secs)) div update_interval_secs = (b - a) div update_interval_secs - 1"
    using interval_pos div_mult_self1 [of update_interval_secs "b - a" "-1"] by (simp add: algebra_simps)
  moreover have "0 \<le> (b - a) div update_interval_secs"
    using assms interval_pos by (simp add: pos_imp_zdiv_nonneg_iff)
  moreover have "map (\<lambda>k. a + update_interval_secs * k) [1..n] = map (\<lambda>k. a + update_interval_secs + update_interval_secs * k) [0..n - 1]" for n
    by (rule nth_equalityI) (auto simp: algebra_simps)
  ultimately show ?thesis
    by (simp add: schedule_def upto_rec1)
qed

lemma distinct_schedule: "distinct (schedule a b)"
  using interval_pos by (auto simp: schedule_def distinct_map inj_on_def)

lemma set_schedule: "u \<in> set (schedule a b) \<longleftrightarrow> a \<le> u \<and> u \<le> b \<and> (u - a) mod update_interval_secs = 0"
proof
  assume "u \<in> set (schedule a b)"
  then obtain k where k: "0 \<le> k" "k \<le> (b - a) div update_interval_secs" "u = a + update_interval_secs * k"
    by (auto simp: schedule_def)
  have "update_interval_secs * k \<le> update_interval_secs * ((b - a) div update_interval_secs)"
    using k(2) interval_pos by (simp add: mult_left_mono)
  also have "\<dots> \<le> b - a"
    using interval_pos by (simp add: minus_mod_eq_mult_div [symmetric])
  finally show "a \<le> u \<and> u \<le> b \<and> (u - a) mod update_interval_secs = 0"
    using k interval_pos by simp
next
  assume u: "a \<le> u \<and> u \<le> b \<and> (u - a) mod update_interval_secs = 0"
  then obtain k where k: "u - a = update_interval_secs * k"
    by (auto simp: mod_eq_0_iff_dvd)
  have "0 \<le> update_interval_secs * k"
    using u k by linarith
  then have "0 \<le> k"
    using interval_pos by (simp add: zero_le_mult_iff)
  moreover have "k = (u - a) div update_interval_secs"
    using k interval_pos by simp
  then have "k \<le> (b - a) div update_interval_secs"
    using u interval_pos by (simp add: zdiv_mono1)
  ultimately show "u \<in> set (schedule a b)"
    using k by (auto simp: schedule_def intro!: image_eqI [of _ _ k])
qed

lemma scan_updates_schedule: "scan_updates url a b acc = fold (\<lambda>u. scan_update (url u)) (schedule a b) acc"
proof (induction url a b acc rule: scan_updates.induct)
  case (1 url u upd_end acc)
  then show ?case
    by (cases "u \<le> upd_end") (simp_all add: scan_updates.simps [of url u] schedule_step schedule_empty)
qed

lemma fold_scan_update:
  assumes "distinct (map url us)" "us_seen acc \<inter> url ` set us = {}"
  shows "fold (\<lambda>u. scan_update (url u)) us acc
    = acc\<lparr>us_updates := us_updates acc @ map (update_file \<circ> url) us, us_seen := us_seen acc \<union> url ` set us,
          us_total := us_total acc + int (length us) * update_estimated_bytes,
          us_total_uncompressed := us_total_uncompressed acc + int (length us) * update_estimated_uncompressed_bytes\<rparr>"
  using assms
proof (induction us arbitrary: acc)
  case (Cons u us)
  have "url u \<notin> us_seen acc"
    using Cons.prems(2) by auto
  moreover have "us_seen (scan_update (url u) acc) \<inter> url ` set us = {}"
    using Cons.prems by (auto simp: scan_update_def)
  ultimately show ?case
    using Cons.IH [of "scan_update (url u) acc"] Cons.prems(1) by (auto simp: scan_update_def algebra_simps)
qed simp

text \<open>The stamp of an archive can be read back from its address.\<close>

definition plain_stamp :: "string \<Rightarrow> bool" where
  "plain_stamp s \<longleftrightarrow> set s \<subseteq> set ''0123456789.''"

lemma split_on_append: "split_on c (s @ c # t) = split_on c s @ split_on c t"
  by (induction s) (auto split: list.splits)

lemma last_split_on: "c \<notin> set t \<Longrightarrow> last (split_on c (s @ c # t)) = t"
  by (simp add: split_on_append split_on_no_sep)

lemma trim_end_matches_none: "\<not> ends_with suffix s \<Longrightarrow> trim_end_matches suffix s = s"
  by (simp add: trim_end_matches.simps)

lemma ends_with_append: "ends_with suffix (s @ suffix)"
  by (simp add: ends_with_def starts_with_def)

lemma ends_with_set: "ends_with suffix s \<Longrightarrow> set suffix \<subseteq> set s"
  unfolding ends_with_def starts_with_def by (metis set_rev set_take_subset)

lemma trim_end_matches_once:
  assumes "suffix \<noteq> []" "\<not> ends_with suffix s"
  shows "trim_end_matches suffix (s @ suffix) = s"
  using assms by (simp add: trim_end_matches.simps [of suffix "s @ suffix"] ends_with_append trim_end_matches_none)

lemma plain_stamp_suffix:
  assumes "plain_stamp s"
  shows "\<not> ends_with ''.bz2'' s" "\<not> ends_with ''.gz'' s" "\<not> ends_with ''.bz2'' (s @ ''.gz'')"
proof -
  show "\<not> ends_with ''.bz2'' s" "\<not> ends_with ''.gz'' s"
    using assms ends_with_set [of "''.bz2''" s] ends_with_set [of "''.gz''" s] by (auto simp: plain_stamp_def)
  show "\<not> ends_with ''.bz2'' (s @ ''.gz'')"
    by (simp add: ends_with_def starts_with_def)
qed

lemma stamp_of_name:
  assumes "plain_stamp stamp" "sfx \<in> {''.bz2'', ''.gz''}"
  shows "stamp_of (dir @ ''/updates.'' @ stamp @ sfx) = stamp"
proof -
  have "CHR ''/'' \<notin> set (''updates.'' @ stamp @ sfx)"
    using assms by (auto simp: plain_stamp_def)
  from last_split_on [OF this, of dir] have name: "last (split_on CHR ''/'' (dir @ ''/updates.'' @ stamp @ sfx)) = ''updates.'' @ stamp @ sfx"
    by simp
  have "stamp_of (dir @ ''/updates.'' @ stamp @ sfx) = trim_end_matches ''.gz'' (trim_end_matches ''.bz2'' (stamp @ sfx))"
    unfolding stamp_of_def name by simp
  also have "\<dots> = stamp"
    using assms(2) plain_stamp_suffix [OF assms(1)] by (auto simp: trim_end_matches_once trim_end_matches_none)
  finally show ?thesis .
qed

lemma stamp_of_update_url:
  assumes "plain_stamp (cal_update_stamp cal u)"
  shows "stamp_of (archive_url_for cal family collector u ''UPDATES'') = cal_update_stamp cal u"
proof (cases family)
  case RouteViews
  have "\<exists>dir. archive_url_for cal family collector u ''UPDATES'' = dir @ ''/updates.'' @ cal_update_stamp cal u @ ''.bz2''"
    unfolding RouteViews archive_url_for.simps routeviews_url_for_def routeviews_url_def rib_or_update_stamp_def Let_def
    by (rule exI [of _ "(if collector = ''route-views2'' then ''http://archive.routeviews.org/bgpdata''
        else ''http://archive.routeviews.org/'' @ collector @ ''/bgpdata'') @ ''/'' @ cal_month cal u @ ''/UPDATES''"]) simp
  then show ?thesis
    using stamp_of_name [OF assms] by fastforce
next
  case RipeRis
  have "\<exists>dir. archive_url_for cal family collector u ''UPDATES'' = dir @ ''/updates.'' @ cal_update_stamp cal u @ ''.gz''"
    unfolding RipeRis archive_url_for.simps ris_url_for_def rib_or_update_stamp_def Let_def
    by (rule exI [of _ "''https://data.ris.ripe.net/'' @ collector @ ''/'' @ cal_month cal u"]) simp
  then show ?thesis
    using stamp_of_name [OF assms] by fastforce
qed

text \<open>The documented behaviour of the printer that the plan relies on: distinct archive times of a
  schedule have distinct stamps, made of digits and a dot.\<close>

definition stamps_ok :: "calendar \<Rightarrow> int list \<Rightarrow> bool" where
  "stamps_ok cal us \<longleftrightarrow> distinct (map (cal_update_stamp cal) us) \<and> list_all (plain_stamp \<circ> cal_update_stamp cal) us"

lemma distinct_urls:
  assumes "stamps_ok cal us"
  shows "distinct (map (\<lambda>u. archive_url_for cal family collector u ''UPDATES'') us)"
proof -
  have "map stamp_of (map (\<lambda>u. archive_url_for cal family collector u ''UPDATES'') us) = map (cal_update_stamp cal) us"
    using assms by (auto simp: stamps_ok_def list_all_iff stamp_of_update_url)
  then have "distinct (map stamp_of (map (\<lambda>u. archive_url_for cal family collector u ''UPDATES'') us))"
    using assms by (simp only: stamps_ok_def)
  then show ?thesis
    using distinct_map by blast
qed

lemma plan_collector_spec:
  fixes cal family collector warmup_start cooldown_end
  defines "us \<equiv> schedule (floor_to warmup_start update_interval_secs) (floor_to cooldown_end update_interval_secs)"
    and "ribs \<equiv> if floor_to warmup_start (rib_interval_secs family) < floor_to cooldown_end (rib_interval_secs family) then 2 else 1 :: int"
  assumes "stamps_ok cal us"
  shows "\<exists>p. plan_collector cal warmup_start cooldown_end family collector (plans, tb, raw)
      = (plans @ [p], tb + estimated_compressed_bytes p, raw + estimated_uncompressed_bytes p)
    \<and> cp_collector p = collector \<and> cp_source_family p = family_as_str family
    \<and> map ef_url (planned_updates p) = map (\<lambda>u. archive_url_for cal family collector u ''UPDATES'') us
    \<and> duplicate_urls p = 0
    \<and> baseline_rib p = rib_file cal family collector (floor_to warmup_start (rib_interval_secs family))
    \<and> validation_rib p = (if ribs = 2 then Some (rib_file cal family collector (floor_to cooldown_end (rib_interval_secs family))) else None)
    \<and> estimated_compressed_bytes p = ribs * rib_estimated_bytes + int (length us) * update_estimated_bytes
    \<and> estimated_uncompressed_bytes p = ribs * rib_estimated_uncompressed_bytes + int (length us) * update_estimated_uncompressed_bytes
    \<and> (us \<noteq> [] \<longrightarrow> first_update_utc p = cal_update_stamp cal (hd us) \<and> last_update_utc p = cal_update_stamp cal (last us))"
proof -
  let ?url = "\<lambda>u. archive_url_for cal family collector u ''UPDATES''"
  have stamp: "stamp_of (?url u) = cal_update_stamp cal u" if "u \<in> set us" for u
    using that assms(3) by (auto simp: stamps_ok_def list_all_iff stamp_of_update_url)
  have scan: "scan_updates ?url (floor_to warmup_start update_interval_secs) (floor_to cooldown_end update_interval_secs) acc
    = acc\<lparr>us_updates := us_updates acc @ map (update_file \<circ> ?url) us, us_seen := ?url ` set us,
          us_total := us_total acc + int (length us) * update_estimated_bytes,
          us_total_uncompressed := us_total_uncompressed acc + int (length us) * update_estimated_uncompressed_bytes\<rparr>"
    if "us_seen acc = {}" for acc
    using fold_scan_update [OF distinct_urls [OF assms(3)], of acc] that by (simp add: scan_updates_schedule us_def)
  have first: "(case map (update_file \<circ> ?url) us of [] \<Rightarrow> [] | f # _ \<Rightarrow> stamp_of (ef_url f)) = cal_update_stamp cal (hd us)"
    if "us \<noteq> []"
    using that stamp [of "hd us"] by (cases us) (simp_all add: update_file_def)
  have last: "stamp_of (ef_url (last (map (update_file \<circ> ?url) us))) = cal_update_stamp cal (last us)" if "us \<noteq> []"
    using that stamp [of "last us"] by (simp add: last_map update_file_def)
  have urls: "map ef_url (map (update_file \<circ> ?url) us) = map ?url us"
    by (simp add: update_file_def)
  show ?thesis
    by (cases "floor_to warmup_start (rib_interval_secs family) < floor_to cooldown_end (rib_interval_secs family)")
      (use first last urls in \<open>simp_all add: plan_collector_def Let_def scan ribs_def algebra_simps\<close>)
qed

definition collector_plan_ok ::
    "calendar \<Rightarrow> timestamp \<Rightarrow> timestamp \<Rightarrow> source_family \<times> string \<Rightarrow> collector_plan \<Rightarrow> bool" where
  "collector_plan_ok cal ws ce fc p \<longleftrightarrow>
     (case fc of (family, collector) \<Rightarrow>
        cp_collector p = collector \<and> cp_source_family p = family_as_str family
        \<and> map ef_url (planned_updates p)
            = map (\<lambda>u. archive_url_for cal family collector u ''UPDATES'')
                (schedule (floor_to ws update_interval_secs) (floor_to ce update_interval_secs))
        \<and> duplicate_urls p = 0
        \<and> baseline_rib p = rib_file cal family collector (floor_to ws (rib_interval_secs family)))"

definition planned_pairs :: "source_family list \<Rightarrow> (source_family \<times> string) list" where
  "planned_pairs families = concat (map (\<lambda>f. map (Pair f) (family_collectors f)) families)"

lemma fold_families:
  "fold (\<lambda>f. fold (g f) (family_collectors f)) families acc = fold (\<lambda>(f, c). g f c) (planned_pairs families) acc"
  by (induction families arbitrary: acc) (simp_all add: planned_pairs_def fold_map comp_def)

lemma fold_plan_collector:
  assumes "stamps_ok cal (schedule (floor_to ws update_interval_secs) (floor_to ce update_interval_secs))"
  shows "\<exists>ps. fold (\<lambda>(f, c). plan_collector cal ws ce f c) pairs (plans, tb, raw)
      = (plans @ ps, tb + sum_list (map estimated_compressed_bytes ps), raw + sum_list (map estimated_uncompressed_bytes ps))
    \<and> list_all2 (collector_plan_ok cal ws ce) pairs ps"
proof (induction pairs arbitrary: plans tb raw)
  case (Cons fc pairs)
  obtain family collector where fc: "fc = (family, collector)"
    by (cases fc)
  obtain p where p: "plan_collector cal ws ce family collector (plans, tb, raw)
      = (plans @ [p], tb + estimated_compressed_bytes p, raw + estimated_uncompressed_bytes p)"
      "collector_plan_ok cal ws ce fc p"
    using plan_collector_spec [OF assms, of family collector plans tb raw] unfolding fc collector_plan_ok_def by auto
  obtain ps where ps: "fold (\<lambda>(f, c). plan_collector cal ws ce f c) pairs
        (plans @ [p], tb + estimated_compressed_bytes p, raw + estimated_uncompressed_bytes p)
      = ((plans @ [p]) @ ps, tb + estimated_compressed_bytes p + sum_list (map estimated_compressed_bytes ps),
         raw + estimated_uncompressed_bytes p + sum_list (map estimated_uncompressed_bytes ps))"
      "list_all2 (collector_plan_ok cal ws ce) pairs ps"
    using Cons.IH by blast
  show ?case
    by (rule exI [of _ "p # ps"]) (use p ps in \<open>simp add: fc\<close>)
qed simp

lemma floor_to_le: "0 < i \<Longrightarrow> floor_to t i \<le> t div 1000000000 \<and> t div 1000000000 < floor_to t i + i"
  by (simp add: floor_to_def Let_def pos_mod_bound)

lemma floor_to_mult: "floor_to t i mod i = 0"
  by (simp add: floor_to_def Let_def minus_mod_eq_mult_div)

lemma nanos_before: "u * 1000000000 \<le> t \<longleftrightarrow> u \<le> t div (1000000000 :: int)"
  by linarith

lemma nanos_after: "t < v * 1000000000 \<longleftrightarrow> t div (1000000000 :: int) < v"
  using nanos_before [of v t] by linarith

lemma div_of_grid: "i * m \<le> s \<Longrightarrow> s < i * m + i \<Longrightarrow> s div i = (m :: int)"
  using int_div_pos_eq [of s i m "s - i * m"] by simp

lemma schedule_covers:
  assumes "ws \<le> t" "t \<le> ce"
  shows "\<exists>!u. u \<in> set (schedule (floor_to ws update_interval_secs) (floor_to ce update_interval_secs))
    \<and> u * 1000000000 \<le> t \<and> t < (u + update_interval_secs) * 1000000000"
proof -
  let ?i = update_interval_secs
  let ?sec = "\<lambda>x. x div (1000000000 :: int)"
  have mono: "?sec ws \<le> ?sec t" "?sec t \<le> ?sec ce"
    using assms by (auto intro: zdiv_mono1)
  have grid: "floor_to x ?i = ?i * (?sec x div ?i)" for x
    by (simp add: floor_to_def Let_def minus_mod_eq_mult_div)
  show ?thesis
  proof (rule ex1I [of _ "floor_to t ?i"])
    have "floor_to ws ?i \<le> floor_to t ?i" "floor_to t ?i \<le> floor_to ce ?i"
      unfolding grid using mono interval_pos by (auto intro!: mult_left_mono zdiv_mono1)
    moreover have "(floor_to t ?i - floor_to ws ?i) mod ?i = 0"
      unfolding grid by (simp add: right_diff_distrib [symmetric])
    ultimately show "floor_to t ?i \<in> set (schedule (floor_to ws ?i) (floor_to ce ?i))
        \<and> floor_to t ?i * 1000000000 \<le> t \<and> t < (floor_to t ?i + ?i) * 1000000000"
      unfolding nanos_before nanos_after set_schedule using floor_to_le [OF interval_pos] by blast
  next
    fix u
    assume "u \<in> set (schedule (floor_to ws ?i) (floor_to ce ?i)) \<and> u * 1000000000 \<le> t \<and> t < (u + ?i) * 1000000000"
    then have u: "(u - floor_to ws ?i) mod ?i = 0" "u \<le> ?sec t" "?sec t < u + ?i"
      unfolding nanos_before nanos_after set_schedule by auto
    then obtain k where k: "u - floor_to ws ?i = ?i * k"
      by (auto simp: mod_eq_0_iff_dvd)
    then have "u = ?i * (k + ?sec ws div ?i)"
      unfolding grid by (simp add: algebra_simps)
    moreover from this have "?sec t div ?i = k + ?sec ws div ?i"
      using u(2,3) by (intro div_of_grid) simp_all
    ultimately show "u = floor_to t ?i"
      unfolding grid by simp
  qed
qed

lemma schedule_within:
  assumes "u \<in> set (schedule (floor_to ws update_interval_secs) (floor_to ce update_interval_secs))"
  shows "u * 1000000000 \<le> ce \<and> ws < (u + update_interval_secs) * 1000000000"
  using assms floor_to_le [OF interval_pos, of ws] floor_to_le [OF interval_pos, of ce]
  unfolding nanos_before nanos_after set_schedule by auto

section \<open>What a plan promises\<close>

lemma plan_window_collectors:
  fixes cal incident_start incident_end warmup cooldown families targets
  defines "ws \<equiv> incident_start - secs (warmup * 3600)" and "ce \<equiv> incident_end + secs (cooldown * 3600)"
    and "plan \<equiv> snd (plan_window cal incident_start incident_end warmup cooldown families targets)"
  assumes "stamps_ok cal (schedule (floor_to ws update_interval_secs) (floor_to ce update_interval_secs))"
  shows "list_all2 (collector_plan_ok cal ws ce) (planned_pairs families) (plan_collectors plan)
    \<and> estimated_total_bytes plan = sum_list (map estimated_compressed_bytes (plan_collectors plan))
    \<and> estimated_total_uncompressed_bytes plan = sum_list (map estimated_uncompressed_bytes (plan_collectors plan))"
  using fold_plan_collector [OF assms(4), of "planned_pairs families" "[]" 0 0]
  unfolding plan_def plan_window_def Let_def fold_families ws_def ce_def by (auto split: prod.split)

lemma build_plan_window:
  assumes "build_plan_for_families cal cs targets warmup cooldown families = Some (Inr (h, plan))"
  obtains s e incident_start incident_end where "cs_start_utc cs = Some s" "cs_end_utc cs = Some e"
    "cal_parse cal s = Some incident_start" "cal_parse cal e = Some incident_end" "incident_start < incident_end"
    "(h, plan) = plan_window cal incident_start incident_end warmup cooldown families targets"
  using assms by (auto simp: build_plan_for_families_def bind_eq_Some_conv split: option.splits if_splits)

text \<open>C24: A plan that is made lists one entry per collector of the requested families, in order. Every
  entry has the same schedule of five minute archives, without a repeated address: each archive meets
  the horizon from warmup to cooldown, and each instant of the horizon lies in exactly one of them. The
  baseline is the snapshot on the grid of the family at or before the warmup and less than one period
  older. The totals of the plan are the sums over its collectors.\<close>

theorem archive_plan_covers_horizon:
  fixes cal cs incident_start incident_end warmup cooldown
  defines "ws \<equiv> incident_start - secs (warmup * 3600)" and "ce \<equiv> incident_end + secs (cooldown * 3600)"
  assumes "build_plan_for_families cal cs targets warmup cooldown families = Some (Inr (h, plan))"
    and "Option.bind (cs_start_utc cs) (cal_parse cal) = Some incident_start"
    and "Option.bind (cs_end_utc cs) (cal_parse cal) = Some incident_end"
    and "stamps_ok cal (schedule (floor_to ws update_interval_secs) (floor_to ce update_interval_secs))"
  shows "\<exists>us. list_all2 (\<lambda>(family, collector) p. cp_collector p = collector \<and> cp_source_family p = family_as_str family
        \<and> map ef_url (planned_updates p) = map (\<lambda>u. archive_url_for cal family collector u ''UPDATES'') us
        \<and> distinct (map ef_url (planned_updates p)) \<and> duplicate_urls p = 0
        \<and> (\<exists>b. baseline_rib p = rib_file cal family collector b \<and> b mod rib_interval_secs family = 0
             \<and> b * 1000000000 \<le> ws \<and> ws < (b + rib_interval_secs family) * 1000000000))
      (planned_pairs families) (plan_collectors plan)
    \<and> (\<forall>u \<in> set us. u * 1000000000 \<le> ce \<and> ws < (u + update_interval_secs) * 1000000000)
    \<and> (\<forall>t. ws \<le> t \<and> t \<le> ce \<longrightarrow>
         (\<exists>!u. u \<in> set us \<and> u * 1000000000 \<le> t \<and> t < (u + update_interval_secs) * 1000000000))
    \<and> estimated_total_bytes plan = sum_list (map estimated_compressed_bytes (plan_collectors plan))
    \<and> estimated_total_uncompressed_bytes plan = sum_list (map estimated_uncompressed_bytes (plan_collectors plan))"
proof -
  let ?us = "schedule (floor_to ws update_interval_secs) (floor_to ce update_interval_secs)"
  have plan: "plan = snd (plan_window cal incident_start incident_end warmup cooldown families targets)"
    by (rule build_plan_window [OF assms(3)]) (use assms(4,5) in \<open>simp, metis snd_conv\<close>)
  note made = plan_window_collectors [OF assms(6) [unfolded ws_def ce_def], of families targets, folded plan ws_def ce_def]
  have base: "\<exists>b. rib_file cal family collector (floor_to ws (rib_interval_secs family)) = rib_file cal family collector b
      \<and> b mod rib_interval_secs family = 0 \<and> b * 1000000000 \<le> ws \<and> ws < (b + rib_interval_secs family) * 1000000000"
    for family collector
    using floor_to_le [of "rib_interval_secs family" ws] floor_to_mult [of ws "rib_interval_secs family"]
    unfolding nanos_before nanos_after by (cases family) auto
  have "list_all2 (\<lambda>(family, collector) p. cp_collector p = collector \<and> cp_source_family p = family_as_str family
        \<and> map ef_url (planned_updates p) = map (\<lambda>u. archive_url_for cal family collector u ''UPDATES'') ?us
        \<and> distinct (map ef_url (planned_updates p)) \<and> duplicate_urls p = 0
        \<and> (\<exists>b. baseline_rib p = rib_file cal family collector b \<and> b mod rib_interval_secs family = 0
             \<and> b * 1000000000 \<le> ws \<and> ws < (b + rib_interval_secs family) * 1000000000))
      (planned_pairs families) (plan_collectors plan)"
    by (rule list_all2_mono [OF conjunct1 [OF made]])
      (use base distinct_urls [OF assms(6)] in \<open>auto simp: collector_plan_ok_def\<close>)
  then show ?thesis
    using made schedule_within [of _ ws ce] schedule_covers [of ws _ ce] by (intro exI [of _ ?us]) blast
qed

text \<open>A calendar restricted to one window of eleven minutes, with the stamps of its archives.\<close>

definition sample_calendar :: calendar where
  "sample_calendar = \<lparr>cal_month = (\<lambda>_. ''1970.01''), cal_rib_stamp = (\<lambda>_. ''19700101.0000''),
     cal_update_stamp = (\<lambda>u. if u = 0 then ''19700101.0000'' else if u = 300 then ''19700101.0005'' else ''19700101.0010''),
     cal_rfc3339 = (\<lambda>_. ''1970-01-01T00:00:00Z''),
     cal_parse = (\<lambda>s. if s = ''1970-01-01T00:01:00Z'' then Some 60000000000
                     else if s = ''1970-01-01T00:11:00Z'' then Some 660000000000 else None)\<rparr>"

lemma secs_zero: "t - secs 0 = t" "t + secs 0 = t"
  by (simp_all add: secs_def)

lemma sample_schedule: "schedule (floor_to 60000000000 update_interval_secs) (floor_to 660000000000 update_interval_secs) = [0, 300, 600]"
  by code_simp

theorem archive_plan_witness:
  "\<exists>h plan. build_plan sample_calendar \<lparr>cs_start_utc = Some ''1970-01-01T00:01:00Z'', cs_end_utc = Some ''1970-01-01T00:11:00Z''\<rparr> [] 0 0
      = Some (Inr (h, plan)) \<and> map cp_collector (plan_collectors plan) = [''route-views2'', ''route-views6'']
    \<and> estimated_total_bytes plan = sum_list (map estimated_compressed_bytes (plan_collectors plan))"
proof -
  let ?cs = "\<lparr>cs_start_utc = Some ''1970-01-01T00:01:00Z'', cs_end_utc = Some ''1970-01-01T00:11:00Z''\<rparr>"
  have "\<exists>x. build_plan sample_calendar ?cs [] 0 0 = Some (Inr x)"
    by (simp add: build_plan_def build_plan_for_families_def sample_calendar_def)
  then obtain h plan where built: "build_plan sample_calendar ?cs [] 0 0 = Some (Inr (h, plan))"
    by (metis surj_pair)
  have stamps: "stamps_ok sample_calendar (schedule (floor_to (60000000000 - secs (0 * 3600)) update_interval_secs)
      (floor_to (660000000000 + secs (0 * 3600)) update_interval_secs))"
    unfolding mult_zero_left secs_zero by (simp add: sample_schedule stamps_ok_def sample_calendar_def plain_stamp_def)
  have parsed: "Option.bind (cs_start_utc ?cs) (cal_parse sample_calendar) = Some 60000000000"
      "Option.bind (cs_end_utc ?cs) (cal_parse sample_calendar) = Some 660000000000"
    by (simp_all add: sample_calendar_def)
  obtain us where us: "list_all2 (\<lambda>(family, collector) p. cp_collector p = collector \<and> cp_source_family p = family_as_str family
        \<and> map ef_url (planned_updates p) = map (\<lambda>u. archive_url_for sample_calendar family collector u ''UPDATES'') us
        \<and> distinct (map ef_url (planned_updates p)) \<and> duplicate_urls p = 0
        \<and> (\<exists>b. baseline_rib p = rib_file sample_calendar family collector b \<and> b mod rib_interval_secs family = 0
             \<and> b * 1000000000 \<le> 60000000000 - secs (0 * 3600)
             \<and> 60000000000 - secs (0 * 3600) < (b + rib_interval_secs family) * 1000000000))
      (planned_pairs [RouteViews]) (plan_collectors plan)"
    "estimated_total_bytes plan = sum_list (map estimated_compressed_bytes (plan_collectors plan))"
    using archive_plan_covers_horizon [OF built [unfolded build_plan_def] parsed stamps] by blast
  have "map cp_collector (plan_collectors plan) = [''route-views2'', ''route-views6'']"
    using us(1) by (auto simp: planned_pairs_def list_all2_Cons1)
  then show ?thesis
    using built us(2) by (intro exI conjI)
qed

section \<open>Targets and stored plans\<close>

definition target_unresolved :: "case_study_target \<Rightarrow> bool" where
  "target_unresolved t \<longleftrightarrow> ct_research_status t \<notin> {''HistoricallyReviewed'', ''NotApplicableToPublicBgp''}"

lemma fold_plan_target:
  "fold plan_target ts (blocked, skipped) =
     (blocked @ map (\<lambda>t. \<lparr>bt_source_label = ct_source_label t,
        bt_reason = ''target mapping unresolved (research status: '' @ ct_research_status t @ '')''\<rparr>) (filter target_unresolved ts),
      skipped @ map (\<lambda>t. \<lparr>bt_source_label = ct_source_label t, bt_reason = ''not applicable to public BGP (reviewed)''\<rparr>)
        (filter (\<lambda>t. ct_research_status t = ''NotApplicableToPublicBgp'') ts))"
  by (induction ts arbitrary: blocked skipped) (simp_all add: plan_target_def target_unresolved_def)

text \<open>Every target that is neither reviewed nor reviewed as not applicable is blocked, in order, and only
  those; the targets that are not applicable are skipped.\<close>

theorem unreviewed_targets_blocked:
  assumes "build_plan_for_families cal cs targets warmup cooldown families = Some (Inr (h, plan))"
  shows "map bt_source_label (blocked_targets plan) = map ct_source_label (filter target_unresolved targets)
    \<and> map bt_source_label (skipped_targets plan)
        = map ct_source_label (filter (\<lambda>t. ct_research_status t = ''NotApplicableToPublicBgp'') targets)
    \<and> (''no analysis targets are blocked'' \<in> set (plan_notes plan)
         \<longleftrightarrow> (\<forall>t \<in> set targets. ct_research_status t = ''HistoricallyReviewed''))"
proof -
  obtain incident_start incident_end where
      "(h, plan) = plan_window cal incident_start incident_end warmup cooldown families targets"
    by (rule build_plan_window [OF assms])
  then show ?thesis
    by (auto simp: plan_window_def Let_def fold_plan_target comp_def filter_empty_conv target_unresolved_def split: prod.splits if_splits)
qed

lemma load_after_upsert:
  "load_plan (upsert_case_study_analysis_plan p rows) cs
    = (if ap_case_study_id p = cs
       then Some (p\<lparr>ap_id := (case load_plan rows cs of Some r \<Rightarrow> ap_id r
                              | None \<Rightarrow> if rows = [] then 1 else Max (set (map ap_id rows)) + 1)\<rparr>)
       else load_plan rows cs)"
proof -
  let ?f = "\<lambda>r. if ap_case_study_id r = ap_case_study_id p
                    then r\<lparr>ap_horizon_json := ap_horizon_json p, ap_plan_json := ap_plan_json p, ap_status := ap_status p,
                           ap_created_utc := ap_created_utc p\<rparr> else r"
  have mapped: "load_plan (map ?f xs) c = map_option ?f (load_plan xs c)" for xs c
    by (induction xs) (auto simp: load_plan_def)
  have found: "ap_case_study_id r = c" if "load_plan xs c = Some r" for xs c r
    using that by (auto simp: load_plan_def find_Some_iff)
  have appended: "load_plan (xs @ [r]) c = (case load_plan xs c of None \<Rightarrow> if ap_case_study_id r = c then Some r else None | Some y \<Rightarrow> Some y)" for xs r c
    by (induction xs) (auto simp: load_plan_def)
  show ?thesis
    unfolding upsert_case_study_analysis_plan_def
    by (cases "load_plan rows (ap_case_study_id p)"; cases "load_plan rows cs")
      (use found in \<open>auto simp: mapped appended\<close>)
qed

text \<open>A saved plan is a draft and is what is read back; recording a pilot result changes nothing of the
  stored plan but the pilot, keeps its review status and leaves the plans of other studies alone. A
  second planning run puts the plan back to draft.\<close>

theorem stored_plan_roundtrip:
  assumes "\<forall>p. parse_plan (plan_json p) = Some p"
    and "rows1 = save_plan horizon_json plan_json now cs h plan rows"
  shows "(\<exists>row. load_plan rows1 cs = Some row \<and> parse_plan (ap_plan_json row) = Some plan
        \<and> ap_horizon_json row = horizon_json h \<and> ap_status row = ''Draft'')
    \<and> (\<forall>c. c \<noteq> cs \<longrightarrow> load_plan rows1 c = load_plan rows c)
    \<and> (\<forall>row p. load_plan rows' cs = Some row \<and> parse_plan (ap_plan_json row) = Some p \<longrightarrow>
        (\<exists>rows2. save_pilot plan_json parse_plan cs pilot rows' = Inr rows2
          \<and> load_plan rows2 cs = Some (row\<lparr>ap_plan_json := plan_json (p\<lparr>plan_pilot := Some pilot\<rparr>)\<rparr>)
          \<and> (\<forall>c. c \<noteq> cs \<longrightarrow> load_plan rows2 c = load_plan rows' c)))"
proof (intro conjI allI impI)
  show "\<exists>row. load_plan rows1 cs = Some row \<and> parse_plan (ap_plan_json row) = Some plan
        \<and> ap_horizon_json row = horizon_json h \<and> ap_status row = ''Draft''"
    using assms by (auto simp: save_plan_def load_after_upsert)
  show "load_plan rows1 c = load_plan rows c" if "c \<noteq> cs" for c
    using that assms(2) by (simp add: save_plan_def load_after_upsert)
next
  fix row p
  assume row: "load_plan rows' cs = Some row \<and> parse_plan (ap_plan_json row) = Some p"
  then have "ap_case_study_id row = cs"
    by (auto simp: load_plan_def find_Some_iff)
  then show "\<exists>rows2. save_pilot plan_json parse_plan cs pilot rows' = Inr rows2
          \<and> load_plan rows2 cs = Some (row\<lparr>ap_plan_json := plan_json (p\<lparr>plan_pilot := Some pilot\<rparr>)\<rparr>)
          \<and> (\<forall>c. c \<noteq> cs \<longrightarrow> load_plan rows2 c = load_plan rows' c)"
    using row by (auto simp: save_pilot_def load_after_upsert)
qed

end
