(* ===== verification/Net_Profile.thy ===== *)
theory Net_Profile
  imports Std_Text
begin

text \<open>
  Reviewed service planes and session roles: \<open>catalog/netprofile.rs\<close>. Loading the JSON file is left
  out; its validation is modelled.
\<close>

section \<open>Definitions\<close>

record named_service_plane =
  sp_id :: string
  sp_display_label :: string
  sp_asns :: "u32 list"

record reviewed_asn_role =
  ar_asn :: u32
  ar_role :: string

record service_plane_profile =
  service_planes :: "named_service_plane list"
  asn_roles :: "reviewed_asn_role list"
  profile_updated_utc :: string
  profile_provenance :: string

datatype profile_error =
    EmptyPlaneId
  | PlaneWithoutAsns string
  | DuplicatePlaneId string

fun validate_planes :: "string list \<Rightarrow> named_service_plane list \<Rightarrow> profile_error + unit" where
  "validate_planes seen [] = Inr ()"
| "validate_planes seen (plane # ps) =
     (if sp_id plane = [] then Inl EmptyPlaneId
      else if sp_asns plane = [] then Inl (PlaneWithoutAsns (sp_id plane))
      else if sp_id plane \<in> set seen then Inl (DuplicatePlaneId (sp_id plane))
      else validate_planes (seen @ [sp_id plane]) ps)"

definition profile_validate :: "service_plane_profile \<Rightarrow> profile_error + unit" where
  "profile_validate profile = validate_planes [] (service_planes profile)"

definition plane_for_asn :: "service_plane_profile \<Rightarrow> u32 \<Rightarrow> named_service_plane option" where
  "plane_for_asn profile asn = find (\<lambda>p. asn \<in> set (sp_asns p)) (service_planes profile)"

definition role_label :: "service_plane_profile \<Rightarrow> u32 \<Rightarrow> string" where
  "role_label profile asn =
     (case find (\<lambda>r. ar_asn r = asn) (asn_roles profile) of
        None \<Rightarrow> ''unclassified observed ASN''
      | Some r \<Rightarrow> ar_role r)"

datatype session_relationship =
    DirectPeerToNamedPlane string
  | IndirectPathViaNamedPlane string
  | OtherObservedPath
  | AmbiguousPath

fun rel_plane_id :: "session_relationship \<Rightarrow> string option" where
  "rel_plane_id (DirectPeerToNamedPlane p) = Some p"
| "rel_plane_id (IndirectPathViaNamedPlane p) = Some p"
| "rel_plane_id OtherObservedPath = None"
| "rel_plane_id AmbiguousPath = None"

fun rel_label :: "session_relationship \<Rightarrow> string" where
  "rel_label (DirectPeerToNamedPlane p) = ''direct-peer-to-named-plane''"
| "rel_label (IndirectPathViaNamedPlane p) = ''indirect-path-via-named-plane''"
| "rel_label OtherObservedPath = ''other-observed-path''"
| "rel_label AmbiguousPath = ''ambiguous''"

record path_evidence =
  pe_peer_ip :: string
  pe_peer_asn :: u32
  pe_address_family :: string
  pe_prefix :: string
  pe_as_path :: "u32 list"
  pe_origin_asns :: "u32 list"

definition plane_relationship :: "u32 \<Rightarrow> u32 list \<Rightarrow> named_service_plane \<Rightarrow> session_relationship option" where
  "plane_relationship peer_asn as_path plane =
     (if peer_asn \<in> set (sp_asns plane) then Some (DirectPeerToNamedPlane (sp_id plane))
      else if list_ex (\<lambda>a. a \<in> set (sp_asns plane)) as_path then Some (IndirectPathViaNamedPlane (sp_id plane))
      else None)"

definition classify_route :: "service_plane_profile \<Rightarrow> u32 \<Rightarrow> u32 list \<Rightarrow> session_relationship list" where
  "classify_route profile peer_asn as_path =
     (let out = List.map_filter (plane_relationship peer_asn as_path) (service_planes profile)
      in if out = [] then (if as_path = [] then [AmbiguousPath] else [OtherObservedPath]) else out)"

record scoped_session_role =
  role_relationship :: session_relationship
  observed_at_utc :: string
  route_count :: nat

definition add_role :: "string \<Rightarrow> session_relationship \<Rightarrow> scoped_session_role list \<Rightarrow> scoped_session_role list" where
  "add_role seen_at rel out =
     (if list_ex (\<lambda>r. role_relationship r = rel) out then out
      else out @ [\<lparr>role_relationship = rel, observed_at_utc = seen_at, route_count = 0\<rparr>])"

definition supporting_routes :: "service_plane_profile \<Rightarrow> path_evidence list \<Rightarrow> session_relationship \<Rightarrow> nat" where
  "supporting_routes profile routes rel =
     length (filter (\<lambda>r. rel \<in> set (classify_route profile (pe_peer_asn r) (pe_as_path r))) routes)"

definition session_roles_at :: "service_plane_profile \<Rightarrow> path_evidence list \<Rightarrow> string \<Rightarrow> scoped_session_role list" where
  "session_roles_at profile routes seen_at =
     map (\<lambda>role. role\<lparr>route_count := supporting_routes profile routes (role_relationship role)\<rparr>)
       (fold (\<lambda>route. fold (add_role seen_at) (classify_route profile (pe_peer_asn route) (pe_as_path route))) routes [])"

section \<open>Correctness\<close>

lemma validate_planes_Inr_iff:
  "validate_planes seen ps = Inr u \<longleftrightarrow>
     list_all (\<lambda>p. sp_id p \<noteq> [] \<and> sp_asns p \<noteq> []) ps \<and> distinct (map sp_id ps) \<and> set (map sp_id ps) \<inter> set seen = {}"
  by (induction seen ps rule: validate_planes.induct) auto

lemma classify_route_ne: "classify_route profile a path \<noteq> []"
  by (simp add: classify_route_def Let_def)

lemma plane_relationship_id: "plane_relationship a path p = Some r \<Longrightarrow> rel_plane_id r = Some (sp_id p)"
  by (auto simp: plane_relationship_def split: if_splits)

text \<open>For a profile that passes validation, a route has at most one relationship
  with each plane, never both a direct and an indirect one: a direct one when the peer belongs to the plane, else an indirect one when
  the path does; a route that matches no plane is ambiguous without a path and other with one.\<close>

theorem classify_route_exact:
  assumes valid: "profile_validate profile = Inr ()"
    and plane: "plane \<in> set (service_planes profile)"
  shows "filter (\<lambda>r. rel_plane_id r = Some (sp_id plane)) (classify_route profile a path) =
      (if a \<in> set (sp_asns plane) then [DirectPeerToNamedPlane (sp_id plane)]
       else if set (sp_asns plane) \<inter> set path \<noteq> {} then [IndirectPathViaNamedPlane (sp_id plane)] else [])"
proof -
  have dist: "distinct (map sp_id (service_planes profile))"
    using valid by (simp add: profile_validate_def validate_planes_Inr_iff)
  have "filter (\<lambda>r. rel_plane_id r = Some (sp_id plane)) (List.map_filter (plane_relationship a path) ps) =
      (case plane_relationship a path plane of None \<Rightarrow> [] | Some r \<Rightarrow> [r])"
    if "distinct (map sp_id ps)" "plane \<in> set ps" for ps
    using that
  proof (induction ps)
    case (Cons p ps)
    have none: "filter (\<lambda>r. rel_plane_id r = Some (sp_id plane)) (List.map_filter (plane_relationship a path) qs) = []"
      if "sp_id plane \<notin> set (map sp_id qs)" for qs
      unfolding filter_empty_conv set_map_filter
    proof clarify
      fix y q
      assume "q \<in> set qs" "plane_relationship a path q = Some y" "rel_plane_id y = Some (sp_id plane)"
      then have "sp_id q = sp_id plane" by (simp add: plane_relationship_id)
      with imageI [OF \<open>q \<in> set qs\<close>, of sp_id] that show False by simp
    qed
    show ?case
    proof (cases "p = plane")
      case True
      then show ?thesis using Cons.prems none [of ps]
        by (auto simp: List.map_filter_simps plane_relationship_id split: option.splits)
    next
      case False
      then have "sp_id p \<noteq> sp_id plane" "plane \<in> set ps" "distinct (map sp_id ps)" using Cons.prems by (auto simp: rev_image_eqI)
      then show ?thesis using Cons.IH
        by (auto simp: List.map_filter_simps dest: plane_relationship_id split: option.splits)
    qed
  qed simp
  from this [OF dist plane]
  have main: "filter (\<lambda>r. rel_plane_id r = Some (sp_id plane)) (List.map_filter (plane_relationship a path) (service_planes profile)) =
      (case plane_relationship a path plane of None \<Rightarrow> [] | Some r \<Rightarrow> [r])" .
  then have "filter (\<lambda>r. rel_plane_id r = Some (sp_id plane)) (classify_route profile a path) =
      (case plane_relationship a path plane of None \<Rightarrow> [] | Some r \<Rightarrow> [r])"
    by (auto simp: classify_route_def Let_def)
  moreover have "list_ex (\<lambda>x. x \<in> set (sp_asns plane)) path \<longleftrightarrow> set (sp_asns plane) \<inter> set path \<noteq> {}"
    by (auto simp: list_ex_iff)
  ultimately show ?thesis by (simp add: plane_relationship_def)
qed

lemma add_role_distinct:
  "distinct (map role_relationship out) \<Longrightarrow> distinct (map role_relationship (add_role seen_at rel out))"
  by (auto simp: add_role_def list_ex_iff)

lemma fold_add_role:
  "role_relationship ` set (fold (add_role seen_at) rels out) = role_relationship ` set out \<union> set rels"
  "distinct (map role_relationship out) \<Longrightarrow> distinct (map role_relationship (fold (add_role seen_at) rels out))"
  by (induction rels arbitrary: out) (simp_all add: add_role_distinct, auto simp: add_role_def list_ex_iff)

lemma fold_routes:
  "role_relationship ` set (fold (\<lambda>route. fold (add_role seen_at) (f route)) routes out) = role_relationship ` set out \<union> (\<Union>r \<in> set routes. set (f r))"
  "distinct (map role_relationship out) \<Longrightarrow> distinct (map role_relationship (fold (\<lambda>route. fold (add_role seen_at) (f route)) routes out))"
  by (induction routes arbitrary: out) (auto simp: fold_add_role)

text \<open>A session has each role once; its roles are exactly the relationships of its
  routes, and the count of a role is the number of routes that support it, at least one.\<close>

theorem session_roles_exact:
  "distinct (map role_relationship (session_roles_at profile routes seen_at))
   \<and> role_relationship ` set (session_roles_at profile routes seen_at)
      = (\<Union>r \<in> set routes. set (classify_route profile (pe_peer_asn r) (pe_as_path r)))
   \<and> list_all (\<lambda>role. route_count role = supporting_routes profile routes (role_relationship role) \<and> 0 < route_count role)
       (session_roles_at profile routes seen_at)"
proof -
  define out where "out = fold (\<lambda>route. fold (add_role seen_at) (classify_route profile (pe_peer_asn route) (pe_as_path route))) routes []"
  have rels: "map role_relationship (session_roles_at profile routes seen_at) = map role_relationship out"
    by (simp add: session_roles_at_def out_def)
  have set: "role_relationship ` set out = (\<Union>r \<in> set routes. set (classify_route profile (pe_peer_asn r) (pe_as_path r)))"
    using fold_routes(1) [of seen_at "\<lambda>r. classify_route profile (pe_peer_asn r) (pe_as_path r)" routes "[]"] by (simp add: out_def)
  have dist: "distinct (map role_relationship out)"
    using fold_routes(2) [of "[]" seen_at "\<lambda>r. classify_route profile (pe_peer_asn r) (pe_as_path r)" routes] by (simp add: out_def)
  have "0 < supporting_routes profile routes (role_relationship role)" if "role \<in> set out" for role
  proof -
    have "role_relationship role \<in> (\<Union>r \<in> set routes. set (classify_route profile (pe_peer_asn r) (pe_as_path r)))"
      using that unfolding set [symmetric] by simp
    then show ?thesis by (auto simp: supporting_routes_def filter_empty_conv)
  qed
  then have "list_all (\<lambda>role. route_count role = supporting_routes profile routes (role_relationship role) \<and> 0 < route_count role)
       (session_roles_at profile routes seen_at)"
    by (simp add: list_all_iff session_roles_at_def out_def)
  moreover have "role_relationship ` set (session_roles_at profile routes seen_at) = role_relationship ` set out"
    using arg_cong [OF rels, of set] by simp
  ultimately show ?thesis using rels dist set by simp
qed

definition sample_profile :: service_plane_profile where
  "sample_profile = \<lparr>service_planes = [\<lparr>sp_id = ''re'', sp_display_label = ''R and E'', sp_asns = [11537]\<rparr>,
       \<lparr>sp_id = ''px'', sp_display_label = ''Peering'', sp_asns = [11164]\<rparr>],
     asn_roles = [], profile_updated_utc = ''2026'', profile_provenance = ''p''\<rparr>"

theorem classify_route_witness:
  "filter (\<lambda>r. rel_plane_id r = Some ''px'') (classify_route sample_profile 11537 [11537, 11164, 7]) = [IndirectPathViaNamedPlane ''px'']"
proof -
  have "profile_validate sample_profile = Inr ()" by code_simp
  moreover have "\<lparr>sp_id = ''px'', sp_display_label = ''Peering'', sp_asns = [11164]\<rparr> \<in> set (service_planes sample_profile)"
    by (simp add: sample_profile_def)
  ultimately show ?thesis using classify_route_exact [of sample_profile _ 11537 "[11537, 11164, 7]"] by fastforce
qed

end
