(* ===== verification/Workbench.thy ===== *)
theory Workbench
  imports Net_Profile
begin

text \<open>
  The presentation model of the incident workbench, \<open>catalog/workbench.rs\<close>: the effect of one stream, the
  episodes of an observer session, their end state and what happened in the cooldown. Rows of the
  database are records; how a collector is located is the reviewed registry of
  \<open>catalog/netprofile.rs\<close>.
\<close>

section \<open>Grouping in a map\<close>

text \<open>\<open>entry(k).or_default().push(v)\<close>, and the loop that groups a list by a key.\<close>

definition bt_push :: "'k::linorder \<Rightarrow> 'v \<Rightarrow> ('k, 'v list) btree \<Rightarrow> ('k, 'v list) btree" where
  "bt_push k v m = bt_insert k ((case bt_get m k of None \<Rightarrow> [] | Some vs \<Rightarrow> vs) @ [v]) m"

definition bt_group :: "('v \<Rightarrow> 'k::linorder) \<Rightarrow> 'v list \<Rightarrow> ('k, 'v list) btree" where
  "bt_group key xs = fold (\<lambda>x. bt_push (key x) x) xs []"

section \<open>Vocabulary\<close>

datatype effect_kind =
    TemporaryStreamAbsence
  | RouteWithdrawal
  | PathReplacement
  | NamedPlaneDeparture
  | NamedPlaneReturn
  | PrependChange
  | MixedRouteChange
  | NoRouteStateChange

text \<open>The derived order of the variants.\<close>

fun effect_rank :: "effect_kind \<Rightarrow> nat" where
  "effect_rank TemporaryStreamAbsence = 0"
| "effect_rank RouteWithdrawal = 1"
| "effect_rank PathReplacement = 2"
| "effect_rank NamedPlaneDeparture = 3"
| "effect_rank NamedPlaneReturn = 4"
| "effect_rank PrependChange = 5"
| "effect_rank MixedRouteChange = 6"
| "effect_rank NoRouteStateChange = 7"

lemma effect_rank_inj: "effect_rank a = effect_rank b \<Longrightarrow> a = b"
  by (cases a; cases b) simp_all

instantiation effect_kind :: linorder
begin

definition less_eq_effect_kind :: "effect_kind \<Rightarrow> effect_kind \<Rightarrow> bool" where
  "less_eq_effect_kind a b = (effect_rank a \<le> effect_rank b)"

definition less_effect_kind :: "effect_kind \<Rightarrow> effect_kind \<Rightarrow> bool" where
  "less_effect_kind a b = (effect_rank a < effect_rank b)"

instance
  by standard (auto simp: less_eq_effect_kind_def less_effect_kind_def intro: effect_rank_inj)

end

fun effect_label :: "effect_kind \<Rightarrow> string" where
  "effect_label TemporaryStreamAbsence = ''TemporaryStreamAbsence''"
| "effect_label RouteWithdrawal = ''RouteWithdrawal''"
| "effect_label PathReplacement = ''PathReplacement''"
| "effect_label NamedPlaneDeparture = ''NamedPlaneDeparture''"
| "effect_label NamedPlaneReturn = ''NamedPlaneReturn''"
| "effect_label PrependChange = ''PrependChange''"
| "effect_label MixedRouteChange = ''MixedRouteChange''"
| "effect_label NoRouteStateChange = ''NoRouteStateChange''"

datatype relationship_kind = Direct | Indirect | Other | Ambiguous

datatype coverage_status = Complete | NoBaselineVisibility | IncompleteCoverage

text \<open>The variant \<open>NoRouteStateChange\<close> of \<open>EndState\<close> is \<open>NoChangeObserved\<close> here, and the variant \<open>None\<close> of
  \<open>CooldownOutcome\<close> is \<open>NoCooldown\<close>.\<close>

datatype end_state =
    BaselineRestored
  | VisibilityRestored
  | StillChangedAtWindowEnd
  | AbsentAtWindowEnd
  | NoChangeObserved
  | Unresolved

datatype cooldown_outcome =
    NoCooldown
  | RestoredAt string
  | StillChangingBeforeAnalysisEnd string
  | NoRestorationBeforeAnalysisEnd string

section \<open>Rows\<close>

text \<open>\<open>StreamLifecycleSummary\<close>, \<open>RunTransitionRecord\<close> and \<open>ObserverSessionMetadata\<close> of \<open>catalog/domain.rs\<close>; of the
  last two, the columns the workbench reads.\<close>

record stream_summary =
  ss_id :: int
  ss_run_id :: int
  ss_collector :: string
  ss_peer_ip :: string
  ss_prefix :: string
  ss_category :: string
  ss_baseline_instances :: int
  ss_max_active_instances :: int
  ss_transition_count :: int
  ss_withdrawn :: bool
  ss_restored :: bool
  ss_transit_state :: string
  ss_add_path_ambiguous :: bool
  ss_evidence_refs :: string
  ss_first_change_utc :: "string option"
  ss_restoration_time_utc :: "string option"

record run_transition =
  tr_kind :: string
  tr_occurred_utc :: string
  tr_collector :: string
  tr_peer_ip :: string
  tr_prefix :: string

record session_metadata =
  sm_collector :: string
  sm_peer_ip :: string
  sm_address_family :: string
  sm_peer_asn :: u32
  sm_valid_from :: string

record collector_location =
  cl_collector :: string
  cl_location :: string
  cl_region :: string

definition location_by_collector :: "collector_location list \<Rightarrow> string \<Rightarrow> collector_location option" where
  "location_by_collector registry collector = find (\<lambda>c. cl_collector c = collector) registry"

definition region_by_collector :: "collector_location list \<Rightarrow> string \<Rightarrow> string" where
  "region_by_collector registry collector =
     (case location_by_collector registry collector of None \<Rightarrow> ''Unknown'' | Some c \<Rightarrow> cl_region c)"

record episode_stream =
  es_prefix :: string
  es_category :: string
  es_withdrawn :: bool
  es_restored :: bool
  es_baseline_instances :: int
  es_max_active_instances :: int
  es_transition_count :: int
  es_add_path_ambiguous :: bool
  es_first_change_utc :: "string option"
  es_restoration_time_utc :: "string option"
  es_evidence_refs :: string

record observer_episode =
  ep_analysis_run :: int
  ep_observer_session :: string
  ep_observer_site :: string
  ep_observer_region :: string
  ep_peer_asn :: "u32 option"
  ep_observed_peer_asns :: "u32 list"
  ep_peer_label :: string
  ep_peer_role :: string
  ep_relationship :: relationship_kind
  ep_named_path_plane :: string
  ep_effect_kind :: effect_kind
  ep_first_change :: "string option"
  ep_last_change :: "string option"
  ep_restoration_start :: "string option"
  ep_restoration_end :: "string option"
  ep_baseline_stream_count :: nat
  ep_changed_stream_count :: nat
  ep_restored_stream_count :: nat
  ep_distinct_prefix_count :: nat
  ep_route_instance_count :: nat
  ep_unresolved_count :: nat
  ep_transition_count :: nat
  ep_end_state :: end_state
  ep_cooldown_outcome :: cooldown_outcome
  ep_coverage_status :: coverage_status
  ep_representative_evidence :: string
  ep_streams :: "episode_stream list"

section \<open>Sessions\<close>

record session_key =
  sk_source_family :: string
  sk_collector :: string
  sk_peer_ip :: string
  sk_address_family :: string

definition address_family_of :: "string \<Rightarrow> string" where
  "address_family_of peer_ip = (if CHR '':'' \<in> set peer_ip then ''ipv6'' else ''ipv4'')"

text \<open>\<open>str::split_once\<close> at the first occurrence of a separator.\<close>

fun split_once :: "string \<Rightarrow> string \<Rightarrow> (string \<times> string) option" where
  "split_once p [] = (if p = [] then Some ([], []) else None)"
| "split_once p (c # s) =
     (if starts_with p (c # s) then Some ([], drop (length p) (c # s))
      else map_option (\<lambda>(a, b). (c # a, b)) (split_once p s))"

definition session_key_of :: "string \<Rightarrow> session_key" where
  "session_key_of observer_session =
     (let (family, rest) = (case split_once ''/'' observer_session of Some fr \<Rightarrow> fr | None \<Rightarrow> ([], observer_session));
          (collector, peer_ip) = (case split_once '' peer '' rest of Some cp \<Rightarrow> cp | None \<Rightarrow> (rest, []))
      in \<lparr>sk_source_family = family, sk_collector = collector, sk_peer_ip = peer_ip,
          sk_address_family = address_family_of peer_ip\<rparr>)"

definition collector_from_session :: "string \<Rightarrow> string" where
  "collector_from_session session =
     (case split_once ''/'' session of
        Some (_, rest) \<Rightarrow> (case split_once '' peer '' rest of Some (c, _) \<Rightarrow> c | None \<Rightarrow> rest)
      | None \<Rightarrow> session)"

definition family_from_session :: "string \<Rightarrow> string" where
  "family_from_session session = (case split_once ''/'' session of Some (f, _) \<Rightarrow> f | None \<Rightarrow> [])"

definition relationship_of :: "session_relationship list \<Rightarrow> relationship_kind" where
  "relationship_of rels =
     (if rels = [] then Ambiguous
      else if list_ex (\<lambda>r. case r of DirectPeerToNamedPlane _ \<Rightarrow> True | _ \<Rightarrow> False) rels then Direct
      else if list_ex (\<lambda>r. case r of IndirectPathViaNamedPlane _ \<Rightarrow> True | _ \<Rightarrow> False) rels then Indirect
      else Other)"

definition classify_session_relationship :: "service_plane_profile \<Rightarrow> u32 \<Rightarrow> u32 list list \<Rightarrow> relationship_kind" where
  "classify_session_relationship profile peer_asn as_paths =
     relationship_of (fold (\<lambda>path rels. fold (\<lambda>rel rels. if rel \<in> set rels then rels else rels @ [rel])
       (classify_route profile peer_asn path) rels) as_paths [])"

section \<open>Effects and end states\<close>

definition stream_effect_kind :: "stream_summary \<Rightarrow> effect_kind" where
  "stream_effect_kind stream =
     (let withdrawn_unresolved = ss_withdrawn stream \<and> \<not> ss_restored stream;
          temporary_absence = ss_withdrawn stream \<and> ss_restored stream;
          departed = ss_transit_state stream = ''departed'' \<or> ss_transit_state stream = ''left'';
          returned = ss_transit_state stream = ''returned'';
          prepend = ss_category stream = ''PrependOnly'';
          path_changed = ss_category stream = ''PathChangedStillViaTransit''
            \<or> ss_category stream = ''GenericPathChange'' \<or> 0 < ss_transition_count stream
      in if withdrawn_unresolved then RouteWithdrawal
         else if temporary_absence then TemporaryStreamAbsence
         else if departed then NamedPlaneDeparture
         else if returned then NamedPlaneReturn
         else if prepend then PrependChange
         else if path_changed then PathReplacement
         else NoRouteStateChange)"

definition derive_end_state :: "effect_kind \<Rightarrow> nat \<Rightarrow> nat \<Rightarrow> stream_summary list \<Rightarrow> end_state" where
  "derive_end_state kind changed_count restored_count members =
     (if kind = NoRouteStateChange \<or> changed_count = 0 then NoChangeObserved
      else if list_ex ss_add_path_ambiguous members then Unresolved
      else let all_restored = (restored_count = changed_count)
        in if kind = TemporaryStreamAbsence \<or> kind = RouteWithdrawal
           then let any_withdrawn_unrestored = list_ex (\<lambda>s. ss_withdrawn s \<and> \<not> ss_restored s) members
             in if all_restored then VisibilityRestored
                else if any_withdrawn_unrestored \<and> restored_count = 0 then AbsentAtWindowEnd
                else StillChangedAtWindowEnd
           else if all_restored then BaselineRestored else StillChangedAtWindowEnd)"

text \<open>\<open>Iterator::max\<close> of a list of strings.\<close>

definition max_string :: "string list \<Rightarrow> string option" where
  "max_string xs = (if xs = [] then None else Some (fold max (tl xs) (hd xs)))"

definition in_cooldown :: "observer_episode \<Rightarrow> string \<Rightarrow> string \<Rightarrow> run_transition \<Rightarrow> bool" where
  "in_cooldown episode window_end analysis_end t =
     (let session = session_key_of (ep_observer_session episode)
      in tr_collector t = sk_collector session \<and> tr_peer_ip t = sk_peer_ip session
         \<and> tr_prefix t \<in> set (map es_prefix (ep_streams episode))
         \<and> window_end < tr_occurred_utc t \<and> tr_occurred_utc t \<le> analysis_end)"

definition derive_cooldown_outcome :: "observer_episode \<Rightarrow> run_transition list \<Rightarrow> string \<Rightarrow> string \<Rightarrow> cooldown_outcome" where
  "derive_cooldown_outcome episode transitions window_end analysis_end =
     (if ep_end_state episode = BaselineRestored \<or> ep_end_state episode = VisibilityRestored then NoCooldown
      else if ep_effect_kind episode = NoRouteStateChange then NoCooldown
      else let cooled = filter (in_cooldown episode window_end analysis_end) transitions
        in if cooled = [] then NoRestorationBeforeAnalysisEnd analysis_end
           else case max_string (map tr_occurred_utc (filter (\<lambda>t. tr_kind t = ''ReturnToBaseline'') cooled)) of
               Some t \<Rightarrow> RestoredAt t
             | None \<Rightarrow>
                 (case max_string (map tr_occurred_utc (filter (\<lambda>t. tr_kind t = ''Announcement'') cooled)) of
                    Some t \<Rightarrow> RestoredAt t
                  | None \<Rightarrow> StillChangingBeforeAnalysisEnd
                      (case max_string (map tr_occurred_utc cooled) of Some t \<Rightarrow> t | None \<Rightarrow> analysis_end)))"

section \<open>Episodes\<close>

text \<open>A running minimum and maximum over optional times.\<close>

definition keep_min :: "string \<Rightarrow> string option \<Rightarrow> string option" where
  "keep_min t cur = (case cur of None \<Rightarrow> Some t | Some c \<Rightarrow> if t < c then Some t else cur)"

definition keep_max :: "string \<Rightarrow> string option \<Rightarrow> string option" where
  "keep_max t cur = (case cur of None \<Rightarrow> Some t | Some c \<Rightarrow> if t > c then Some t else cur)"

definition fold_times :: "(string \<Rightarrow> string option \<Rightarrow> string option) \<Rightarrow> string option list \<Rightarrow> string option \<Rightarrow> string option" where
  "fold_times keep ts = fold (\<lambda>t cur. case t of None \<Rightarrow> cur | Some s \<Rightarrow> keep s cur) ts"

text \<open>The observed AS numbers of a session: sorted, without repetition.\<close>

definition observed_asns :: "session_metadata list \<Rightarrow> string \<Rightarrow> string \<Rightarrow> string \<Rightarrow> u32 list" where
  "observed_asns metadata collector peer_ip window_end =
     remdups_adj (sort (map sm_peer_asn (filter
       (\<lambda>m. sm_collector m = collector \<and> sm_peer_ip m = peer_ip \<and> sm_address_family m = address_family_of peer_ip
          \<and> sm_valid_from m \<le> window_end) metadata)))"

definition stream_changed :: "stream_summary \<Rightarrow> bool" where
  "stream_changed s \<longleftrightarrow> 0 < ss_transition_count s \<or> ss_withdrawn s \<or> ss_category s \<noteq> ''Unchanged''"

definition episode_stream_of :: "stream_summary \<Rightarrow> episode_stream" where
  "episode_stream_of s =
     \<lparr>es_prefix = ss_prefix s, es_category = ss_category s, es_withdrawn = ss_withdrawn s, es_restored = ss_restored s,
      es_baseline_instances = ss_baseline_instances s, es_max_active_instances = ss_max_active_instances s,
      es_transition_count = ss_transition_count s, es_add_path_ambiguous = ss_add_path_ambiguous s,
      es_first_change_utc = ss_first_change_utc s, es_restoration_time_utc = ss_restoration_time_utc s,
      es_evidence_refs = ss_evidence_refs s\<rparr>"

type_synonym session_peers = "(string \<times> string, u32 \<times> string \<times> string \<times> relationship_kind) btree"

text \<open>The body of the loop over the groups. The first and the last change are taken over the times of
  the members and then over every transition of the session.\<close>

definition build_episode ::
    "int \<Rightarrow> string \<Rightarrow> run_transition list \<Rightarrow> collector_location list \<Rightarrow> session_peers \<Rightarrow> string \<Rightarrow> session_metadata list \<Rightarrow> string
       \<Rightarrow> (string \<times> string \<times> effect_kind) \<times> stream_summary list \<Rightarrow> observer_episode" where
  "build_episode run_id family transitions registry session_peers named_path_plane metadata window_end = (\<lambda>((collector, peer_ip, kind), members).
     let (peer_asn, peer_label, peer_role, relationship) =
           (case bt_get session_peers (collector, peer_ip) of
              Some (asn, label, role, rel) \<Rightarrow> (Some asn, label, role, rel)
            | None \<Rightarrow> (None, ''unreviewed peer'', ''unreviewed'', Ambiguous));
         session_transitions = filter (\<lambda>t. tr_collector t = collector \<and> tr_peer_ip t = peer_ip) transitions;
         session_times = map (Some \<circ> tr_occurred_utc) session_transitions;
         first_change = fold_times keep_min (map ss_first_change_utc members @ session_times) None;
         last_change = fold_times keep_max
           (concat (map (\<lambda>s. [ss_first_change_utc s, ss_restoration_time_utc s]) members) @ session_times) None;
         changed = filter stream_changed members;
         restored_count = length (filter (\<lambda>s. ss_restoration_time_utc s \<noteq> None) changed)
     in \<lparr>ep_analysis_run = run_id,
         ep_observer_session = family @ ''/'' @ collector @ '' peer '' @ peer_ip,
         ep_observer_site = (case location_by_collector registry collector of None \<Rightarrow> collector | Some c \<Rightarrow> cl_location c),
         ep_observer_region = region_by_collector registry collector,
         ep_peer_asn = peer_asn, ep_observed_peer_asns = observed_asns metadata collector peer_ip window_end,
         ep_peer_label = peer_label, ep_peer_role = peer_role, ep_relationship = relationship,
         ep_named_path_plane = named_path_plane, ep_effect_kind = kind,
         ep_first_change = first_change, ep_last_change = last_change,
         ep_restoration_start = fold_times keep_min (map ss_restoration_time_utc members) None,
         ep_restoration_end = fold_times keep_max (map ss_restoration_time_utc members) None,
         ep_baseline_stream_count = length members, ep_changed_stream_count = length changed,
         ep_restored_stream_count = restored_count,
         ep_distinct_prefix_count = length (remdups (map ss_prefix changed)),
         ep_route_instance_count = sum_list (map (\<lambda>s. nat (max (ss_max_active_instances s) 1)) changed),
         ep_unresolved_count = length (filter (\<lambda>s. (ss_withdrawn s \<and> \<not> ss_restored s) \<or> ss_add_path_ambiguous s) members),
         ep_transition_count = length session_transitions,
         ep_end_state = derive_end_state kind (length changed) restored_count members,
         ep_cooldown_outcome = NoCooldown, ep_coverage_status = Complete,
         ep_representative_evidence = [],
         ep_streams = map episode_stream_of members\<rparr>)"

text \<open>The comparison of two episodes puts the changed ones first and then compares four fields; an
  unknown AS number counts as the largest.\<close>

definition episode_order :: "observer_episode \<Rightarrow> bool \<times> string option \<times> string \<times> string \<times> u32" where
  "episode_order e = (ep_effect_kind e = NoRouteStateChange, ep_first_change e, ep_observer_region e, ep_observer_site e,
     case ep_peer_asn e of None \<Rightarrow> - 1 | Some a \<Rightarrow> a)"

definition build_episodes_with_metadata ::
    "int \<Rightarrow> string \<Rightarrow> stream_summary list \<Rightarrow> run_transition list \<Rightarrow> collector_location list \<Rightarrow> session_peers \<Rightarrow> string
       \<Rightarrow> session_metadata list \<Rightarrow> string \<Rightarrow> observer_episode list" where
  "build_episodes_with_metadata run_id family streams transitions registry session_peers named_path_plane metadata window_end =
     sort_key episode_order
       (map (build_episode run_id family transitions registry session_peers named_path_plane metadata window_end)
         (bt_group (\<lambda>s. (ss_collector s, ss_peer_ip s, stream_effect_kind s)) streams))"

definition build_episodes ::
    "int \<Rightarrow> string \<Rightarrow> stream_summary list \<Rightarrow> run_transition list \<Rightarrow> collector_location list \<Rightarrow> session_peers \<Rightarrow> string
       \<Rightarrow> observer_episode list" where
  "build_episodes run_id family streams transitions registry session_peers named_path_plane =
     build_episodes_with_metadata run_id family streams transitions registry session_peers named_path_plane [] []"

section \<open>Facts about grouping\<close>

lemma bt_group_snoc: "bt_group key (xs @ [x]) = bt_push (key x) x (bt_group key xs)"
  by (simp add: bt_group_def)

lemma bt_ok_group: "bt_ok (bt_group key xs)"
proof (induction xs rule: rev_induct)
  case Nil
  show ?case by (simp add: bt_group_def bt_ok_def)
qed (simp add: bt_group_snoc bt_push_def bt_ok_insert)

lemma bt_get_group:
  "bt_get (bt_group key xs) k = (if k \<in> key ` set xs then Some (filter (\<lambda>x. key x = k) xs) else None)"
proof (induction xs rule: rev_induct)
  case Nil
  show ?case by (simp add: bt_group_def bt_get_def)
next
  case (snoc x xs)
  have "filter (\<lambda>x. key x = k) xs = []" if "k \<notin> key ` set xs"
    using that by (auto simp: filter_empty_conv)
  then show ?case
    using snoc.IH by (auto simp: bt_group_snoc bt_push_def bt_get_insert [OF bt_ok_group])
qed

lemma bt_ok_eq_map:
  assumes "bt_ok m"
  shows "m = map (\<lambda>k. (k, the (bt_get m k))) (map fst m)"
proof -
  have "distinct (map fst m)"
    using assms by (simp add: bt_ok_def strict_sorted_iff)
  then show ?thesis
    using map_idI [of m "\<lambda>p. (fst p, the (bt_get m (fst p)))"] by (auto simp: bt_get_def comp_def)
qed

text \<open>The groups are the fibres of the key, in the order of the keys.\<close>

lemma bt_group_eq:
  "bt_group key xs = map (\<lambda>k. (k, filter (\<lambda>x. key x = k) xs)) (sorted_list_of_set (key ` set xs))"
proof -
  let ?m = "bt_group key xs"
  have "dom (bt_get ?m) = key ` set xs"
    by (auto simp: dom_def bt_get_group)
  then have dom: "set (map fst ?m) = key ` set xs"
    by (simp add: bt_get_def dom_map_of_conv_image_fst)
  have keys: "map fst ?m = sorted_list_of_set (key ` set xs)"
    using bt_ok_group [of key xs] dom by (metis bt_ok_def sorted_list_of_set.idem_if_sorted_distinct strict_sorted_iff)
  show ?thesis
    by (subst bt_ok_eq_map [OF bt_ok_group], unfold keys) (auto simp: bt_get_group)
qed

lemma mset_fibres:
  assumes "finite K" "key ` set xs \<subseteq> K"
  shows "(\<Sum>k \<in> K. mset (filter (\<lambda>x. key x = k) xs)) = mset xs"
  using assms
proof (induction xs)
  case (Cons x xs)
  have "(\<Sum>k \<in> K. mset (filter (\<lambda>x. key x = k) (x # xs)))
      = (\<Sum>k \<in> K. (if k = key x then {#x#} else {#}) + mset (filter (\<lambda>x. key x = k) xs))"
    by (intro sum.cong) auto
  also have "\<dots> = {#x#} + mset xs"
    using Cons by (simp add: sum.distrib sum.delta)
  finally show ?case by simp
qed simp

lemma mset_bt_group: "mset (concat (map snd (bt_group key xs))) = mset xs"
proof -
  have "mset (concat (map snd (bt_group key xs)))
      = (\<Sum>k \<leftarrow> sorted_list_of_set (key ` set xs). mset (filter (\<lambda>x. key x = k) xs))"
    by (simp add: bt_group_eq mset_concat comp_def)
  also have "\<dots> = (\<Sum>k \<in> key ` set xs. mset (filter (\<lambda>x. key x = k) xs))"
    by (simp add: sum_list_distinct_conv_sum_set)
  finally show ?thesis
    using mset_fibres [of "key ` set xs" key xs] by simp
qed

lemma mset_concat_sum: "mset (concat (map f xs)) = (\<Sum>x \<in># mset xs. mset (f x))"
  by (induction xs) simp_all

section \<open>Facts about episodes\<close>

abbreviation episode_key :: "stream_summary \<Rightarrow> string \<times> string \<times> effect_kind" where
  "episode_key s \<equiv> (ss_collector s, ss_peer_ip s, stream_effect_kind s)"

lemma build_episode_fields:
  "ep_streams (build_episode r f ts reg sp pl md we (k, ms)) = map episode_stream_of ms"
  "ep_baseline_stream_count (build_episode r f ts reg sp pl md we (k, ms)) = length ms"
  "ep_effect_kind (build_episode r f ts reg sp pl md we (k, ms)) = snd (snd k)"
  "ep_changed_stream_count (build_episode r f ts reg sp pl md we (k, ms)) = length (filter stream_changed ms)"
  "ep_restored_stream_count (build_episode r f ts reg sp pl md we (k, ms))
     = length (filter (\<lambda>s. ss_restoration_time_utc s \<noteq> None) (filter stream_changed ms))"
  "ep_end_state (build_episode r f ts reg sp pl md we (k, ms))
     = derive_end_state (snd (snd k)) (length (filter stream_changed ms))
         (length (filter (\<lambda>s. ss_restoration_time_utc s \<noteq> None) (filter stream_changed ms))) ms"
  by (simp_all add: build_episode_def Let_def split: prod.split option.split)

text \<open>C17: The streams of a run are partitioned into episodes: there is one episode for every observer session
  and effect that occurs, built from exactly the streams of that session with that effect, so no
  stream is lost or counted twice. The changed episodes come first.\<close>

theorem episodes_partition_streams:
  fixes run_id family streams transitions registry session_peers plane metadata window_end
  defines "build \<equiv> build_episode run_id family transitions registry session_peers plane metadata window_end"
    and "eps \<equiv> build_episodes_with_metadata run_id family streams transitions registry session_peers plane metadata window_end"
  shows "mset eps = mset (map (\<lambda>k. build (k, filter (\<lambda>s. episode_key s = k) streams))
           (sorted_list_of_set (episode_key ` set streams)))
    \<and> mset (concat (map ep_streams eps)) = mset (map episode_stream_of streams)
    \<and> sum_list (map ep_baseline_stream_count eps) = length streams
    \<and> sorted (map episode_order eps)"
proof -
  let ?groups = "bt_group episode_key streams"
  have eps: "mset eps = mset (map build ?groups)"
    by (simp add: eps_def build_def build_episodes_with_metadata_def)
  have build_streams: "ep_streams (build g) = map episode_stream_of (snd g)" for g
    by (cases g) (simp only: build_def build_episode_fields snd_conv)
  have "mset (concat (map ep_streams eps)) = mset (concat (map ep_streams (map build ?groups)))"
    by (simp only: mset_concat_sum eps)
  also have "\<dots> = mset (concat (map (\<lambda>g. map episode_stream_of (snd g)) ?groups))"
    using build_streams by (simp add: comp_def)
  also have "\<dots> = image_mset episode_stream_of (mset (concat (map snd ?groups)))"
    by (simp add: map_concat comp_def flip: mset_map)
  finally have streams: "mset (concat (map ep_streams eps)) = mset (map episode_stream_of streams)"
    by (simp add: mset_bt_group)
  have counts: "map ep_baseline_stream_count eps = map (length \<circ> ep_streams) eps"
  proof (rule map_cong [OF refl])
    fix e
    assume "e \<in> set eps"
    then obtain g where "e = build g"
      using arg_cong [OF eps, of set_mset] by auto
    then show "ep_baseline_stream_count e = (length \<circ> ep_streams) e"
      by (cases g) (simp add: build_def build_episode_fields)
  qed
  have "sum_list (map ep_baseline_stream_count eps) = length (concat (map ep_streams eps))"
    unfolding counts by (simp add: length_concat comp_def)
  also have "\<dots> = length streams"
    using arg_cong [OF streams, of size] by simp
  finally show ?thesis
    using eps streams unfolding bt_group_eq by (simp add: comp_def)
      (simp add: eps_def build_episodes_with_metadata_def)
qed

lemma build_episodes_cases:
  assumes "e \<in> set (build_episodes_with_metadata run_id family streams transitions registry session_peers plane metadata window_end)"
  obtains collector peer_ip kind where
    "e = build_episode run_id family transitions registry session_peers plane metadata window_end
       ((collector, peer_ip, kind), filter (\<lambda>s. episode_key s = (collector, peer_ip, kind)) streams)"
    "\<exists>s \<in> set streams. episode_key s = (collector, peer_ip, kind)"
  using assms unfolding build_episodes_with_metadata_def bt_group_eq by force

text \<open>An episode is reported as restored exactly when it is a change, none of its streams is ambiguous and
  every changed stream has a restoration time; the class of the restoration follows the effect.\<close>

theorem restored_end_state_exact:
  "derive_end_state kind changed_count restored_count members \<in> {BaselineRestored, VisibilityRestored}
     \<longleftrightarrow> kind \<noteq> NoRouteStateChange \<and> 0 < changed_count \<and> \<not> list_ex ss_add_path_ambiguous members \<and> restored_count = changed_count"
  "derive_end_state kind changed_count restored_count members = VisibilityRestored
     \<Longrightarrow> kind \<in> {TemporaryStreamAbsence, RouteWithdrawal}"
  "derive_end_state kind changed_count restored_count members = AbsentAtWindowEnd
     \<Longrightarrow> restored_count = 0 \<and> (\<exists>s \<in> set members. ss_withdrawn s \<and> \<not> ss_restored s)"
  by (auto simp: derive_end_state_def Let_def list_ex_iff split: if_splits)

lemma fold_times_append: "fold_times keep (xs @ ys) acc = fold_times keep ys (fold_times keep xs acc)"
  by (simp add: fold_times_def)

lemma fold_keep_min_Some:
  "fold_times keep_min ts (Some c) = Some (fold min (List.map_filter (\<lambda>t. t) ts) c)"
  by (induction ts arbitrary: c) (auto simp: fold_times_def keep_min_def min_def map_filter_simps split: option.split)

lemma fold_keep_max_Some:
  "fold_times keep_max ts (Some c) = Some (fold max (List.map_filter (\<lambda>t. t) ts) c)"
  by (induction ts arbitrary: c) (auto simp: fold_times_def keep_max_def max_def map_filter_simps split: option.split)

lemma fold_times_None_iff:
  assumes "keep \<in> {keep_min, keep_max}"
  shows "fold_times keep ts None = None \<longleftrightarrow> (\<forall>t \<in> set ts. t = None)"
proof (induction ts)
  case (Cons t ts)
  have "fold_times keep ts (Some c) \<noteq> None" for c
    using assms by (auto simp: fold_keep_min_Some fold_keep_max_Some)
  then show ?case
    using Cons assms by (cases t) (auto simp: fold_times_def keep_min_def keep_max_def)
qed (simp add: fold_times_def)

lemmas fold_times_None = fold_times_None_iff [of keep_min, simplified] fold_times_None_iff [of keep_max, simplified]

text \<open>The first change of an episode is documented as the first change in the episode; it is taken over
  every transition of the session. An episode whose streams did not change at all carries a change
  time as soon as any other stream of its session changed.\<close>

theorem unchanged_episode_has_change_time:
  assumes "e \<in> set (build_episodes_with_metadata run_id family streams transitions registry session_peers plane metadata window_end)"
    and "ep_effect_kind e = NoRouteStateChange" and "0 < ep_transition_count e"
  shows "ep_first_change e \<noteq> None \<and> ep_last_change e \<noteq> None \<and> ep_end_state e = NoChangeObserved"
proof -
  obtain collector peer_ip kind where e: "e = build_episode run_id family transitions registry session_peers plane metadata window_end
       ((collector, peer_ip, kind), filter (\<lambda>s. episode_key s = (collector, peer_ip, kind)) streams)"
    using build_episodes_cases [OF assms(1)] by blast
  then have "filter (\<lambda>t. tr_collector t = collector \<and> tr_peer_ip t = peer_ip) transitions \<noteq> []"
    using assms(3) by (auto simp: build_episode_def Let_def split: prod.splits)
  then obtain t where t: "t \<in> set transitions" "tr_collector t = collector" "tr_peer_ip t = peer_ip"
    by (auto simp: filter_empty_conv)
  have kind: "kind = NoRouteStateChange"
    using assms(2) unfolding e build_episode_fields by simp
  show ?thesis
    unfolding e build_episode_fields using t kind
    by (auto simp: build_episode_def Let_def fold_times_None derive_end_state_def simp del: not_None_eq split: prod.split)
qed

text \<open>The cooldown of an open episode: it is restored at the latest return to baseline after the window,
  else at the latest announcement, and never otherwise; only transitions of its own session and
  prefixes between the window end and the analysis end count.\<close>

lemma max_string_Some: "max_string xs = Some m \<longleftrightarrow> m \<in> set xs \<and> (\<forall>x \<in> set xs. x \<le> m)"
proof (cases xs)
  case (Cons y ys)
  have "fold max ys y = Max (set (y # ys))"
    by (rule Max.set_eq_fold [symmetric])
  then show ?thesis
    unfolding Cons max_string_def
    using Max_eq_iff [of "set (y # ys)" m] by auto
qed (simp add: max_string_def)

lemma max_string_None [simp]: "max_string xs = None \<longleftrightarrow> xs = []"
  by (simp add: max_string_def)

theorem cooldown_outcome_exact:
  fixes e ts window_end analysis_end
  defines "cooled kind \<equiv> {tr_occurred_utc t |t. t \<in> set ts \<and> in_cooldown e window_end analysis_end t \<and> tr_kind t = kind}"
  assumes "ep_end_state e \<notin> {BaselineRestored, VisibilityRestored}" "ep_effect_kind e \<noteq> NoRouteStateChange"
  shows "(derive_cooldown_outcome e ts window_end analysis_end = RestoredAt t \<longleftrightarrow>
      (t \<in> cooled ''ReturnToBaseline'' \<and> (\<forall>u \<in> cooled ''ReturnToBaseline''. u \<le> t)
       \<or> cooled ''ReturnToBaseline'' = {} \<and> t \<in> cooled ''Announcement'' \<and> (\<forall>u \<in> cooled ''Announcement''. u \<le> t)))
    \<and> (derive_cooldown_outcome e ts window_end analysis_end = NoRestorationBeforeAnalysisEnd analysis_end \<longleftrightarrow>
      (\<forall>t \<in> set ts. \<not> in_cooldown e window_end analysis_end t))
    \<and> derive_cooldown_outcome e ts window_end analysis_end \<noteq> NoCooldown"
proof (intro conjI)
  let ?c = "filter (in_cooldown e window_end analysis_end) ts"
  define of_kind where "of_kind k = map tr_occurred_utc (filter (\<lambda>t. tr_kind t = k) ?c)" for k
  have set_of: "set (of_kind k) = cooled k" for k
    by (auto simp: of_kind_def cooled_def)
  have empty: "of_kind k = [] \<longleftrightarrow> cooled k = {}" for k
    unfolding set_of [symmetric] by (metis set_empty)
  have out: "derive_cooldown_outcome e ts window_end analysis_end =
      (if ?c = [] then NoRestorationBeforeAnalysisEnd analysis_end
       else case max_string (of_kind ''ReturnToBaseline'') of Some t \<Rightarrow> RestoredAt t
         | None \<Rightarrow> (case max_string (of_kind ''Announcement'') of Some t \<Rightarrow> RestoredAt t
             | None \<Rightarrow> StillChangingBeforeAnalysisEnd (case max_string (map tr_occurred_utc ?c) of Some t \<Rightarrow> t | None \<Rightarrow> analysis_end)))"
    using assms(2,3) unfolding derive_cooldown_outcome_def Let_def of_kind_def by simp
  have none: "?c = [] \<Longrightarrow> cooled k = {}" for k
    by (auto simp: cooled_def filter_empty_conv)
  show "derive_cooldown_outcome e ts window_end analysis_end = RestoredAt t \<longleftrightarrow>
      (t \<in> cooled ''ReturnToBaseline'' \<and> (\<forall>u \<in> cooled ''ReturnToBaseline''. u \<le> t)
       \<or> cooled ''ReturnToBaseline'' = {} \<and> t \<in> cooled ''Announcement'' \<and> (\<forall>u \<in> cooled ''Announcement''. u \<le> t))"
    unfolding out using none
    by (cases "?c = []"; cases "cooled ''ReturnToBaseline'' = {}"; cases "cooled ''Announcement'' = {}")
      (auto simp: max_string_Some set_of empty split: option.split intro: antisym)
  show "derive_cooldown_outcome e ts window_end analysis_end = NoRestorationBeforeAnalysisEnd analysis_end \<longleftrightarrow>
      (\<forall>t \<in> set ts. \<not> in_cooldown e window_end analysis_end t)"
    unfolding out by (auto simp: filter_empty_conv split: option.split)
  show "derive_cooldown_outcome e ts window_end analysis_end \<noteq> NoCooldown"
    unfolding out by (auto split: option.split)
qed

end
