(* ===== verification/Path_Evidence.thy ===== *)
theory Path_Evidence
  imports Workbench
begin

text \<open>
  Exact path evidence of the workbench, \<open>catalog/workbench.rs\<close>: reviewed AS identities, the evidence a
  stream's lifecycle gives, the text of a path, and the comparison of two paths. Reading the files and
  their JSON is left out: an entry of \<open>lifecycle.json\<close> is a record with its fields present.
\<close>

section \<open>Identities\<close>

record asn_identity =
  ai_asn :: u32
  ai_display_name :: string
  ai_role :: string
  ai_valid_from :: "string option"
  ai_valid_to :: "string option"
  ai_provenance :: string
  ai_review_status :: string

definition valid_at :: "asn_identity \<Rightarrow> string \<Rightarrow> bool" where
  "valid_at i date =
     ((case ai_valid_from i of Some from \<Rightarrow> \<not> date < from | None \<Rightarrow> True)
      \<and> (case ai_valid_to i of Some to \<Rightarrow> \<not> date > to | None \<Rightarrow> True))"

definition has_display_name :: "asn_identity \<Rightarrow> bool" where
  "has_display_name i = (ai_review_status i = ''HistoricallyReviewed'' \<or> ai_review_status i = ''CurrentIdentityOnly'')"

text \<open>\<open>Vec::dedup_by_key\<close>: of adjacent elements with the same key the first stays.\<close>

fun dedup_adjacent :: "('a \<Rightarrow> 'k) \<Rightarrow> 'a list \<Rightarrow> 'a list" where
  "dedup_adjacent key [] = []"
| "dedup_adjacent key [x] = [x]"
| "dedup_adjacent key (x # y # xs) = (if key x = key y then dedup_adjacent key (x # xs) else x # dedup_adjacent key (y # xs))"

definition load_identities :: "asn_identity list \<Rightarrow> asn_identity list" where
  "load_identities rows = dedup_adjacent ai_asn (sort_key ai_asn rows)"

definition identity_lookup :: "asn_identity list \<Rightarrow> u32 \<Rightarrow> string \<Rightarrow> asn_identity option" where
  "identity_lookup registry asn date = find (\<lambda>i. ai_asn i = asn \<and> valid_at i date) registry"

definition display_name :: "asn_identity list \<Rightarrow> u32 \<Rightarrow> string \<Rightarrow> string option" where
  "display_name registry asn date =
     (case identity_lookup registry asn date of
        None \<Rightarrow> None | Some i \<Rightarrow> if has_display_name i then Some (ai_display_name i) else None)"

definition identity_role :: "asn_identity list \<Rightarrow> u32 \<Rightarrow> string \<Rightarrow> string option" where
  "identity_role registry asn date =
     (case identity_lookup registry asn date of
        None \<Rightarrow> None | Some i \<Rightarrow> if has_display_name i then Some (ai_role i) else None)"

definition primary_display_name :: "asn_identity list \<Rightarrow> u32 \<Rightarrow> string \<Rightarrow> string option" where
  "primary_display_name registry asn date =
     (case identity_lookup registry asn date of
        None \<Rightarrow> None | Some i \<Rightarrow> if ai_review_status i = ''HistoricallyReviewed'' then Some (ai_display_name i) else None)"

definition identity_status :: "asn_identity list \<Rightarrow> u32 \<Rightarrow> string \<Rightarrow> string" where
  "identity_status registry asn date =
     (case identity_lookup registry asn date of
        None \<Rightarrow> ''Unresolved''
      | Some i \<Rightarrow> if ai_review_status i \<in> {''CurrentIdentityOnly'', ''HistoricallyReviewed'', ''Conflicting''}
                  then ai_review_status i else ''Unresolved'')"

definition merge_identities :: "asn_identity list \<Rightarrow> asn_identity list \<Rightarrow> asn_identity list" where
  "merge_identities registry other =
     sort_key ai_asn (fold (\<lambda>i own. if list_ex (\<lambda>o'. ai_asn o' = ai_asn i) own then own else own @ [i]) other registry)"

section \<open>Evidence of one stream\<close>

record path_transition =
  pt_timestamp :: string
  pt_kind :: string
  pt_before_path :: "u32 list"
  pt_after_path :: "u32 list"

record stream_path_evidence =
  pe_transitions :: "path_transition list"
  pe_baseline_path :: "u32 list"
  pe_changed_path :: "u32 list option"
  pe_final_path :: "u32 list option"
  pe_visibility_restored_at :: "string option"
  pe_equivalent_route_restored_at :: "string option"
  pe_reviewed_plane_restored_at :: "string option"
  pe_exact_baseline_restored_at :: "string option"

record lifecycle_entry =
  le_collector :: string
  le_peer_ip :: string
  le_prefix :: string
  le_baseline_path :: "u32 list"
  le_transitions :: "path_transition list"
  le_restoration_time :: "string option"

definition change_baseline :: "lifecycle_entry \<Rightarrow> u32 list" where
  "change_baseline lc =
     (let first_before = (case le_transitions lc of [] \<Rightarrow> [] | t # _ \<Rightarrow> pt_before_path t)
      in if first_before \<noteq> [] then first_before else le_baseline_path lc)"

text \<open>The loop that finds the first path that is not the baseline, and the last path.\<close>

definition note_paths :: "u32 list \<Rightarrow> path_transition \<Rightarrow> u32 list option \<times> u32 list option \<Rightarrow> u32 list option \<times> u32 list option" where
  "note_paths baseline t = (\<lambda>(changed, final).
     let after = pt_after_path t
     in if after = [] then (changed, final)
        else (if changed = None \<and> after \<noteq> baseline then Some after else changed, Some after))"

text \<open>The loop that finds the restoration times.\<close>

record restoration_scan =
  rn_plane_present :: bool
  rn_prev_after :: "u32 list option"
  rn_visibility :: "string option"
  rn_plane :: "string option"
  rn_baseline :: "string option"

definition plane_contains :: "u32 list \<Rightarrow> u32 list \<Rightarrow> bool" where
  "plane_contains run_plane path = list_ex (\<lambda>p. p \<in> set path) run_plane"

definition note_restoration :: "u32 list \<Rightarrow> path_transition \<Rightarrow> restoration_scan \<Rightarrow> restoration_scan" where
  "note_restoration run_plane t r =
     (let after = pt_after_path t; ts = pt_timestamp t; after_has_plane = plane_contains run_plane after
      in if after = [] then r\<lparr>rn_prev_after := Some after\<rparr>
         else r\<lparr>rn_baseline := (if pt_kind t = ''ReturnToBaseline'' then Some ts else rn_baseline r),
                rn_visibility := (if pt_kind t = ''Announcement'' \<and> (case rn_prev_after r of None \<Rightarrow> False | Some p \<Rightarrow> p \<noteq> [])
                                  then Some ts else rn_visibility r),
                rn_plane := (if \<not> rn_plane_present r \<and> after_has_plane \<and> rn_plane r = None then Some ts else rn_plane r),
                rn_plane_present := after_has_plane, rn_prev_after := Some after\<rparr>)"

definition stream_evidence :: "u32 list \<Rightarrow> lifecycle_entry \<Rightarrow> stream_path_evidence" where
  "stream_evidence run_plane lc =
     (let baseline = change_baseline lc;
          (changed, final) = fold (note_paths baseline) (le_transitions lc) (None, None);
          r = fold (note_restoration run_plane) (le_transitions lc)
                \<lparr>rn_plane_present = plane_contains run_plane baseline, rn_prev_after = None, rn_visibility = None,
                 rn_plane = None, rn_baseline = None\<rparr>
      in \<lparr>pe_transitions = le_transitions lc, pe_baseline_path = baseline, pe_changed_path = changed, pe_final_path = final,
          pe_visibility_restored_at = (case le_restoration_time lc of Some rt \<Rightarrow> Some rt | None \<Rightarrow> rn_visibility r),
          pe_equivalent_route_restored_at =
            (case le_restoration_time lc of
               None \<Rightarrow> None
             | Some rt \<Rightarrow> if changed \<noteq> Some baseline \<and> (case rn_baseline r of None \<Rightarrow> True | Some t \<Rightarrow> t > rt)
                          then Some rt else None),
          pe_reviewed_plane_restored_at = rn_plane r, pe_exact_baseline_restored_at = rn_baseline r\<rparr>)"

text \<open>The index: by run, then by collector, peer and prefix; a later entry replaces an earlier one.\<close>

type_synonym lifecycle_path_index = "string \<Rightarrow> (string \<times> string \<times> string \<Rightarrow> stream_path_evidence option) option"

definition index_run :: "(string \<Rightarrow> u32 list option) \<Rightarrow> string \<times> lifecycle_entry list \<Rightarrow> lifecycle_path_index \<Rightarrow> lifecycle_path_index" where
  "index_run plane_asns = (\<lambda>(event_id, lifecycles) index.
     let run_plane = (case plane_asns event_id of None \<Rightarrow> [] | Some v \<Rightarrow> v)
     in index(event_id \<mapsto> fold (\<lambda>lc m. m((le_collector lc, le_peer_ip lc, le_prefix lc) \<mapsto> stream_evidence run_plane lc)) lifecycles Map.empty))"

definition path_lookup :: "lifecycle_path_index \<Rightarrow> string \<Rightarrow> string \<Rightarrow> string \<Rightarrow> string \<Rightarrow> stream_path_evidence option" where
  "path_lookup index run_event_id collector peer_ip prefix =
     Option.bind (index run_event_id) (\<lambda>m. m (collector, peer_ip, prefix))"

section \<open>The text of a path\<close>

text \<open>The multiplication sign U+00D7 in UTF-8.\<close>

definition times_utf8 :: string where
  "times_utf8 = [CHR 0xC3, CHR 0x97]"

function path_runs :: "u32 list \<Rightarrow> (u32 \<times> nat) list" where
  "path_runs [] = []"
| "path_runs (a # xs) = (a, 1 + length (takeWhile (\<lambda>x. x = a) xs)) # path_runs (dropWhile (\<lambda>x. x = a) xs)"
  by pat_completeness auto
termination
  by (relation "measure length") (auto simp: length_dropWhile_le le_imp_less_Suc)

definition run_text :: "u32 \<times> nat \<Rightarrow> string" where
  "run_text = (\<lambda>(asn, n). if n > 1 then ''AS'' @ show_u32 asn @ times_utf8 @ show_nat n else ''AS'' @ show_u32 asn)"

definition path_text :: "u32 list \<Rightarrow> string" where
  "path_text path = (if path = [] then dash_utf8 else join '' '' (map run_text (path_runs path)))"

section \<open>Comparing two paths\<close>

record path_diff =
  pd_inserted :: "u32 list"
  pd_removed :: "u32 list"
  pd_count_deltas :: "(u32 \<times> int) list"
  pd_plane_retained :: bool
  pd_plane_departed :: bool
  pd_plane_returned :: bool
  pd_longer :: bool
  pd_shorter :: bool

definition path_count :: "u32 list \<Rightarrow> u32 \<Rightarrow> int" where
  "path_count path asn = int (length (filter (\<lambda>a. a = asn) path))"

definition diff_paths :: "u32 list \<Rightarrow> u32 list \<Rightarrow> u32 list \<Rightarrow> path_diff" where
  "diff_paths before after plane_asns =
     (if after = [] then \<lparr>pd_inserted = [], pd_removed = [], pd_count_deltas = [], pd_plane_retained = False,
        pd_plane_departed = False, pd_plane_returned = False, pd_longer = False, pd_shorter = False\<rparr>
      else
       (let asns = remdups_adj (sort (before @ after));
            before_has_plane = list_ex (\<lambda>p. p \<in> set before) plane_asns;
            after_has_plane = list_ex (\<lambda>p. p \<in> set after) plane_asns
        in \<lparr>pd_inserted = remdups_adj (filter (\<lambda>a. a \<notin> set before) after),
            pd_removed = remdups_adj (filter (\<lambda>a. a \<notin> set after) before),
            pd_count_deltas = map (\<lambda>asn. (asn, path_count after asn - path_count before asn))
              (filter (\<lambda>asn. path_count after asn - path_count before asn \<noteq> 0
                 \<and> (path_count before asn > 1 \<or> path_count after asn > 1)) asns),
            pd_plane_retained = (before_has_plane \<and> after_has_plane),
            pd_plane_departed = (before_has_plane \<and> \<not> after_has_plane),
            pd_plane_returned = (\<not> before_has_plane \<and> after_has_plane),
            pd_longer = (length after > length before),
            pd_shorter = (length after < length before)\<rparr>))"

definition position_text :: "(u32 \<Rightarrow> string) \<Rightarrow> u32 list \<Rightarrow> u32 \<Rightarrow> string option" where
  "position_text names after first =
     (let i = length (takeWhile (\<lambda>a. a \<noteq> first) after)
      in if i < length after \<and> i > 0 \<and> i + 1 < length after \<and> after ! (i - 1) \<noteq> first \<and> after ! (i + 1) \<noteq> first
         then Some (''between '' @ names (after ! (i - 1)) @ '' and '' @ names (after ! (i + 1))) else None)"

definition plane_parts :: "path_diff \<Rightarrow> u32 list \<Rightarrow> u32 list \<Rightarrow> string \<Rightarrow> string list" where
  "plane_parts d after plane_asns plane_label =
     (let plane = (if plane_label = [] then ''the reviewed path plane'' else ''the reviewed '' @ plane_label @ '' path'')
      in if pd_plane_departed d
           then [''the route remained visible, but the new selected path no longer traversed '' @ plane]
         else if pd_plane_retained d
           then [''the route remained visible and continued through '' @ plane
                 @ (case find (\<lambda>p. p \<in> set after) plane_asns of None \<Rightarrow> [] | Some p \<Rightarrow> '' AS'' @ show_u32 p)]
         else if pd_plane_returned d then [''the selected path returned to '' @ plane]
         else [])"

definition membership_parts :: "path_diff \<Rightarrow> u32 list \<Rightarrow> (u32 \<Rightarrow> string) \<Rightarrow> string list" where
  "membership_parts d after names =
     (case pd_inserted d of
        [] \<Rightarrow> []
      | first # rest \<Rightarrow>
          [case position_text names after first of
             Some place \<Rightarrow> names first @ '' appeared '' @ place
           | None \<Rightarrow> names first @ '' appeared in the selected path'']
          @ (if rest \<noteq> [] then [''also '' @ join '', '' (map names rest) @ '' appeared in the selected path''] else []))
     @ map (\<lambda>a. names a @ '' left the selected path'') (pd_removed d)"

definition count_part :: "u32 list \<Rightarrow> u32 list \<Rightarrow> u32 list \<Rightarrow> u32 \<times> int \<Rightarrow> string" where
  "count_part before after target_origins = (\<lambda>(asn, delta).
     let origin = (asn \<in> set target_origins
           \<or> (target_origins = [] \<and> ((after \<noteq> [] \<and> last after = asn) \<or> (before \<noteq> [] \<and> last before = asn))))
     in (if origin then ''origin-AS prepending'' else ''prepending'') @ (if delta > 0 then '' increased'' else '' decreased'')
        @ '' from '' @ show_int (path_count before asn) @ '' to '' @ show_int (path_count after asn)
        @ '' AS'' @ show_u32 asn @ '' occurrences'')"

text \<open>The last part of a sentence with more than one part is joined by \<open>and\<close>.\<close>

fun join_parts :: "string list \<Rightarrow> string" where
  "join_parts [] = []"
| "join_parts [p] = p"
| "join_parts [p, q] = p @ '', and '' @ q"
| "join_parts (p # q # r # ps) = p @ '', '' @ join_parts (q # r # ps)"

definition explain_path_diff_with_origins ::
    "u32 list \<Rightarrow> u32 list \<Rightarrow> u32 list \<Rightarrow> string \<Rightarrow> u32 list \<Rightarrow> (u32 \<Rightarrow> string) \<Rightarrow> string" where
  "explain_path_diff_with_origins before after plane_asns plane_label target_origins names =
     (if after = [] then ''The route was absent between the two observations.''
      else if before = [] then ''The route became visible (no prior path observed).''
      else let d = diff_paths before after plane_asns;
               parts = plane_parts d after plane_asns plane_label @ membership_parts d after names
                 @ map (count_part before after target_origins) (pd_count_deltas d)
                 @ (if pd_longer d then [''the selected path became longer'']
                    else if pd_shorter d then [''the selected path became shorter''] else [])
        in if parts = [] then ''The selected path did not materially change.'' else join_parts parts @ ''.'')"

definition explain_path_diff :: "u32 list \<Rightarrow> u32 list \<Rightarrow> u32 list \<Rightarrow> string \<Rightarrow> (u32 \<Rightarrow> string) \<Rightarrow> string" where
  "explain_path_diff before after plane_asns plane_label names =
     explain_path_diff_with_origins before after plane_asns plane_label [] names"

section \<open>The text of a path determines the path\<close>

lemma parse_digits_append: "parse_digits acc (s @ t) = Option.bind (parse_digits acc s) (\<lambda>a. parse_digits a t)"
  by (induction s arbitrary: acc) (auto split: option.split)

lemma parse_show_nat: "parse_digits 0 (show_nat n) = Some n"
  unfolding show_nat_def
proof (induction n rule: less_induct)
  case (less n)
  show ?case
  proof (cases "n < 10")
    case True
    then show ?thesis
      by (simp add: show_base.simps digit_val_digit_char)
  next
    case False
    then show ?thesis
      using less.IH [of "n div 10"]
      by (subst show_base.simps) (simp add: parse_digits_append digit_val_digit_char mult.commute)
  qed
qed

lemma show_nat_inject: "show_nat m = show_nat n \<longleftrightarrow> m = n"
  by (metis parse_show_nat option.inject)

lemma show_u32_inject: "show_u32 a = show_u32 b \<longleftrightarrow> a = b"
  by (simp add: show_u32_def show_nat_inject word_unat_eq_iff)

lemma show_nat_digits: "c \<in> set (show_nat n) \<Longrightarrow> 48 \<le> (of_char c :: nat) \<and> (of_char c :: nat) < 58"
  using set_show_base [of 10 c n] by (auto simp: show_nat_def digit_char_decimal)

lemma show_nat_no_sep: "CHR 0xC3 \<notin> set (show_nat n)" "CHR '' '' \<notin> set (show_nat n)"
  using show_nat_digits [of "CHR 0xC3" n] show_nat_digits [of "CHR '' ''" n] by auto

lemma run_text_inject:
  assumes "1 \<le> snd r" "1 \<le> snd q" "run_text r = run_text q"
  shows "r = q"
proof -
  obtain a n b m where rq: "r = (a, n)" "q = (b, m)"
    by (cases r; cases q)
  define u where "u = show_nat (unat a)"
  define v where "v = show_nat (unat b)"
  have cut: "takeWhile (\<lambda>c. c \<noteq> CHR 0xC3) (show_nat k @ t) = show_nat k" if "t = [] \<or> hd t = CHR 0xC3" for k t
    using that show_nat_no_sep(1) [of k] by (cases t) (auto simp: takeWhile_tail takeWhile_append2 intro!: takeWhile_eq_all_conv [THEN iffD2])
  have tail_text: "show_u32 c @ (if 1 < k then times_utf8 @ show_nat k else []) = drop 2 (run_text (c, k))" for c k
    by (simp add: run_text_def)
  have eq: "show_u32 a @ (if 1 < n then times_utf8 @ show_nat n else []) = show_u32 b @ (if 1 < m then times_utf8 @ show_nat m else [])"
    unfolding tail_text using assms(3) rq by simp
  have "show_u32 a = show_u32 b"
    using arg_cong [OF eq, of "takeWhile (\<lambda>c. c \<noteq> CHR 0xC3)"] cut unfolding show_u32_def
    by (auto simp: times_utf8_def split: if_splits)
  then show ?thesis
    using eq assms(1,2) rq by (auto simp: show_u32_inject show_nat_inject times_utf8_def split: if_splits)
qed

lemma split_on_join:
  assumes "ts \<noteq> []" "\<forall>t \<in> set ts. c \<notin> set t"
  shows "split_on c (join [c] ts) = ts"
  using assms
proof (induction "[c]" ts rule: join.induct)
  case (3 s t ts)
  then show ?case
    by (simp add: split_on_append_sep)
qed (simp_all add: split_on_no_sep)

lemma path_runs_expand: "concat (map (\<lambda>(a, n). replicate n a) (path_runs p)) = p"
proof (induction p rule: path_runs.induct)
  case (2 a xs)
  have "takeWhile (\<lambda>x. x = a) xs = replicate (length (takeWhile (\<lambda>x. x = a) xs)) a"
    by (rule replicate_eqI) (auto dest: set_takeWhileD)
  then show ?case
    using 2 by simp
qed simp

lemma path_runs_pos: "r \<in> set (path_runs p) \<Longrightarrow> 1 \<le> snd r"
  by (induction p rule: path_runs.induct) auto

lemma path_runs_Nil: "path_runs p = [] \<longleftrightarrow> p = []"
  by (cases p) simp_all

lemma run_text_no_space: "CHR '' '' \<notin> set (run_text r)"
  by (auto simp: run_text_def show_u32_def show_nat_no_sep times_utf8_def split: prod.split)

text \<open>C21: The compact text loses nothing: two paths with the same text are the same path, so the comparisons
  of path signatures that the findings make compare the exact paths.\<close>

theorem path_text_injective: "path_text p = path_text q \<longleftrightarrow> p = q"
proof
  assume eq: "path_text p = path_text q"
  have hd_text: "hd (path_text r) = CHR ''A''" if "r \<noteq> []" for r
    using that by (cases r; cases "path_runs (dropWhile (\<lambda>x. x = hd r) (tl r))")
      (auto simp: path_text_def run_text_def)
  have ne: "p = [] \<longleftrightarrow> q = []"
  proof -
    have "hd (path_text []) \<noteq> CHR ''A''"
      by (simp add: path_text_def dash_utf8_def)
    then show ?thesis
      using eq hd_text by metis
  qed
  show "p = q"
  proof (cases "p = []")
    case False
    have split: "split_on CHR '' '' (path_text r) = map run_text (path_runs r)" if "r \<noteq> []" for r
      using that split_on_join [of "map run_text (path_runs r)" "CHR '' ''"]
      by (auto simp: path_text_def path_runs_Nil run_text_no_space)
    have "map run_text (path_runs p) = map run_text (path_runs q)"
      using split [of p] split [of q] False ne eq by simp
    then have "path_runs p = path_runs q"
      by (rule list.inj_map_strong [rotated]) (rule run_text_inject [OF path_runs_pos path_runs_pos])
    then show ?thesis
      by (metis path_runs_expand)
  qed (use ne in simp)
qed simp

section \<open>What a comparison of paths says\<close>

lemma path_count_mset: "path_count p a = int (count (mset p) a)"
  by (induction p) (auto simp: path_count_def)

text \<open>The comparison is exact as a comparison of multisets: the inserted and removed AS numbers are those of
  one path and not the other, and a count delta is listed for exactly the AS numbers that are repeated
  on one side and whose number of occurrences differs.\<close>

lemma diff_paths_deltas:
  assumes "after \<noteq> []"
  shows "set (pd_count_deltas (diff_paths before after plane))
    = {(a, int (count (mset after) a) - int (count (mset before) a)) |a.
         count (mset after) a \<noteq> count (mset before) a \<and> (1 < count (mset before) a \<or> 1 < count (mset after) a)}"
proof -
  have "a \<in> set before \<or> a \<in> set after" if "1 < count (mset before) a \<or> 1 < count (mset after) a" for a
    using that by (metis count_mset_0_iff not_less_zero)
  then show ?thesis
    using assms by (auto simp: diff_paths_def Let_def path_count_mset)
qed

theorem diff_paths_exact:
  assumes "after \<noteq> []"
  shows "set (pd_inserted (diff_paths before after plane)) = set after - set before
    \<and> set (pd_removed (diff_paths before after plane)) = set before - set after
    \<and> set (pd_count_deltas (diff_paths before after plane))
        = {(a, int (count (mset after) a) - int (count (mset before) a)) |a.
             count (mset after) a \<noteq> count (mset before) a \<and> (1 < count (mset before) a \<or> 1 < count (mset after) a)}
    \<and> (pd_inserted (diff_paths before after plane) = [] \<and> pd_removed (diff_paths before after plane) = []
        \<and> pd_count_deltas (diff_paths before after plane) = [] \<longleftrightarrow> mset before = mset after)"
proof -
  let ?d = "diff_paths before after plane"
  have ins: "set (pd_inserted ?d) = set after - set before"
    using assms by (auto simp: diff_paths_def Let_def)
  have rem: "set (pd_removed ?d) = set before - set after"
    using assms by (auto simp: diff_paths_def Let_def)
  have empty: "pd_inserted ?d = [] \<and> pd_removed ?d = [] \<longleftrightarrow> set before = set after"
    using ins rem by (metis Diff_eq_empty_iff set_empty subset_antisym order_refl)
  have "mset before = mset after" if same: "set before = set after" and none: "pd_count_deltas ?d = []"
  proof (rule multiset_eqI)
    fix a
    have "count (mset before) a = 0 \<longleftrightarrow> count (mset after) a = 0"
      using same by (simp add: count_mset_0_iff)
    moreover have "count (mset after) a = count (mset before) a \<or> \<not> 1 < count (mset before) a \<and> \<not> 1 < count (mset after) a"
      using none diff_paths_deltas [OF assms, of before plane] by auto
    ultimately show "count (mset before) a = count (mset after) a"
      by linarith
  qed
  moreover have "pd_count_deltas ?d = []" if "mset before = mset after"
    using that diff_paths_deltas [OF assms, of before plane] by auto
  ultimately show ?thesis
    using ins rem empty diff_paths_deltas [OF assms, of before plane] mset_eq_setD by blast
qed

text \<open>A comparison that only sees multisets cannot see a reordering: two paths with the same AS numbers in
  another order, none of them of the reviewed plane, are explained as no material change.\<close>

theorem reordered_path_reported_unchanged:
  assumes "mset before = mset after" "before \<noteq> []" "set before \<inter> set plane = {}"
  shows "explain_path_diff before after plane label names = ''The selected path did not materially change.''"
proof -
  have "after \<noteq> []"
    using assms(1,2) by auto
  moreover have "length before = length after" "set before = set after"
    using assms(1) by (auto dest: mset_eq_length mset_eq_setD)
  ultimately show ?thesis
    using diff_paths_exact [of after before plane] assms
    by (auto simp: explain_path_diff_def explain_path_diff_with_origins_def Let_def plane_parts_def membership_parts_def
        diff_paths_def list_ex_iff filter_empty_conv)
qed

text \<open>An AS number that is inserted at two places is listed twice, although the list is documented as
  without repetition: only neighbours are removed.\<close>

lemma inserted_not_deduplicated: "pd_inserted (diff_paths [1] [1, 7, 8, 7] []) = [7, 8, 7]"
  by (simp add: diff_paths_def Let_def)

section \<open>What the evidence says about restorations\<close>

lemma note_paths_changed:
  "fst (fold (note_paths baseline) ts (changed, final)) =
     (case changed of Some c \<Rightarrow> Some c
      | None \<Rightarrow> find (\<lambda>p. p \<noteq> [] \<and> p \<noteq> baseline) (map pt_after_path ts))"
  by (induction ts arbitrary: changed final) (auto simp: note_paths_def Let_def split: option.split)

lemma changed_path_not_baseline: "pe_changed_path (stream_evidence plane lc) \<noteq> Some (pe_baseline_path (stream_evidence plane lc))"
proof -
  have "pe_changed_path (stream_evidence plane lc) = fst (fold (note_paths (change_baseline lc)) (le_transitions lc) (None, None))"
    by (simp add: stream_evidence_def Let_def split: prod.split)
  moreover have "pe_baseline_path (stream_evidence plane lc) = change_baseline lc"
    by (simp add: stream_evidence_def Let_def split: prod.split)
  ultimately show ?thesis
    by (auto simp: note_paths_changed find_Some_iff)
qed

lemma rn_baseline_kinds:
  "\<forall>t \<in> set ts. pt_kind t \<noteq> ''ReturnToBaseline'' \<Longrightarrow> rn_baseline (fold (note_restoration plane) ts r) = rn_baseline r"
  by (induction ts arbitrary: r) (simp_all add: note_restoration_def Let_def)

text \<open>C22: A restored stream none of whose transitions is a return to baseline (the tokenizer gives every
  announcement after an absence the kind \<open>Announcement\<close>) is always reported as restored on an equivalent
  route, which is documented as a path other than the baseline, and never as restored on the exact
  baseline, whatever path was announced: the test that compares the changed path with the baseline
  cannot fail.\<close>

theorem restored_stream_reported_equivalent:
  assumes "le_restoration_time lc = Some rt" "\<forall>t \<in> set (le_transitions lc). pt_kind t \<noteq> ''ReturnToBaseline''"
  shows "pe_equivalent_route_restored_at (stream_evidence plane lc) = Some rt
    \<and> pe_exact_baseline_restored_at (stream_evidence plane lc) = None
    \<and> pe_visibility_restored_at (stream_evidence plane lc) = Some rt"
  using assms changed_path_not_baseline [of plane lc]
  by (auto simp: stream_evidence_def Let_def rn_baseline_kinds split: prod.splits)

definition sample_outage :: lifecycle_entry where
  "sample_outage = \<lparr>le_collector = ''rrc00'', le_peer_ip = ''192.0.2.1'', le_prefix = ''198.51.100.0/24'', le_baseline_path = [64500, 64501],
     le_transitions = [\<lparr>pt_timestamp = ''2019-08-21T16:00:00Z'', pt_kind = ''Withdrawal'', pt_before_path = [64500, 64501], pt_after_path = []\<rparr>,
       \<lparr>pt_timestamp = ''2019-08-21T16:10:00Z'', pt_kind = ''Announcement'', pt_before_path = [], pt_after_path = [64500, 64501]\<rparr>],
     le_restoration_time = Some ''2019-08-21T16:10:00Z''\<rparr>"

text \<open>A stream that came back on exactly its baseline path, and is reported on an equivalent one.\<close>

theorem restored_stream_witness:
  "pe_final_path (stream_evidence [] sample_outage) = Some (pe_baseline_path (stream_evidence [] sample_outage))
    \<and> pe_equivalent_route_restored_at (stream_evidence [] sample_outage) = Some ''2019-08-21T16:10:00Z''
    \<and> pe_exact_baseline_restored_at (stream_evidence [] sample_outage) = None"
proof -
  have "pe_final_path (stream_evidence [] sample_outage) = Some (pe_baseline_path (stream_evidence [] sample_outage))"
    by (simp add: sample_outage_def stream_evidence_def change_baseline_def note_paths_def Let_def)
  then show ?thesis
    using restored_stream_reported_equivalent [of sample_outage "''2019-08-21T16:10:00Z''" "[]"]
    by (simp add: sample_outage_def)
qed

text \<open>Without a restoration time, the visibility of a stream is reported as restored when an announcement
  follows a visible state, and not when it follows an absence; the comment in the source states the
  opposite.\<close>

lemma visibility_of_two:
  assumes "pt_after_path u \<noteq> []" "le_transitions lc = [t, u]" "le_restoration_time lc = None"
  shows "pe_visibility_restored_at (stream_evidence plane lc)
    = (if pt_kind u = ''Announcement'' \<and> pt_after_path t \<noteq> [] then Some (pt_timestamp u) else None)"
  using assms by (auto simp: stream_evidence_def note_restoration_def Let_def split: prod.split)

section \<open>Identities\<close>

lemma set_dedup_adjacent: "set (dedup_adjacent key xs) \<subseteq> set xs"
  by (induction key xs rule: dedup_adjacent.induct) (auto split: if_splits)

lemma dedup_adjacent_sorted:
  fixes key :: "'a \<Rightarrow> 'k::linorder"
  shows "sorted (map key xs) \<Longrightarrow> sorted_wrt (<) (map key (dedup_adjacent key xs)) \<and>
    (\<forall>x \<in> set (dedup_adjacent key xs). find (\<lambda>y. key y = key x) xs = Some x)"
proof (induction key xs rule: dedup_adjacent.induct)
  case (3 key x y xs)
  show ?case
  proof (cases "key x = key y")
    case False
    have "key x < key z" if "z \<in> set (dedup_adjacent key (y # xs))" for z
      using that set_dedup_adjacent [of key "y # xs"] "3.prems" False by fastforce
    then show ?thesis
      using "3.IH"(2) "3.prems" False by (auto dest: less_imp_neq)
  qed (use 3 in auto)
qed simp_all

lemma find_sort_key: "find (\<lambda>y. f y = k) (sort_key f xs) = find (\<lambda>y. f y = k) xs"
proof -
  have hd: "find P ys = (case filter P ys of [] \<Rightarrow> None | y # _ \<Rightarrow> Some y)" for P and ys :: "'a list"
    by (induction ys) auto
  show ?thesis
    by (simp add: hd sort_key_stable)
qed

text \<open>A registry keeps one identity per AS number, the first in the file. A second, reviewed for another
  period, is dropped, so a lookup in that period finds nothing.\<close>

theorem second_period_identity_lost:
  assumes "i \<in> set rows" "ai_asn i = a" "find (\<lambda>j. ai_asn j = a) rows = Some j" "\<not> valid_at j date"
  shows "identity_lookup (load_identities rows) a date = None"
proof -
  have "sorted (map ai_asn (sort_key ai_asn rows))"
    by simp
  note dedup = dedup_adjacent_sorted [OF this]
  have "x = j" if "x \<in> set (load_identities rows)" "ai_asn x = a" for x
    using dedup that assms(3) by (auto simp: load_identities_def find_sort_key)
  then show ?thesis
    using assms(4) by (auto simp: identity_lookup_def find_None_iff)
qed

end
