(* ===== verification/Findings.thy ===== *)
theory Findings
  imports Path_Evidence
begin

text \<open>
  Routing findings of the workbench, \<open>catalog/workbench.rs\<close>: how the changed episodes and the path evidence
  become findings, and which findings lead the page. The lower-casing of a text outside ASCII is a
  parameter; a panic is \<open>None\<close>.
\<close>

section \<open>Definitions\<close>

datatype routing_effect =
    PrefixesTemporarilyAbsent
  | PrefixesWithdrawn
  | AsPathChanged
  | PrependingChanged
  | NamedPlaneDeparted
  | NamedPlaneReturned
  | VisibilityReturned
  | BaselinePathRestored
  | MixedChange

fun from_kind :: "effect_kind \<Rightarrow> routing_effect" where
  "from_kind TemporaryStreamAbsence = PrefixesTemporarilyAbsent"
| "from_kind RouteWithdrawal = PrefixesWithdrawn"
| "from_kind PathReplacement = AsPathChanged"
| "from_kind PrependChange = PrependingChanged"
| "from_kind NamedPlaneDeparture = NamedPlaneDeparted"
| "from_kind NamedPlaneReturn = NamedPlaneReturned"
| "from_kind MixedRouteChange = MixedChange"
| "from_kind NoRouteStateChange = MixedChange"

fun routing_label :: "routing_effect \<Rightarrow> string" where
  "routing_label PrefixesTemporarilyAbsent = ''Temporarily absent''"
| "routing_label PrefixesWithdrawn = ''Withdrawn''"
| "routing_label AsPathChanged = ''AS path changed''"
| "routing_label PrependingChanged = ''Prepending changed''"
| "routing_label NamedPlaneDeparted = ''Left reviewed path plane''"
| "routing_label NamedPlaneReturned = ''Returned to reviewed path plane''"
| "routing_label VisibilityReturned = ''Visibility restored''"
| "routing_label BaselinePathRestored = ''Baseline path restored''"
| "routing_label MixedChange = ''Mixed route-state change''"

record finding_stream =
  fs_prefix :: string
  fs_baseline_path :: "u32 list"
  fs_changed_path :: "u32 list option"
  fs_final_path :: "u32 list option"
  fs_withdrawn :: bool
  fs_first_change_utc :: "string option"
  fs_transitions :: "path_transition list"
  fs_visibility_restored_at :: "string option"
  fs_equivalent_route_restored_at :: "string option"
  fs_reviewed_plane_restored_at :: "string option"
  fs_exact_baseline_restored_at :: "string option"
  fs_evidence_refs :: string

record earlier_change =
  ec_stable_id :: string
  ec_label :: string

record routing_finding =
  rf_stable_id :: string
  rf_target_label :: string
  rf_target_origin_asns :: "u32 list"
  rf_target_name :: string
  rf_event_baseline_path_signature :: string
  rf_earlier_change :: "earlier_change option"
  rf_observer_site :: string
  rf_observer_region :: string
  rf_source_family :: string
  rf_collector :: string
  rf_peer_ip :: string
  rf_peer_asn :: "u32 option"
  rf_peer_name :: string
  rf_peer_role :: string
  rf_peer_asn_ambiguous :: bool
  rf_relationship :: relationship_kind
  rf_effect :: routing_effect
  rf_first_observed :: "string option"
  rf_last_observed :: "string option"
  rf_named_path_plane :: string
  rf_visibility_restored_at :: "string option"
  rf_equivalent_route_restored_at :: "string option"
  rf_reviewed_plane_restored_at :: "string option"
  rf_exact_baseline_restored_at :: "string option"
  rf_state_at_window_end :: end_state
  rf_state_at_analysis_end :: cooldown_outcome
  rf_analysis_end :: string
  rf_observer_stream_count :: nat
  rf_distinct_prefixes :: nat
  rf_baseline_path_signature :: string
  rf_changed_path_signature :: string
  rf_final_path_signature :: string
  rf_exact_prefixes :: "string list"
  rf_evidence_refs :: "string list"
  rf_scope_limit :: string
  rf_streams :: "finding_stream list"

text \<open>The local struct of \<open>build_findings\<close>.\<close>

record stream_record =
  rec_stream :: finding_stream
  rec_baseline :: "u32 list"
  rec_event_baseline :: "u32 list"
  rec_changed :: "u32 list option"
  rec_final_path :: "u32 list option"
  rec_first_change :: "string option"
  rec_vis :: "string option"
  rec_equiv :: "string option"
  rec_plane :: "string option"
  rec_base :: "string option"

definition first_some :: "'a option \<Rightarrow> 'a option \<Rightarrow> 'a option" where
  "first_some a b = (case a of None \<Rightarrow> b | Some x \<Rightarrow> Some x)"

definition stream_record_of :: "stream_path_evidence option \<Rightarrow> episode_stream \<Rightarrow> stream_record" where
  "stream_record_of path s =
     (let transitions = (case path of None \<Rightarrow> [] | Some p \<Rightarrow> pe_transitions p);
          baseline = (case path of None \<Rightarrow> [] | Some p \<Rightarrow> pe_baseline_path p);
          changed = Option.bind path pe_changed_path;
          final = Option.bind path pe_final_path;
          vis = first_some (Option.bind path pe_visibility_restored_at)
            (if es_withdrawn s \<and> es_restored s then es_restoration_time_utc s else None);
          equiv = Option.bind path pe_equivalent_route_restored_at;
          plane = Option.bind path pe_reviewed_plane_restored_at;
          base = first_some (Option.bind path pe_exact_baseline_restored_at)
            (if \<not> es_withdrawn s \<and> es_restored s then es_restoration_time_utc s else None);
          event_baseline = (case find (\<lambda>t. pt_before_path t \<noteq> []) transitions of
              Some t \<Rightarrow> pt_before_path t | None \<Rightarrow> baseline)
      in \<lparr>rec_stream = \<lparr>fs_prefix = es_prefix s, fs_baseline_path = baseline, fs_changed_path = changed, fs_final_path = final,
            fs_withdrawn = es_withdrawn s, fs_first_change_utc = es_first_change_utc s, fs_transitions = transitions,
            fs_visibility_restored_at = vis, fs_equivalent_route_restored_at = equiv, fs_reviewed_plane_restored_at = plane,
            fs_exact_baseline_restored_at = base, fs_evidence_refs = es_evidence_refs s\<rparr>,
          rec_baseline = baseline, rec_event_baseline = event_baseline, rec_changed = changed, rec_final_path = final,
          rec_first_change = es_first_change_utc s, rec_vis = vis, rec_equiv = equiv, rec_plane = plane, rec_base = base\<rparr>)"

text \<open>Records with the same baseline and first changed path share a partition.\<close>

fun add_to_partition :: "stream_record \<Rightarrow> stream_record list list \<Rightarrow> stream_record list list" where
  "add_to_partition r [] = [[r]]"
| "add_to_partition r (p # ps) =
     (if rec_baseline (hd p) = rec_baseline r \<and> rec_changed (hd p) = rec_changed r then (p @ [r]) # ps
      else p # add_to_partition r ps)"

definition partition_order :: "stream_record list \<Rightarrow> string option \<times> u32 list \<times> u32 list option" where
  "partition_order p = (rec_first_change (hd p), rec_baseline (hd p), rec_changed (hd p))"

definition partitions :: "stream_record list \<Rightarrow> stream_record list list" where
  "partitions records = sort_key partition_order (fold add_to_partition records [])"

definition is_withdrawal :: "path_transition \<Rightarrow> bool" where
  "is_withdrawal t = (contains_str ''Withdraw'' (pt_kind t) \<or> (pt_after_path t = [] \<and> pt_before_path t \<noteq> []))"

definition first_index :: "('a \<Rightarrow> bool) \<Rightarrow> 'a list \<Rightarrow> nat option" where
  "first_index P xs = (if list_ex P xs then Some (length (takeWhile (\<lambda>x. \<not> P x) xs)) else None)"

definition project :: "stream_record \<Rightarrow> path_transition list \<Rightarrow> stream_record" where
  "project r selected =
     (let baseline = (case find (\<lambda>t. pt_before_path t \<noteq> []) selected of Some t \<Rightarrow> pt_before_path t | None \<Rightarrow> rec_baseline r);
          changed = (case find (\<lambda>t. pt_after_path t \<noteq> []) selected of Some t \<Rightarrow> Some (pt_after_path t) | None \<Rightarrow> rec_changed r);
          final = (case find (\<lambda>t. pt_after_path t \<noteq> []) (rev selected) of Some t \<Rightarrow> Some (pt_after_path t) | None \<Rightarrow> rec_final_path r);
          wd = first_index is_withdrawal selected;
          vis = Option.bind wd (\<lambda>i. map_option pt_timestamp (find (\<lambda>t. pt_after_path t \<noteq> []) (drop (i + 1) selected)));
          equiv = (case changed of Some c \<Rightarrow> if c \<noteq> baseline then vis else None | None \<Rightarrow> None);
          base = map_option pt_timestamp (find (\<lambda>t. pt_kind t = ''ReturnToBaseline'') selected);
          first_change = (case selected of t # _ \<Rightarrow> Some (pt_timestamp t) | [] \<Rightarrow> rec_first_change r)
      in \<lparr>rec_stream = (rec_stream r)\<lparr>fs_transitions := selected, fs_withdrawn := (wd \<noteq> None), fs_first_change_utc := first_change,
            fs_visibility_restored_at := vis, fs_equivalent_route_restored_at := equiv, fs_reviewed_plane_restored_at := None,
            fs_exact_baseline_restored_at := base\<rparr>,
          rec_baseline = baseline, rec_event_baseline = rec_event_baseline r, rec_changed = changed, rec_final_path = final,
          rec_first_change = first_change, rec_vis = vis, rec_equiv = equiv, rec_plane = None, rec_base = base\<rparr>)"

text \<open>\<open>Iterator::max_by_key\<close>: the last element with the largest key.\<close>

definition max_by_key :: "('a \<Rightarrow> 'k::linorder) \<Rightarrow> 'a list \<Rightarrow> 'a option" where
  "max_by_key key xs = fold (\<lambda>x best. case best of None \<Rightarrow> Some x | Some b \<Rightarrow> if key b \<le> key x then Some x else Some b) xs None"

definition most_frequent :: "u32 list list \<Rightarrow> string" where
  "most_frequent paths =
     (case max_by_key (\<lambda>(p, ps). (length ps, length p)) (bt_group (\<lambda>p. p) paths) of
        None \<Rightarrow> dash_utf8 | Some (p, _) \<Rightarrow> path_text p)"

definition target_name_from_label :: "string \<Rightarrow> string" where
  "target_name_from_label label =
     (let before_paren = (case split_once ''('' label of Some (a, _) \<Rightarrow> a | None \<Rightarrow> label);
          before_via = (case split_once '' via '' before_paren of Some (a, _) \<Rightarrow> a | None \<Rightarrow> before_paren)
      in trim before_via)"

definition replace_chars :: "char set \<Rightarrow> string \<Rightarrow> string" where
  "replace_chars cs s = map (\<lambda>c. if c \<in> cs then CHR ''-'' else c) s"

text \<open>What a finding takes from its subject, the same for every finding.\<close>

record finding_subject =
  su_lower :: "string \<Rightarrow> string"
  su_identities :: "asn_identity list"
  su_target_label :: string
  su_target_origin_asns :: "u32 list"
  su_scope_limit :: string
  su_event_date :: string
  su_analysis_end :: string

definition withdrawn_vis :: "stream_record \<Rightarrow> string option" where
  "withdrawn_vis r = (if fs_withdrawn (rec_stream r) then rec_vis r else None)"

definition emit ::
    "finding_subject \<Rightarrow> observer_episode \<Rightarrow> bool \<Rightarrow> stream_record list \<Rightarrow> effect_kind \<Rightarrow> end_state \<Rightarrow> nat \<Rightarrow> earlier_change option
       \<Rightarrow> routing_finding" where
  "emit su e split records effect_kind end_state pn earlier =
     (let session = session_key_of (ep_observer_session e);
          exact_prefixes = remdups_adj (sort (map (fs_prefix \<circ> rec_stream) records));
          refs = remdups_adj (sort (filter (\<lambda>r. r \<noteq> []) (map (fs_evidence_refs \<circ> rec_stream) records)));
          first_observed = fold_times keep_min (map rec_first_change records) None;
          last_observed = fold_times keep_max (concat (map (\<lambda>r. [rec_first_change r, withdrawn_vis r]) records)) None;
          peer_asn = first_some (ep_peer_asn e)
            (if length (ep_observed_peer_asns e) = 1 then Some (hd (ep_observed_peer_asns e)) else None);
          effect = from_kind effect_kind;
          first_tag = (case first_some first_observed (ep_first_change e) of None \<Rightarrow> [] | Some t \<Rightarrow> t);
          base_id = replace_chars {CHR ''/'', CHR '' ''} (su_lower su (sk_collector session)) @ ''-''
            @ replace_chars {CHR '':'', CHR ''.''} (sk_peer_ip session) @ ''-''
            @ replace_chars {CHR '' ''} (su_lower su (routing_label effect)) @ ''-'' @ first_tag;
          stable_id = (if split then base_id @ ''-'' @ show_nat (length exact_prefixes) @ ''prefixes-'' @ show_nat pn else base_id)
      in \<lparr>rf_stable_id = stable_id, rf_target_label = su_target_label su, rf_target_origin_asns = su_target_origin_asns su,
          rf_target_name = target_name_from_label (su_target_label su),
          rf_event_baseline_path_signature = most_frequent (filter (\<lambda>p. p \<noteq> []) (map rec_event_baseline records)),
          rf_earlier_change = earlier,
          rf_observer_site = ep_observer_site e, rf_observer_region = ep_observer_region e,
          rf_source_family = family_from_session (ep_observer_session e),
          rf_collector = sk_collector session, rf_peer_ip = sk_peer_ip session, rf_peer_asn = peer_asn,
          rf_peer_name = (case Option.bind peer_asn (\<lambda>a. display_name (su_identities su) a (su_event_date su)) of
              None \<Rightarrow> ''name not reviewed'' | Some n \<Rightarrow> n),
          rf_peer_role = (case Option.bind peer_asn (\<lambda>a. identity_role (su_identities su) a (su_event_date su)) of
              None \<Rightarrow> [] | Some n \<Rightarrow> n),
          rf_peer_asn_ambiguous = (ep_peer_asn e = None \<and> length (ep_observed_peer_asns e) > 1),
          rf_relationship = ep_relationship e, rf_effect = effect,
          rf_first_observed = first_observed, rf_last_observed = last_observed,
          rf_named_path_plane = ep_named_path_plane e,
          rf_visibility_restored_at = fold_times keep_max (map withdrawn_vis records) None,
          rf_equivalent_route_restored_at = fold_times keep_max (map rec_equiv records) None,
          rf_reviewed_plane_restored_at = fold_times keep_max (map rec_plane records) None,
          rf_exact_baseline_restored_at = fold_times keep_max (map rec_base records) None,
          rf_state_at_window_end = end_state, rf_state_at_analysis_end = ep_cooldown_outcome e,
          rf_analysis_end = su_analysis_end su,
          rf_observer_stream_count = length exact_prefixes, rf_distinct_prefixes = length exact_prefixes,
          rf_baseline_path_signature = most_frequent (filter (\<lambda>p. p \<noteq> []) (map rec_baseline records)),
          rf_changed_path_signature = most_frequent (List.map_filter rec_changed records),
          rf_final_path_signature = most_frequent (List.map_filter rec_final_path records),
          rf_exact_prefixes = exact_prefixes, rf_evidence_refs = refs, rf_scope_limit = su_scope_limit su,
          rf_streams = map rec_stream records\<rparr>)"

text \<open>The transitions before the first withdrawal, when all records that have one agree on them.\<close>

definition record_withdrawal :: "stream_record \<Rightarrow> nat option" where
  "record_withdrawal r = first_index is_withdrawal (fs_transitions (rec_stream r))"

type_synonym transition_shape = "string \<times> u32 list \<times> u32 list"

definition shape_before :: "stream_record \<Rightarrow> transition_shape list option" where
  "shape_before r = map_option (\<lambda>i. map (\<lambda>t. (pt_kind t, pt_before_path t, pt_after_path t)) (take i (fs_transitions (rec_stream r))))
     (record_withdrawal r)"

definition pre_shape :: "stream_record list \<Rightarrow> transition_shape list option" where
  "pre_shape part =
     (let shapes = List.map_filter shape_before part
      in if shapes \<noteq> []
            \<and> list_all (list_all (\<lambda>(_, b, a). b \<noteq> [] \<and> a \<noteq> [])) shapes
            \<and> list_all (\<lambda>sh. sh = hd shapes) shapes
         then Some (hd shapes) else None)"

definition pre_kind :: "transition_shape list \<Rightarrow> effect_kind" where
  "pre_kind shape =
     (case shape of
        [] \<Rightarrow> PathReplacement
      | (_, before, after) # _ \<Rightarrow>
          (let d = diff_paths before after []
           in if pd_inserted d = [] \<and> pd_removed d = [] \<and> pd_count_deltas d \<noteq> [] then PrependChange else PathReplacement))"

definition earlier_link :: "u32 list \<Rightarrow> transition_shape list \<Rightarrow> effect_kind \<Rightarrow> string \<Rightarrow> earlier_change option" where
  "earlier_link origins shape kind prepend_id =
     (case (shape, origins) of
        ((_, before, after) # _, o' # _) \<Rightarrow>
          (let before_n = length (filter (\<lambda>a. a = o') before); after_n = length (filter (\<lambda>a. a = o') after)
           in if kind = PrependChange \<and> before_n \<noteq> after_n
              then Some \<lparr>ec_stable_id = prepend_id,
                ec_label = ''origin prepending '' @ (if after_n < before_n then ''reduced'' else ''increased'')
                  @ '' from AS'' @ show_u32 o' @ times_utf8 @ show_nat before_n @ '' to AS'' @ show_u32 o' @ times_utf8
                  @ show_nat after_n @ '' while the routes remained visible''\<rparr>
              else None)
      | _ \<Rightarrow> None)"

text \<open>All results of a list of computations that may panic.\<close>

fun collect_results :: "'a option list \<Rightarrow> 'a list option" where
  "collect_results [] = Some []"
| "collect_results (None # xs) = None"
| "collect_results (Some x # xs) = map_option (\<lambda>ys. x # ys) (collect_results xs)"

definition cut_record :: "(nat \<Rightarrow> path_transition list \<Rightarrow> path_transition list) \<Rightarrow> stream_record \<Rightarrow> stream_record option" where
  "cut_record part_of r = map_option (\<lambda>i. project r (part_of i (fs_transitions (rec_stream r)))) (record_withdrawal r)"

definition pre_end_state :: "stream_record list \<Rightarrow> end_state" where
  "pre_end_state pre =
     (if list_all (\<lambda>r. rec_final_path r = Some (rec_baseline r)) pre then BaselineRestored else StillChangedAtWindowEnd)"

definition partition_findings ::
    "finding_subject \<Rightarrow> observer_episode \<Rightarrow> bool \<Rightarrow> nat \<Rightarrow> stream_record list \<Rightarrow> routing_finding list option" where
  "partition_findings su e split pn part =
     (case pre_shape part of
        None \<Rightarrow> Some [emit su e split part (ep_effect_kind e) (ep_end_state e) pn None]
      | Some shape \<Rightarrow>
          Option.bind (collect_results (map (cut_record take) part)) (\<lambda>pre_records.
          Option.bind (collect_results (map (cut_record drop) part)) (\<lambda>abs_records.
            let kind = pre_kind shape;
                pre = emit su e split pre_records kind (pre_end_state pre_records) pn None
            in Some [pre, emit su e split abs_records (ep_effect_kind e) (ep_end_state e) pn
                 (earlier_link (su_target_origin_asns su) shape kind (rf_stable_id pre))])))"

definition episode_findings :: "finding_subject \<Rightarrow> lifecycle_path_index \<Rightarrow> (int \<Rightarrow> string option) \<Rightarrow> observer_episode \<Rightarrow> routing_finding list option" where
  "episode_findings su paths run_event_ids e =
     (if ep_effect_kind e = NoRouteStateChange then Some []
      else let session = session_key_of (ep_observer_session e);
               run_event_id = (case run_event_ids (ep_analysis_run e) of None \<Rightarrow> [] | Some i \<Rightarrow> i);
               records = map (\<lambda>s. stream_record_of (path_lookup paths run_event_id (sk_collector session) (sk_peer_ip session) (es_prefix s)) s)
                 (ep_streams e);
               parts = partitions records
        in map_option concat (collect_results (map (\<lambda>(pn, part). partition_findings su e (length parts > 1) pn part) (enumerate 0 parts))))"

definition finding_order :: "routing_finding \<Rightarrow> string option \<times> string \<times> string \<times> u32 \<times> string" where
  "finding_order f = (rf_first_observed f, rf_observer_region f, rf_observer_site f,
     (case rf_peer_asn f of None \<Rightarrow> - 1 | Some a \<Rightarrow> a), rf_stable_id f)"

definition build_findings :: "finding_subject \<Rightarrow> lifecycle_path_index \<Rightarrow> (int \<Rightarrow> string option) \<Rightarrow> observer_episode list \<Rightarrow> routing_finding list option" where
  "build_findings su paths run_event_ids episodes =
     map_option (sort_key finding_order \<circ> concat) (collect_results (map (episode_findings su paths run_event_ids) episodes))"

section \<open>Selection\<close>

definition disagreement :: "routing_finding list \<Rightarrow> string set" where
  "disagreement findings =
     (\<Union>g \<in> set (map snd (bt_group rf_exact_prefixes findings)).
        if card (set (map (routing_label \<circ> rf_effect) g)) > 1 \<and> card (set (map rf_observer_site g)) > 1
        then set (map rf_stable_id g) else {})"

definition plane_departed :: "u32 list \<Rightarrow> routing_finding \<Rightarrow> bool" where
  "plane_departed plane_asns f =
     (case (find (\<lambda>s. fs_baseline_path s \<noteq> []) (rf_streams f), List.map_filter fs_changed_path (rf_streams f)) of
        (Some s, c # _) \<Rightarrow> plane_asns \<noteq> [] \<and> list_ex (\<lambda>p. p \<in> set (fs_baseline_path s)) plane_asns
          \<and> \<not> list_ex (\<lambda>p. p \<in> set c) plane_asns
      | _ \<Rightarrow> False)"

definition score :: "u32 list \<Rightarrow> string set \<Rightarrow> routing_finding \<Rightarrow> int" where
  "score plane_asns disagreeing f =
     (let departed = plane_departed plane_asns f;
          base = (if rf_effect f \<in> {PrefixesTemporarilyAbsent, PrefixesWithdrawn} then 1000
                  else if departed \<and> rf_distinct_prefixes f \<ge> 5 then 900
                  else if rf_effect f \<in> {AsPathChanged, PrependingChanged} then 700
                  else 300)
      in base + int (min (rf_distinct_prefixes f) 12) * 5
         + (if departed \<and> rf_distinct_prefixes f < 5 then 40 else 0)
         + (case rf_state_at_analysis_end f of StillChangingBeforeAnalysisEnd _ \<Rightarrow> 80 | NoRestorationBeforeAnalysisEnd _ \<Rightarrow> 80 | _ \<Rightarrow> 0)
         + (if rf_stable_id f \<in> disagreeing then 40 else 0))"

text \<open>The order by falling score and then by the tie-break of the findings.\<close>

definition rank_key :: "u32 list \<Rightarrow> string set \<Rightarrow> routing_finding \<Rightarrow> int \<times> (string option \<times> string \<times> string \<times> u32 \<times> string)" where
  "rank_key plane_asns disagreeing f = (- score plane_asns disagreeing f, finding_order f)"

fun first_pass :: "nat \<Rightarrow> string set \<Rightarrow> nat \<Rightarrow> routing_finding list \<Rightarrow> routing_finding list \<times> routing_finding list" where
  "first_pass maxi used taken [] = ([], [])"
| "first_pass maxi used taken (f # fs) =
     (if taken \<ge> maxi then let (p, s) = first_pass maxi used taken fs in (p, f # s)
      else if rf_observer_site f \<notin> used
        then let (p, s) = first_pass maxi (insert (rf_observer_site f) used) (taken + 1) fs in (f # p, s)
      else let (p, s) = first_pass maxi used taken fs in (p, f # s))"

definition select_principal_findings ::
    "routing_finding list \<Rightarrow> u32 list \<Rightarrow> nat \<Rightarrow> routing_finding list \<times> routing_finding list" where
  "select_principal_findings findings plane_asns maxi =
     (if maxi = 0 then ([], findings)
      else let rank = rank_key plane_asns (disagreement findings);
               (chosen, secondary) = first_pass maxi {} 0 (sort_key rank findings);
               free = maxi - length chosen
        in (sort_key rank (chosen @ take free secondary), drop free secondary))"

section \<open>Partitions\<close>

lemma collect_None: "collect_results xs = None \<longleftrightarrow> None \<in> set xs"
  by (induction xs rule: collect_results.induct) auto

lemma collect_Some: "collect_results xs = Some ys \<longleftrightarrow> xs = map Some ys"
  by (induction xs arbitrary: ys rule: collect_results.induct) (auto simp: map_eq_Cons_conv)

definition same_story :: "stream_record \<Rightarrow> stream_record \<Rightarrow> bool" where
  "same_story r q \<longleftrightarrow> rec_baseline r = rec_baseline q \<and> rec_changed r = rec_changed q"

definition coherent :: "stream_record list \<Rightarrow> bool" where
  "coherent p \<longleftrightarrow> p \<noteq> [] \<and> (\<forall>r \<in> set p. same_story (hd p) r)"

lemma add_to_partition_mset: "mset (concat (add_to_partition r ps)) = add_mset r (mset (concat ps))"
  by (induction ps) auto

lemma add_to_partition_coherent: "\<forall>p \<in> set ps. coherent p \<Longrightarrow> p \<in> set (add_to_partition r ps) \<Longrightarrow> coherent p"
  by (induction ps) (auto simp: coherent_def same_story_def split: if_splits)

lemma set_add_to_partition_hd:
  "\<forall>p \<in> set ps. p \<noteq> [] \<Longrightarrow> hd ` set (add_to_partition r ps) \<subseteq> insert r (hd ` set ps)"
  by (induction ps) auto

lemma add_to_partition_separated:
  assumes "sorted_wrt (\<lambda>p q. \<not> same_story (hd p) (hd q)) ps" "\<forall>p \<in> set ps. coherent p"
  shows "sorted_wrt (\<lambda>p q. \<not> same_story (hd p) (hd q)) (add_to_partition r ps)"
  using assms
proof (induction ps)
  case (Cons p ps)
  show ?case
  proof (cases "rec_baseline (hd p) = rec_baseline r \<and> rec_changed (hd p) = rec_changed r")
    case False
    have "\<forall>q \<in> set ps. q \<noteq> []"
      using Cons.prems(2) by (auto simp: coherent_def)
    then have "hd q \<in> insert r (hd ` set ps)" if "q \<in> set (add_to_partition r ps)" for q
      using that set_add_to_partition_hd by blast
    then have "\<not> same_story (hd p) (hd q)" if "q \<in> set (add_to_partition r ps)" for q
      using that Cons.prems(1) False by (fastforce simp: same_story_def)
    then show ?thesis
      using Cons False by auto
  qed (use Cons in \<open>auto simp: coherent_def\<close>)
qed simp

lemma partition_loop:
  "let ps = fold add_to_partition records [] in
     mset (concat ps) = mset records \<and> (\<forall>p \<in> set ps. coherent p) \<and> sorted_wrt (\<lambda>p q. \<not> same_story (hd p) (hd q)) ps"
proof (induction records rule: rev_induct)
  case (snoc r rs)
  then show ?case
    using add_to_partition_separated [of "fold add_to_partition rs []" r]
    by (auto simp: Let_def add_to_partition_mset dest: add_to_partition_coherent [rotated])
qed simp

text \<open>Every stream of an episode goes into exactly one partition; all streams of a partition have the same
  baseline and the same first changed path, so the route story of a finding holds for each of its
  prefixes, and two partitions never tell the same story.\<close>

theorem partitions_tell_one_story:
  "mset (concat (partitions records)) = mset records
    \<and> (\<forall>p \<in> set (partitions records). p \<noteq> [] \<and> (\<forall>r \<in> set p. rec_baseline r = rec_baseline (hd p) \<and> rec_changed r = rec_changed (hd p)))
    \<and> (\<forall>p \<in> set (partitions records). \<forall>q \<in> set (partitions records). \<forall>r \<in> set p. \<forall>t \<in> set q.
         rec_baseline r = rec_baseline t \<and> rec_changed r = rec_changed t \<longrightarrow> p = q)"
proof -
  let ?ps = "fold add_to_partition records []"
  have loop: "mset (concat ?ps) = mset records" "\<forall>p \<in> set ?ps. coherent p" "sorted_wrt (\<lambda>p q. \<not> same_story (hd p) (hd q)) ?ps"
    using partition_loop [of records] by (auto simp: Let_def)
  have "mset (concat (map (\<lambda>x. x) (partitions records))) = mset (concat (map (\<lambda>x. x) ?ps))"
    by (simp only: mset_concat_sum) (simp add: partitions_def)
  moreover have "p = q" if "p \<in> set ?ps" "q \<in> set ?ps" "r \<in> set p" "t \<in> set q" "same_story r t" for p q r t
  proof -
    have "same_story (hd p) (hd q)"
      using that loop(2) by (auto simp: coherent_def same_story_def)
    then have "same_story (hd q) (hd p)"
      by (simp add: same_story_def)
    then show ?thesis
      using loop(3) that(1,2) \<open>same_story (hd p) (hd q)\<close>
      by (auto simp: sorted_wrt_iff_nth_less in_set_conv_nth) (metis nat_neq_iff)
  qed
  ultimately show ?thesis
    using loop(1,2) by (auto simp: partitions_def coherent_def same_story_def)
qed

section \<open>Splitting a partition\<close>

text \<open>C18: The code reads a withdrawal of every stream of a partition that it splits, but it decides to split on
  the streams that have one. It panics exactly when a partition mixes streams with and without a
  withdrawal and those with one agree on the visible changes before it.\<close>

theorem finding_split_panics_iff:
  "partition_findings su e split pn part = None \<longleftrightarrow>
     pre_shape part \<noteq> None \<and> (\<exists>r \<in> set part. record_withdrawal r = None)"
  by (auto simp: partition_findings_def Let_def bind_eq_None_conv collect_None cut_record_def image_iff
      split: option.split)

lemma pre_shape_empty:
  assumes "part \<noteq> []" "\<forall>r \<in> set part. record_withdrawal r = Some 0"
  shows "pre_shape part = Some []"
proof -
  have "List.map_filter shape_before part = map (\<lambda>_. []) part"
    using assms(2) by (induction part) (auto simp: shape_before_def map_filter_simps)
  then show ?thesis
    using assms(1) by (cases part) (auto simp: pre_shape_def Let_def list_all_iff)
qed

text \<open>C19: A partition whose streams start with the withdrawal has nothing before it to report, and the comment
  of the source demands a non-empty list of earlier changes. The code emits a finding all the same:
  an AS path change without a transition, beside the absence.\<close>

theorem pure_withdrawal_reported_as_path_change:
  assumes "part \<noteq> []" "\<forall>r \<in> set part. record_withdrawal r = Some 0"
  shows "\<exists>spurious absence. partition_findings su e split pn part = Some [spurious, absence]
    \<and> rf_effect spurious = AsPathChanged \<and> (\<forall>s \<in> set (rf_streams spurious). fs_transitions s = [])
    \<and> rf_exact_prefixes spurious = rf_exact_prefixes absence
    \<and> rf_effect absence = from_kind (ep_effect_kind e)"
proof -
  have cut: "collect_results (map (cut_record part_of) part) = Some (map (\<lambda>r. project r (part_of 0 (fs_transitions (rec_stream r)))) part)" for part_of
    using assms(2) by (auto simp: collect_Some cut_record_def)
  show ?thesis
    unfolding partition_findings_def pre_shape_empty [OF assms] cut
    by (simp add: Let_def pre_kind_def emit_def project_def comp_def)
qed

text \<open>A projected record has the paths of its part of the chronology; the stream inside it, which the
  statements and the audit read, keeps the paths of the whole one.\<close>

lemma project_keeps_stream_paths:
  "fs_baseline_path (rec_stream (project r selected)) = fs_baseline_path (rec_stream r)"
  "fs_changed_path (rec_stream (project r selected)) = fs_changed_path (rec_stream r)"
  "fs_final_path (rec_stream (project r selected)) = fs_final_path (rec_stream r)"
  by (simp_all add: project_def Let_def)

section \<open>Selection\<close>

lemma first_pass_facts:
  assumes "first_pass m used k fs = (p, s)"
  shows "mset p + mset s = mset fs \<and> length p \<le> m - k \<and> distinct (map rf_observer_site p)
    \<and> rf_observer_site ` set p \<inter> used = {}
    \<and> (length p < m - k \<longrightarrow> rf_observer_site ` set fs \<subseteq> used \<union> rf_observer_site ` set p)
    \<and> (k < m \<and> used = {} \<and> fs \<noteq> [] \<longrightarrow> hd fs \<in> set p)"
  using assms
proof (induction m used k fs arbitrary: p s rule: first_pass.induct)
  case (2 m used k f fs)
  consider (full) "k \<ge> m" | (fresh) "k < m" "rf_observer_site f \<notin> used" | (skip) "k < m" "rf_observer_site f \<in> used"
    by linarith
  then show ?case
  proof cases
    case full
    then show ?thesis
      using 2 by (auto split: prod.splits)
  next
    case fresh
    obtain p' s' where rec: "first_pass m (insert (rf_observer_site f) used) (k + 1) fs = (p', s')"
      by (cases "first_pass m (insert (rf_observer_site f) used) (k + 1) fs")
    have ps: "p = f # p'" "s = s'"
      using "2.prems" fresh rec by auto
    have "\<not> m \<le> k"
      using fresh by simp
    then show ?thesis
      using "2.IH"(2) [OF _ fresh(2) rec] fresh unfolding ps by auto
  next
    case skip
    then show ?thesis
      using 2 by (auto split: prod.splits)
  qed
qed simp

text \<open>C20: The selection loses no finding, fills its slots, leads with a best-ranked finding and lists the rest
  by rank. No observer site is shown twice unless every site that has a finding is shown.\<close>

theorem select_principal_exact:
  fixes findings plane_asns m
  defines "rank \<equiv> rank_key plane_asns (disagreement findings)"
  assumes "select_principal_findings findings plane_asns m = (chosen, rest)"
  shows "mset chosen + mset rest = mset findings \<and> length chosen = min m (length findings)
    \<and> sorted (map rank chosen)
    \<and> (chosen \<noteq> [] \<longrightarrow> (\<forall>f \<in> set findings. rank (hd chosen) \<le> rank f))
    \<and> (distinct (map rf_observer_site chosen) \<or> rf_observer_site ` set chosen = rf_observer_site ` set findings)"
proof (cases "m = 0")
  case False
  let ?ranked = "sort_key rank findings"
  obtain p s where ps: "first_pass m {} 0 ?ranked = (p, s)"
    by (cases "first_pass m {} 0 ?ranked")
  let ?free = "m - length p"
  note facts = first_pass_facts [OF ps]
  have sel: "chosen = sort_key rank (p @ take ?free s)" "rest = drop ?free s"
    using assms(2) False ps by (simp_all add: select_principal_findings_def rank_def Let_def)
  have mset: "mset chosen + mset rest = mset findings"
    using facts unfolding sel by (simp add: add.assoc flip: mset_append)
  have len: "length p + length s = length findings"
    using arg_cong [OF conjunct1 [OF facts], of size] by simp
  have "length chosen = length p + min ?free (length s)"
    unfolding sel by simp
  then have length: "length chosen = min m (length findings)"
    using facts len by linarith
  have best: "\<forall>f \<in> set findings. rank (hd chosen) \<le> rank f" if "chosen \<noteq> []"
  proof -
    have "findings \<noteq> []"
      using mset that by auto
    then have ne: "?ranked \<noteq> []"
      by (metis mset_sort mset_zero_iff)
    then have "hd ?ranked \<in> set chosen"
      using facts False unfolding sel by auto
    moreover have "rank (hd chosen) \<le> rank x" if "x \<in> set chosen" for x
      using that sorted_sort_key [of rank "p @ take ?free s"] unfolding sel
      by (cases "sort_key rank (p @ take ?free s)") (auto simp: sorted_wrt_map)
    moreover have "rank (hd ?ranked) \<le> rank f" if "f \<in> set findings" for f
    proof -
      have "f \<in> set ?ranked"
        using that by simp
      then show ?thesis
        using sorted_sort_key [of rank findings] by (cases ?ranked) (auto simp: sorted_wrt_map simp del: set_sort)
    qed
    ultimately show ?thesis
      by (meson order_trans)
  qed
  have "distinct (map rf_observer_site chosen) \<or> rf_observer_site ` set chosen = rf_observer_site ` set findings"
  proof (cases "length p < m")
    case True
    have "set chosen \<subseteq> set findings"
      using arg_cong [OF mset, of set_mset] by auto
    moreover have "rf_observer_site ` set findings \<subseteq> rf_observer_site ` set p"
      using facts True by simp
    moreover have "set p \<subseteq> set chosen"
      unfolding sel by auto
    ultimately show ?thesis
      by (metis image_mono subset_antisym subset_trans)
  next
    case full: False
    then have "mset (map rf_observer_site chosen) = mset (map rf_observer_site p)"
      unfolding sel by simp
    then show ?thesis
      using facts by (metis mset_eq_imp_distinct_iff)
  qed
  then show ?thesis
    using mset length best by (simp add: sel)
qed (use assms(2) in \<open>simp add: select_principal_findings_def\<close>)

section \<open>A partition that panics\<close>

text \<open>Two streams of one session that moved to the same path; one of them also lost one of its route
  instances first, which is not a withdrawal of the stream.\<close>

definition sample_move :: path_transition where
  "sample_move = \<lparr>pt_timestamp = ''2019-08-21T16:10:00Z'', pt_kind = ''PathReplacement'', pt_before_path = [1, 2], pt_after_path = [1, 3]\<rparr>"

definition sample_loss :: path_transition where
  "sample_loss = \<lparr>pt_timestamp = ''2019-08-21T16:00:00Z'', pt_kind = ''Withdrawal'', pt_before_path = [1, 2], pt_after_path = []\<rparr>"

definition sample_entry :: "string \<Rightarrow> path_transition list \<Rightarrow> lifecycle_entry" where
  "sample_entry prefix ts = \<lparr>le_collector = ''rrc00'', le_peer_ip = ''192.0.2.1'', le_prefix = prefix, le_baseline_path = [1, 2],
     le_transitions = ts, le_restoration_time = None\<rparr>"

definition sample_summary :: "string \<Rightarrow> stream_summary" where
  "sample_summary prefix = \<lparr>ss_id = 0, ss_run_id = 1, ss_collector = ''rrc00'', ss_peer_ip = ''192.0.2.1'', ss_prefix = prefix,
     ss_category = ''PathChangedStillViaTransit'', ss_baseline_instances = 2, ss_max_active_instances = 2, ss_transition_count = 1,
     ss_withdrawn = False, ss_restored = False, ss_transit_state = ''PathChangedStillViaTransit'', ss_add_path_ambiguous = False,
     ss_evidence_refs = [], ss_first_change_utc = Some ''2019-08-21T16:00:00Z'', ss_restoration_time_utc = None\<rparr>"

definition sample_paths :: lifecycle_path_index where
  "sample_paths = index_run Map.empty (''EV'', [sample_entry ''10.0.0.0/24'' [sample_loss, sample_move], sample_entry ''10.0.1.0/24'' [sample_move]]) Map.empty"

definition sample_subject :: finding_subject where
  "sample_subject = \<lparr>su_lower = map ascii_lower, su_identities = [], su_target_label = ''TARGET'', su_target_origin_asns = [], su_scope_limit = [],
     su_event_date = ''2019-08-21'', su_analysis_end = ''2019-08-21T18:00:00Z''\<rparr>"

lemma sample_episode_part:
  "partitions [stream_record_of (Some (stream_evidence [] (sample_entry ''10.0.0.0/24'' [sample_loss, sample_move]))) a,
     stream_record_of (Some (stream_evidence [] (sample_entry ''10.0.1.0/24'' [sample_move]))) b]
   = [[stream_record_of (Some (stream_evidence [] (sample_entry ''10.0.0.0/24'' [sample_loss, sample_move]))) a,
     stream_record_of (Some (stream_evidence [] (sample_entry ''10.0.1.0/24'' [sample_move]))) b]]"
  by (simp add: partitions_def stream_record_of_def stream_evidence_def change_baseline_def note_paths_def Let_def
      sample_entry_def sample_loss_def sample_move_def)

definition sample_episode :: observer_episode where
  "sample_episode = build_episode 1 ''ris'' [] [] [] ''plane'' [] []
     ((''rrc00'', ''192.0.2.1'', PathReplacement), [sample_summary ''10.0.0.0/24'', sample_summary ''10.0.1.0/24''])"

lemma sample_kind: "stream_effect_kind (sample_summary p) = PathReplacement"
  by (simp add: stream_effect_kind_def sample_summary_def)

lemma sample_episodes:
  "build_episodes 1 ''ris'' [sample_summary ''10.0.0.0/24'', sample_summary ''10.0.1.0/24''] [] [] [] ''plane'' = [sample_episode]"
  by (simp add: build_episodes_def build_episodes_with_metadata_def bt_group_def bt_push_def bt_get_def sample_kind sample_episode_def)
    (simp add: sample_summary_def)

lemma sample_session: "session_key_of (ep_observer_session sample_episode)
    = \<lparr>sk_source_family = ''ris'', sk_collector = ''rrc00'', sk_peer_ip = ''192.0.2.1'', sk_address_family = ''ipv4''\<rparr>"
  by (simp add: sample_episode_def build_episode_def Let_def bt_get_def session_key_of_def starts_with_def address_family_of_def)

lemma sample_path_lookup:
  "path_lookup sample_paths ''EV'' ''rrc00'' ''192.0.2.1'' ''10.0.0.0/24''
     = Some (stream_evidence [] (sample_entry ''10.0.0.0/24'' [sample_loss, sample_move]))"
  "path_lookup sample_paths ''EV'' ''rrc00'' ''192.0.2.1'' ''10.0.1.0/24''
     = Some (stream_evidence [] (sample_entry ''10.0.1.0/24'' [sample_move]))"
  by (simp_all add: path_lookup_def sample_paths_def index_run_def sample_entry_def)

text \<open>On the episode of these two streams no findings are built at all: the page fails with a panic.\<close>

theorem mixed_streams_panic:
  "build_findings sample_subject sample_paths [1 \<mapsto> ''EV'']
     (build_episodes 1 ''ris'' [sample_summary ''10.0.0.0/24'', sample_summary ''10.0.1.0/24''] [] [] [] ''plane'') = None"
proof -
  let ?part = "[stream_record_of (Some (stream_evidence [] (sample_entry ''10.0.0.0/24'' [sample_loss, sample_move])))
       (episode_stream_of (sample_summary ''10.0.0.0/24'')),
     stream_record_of (Some (stream_evidence [] (sample_entry ''10.0.1.0/24'' [sample_move])))
       (episode_stream_of (sample_summary ''10.0.1.0/24''))]"
  have streams: "fs_transitions (rec_stream (stream_record_of (Some (stream_evidence [] (sample_entry p ts))) s)) = ts" for p ts s
    by (simp add: stream_record_of_def stream_evidence_def sample_entry_def Let_def split: prod.split)
  have first: "record_withdrawal (?part ! 0) = Some 0"
    by (simp add: record_withdrawal_def streams first_index_def is_withdrawal_def sample_loss_def starts_with_def)
  have second: "record_withdrawal (?part ! 1) = None"
    by (simp add: record_withdrawal_def streams first_index_def is_withdrawal_def sample_move_def starts_with_def)
  have "pre_shape ?part = Some []"
    using first second by (simp add: pre_shape_def shape_before_def map_filter_simps)
  then have panic: "partition_findings sample_subject sample_episode False 0 ?part = None"
    using second by (subst finding_split_panics_iff) auto
  have kind: "ep_effect_kind sample_episode \<noteq> NoRouteStateChange" "ep_analysis_run sample_episode = 1"
      "ep_streams sample_episode = [episode_stream_of (sample_summary ''10.0.0.0/24''), episode_stream_of (sample_summary ''10.0.1.0/24'')]"
    by (simp_all add: sample_episode_def build_episode_def Let_def bt_get_def)
  have prefix: "es_prefix (episode_stream_of (sample_summary p)) = p" for p
    by (simp add: episode_stream_of_def sample_summary_def)
  have "episode_findings sample_subject sample_paths [1 \<mapsto> ''EV''] sample_episode = None"
    unfolding episode_findings_def sample_session kind(2,3)
    using panic kind(1) by (simp add: Let_def prefix sample_path_lookup sample_episode_part)
  then show ?thesis
    unfolding sample_episodes build_findings_def by simp
qed

theorem select_principal_witness:
  "\<exists>chosen rest f. select_principal_findings [f, f\<lparr>rf_observer_site := ''elsewhere''\<rparr>] [] 1 = (chosen, rest)
    \<and> length chosen = 1 \<and> mset chosen + mset rest = mset [f, f\<lparr>rf_observer_site := ''elsewhere''\<rparr>]"
proof -
  define f where "f = emit sample_subject sample_episode False [] RouteWithdrawal AbsentAtWindowEnd 0 None"
  let ?fs = "[f, f\<lparr>rf_observer_site := ''elsewhere''\<rparr>]"
  obtain chosen rest where sel: "select_principal_findings ?fs [] 1 = (chosen, rest)"
    by (cases "select_principal_findings ?fs [] 1")
  then show ?thesis
    using select_principal_exact [OF sel] by (intro exI [of _ chosen] exI [of _ rest] exI [of _ f]) simp
qed

text \<open>A stream that was only withdrawn: two findings, the first of them a path change.\<close>

theorem pure_withdrawal_witness:
  "\<exists>r spurious absence. partition_findings sample_subject sample_episode False 0 [r] = Some [spurious, absence]
    \<and> fs_transitions (rec_stream r) = [sample_loss] \<and> rf_effect spurious = AsPathChanged"
proof -
  define r where "r = stream_record_of (Some (stream_evidence [] (sample_entry ''10.0.0.0/24'' [sample_loss])))
    (episode_stream_of (sample_summary ''10.0.0.0/24''))"
  have ts: "fs_transitions (rec_stream r) = [sample_loss]"
    by (simp add: r_def stream_record_of_def stream_evidence_def sample_entry_def Let_def split: prod.split)
  have "record_withdrawal r = Some 0"
    by (simp add: record_withdrawal_def ts first_index_def is_withdrawal_def sample_loss_def starts_with_def)
  then have "\<forall>q \<in> set [r]. record_withdrawal q = Some 0"
    by simp
  from pure_withdrawal_reported_as_path_change [OF _ this] ts show ?thesis
    by blast
qed

end
