(* ===== verification/Stream_Import.thy ===== *)
theory Stream_Import
  imports Lifecycle_Facts Findings
begin

text \<open>
  The import of stream summaries, \<open>import_stream_summaries\<close> of \<open>catalog/import.rs\<close>: what the catalog stores of a
  lifecycle, as the workbench reads it. The artifact between the two is the serialized lifecycle; how an
  instant is printed is a parameter. Shown: how the effect the workbench gives an imported stream
  depends on the lifecycle the simulation made.
\<close>

section \<open>Definitions\<close>

fun category_name :: "stream_category \<Rightarrow> string" where
  "category_name Unchanged = ''Unchanged''"
| "category_name PrependOnly = ''PrependOnly''"
| "category_name PathChangedStillViaTransit = ''PathChangedStillViaTransit''"
| "category_name DepartedTransitPath = ''DepartedTransitPath''"
| "category_name Withdrawn = ''Withdrawn''"

definition stream_evidence_refs :: "(timestamp \<Rightarrow> string) \<Rightarrow> stream_lifecycle \<Rightarrow> string" where
  "stream_evidence_refs rfc3339 lc =
     join ''; '' (List.map_filter (\<lambda>t.
       let ts = rfc3339 (lt_timestamp t); sha = (case lt_archive_sha256 t of None \<Rightarrow> [] | Some h \<Rightarrow> h)
       in if ts \<noteq> [] \<and> sha \<noteq> []
          then Some (sl_collector lc @ '':'' @ sl_peer_ip lc @ '' '' @ sl_prefix lc @ '' at '' @ ts @ '' (archive_sha256:'' @ sha @ '')'')
          else None) (sl_transitions lc))"

definition import_stream :: "(timestamp \<Rightarrow> string) \<Rightarrow> int \<Rightarrow> stream_lifecycle \<Rightarrow> stream_summary" where
  "import_stream rfc3339 run_id lc =
     (let transit_state = category_name (sl_category lc)
      in \<lparr>ss_id = 0, ss_run_id = run_id, ss_collector = sl_collector lc, ss_peer_ip = sl_peer_ip lc, ss_prefix = sl_prefix lc,
          ss_category = transit_state,
          ss_baseline_instances = int (sl_baseline_instance_count lc),
          ss_max_active_instances = int (sl_max_concurrent_instances lc),
          ss_transition_count = int (length (sl_transitions lc)),
          ss_withdrawn = sl_was_withdrawn lc, ss_restored = fl_restored (sl_flags lc),
          ss_transit_state = transit_state, ss_add_path_ambiguous = fl_add_path_ambiguous (sl_flags lc),
          ss_evidence_refs = stream_evidence_refs rfc3339 lc,
          ss_first_change_utc = map_option rfc3339 (sl_first_change lc),
          ss_restoration_time_utc = map_option rfc3339 (sl_restoration_time lc)\<rparr>)"

definition import_stream_summaries :: "(timestamp \<Rightarrow> string) \<Rightarrow> int \<Rightarrow> stream_lifecycle list \<Rightarrow> stream_summary list" where
  "import_stream_summaries rfc3339 run_id lifecycles = map (import_stream rfc3339 run_id) lifecycles"

text \<open>The same artifact as the path index reads it.\<close>

definition entry_of_lifecycle :: "(timestamp \<Rightarrow> string) \<Rightarrow> stream_lifecycle \<Rightarrow> lifecycle_entry" where
  "entry_of_lifecycle rfc3339 lc =
     \<lparr>le_collector = sl_collector lc, le_peer_ip = sl_peer_ip lc, le_prefix = sl_prefix lc, le_baseline_path = sl_baseline_path lc,
      le_transitions = map (\<lambda>t. \<lparr>pt_timestamp = rfc3339 (lt_timestamp t), pt_kind = lt_kind t,
        pt_before_path = lt_before_path t, pt_after_path = lt_after_path t\<rparr>) (sl_transitions lc),
      le_restoration_time = map_option rfc3339 (sl_restoration_time lc)\<rparr>"

section \<open>Effects of imported streams\<close>

lemma category_withdrawn:
  "sl_category (build_one_lifecycle opk b ts ce pred) = Withdrawn \<longleftrightarrow> sl_was_withdrawn (build_one_lifecycle opk b ts ce pred)"
  by (simp add: build_one_lifecycle_def Let_def stream_category_of_def)

text \<open>The effect of an imported stream, for every lifecycle the simulation makes: the stored transit state
  is the name of the category, which is never one of the states the workbench looks for. No stream is
  ever shown as departing from the reviewed plane or returning to it; one that departed is shown as a
  path replacement, or as unchanged when it departed in the cooldown only, though it is counted among
  the changed streams.\<close>

lemma imported_effect:
  fixes opk b ts ce pred rfc3339 run_id
  defines "lc \<equiv> build_one_lifecycle opk b ts ce pred"
  shows "stream_effect_kind (import_stream rfc3339 run_id lc) =
      (if sl_was_withdrawn lc then (if fl_restored (sl_flags lc) then TemporaryStreamAbsence else RouteWithdrawal)
       else case sl_category lc of
           PrependOnly \<Rightarrow> PrependChange
         | PathChangedStillViaTransit \<Rightarrow> effect_kind.PathReplacement
         | _ \<Rightarrow> if sl_transitions lc = [] then NoRouteStateChange else effect_kind.PathReplacement)"
    and "stream_changed (import_stream rfc3339 run_id lc) \<longleftrightarrow> sl_transitions lc \<noteq> [] \<or> sl_category lc \<noteq> Unchanged"
proof -
  have w: "sl_category lc = Withdrawn \<longleftrightarrow> sl_was_withdrawn lc"
    by (simp add: lc_def category_withdrawn)
  show "stream_effect_kind (import_stream rfc3339 run_id lc) =
      (if sl_was_withdrawn lc then (if fl_restored (sl_flags lc) then TemporaryStreamAbsence else RouteWithdrawal)
       else case sl_category lc of
           PrependOnly \<Rightarrow> PrependChange
         | PathChangedStillViaTransit \<Rightarrow> effect_kind.PathReplacement
         | _ \<Rightarrow> if sl_transitions lc = [] then NoRouteStateChange else effect_kind.PathReplacement)"
    by (cases "sl_category lc") (simp_all add: stream_effect_kind_def import_stream_def Let_def)
  show "stream_changed (import_stream rfc3339 run_id lc) \<longleftrightarrow> sl_transitions lc \<noteq> [] \<or> sl_category lc \<noteq> Unchanged"
    using w by (cases "sl_category lc") (auto simp: stream_changed_def import_stream_def Let_def)
qed

end
