(* ===== verification/Breadth.thy ===== *)
theory Breadth
  imports Workbench
begin

text \<open>
  Regional breadth, units and the observer timeline of the workbench, \<open>catalog/workbench.rs\<close>. A \<open>BTreeSet\<close> that
  is only counted is a set. Shown: the counts of a region are the numbers of distinct sessions, streams
  and prefixes they are documented as, however many episodes a session has.
\<close>

section \<open>Definitions\<close>

text \<open>\<open>entry(k).or_insert_with(..)\<close> followed by an update in place.\<close>

definition bt_update :: "'k::linorder \<Rightarrow> ('k \<Rightarrow> 'v) \<Rightarrow> ('v \<Rightarrow> 'v) \<Rightarrow> ('k, 'v) btree \<Rightarrow> ('k, 'v) btree" where
  "bt_update k init f m = bt_insert k (f (case bt_get m k of None \<Rightarrow> init k | Some v \<Rightarrow> v)) m"

datatype coverage_reason =
    EligibleWithBaseline
  | SessionPresentNoTargetBaseline
  | RequiredSessionAbsent
  | PredicateNotMatched
  | ArchiveIncomplete
  | UnsupportedSource

record region_summary =
  rs_region :: string
  eligible_observer_sessions :: nat
  changed_observer_sessions :: nat
  unchanged_observer_sessions :: nat
  sessions_without_baseline_visibility :: nat
  sessions_with_incomplete_coverage :: nat
  rs_episode_count :: nat
  rs_changed_streams :: nat
  rs_baseline_streams :: nat
  rs_changed_prefixes :: nat
  rs_route_instances :: nat
  rs_transition_count :: nat
  rs_first_change :: "string option"
  rs_last_restoration :: "string option"
  changed_session_keys :: "session_key set"
  unchanged_session_keys :: "session_key set"
  changed_stream_keys :: "(string \<times> string) set"
  changed_prefix_set :: "string set"
  transition_sessions :: "session_key set"

definition empty_region :: "string \<Rightarrow> region_summary" where
  "empty_region region =
     \<lparr>rs_region = region, eligible_observer_sessions = 0, changed_observer_sessions = 0, unchanged_observer_sessions = 0,
      sessions_without_baseline_visibility = 0, sessions_with_incomplete_coverage = 0, rs_episode_count = 0,
      rs_changed_streams = 0, rs_baseline_streams = 0, rs_changed_prefixes = 0, rs_route_instances = 0, rs_transition_count = 0,
      rs_first_change = None, rs_last_restoration = None, changed_session_keys = {}, unchanged_session_keys = {},
      changed_stream_keys = {}, changed_prefix_set = {}, transition_sessions = {}\<rparr>"

definition ep_changed :: "observer_episode \<Rightarrow> bool" where
  "ep_changed ep \<longleftrightarrow> ep_effect_kind ep \<noteq> NoRouteStateChange"

definition count_session :: "observer_episode \<Rightarrow> region_summary \<Rightarrow> region_summary" where
  "count_session ep r =
     (let key = session_key_of (ep_observer_session ep)
      in if ep_changed ep
         then (if key \<notin> changed_session_keys r
               then r\<lparr>changed_observer_sessions := changed_observer_sessions r + 1, changed_session_keys := insert key (changed_session_keys r)\<rparr>
               else r)
         else if key \<notin> unchanged_session_keys r
         then r\<lparr>unchanged_observer_sessions := unchanged_observer_sessions r + 1, unchanged_session_keys := insert key (unchanged_session_keys r)\<rparr>
         else r)"

definition count_transitions :: "observer_episode \<Rightarrow> region_summary \<Rightarrow> region_summary" where
  "count_transitions ep r =
     (let key = session_key_of (ep_observer_session ep)
      in if key \<notin> transition_sessions r
         then r\<lparr>transition_sessions := insert key (transition_sessions r), rs_transition_count := rs_transition_count r + ep_transition_count ep\<rparr>
         else r)"

definition count_stream :: "observer_episode \<Rightarrow> episode_stream \<Rightarrow> region_summary \<Rightarrow> region_summary" where
  "count_stream ep s r =
     (if ep_changed ep
      then let stream_key = (ep_observer_session ep, es_prefix s);
               r1 = (if stream_key \<notin> changed_stream_keys r
                     then r\<lparr>changed_stream_keys := insert stream_key (changed_stream_keys r), rs_changed_streams := rs_changed_streams r + 1,
                            rs_route_instances := rs_route_instances r + nat (max (es_max_active_instances s) 1)\<rparr>
                     else r)
        in r1\<lparr>changed_prefix_set := insert (es_prefix s) (changed_prefix_set r1)\<rparr>
      else r)"

definition opt_keep :: "(string \<Rightarrow> string option \<Rightarrow> string option) \<Rightarrow> string option \<Rightarrow> string option \<Rightarrow> string option" where
  "opt_keep keep t cur = (case t of None \<Rightarrow> cur | Some s \<Rightarrow> keep s cur)"

definition count_episode :: "observer_episode \<Rightarrow> region_summary \<Rightarrow> region_summary" where
  "count_episode ep r =
     (let r1 = count_session ep r;
          r2 = r1\<lparr>rs_episode_count := rs_episode_count r1 + 1, rs_baseline_streams := rs_baseline_streams r1 + ep_baseline_stream_count ep\<rparr>;
          r3 = fold (count_stream ep) (ep_streams ep) (count_transitions ep r2)
      in r3\<lparr>rs_first_change := opt_keep keep_min (ep_first_change ep) (rs_first_change r3),
            rs_last_restoration := opt_keep keep_max (ep_restoration_end ep) (rs_last_restoration r3)\<rparr>)"

definition finish_region :: "region_summary \<Rightarrow> region_summary" where
  "finish_region r =
     (let eligible = card (changed_session_keys r \<union> unchanged_session_keys r)
      in r\<lparr>eligible_observer_sessions := eligible, unchanged_observer_sessions := eligible - changed_observer_sessions r,
           rs_changed_prefixes := card (changed_prefix_set r)\<rparr>)"

text \<open>A session outside the measurement: collector, region, session, reason, detail.\<close>

type_synonym excluded_session = "string \<times> string \<times> string \<times> coverage_reason \<times> string"

definition excluded_region :: "excluded_session \<Rightarrow> string" where
  "excluded_region x = fst (snd x)"

definition regional_breadth :: "observer_episode list \<Rightarrow> excluded_session list \<Rightarrow> excluded_session list \<Rightarrow> region_summary list" where
  "regional_breadth episodes no_baseline_sessions incomplete_sessions =
     (let by_region = fold (\<lambda>ep. bt_update (ep_observer_region ep) empty_region (count_episode ep)) episodes [];
          with_missing = fold (\<lambda>x. bt_update (excluded_region x) empty_region
            (\<lambda>r. r\<lparr>sessions_without_baseline_visibility := sessions_without_baseline_visibility r + 1\<rparr>)) no_baseline_sessions by_region;
          all = fold (\<lambda>x. bt_update (excluded_region x) empty_region
            (\<lambda>r. r\<lparr>sessions_with_incomplete_coverage := sessions_with_incomplete_coverage r + 1\<rparr>)) incomplete_sessions with_missing
      in map finish_region (bt_values all))"

record workbench_units =
  wu_session_count :: nat
  wu_changed_session_count :: nat
  wu_episode_count :: nat
  wu_stream_count :: nat
  wu_distinct_prefix_count :: nat
  wu_route_instance_count :: nat
  wu_transition_count :: nat

definition units_from_parts :: "region_summary list \<Rightarrow> observer_episode list \<Rightarrow> workbench_units" where
  "units_from_parts breadth episodes =
     \<lparr>wu_session_count = sum_list (map eligible_observer_sessions breadth),
      wu_changed_session_count = sum_list (map changed_observer_sessions breadth),
      wu_episode_count = length episodes,
      wu_stream_count = sum_list (map rs_changed_streams breadth),
      wu_distinct_prefix_count = card (\<Union>b \<in> set breadth. changed_prefix_set b),
      wu_route_instance_count = sum_list (map rs_route_instances breadth),
      wu_transition_count = sum_list (map rs_transition_count breadth)\<rparr>"

section \<open>Timeline\<close>

record timeline_marker =
  tm_timestamp_utc :: string
  tm_label :: string
  tm_kind :: string

record timeline_lane =
  tl_observer_session :: string
  tl_region :: string
  tl_collector :: string
  tl_peer_asn :: "u32 option"
  tl_window_start :: string
  tl_window_end :: string
  tl_operator_anchors :: "timeline_marker list"
  tl_first_route_change :: "timeline_marker option"
  tl_absence_interval :: "(string \<times> string) option"
  tl_path_change_interval :: "(string \<times> string) option"
  tl_restoration_interval :: "(string \<times> string) option"
  tl_unresolved_end_state :: bool

definition new_lane :: "string \<Rightarrow> string \<Rightarrow> (string \<Rightarrow> timeline_marker list option) \<Rightarrow> observer_episode \<Rightarrow> timeline_lane" where
  "new_lane window_start window_end operator_anchors ep =
     \<lparr>tl_observer_session = ep_observer_session ep, tl_region = ep_observer_region ep,
      tl_collector = collector_from_session (ep_observer_session ep),
      tl_peer_asn = (case ep_observed_peer_asns ep of a # _ \<Rightarrow> Some a | [] \<Rightarrow> ep_peer_asn ep),
      tl_window_start = window_start, tl_window_end = window_end,
      tl_operator_anchors = (case operator_anchors (ep_observer_session ep) of None \<Rightarrow> [] | Some ms \<Rightarrow> ms),
      tl_first_route_change = None, tl_absence_interval = None, tl_path_change_interval = None, tl_restoration_interval = None,
      tl_unresolved_end_state = False\<rparr>"

text \<open>An interval replaces another that starts later, or at the same time and ends earlier.\<close>

definition better_interval :: "string \<times> string \<Rightarrow> (string \<times> string) option \<Rightarrow> (string \<times> string) option" where
  "better_interval i cur =
     (case cur of None \<Rightarrow> Some i
      | Some c \<Rightarrow> if fst i < fst c \<or> (fst i = fst c \<and> snd i > snd c) then Some i else cur)"

definition or_empty :: "string option \<Rightarrow> string" where
  "or_empty t = (case t of None \<Rightarrow> [] | Some s \<Rightarrow> s)"

definition add_to_lane :: "observer_episode \<Rightarrow> timeline_lane \<Rightarrow> timeline_lane" where
  "add_to_lane ep lane =
     (let change = (or_empty (ep_first_change ep), or_empty (ep_last_change ep));
          l1 = (case ep_first_change ep of
                  Some fc \<Rightarrow> if tl_first_route_change lane = None
                     then lane\<lparr>tl_first_route_change := Some \<lparr>tm_timestamp_utc = fc, tm_label = ''first route change'', tm_kind = ''bgp''\<rparr>\<rparr>
                     else lane
                | None \<Rightarrow> lane);
          l2 = (if ep_end_state ep = Unresolved then l1\<lparr>tl_unresolved_end_state := True\<rparr> else l1);
          l3 = (if ep_effect_kind ep \<in> {TemporaryStreamAbsence, RouteWithdrawal}
                then l2\<lparr>tl_absence_interval := better_interval change (tl_absence_interval l2)\<rparr>
                else if ep_effect_kind ep \<noteq> NoRouteStateChange
                then l2\<lparr>tl_path_change_interval := better_interval change (tl_path_change_interval l2)\<rparr>
                else l2)
      in case (ep_restoration_start ep, ep_restoration_end ep) of
           (Some rs, Some re) \<Rightarrow> if ep_end_state ep \<noteq> Unresolved
             then l3\<lparr>tl_restoration_interval := better_interval (rs, re) (tl_restoration_interval l3)\<rparr> else l3
         | _ \<Rightarrow> l3)"

definition build_timeline :: "observer_episode list \<Rightarrow> string \<Rightarrow> string \<Rightarrow> (string \<Rightarrow> timeline_marker list option) \<Rightarrow> timeline_lane list" where
  "build_timeline episodes window_start window_end operator_anchors =
     bt_values (fold (\<lambda>ep. bt_update (ep_observer_session ep) (\<lambda>_. new_lane window_start window_end operator_anchors ep) (add_to_lane ep)) episodes [])"

section \<open>Updates of a map\<close>

lemma bt_ok_update: "bt_ok m \<Longrightarrow> bt_ok (bt_update k init f m)"
  by (simp add: bt_update_def bt_ok_insert)

lemma bt_get_update:
  "bt_ok m \<Longrightarrow> bt_get (bt_update k init f m) = (bt_get m)(k \<mapsto> f (case bt_get m k of None \<Rightarrow> init k | Some v \<Rightarrow> v))"
  by (simp add: bt_update_def bt_get_insert)

lemma fold_bt_update:
  assumes "bt_ok m"
  shows "bt_ok (fold (\<lambda>x. bt_update (key x) init (f x)) xs m)"
    and "bt_get (fold (\<lambda>x. bt_update (key x) init (f x)) xs m) k =
      (if k \<in> key ` set xs
       then Some (fold f (filter (\<lambda>x. key x = k) xs) (case bt_get m k of None \<Rightarrow> init k | Some v \<Rightarrow> v))
       else bt_get m k)"
proof -
  have "bt_ok (fold (\<lambda>x. bt_update (key x) init (f x)) xs m) \<and>
    bt_get (fold (\<lambda>x. bt_update (key x) init (f x)) xs m) k =
      (if k \<in> key ` set xs
       then Some (fold f (filter (\<lambda>x. key x = k) xs) (case bt_get m k of None \<Rightarrow> init k | Some v \<Rightarrow> v))
       else bt_get m k)"
    using assms
  proof (induction xs arbitrary: m)
    case (Cons x xs)
    have "filter (\<lambda>x. key x = k) xs = []" if "k \<notin> key ` set xs"
      using that by (auto simp: filter_empty_conv)
    then show ?case
      using Cons.IH [OF bt_ok_update [OF Cons.prems, of "key x" init "f x"]] Cons.prems
      by (auto simp: bt_get_update)
  qed simp
  then show "bt_ok (fold (\<lambda>x. bt_update (key x) init (f x)) xs m)"
    "bt_get (fold (\<lambda>x. bt_update (key x) init (f x)) xs m) k =
      (if k \<in> key ` set xs
       then Some (fold f (filter (\<lambda>x. key x = k) xs) (case bt_get m k of None \<Rightarrow> init k | Some v \<Rightarrow> v))
       else bt_get m k)"
    by blast+
qed

section \<open>What the counts of a region are\<close>

abbreviation episode_session :: "observer_episode \<Rightarrow> session_key" where
  "episode_session ep \<equiv> session_key_of (ep_observer_session ep)"

definition changed_streams_of :: "observer_episode list \<Rightarrow> (string \<times> string) set" where
  "changed_streams_of eps = {(ep_observer_session ep, es_prefix s) |ep s. ep \<in> set eps \<and> ep_changed ep \<and> s \<in> set (ep_streams ep)}"

definition region_ok :: "observer_episode list \<Rightarrow> region_summary \<Rightarrow> bool" where
  "region_ok eps r \<longleftrightarrow>
     changed_session_keys r = episode_session ` {ep \<in> set eps. ep_changed ep}
     \<and> unchanged_session_keys r = episode_session ` {ep \<in> set eps. \<not> ep_changed ep}
     \<and> changed_observer_sessions r = card (changed_session_keys r)
     \<and> rs_episode_count r = length eps
     \<and> rs_baseline_streams r = sum_list (map ep_baseline_stream_count eps)
     \<and> changed_stream_keys r = changed_streams_of eps
     \<and> rs_changed_streams r = card (changed_stream_keys r)
     \<and> changed_prefix_set r = snd ` changed_streams_of eps"

text \<open>The fields the loop over the streams of an episode does not write.\<close>

definition session_fields :: "region_summary \<Rightarrow> session_key set \<times> session_key set \<times> nat \<times> nat \<times> nat" where
  "session_fields r = (changed_session_keys r, unchanged_session_keys r, changed_observer_sessions r, rs_episode_count r, rs_baseline_streams r)"

lemma session_fields_streams: "session_fields (fold (count_stream ep) ss r) = session_fields r"
  by (induction ss arbitrary: r) (simp_all add: session_fields_def count_stream_def Let_def)

lemma count_streams:
  assumes "finite (changed_stream_keys r)" "rs_changed_streams r = card (changed_stream_keys r)"
  shows "changed_stream_keys (fold (count_stream ep) ss r)
      = changed_stream_keys r \<union> (if ep_changed ep then {(ep_observer_session ep, es_prefix s) |s. s \<in> set ss} else {})
    \<and> rs_changed_streams (fold (count_stream ep) ss r) = card (changed_stream_keys (fold (count_stream ep) ss r))
    \<and> changed_prefix_set (fold (count_stream ep) ss r)
      = changed_prefix_set r \<union> (if ep_changed ep then es_prefix ` set ss else {})"
  using assms
proof (induction ss arbitrary: r)
  case (Cons s ss)
  let ?r = "count_stream ep s r"
  have "finite (changed_stream_keys ?r)" "rs_changed_streams ?r = card (changed_stream_keys ?r)"
    using Cons.prems by (auto simp: count_stream_def Let_def)
  from Cons.IH [OF this] show ?case
    by (auto simp: count_stream_def Let_def)
qed auto

lemma finite_changed_streams: "finite (changed_streams_of eps)"
proof -
  have "changed_streams_of eps \<subseteq> (\<Union>ep \<in> set eps. (\<lambda>s. (ep_observer_session ep, es_prefix s)) ` set (ep_streams ep))"
    by (auto simp: changed_streams_of_def)
  then show ?thesis
    by (rule finite_subset) auto
qed

lemma changed_streams_snoc:
  "changed_streams_of (eps @ [ep]) = changed_streams_of eps
     \<union> (if ep_changed ep then {(ep_observer_session ep, es_prefix s) |s. s \<in> set (ep_streams ep)} else {})"
  by (auto simp: changed_streams_of_def)

lemma region_ok_step:
  assumes "region_ok eps r"
  shows "region_ok (eps @ [ep]) (count_episode ep r)"
proof -
  define r1 where "r1 = count_session ep r"
  define r2 where "r2 = count_transitions ep (r1\<lparr>rs_episode_count := rs_episode_count r1 + 1,
    rs_baseline_streams := rs_baseline_streams r1 + ep_baseline_stream_count ep\<rparr>)"
  define r3 where "r3 = fold (count_stream ep) (ep_streams ep) r2"
  have streams2: "changed_stream_keys r2 = changed_stream_keys r" "rs_changed_streams r2 = rs_changed_streams r"
      "changed_prefix_set r2 = changed_prefix_set r"
    by (simp_all add: r2_def r1_def count_transitions_def count_session_def Let_def)
  have fields2: "session_fields r2 = (changed_session_keys r1, unchanged_session_keys r1, changed_observer_sessions r1,
      rs_episode_count r + 1, rs_baseline_streams r + ep_baseline_stream_count ep)"
    by (simp add: session_fields_def r2_def r1_def count_transitions_def count_session_def Let_def)
  have streams3: "changed_stream_keys r3 = changed_streams_of (eps @ [ep])"
      "rs_changed_streams r3 = card (changed_stream_keys r3)" "changed_prefix_set r3 = snd ` changed_streams_of (eps @ [ep])"
  proof -
    have old: "changed_stream_keys r = changed_streams_of eps" "rs_changed_streams r = card (changed_streams_of eps)"
        "changed_prefix_set r = snd ` changed_streams_of eps"
      using assms by (simp_all add: region_ok_def)
    have prefixes: "snd ` {(ep_observer_session ep, es_prefix s) |s. s \<in> set ss} = es_prefix ` set ss" for ss
      by force
    note counted = count_streams [of r2 ep "ep_streams ep", folded r3_def, unfolded streams2 old, OF finite_changed_streams refl]
    show "changed_stream_keys r3 = changed_streams_of (eps @ [ep])"
      using counted by (simp add: changed_streams_snoc)
    show "rs_changed_streams r3 = card (changed_stream_keys r3)"
      using counted by simp
    show "changed_prefix_set r3 = snd ` changed_streams_of (eps @ [ep])"
      using counted by (simp only: changed_streams_snoc image_Un if_distrib [of "image snd"] prefixes image_empty)
  qed
  have fields3: "session_fields r3 = session_fields r2"
    by (simp add: r3_def session_fields_streams)
  have sessions: "changed_session_keys r1 = episode_session ` {e \<in> set (eps @ [ep]). ep_changed e}"
      "unchanged_session_keys r1 = episode_session ` {e \<in> set (eps @ [ep]). \<not> ep_changed e}"
      "changed_observer_sessions r1 = card (changed_session_keys r1)"
    using assms by (auto simp: r1_def count_session_def region_ok_def Let_def)
  have "count_episode ep r = r3\<lparr>rs_first_change := opt_keep keep_min (ep_first_change ep) (rs_first_change r3),
      rs_last_restoration := opt_keep keep_max (ep_restoration_end ep) (rs_last_restoration r3)\<rparr>"
    by (simp add: count_episode_def r3_def r2_def r1_def Let_def)
  then show ?thesis
    using assms streams3 fields2 fields3 sessions by (simp add: region_ok_def session_fields_def)
qed

lemma region_ok_fold: "region_ok eps (fold count_episode eps (empty_region g))"
proof (induction eps rule: rev_induct)
  case Nil
  show ?case by (simp add: region_ok_def empty_region_def changed_streams_of_def)
qed (simp add: region_ok_step)

lemma rs_region_fold: "rs_region (fold count_episode eps r) = rs_region r"
proof (induction eps arbitrary: r)
  case (Cons ep eps)
  have "rs_region (fold (count_stream ep) ss x) = rs_region x" for ss x
    by (induction ss arbitrary: x) (simp_all add: count_stream_def Let_def)
  then show ?case
    using Cons by (simp add: count_episode_def count_session_def count_transitions_def Let_def)
qed simp

lemma excluded_fold:
  assumes "\<And>r. region_ok eps r \<Longrightarrow> region_ok eps (f r)" "\<And>r. rs_region (f r) = rs_region r" "region_ok eps r"
  shows "region_ok eps (fold (\<lambda>_. f) xs r) \<and> rs_region (fold (\<lambda>_. f) xs r) = rs_region r"
  using assms(3) by (induction xs arbitrary: r) (simp_all add: assms)

lemma regional_breadth_regions:
  assumes "r \<in> set (regional_breadth episodes no_baseline incomplete)"
  shows "\<exists>q. r = finish_region q \<and> region_ok (filter (\<lambda>ep. ep_observer_region ep = rs_region r) episodes) q"
proof -
  let ?missing = "\<lambda>r. r\<lparr>sessions_without_baseline_visibility := sessions_without_baseline_visibility r + 1\<rparr>"
  let ?partial = "\<lambda>r. r\<lparr>sessions_with_incomplete_coverage := sessions_with_incomplete_coverage r + 1\<rparr>"
  define m1 where "m1 = fold (\<lambda>ep. bt_update (ep_observer_region ep) empty_region (count_episode ep)) episodes []"
  define m2 where "m2 = fold (\<lambda>x. bt_update (excluded_region x) empty_region ?missing) no_baseline m1"
  define m3 where "m3 = fold (\<lambda>x. bt_update (excluded_region x) empty_region ?partial) incomplete m2"
  define E where "E g = filter (\<lambda>ep. ep_observer_region ep = g) episodes" for g
  have ok0: "bt_ok []"
    by (simp add: bt_ok_def)
  have ok: "bt_ok m1" "bt_ok m2" "bt_ok m3"
    unfolding m1_def m2_def m3_def by (intro fold_bt_update ok0)+
  have none: "region_ok (E g) (empty_region g)" if "g \<notin> ep_observer_region ` set episodes" for g
  proof -
    have "E g = []"
      using that by (auto simp: E_def filter_empty_conv)
    then show ?thesis
      using region_ok_fold [of "[]" g] by simp
  qed
  have step: "region_ok (E g) q \<Longrightarrow> region_ok (E g) (?missing q)" "region_ok (E g) q \<Longrightarrow> region_ok (E g) (?partial q)" for g q
    by (simp_all add: region_ok_def)
  have 1: "region_ok (E g) (case bt_get m1 g of None \<Rightarrow> empty_region g | Some v \<Rightarrow> v)
      \<and> rs_region (case bt_get m1 g of None \<Rightarrow> empty_region g | Some v \<Rightarrow> v) = g" for g
    using none [of g] region_ok_fold [of "E g" g] rs_region_fold [of "E g" "empty_region g"]
    unfolding m1_def fold_bt_update(2) [OF ok0] by (auto simp: E_def bt_get_def empty_region_def [of g])
  have 2: "region_ok (E g) (case bt_get m2 g of None \<Rightarrow> empty_region g | Some v \<Rightarrow> v)
      \<and> rs_region (case bt_get m2 g of None \<Rightarrow> empty_region g | Some v \<Rightarrow> v) = g" for g
    using 1 [of g] excluded_fold [of "E g" ?missing _ "filter (\<lambda>x. excluded_region x = g) no_baseline", OF step(1) _ conjunct1 [OF 1 [of g]]]
    unfolding m2_def fold_bt_update(2) [OF ok(1)] by auto
  have 3: "region_ok (E g) (case bt_get m3 g of None \<Rightarrow> empty_region g | Some v \<Rightarrow> v)
      \<and> rs_region (case bt_get m3 g of None \<Rightarrow> empty_region g | Some v \<Rightarrow> v) = g" for g
    using 2 [of g] excluded_fold [of "E g" ?partial _ "filter (\<lambda>x. excluded_region x = g) incomplete", OF step(2) _ conjunct1 [OF 2 [of g]]]
    unfolding m3_def fold_bt_update(2) [OF ok(2)] by auto
  obtain q where q: "q \<in> set (bt_values m3)" "r = finish_region q"
    using assms by (auto simp: regional_breadth_def Let_def m1_def m2_def m3_def)
  then obtain g where "bt_get m3 g = Some q"
    using bt_values_get [OF ok(3)] by (auto simp: ran_def)
  then show ?thesis
    using 3 [of g] q(2) by (intro exI [of _ q]) (auto simp: E_def finish_region_def Let_def)
qed

text \<open>C23: In every region of the summary the eligible sessions are the distinct sessions with an episode
  there, the changed ones those with a changed episode and the unchanged ones the rest; streams and
  prefixes are counted once however many episodes or peers show them, and the sessions that could not
  be observed enter none of these counts.\<close>

theorem regional_breadth_exact:
  assumes "r \<in> set (regional_breadth episodes no_baseline incomplete)"
  shows "let here = filter (\<lambda>ep. ep_observer_region ep = rs_region r) episodes;
      sessions = episode_session ` set here; changed = episode_session ` {ep \<in> set here. ep_changed ep}
    in eligible_observer_sessions r = card sessions \<and> changed_observer_sessions r = card changed
      \<and> unchanged_observer_sessions r = card (sessions - changed)
      \<and> rs_episode_count r = length here \<and> rs_baseline_streams r = sum_list (map ep_baseline_stream_count here)
      \<and> rs_changed_streams r = card (changed_streams_of here) \<and> rs_changed_prefixes r = card (snd ` changed_streams_of here)"
proof -
  define here where "here = filter (\<lambda>ep. ep_observer_region ep = rs_region r) episodes"
  define changed where "changed = episode_session ` {ep \<in> set here. ep_changed ep}"
  obtain q where q: "r = finish_region q" "region_ok here q"
    using regional_breadth_regions [OF assms] by (auto simp: here_def)
  have sessions: "episode_session ` set here = changed \<union> episode_session ` {ep \<in> set here. \<not> ep_changed ep}"
    by (auto simp: changed_def)
  have "finite changed" "changed \<subseteq> episode_session ` set here"
    by (auto simp: changed_def)
  then have "card (episode_session ` set here) - card changed = card (episode_session ` set here - changed)"
    by (simp add: card_Diff_subset)
  then show ?thesis
    using q sessions unfolding here_def [symmetric] changed_def [symmetric] Let_def
    by (auto simp: region_ok_def finish_region_def Let_def changed_def [symmetric])
qed

definition sample_absence :: observer_episode where
  "sample_absence = build_episode 1 ''ris'' [] [] [] ''plane'' [] []
     ((''rrc00'', ''192.0.2.1'', RouteWithdrawal),
      [\<lparr>ss_id = 0, ss_run_id = 1, ss_collector = ''rrc00'', ss_peer_ip = ''192.0.2.1'', ss_prefix = ''10.0.0.0/24'',
        ss_category = ''Withdrawn'', ss_baseline_instances = 1, ss_max_active_instances = 1, ss_transition_count = 1,
        ss_withdrawn = True, ss_restored = False, ss_transit_state = ''Withdrawn'', ss_add_path_ambiguous = False,
        ss_evidence_refs = [], ss_first_change_utc = Some ''2019-08-21T16:00:00Z'', ss_restoration_time_utc = None\<rparr>])"

text \<open>Two episodes of one session are one eligible session.\<close>

theorem regional_breadth_witness:
  "\<exists>r. r \<in> set (regional_breadth [sample_absence, sample_absence] [] []) \<and> eligible_observer_sessions r = 1
    \<and> changed_observer_sessions r = 1 \<and> rs_episode_count r = 2"
proof -
  define g where "g = ep_observer_region sample_absence"
  define r where "r = finish_region (fold count_episode [sample_absence, sample_absence] (empty_region g))"
  have in_map: "r \<in> set (regional_breadth [sample_absence, sample_absence] [] [])"
    by (simp add: regional_breadth_def bt_values_def bt_update_def bt_get_def r_def g_def)
  have region: "rs_region r = ep_observer_region sample_absence"
    using rs_region_fold [of "[sample_absence, sample_absence]" "empty_region g"]
    by (simp add: r_def finish_region_def Let_def g_def) (simp add: empty_region_def)
  have "ep_changed sample_absence"
    by (simp add: ep_changed_def sample_absence_def build_episode_fields)
  then have "{ep. ep = sample_absence \<and> ep_changed ep} = {sample_absence}"
    by auto
  then have "eligible_observer_sessions r = 1 \<and> changed_observer_sessions r = 1 \<and> rs_episode_count r = 2"
    using regional_breadth_exact [OF in_map] by (simp add: region Let_def)
  then show ?thesis
    using in_map by blast
qed

end
