(* ===== verification/Spec2Isabelle.thy ===== *)
theory Spec2Isabelle
  imports Assess Semantic_Waves Job_Policies Artifact_Path Grouping Target Viewer_Sync Archive_Plan
    Stream_Lifecycles Stream_Import Breadth
begin

text \<open>
  A verification of inim, a tool that explains how announced network maintenance showed in public
  BGP data (\<open>src/src\<close>, Rust).

  The program. Route observations (RIB entries and updates of route collectors) are normalised,
  folded into a store of route instances and turned into a sequence of state changes between
  warm-up, event and cooldown. Changes are classified into transitions. Observer-prefix streams
  that matter for the event are frozen into a cohort; each stream's transitions are simulated
  into a lifecycle record. Transitions are clustered into waves with a grammar-based motif.
  An assessment compares all this with what the operator declared. A catalog collects the
  operators' tickets, relates and reviews them, plans analyses and runs them as jobs.

  The theories, in the order of the data flow.
  \<^item> Inim_Prelude: machine types, text of numbers and addresses, ordered maps (the locale
    \<open>ordered_map\<close> and its interpretation), runs of a step function (\<open>invariant_run\<close>), clustering
    by gaps (\<open>gap_groups\<close>).
  \<^item> Observation, Route: the records and enums of \<open>domain/observation.rs\<close> and \<open>domain/route.rs\<close>,
    transit predicates and key orders.
  \<^item> Route_Store: \<open>routes.rs\<close>. The store is a record of ordered maps; \<open>apply_update\<close> and
    \<open>recon_step\<close> are the update and the loop body of \<open>reconstruct_routes\<close>. Shown: instances do
    not influence one another (a refinement to one slot per key), every emitted change is
    genuine and in its window, and the changes replay to the final state.
  \<^item> Tokenize: \<open>tokenize.rs\<close>. Shown: the facets of a diff are exact, and which transitions the
    pipeline can emit.
  \<^item> Cohort: \<open>cohort.rs\<close>. Shown: who is admitted, with which baseline, and that the cohort is
    well formed.
  \<^item> Path_Shape, Lifecycle, Lifecycle_Facts, Stream_Lifecycles: \<open>lifecycle.rs\<close>. The local
    variables of \<open>build_one_lifecycle\<close> are the record \<open>sim\<close>; its loop body is split into the
    substeps of \<open>lifecycle_step\<close>, in source order. Shown: the simulation refines a plain set of
    keys that are up; counters, journals, absences and end-of-window flags mean what they say;
    the builder yields one record per stream in an order no hash map influences.
  \<^item> Withdrawal_Audit: the audit rows and their summary.
  \<^item> Semantic_Waves: the labelled waves of \<open>lifecycle.rs\<close>.
  \<^item> Sequitur, Sequitur_Facts: \<open>sequitur/\<close>. Panics are \<open>None\<close>; the mutual recursion is cut at
    the callback, and the locale \<open>enforcer\<close> states the contract that every depth satisfies.
    Shown: the builder returns, expands to its input and keeps only rules used twice.
  \<^item> Waves: \<open>waves.rs\<close> and \<open>domain/wave.rs\<close>. Shown: waves partition the transitions and motifs are
    bounded and independent of the hash map order.
  \<^item> Assess: \<open>assess.rs\<close>, \<open>domain/assessment.rs\<close>, \<open>domain/expectation.rs\<close>, \<open>outcome.rs\<close>. Shown: the
    continuity gate, the meaning of the participant verdict on lifecycles the builder made, and
    the stability of stored labels.

  The catalog: which events exist, what is known about them and what may be run on them.
  \<^item> Std_Text: the string operations of Rust's standard library that the catalog code uses.
  \<^item> Scope, Artifact_Path: \<open>catalog/scope.rs\<close>, \<open>catalog/artifact_path.rs\<close>. Shown: lookups are exact,
    and no accepted path leaves its root, over an arbitrary file system.
  \<^item> Manifest, Planning, Job_Plan: \<open>manifest.rs\<close>, \<open>plan.rs\<close>, \<open>catalog/jobs/plan.rs\<close>. Shown: validation,
    the planned status and the identity of a plan.
  \<^item> Jobs, Job_Service, Job_Facts, Job_Policies: \<open>catalog/jobs/\<close>. The two tables are a record, every
    service call is a function on it with its errors as values, and runs of calls are a step
    relation. Shown: only legal transitions happen, a claim is exclusive, an accepted cancellation
    is never published, event logs have no gaps, expired leases are released.
  \<^item> Catalog_Status: \<open>catalog/status.rs\<close>, \<open>catalog/analyzability.rs\<close> and the stored plan records.
  \<^item> Relationships, Review, Grouping: the relationship graph of tickets, reviewed decisions and
    incident groups, with the rows of \<open>catalog/store.rs\<close> they keep. Shown: the traversal ends and
    what it reaches, reviewed rows survive every later extraction, reviews are validated.
  \<^item> Target, Net_Profile: \<open>target.rs\<close>, \<open>catalog/netprofile.rs\<close>. Shown: what a RIB scan collects and how
    routes and sessions are classified.
  \<^item> Convention, Ticket_Source: \<open>conventions/grnoc.rs\<close>, \<open>sources/grnoc.rs\<close>, \<open>profiles/\<close>. Shown: the
    expectation a title gives, and where text outside ASCII changes it.
  \<^item> Access, Access_Runs: \<open>catalog/access.rs\<close>. The HTTP client and the clock are parameters. Shown: what
    a fetch returns for every sequence of answers, that it returns, and that the adaptive rate and
    the token bucket stay within their limits.
  \<^item> Sync, Discovery, Viewer_Sync: \<open>catalog/sync.rs\<close>, \<open>catalog/discovery.rs\<close>,
    \<open>catalog/grnoc_viewer.rs\<close> with the tables they write. Shown: a second sync of the same tickets
    changes nothing, the frontier is exact, and a sync stays within its budget.
  \<^item> Archive_Plan: \<open>catalog/archive_plan.rs\<close>. Shown: the planned archives cover the horizon, each instant
    once, and the totals add up.
  \<^item> Workbench, Path_Evidence, Findings, Breadth, Stream_Import: the presentation model of
    \<open>catalog/workbench.rs\<close> and the import of the stream rows it reads. Shown: episodes partition the
    streams, path texts are exact, what the findings say about restorations, when building them
    panics, how the leading findings are chosen, and what the regional counts mean.

  Bounds. No theorem depends on a fuel. The only recursion bound is the code's own \<open>MAX_DEPTH\<close>;
  the clean-up loop of the grammar builder is a partial function that is proved to return because
  the grammar shrinks.

  Conventions. Counters of things in memory are natural numbers, \<open>u32\<close> and \<open>u64\<close> data are words,
  instants are integers of nanoseconds, and an \<open>f64\<close> that holds seconds is the rational it denotes.
  Rule ids of a grammar are natural numbers. The visiting order of a hash map is a parameter
  wherever it could show.

  Not modelled: parsing of MRT files (an external crate), discovery of archive files over the
  network, worker processes and the files they exchange, the derived cache, SQL text as such (a
  table is a list of rows, a query the function it computes), publication and clean-up of staged
  directories, the imports of case studies and corpora, the sentences, chronologies and pages of the
  workbench, rendering of reports and the command line. They are input and output, or presentation of what is modelled.
\<close>

section \<open>From the simulation to the workbench\<close>

text \<open>C6: The effect the workbench shows for a stream, through the simulation of its lifecycle, the import of its
  summary and the workbench's reading of the row. The stored transit state is the name of the category,
  none of which is a state the workbench looks for, so no stream is ever shown as leaving the reviewed
  plane or returning to it: a stream that departed is shown as a path replacement, or, when it departed in
  the cooldown only, as unchanged although it is counted among the changed streams.\<close>

theorem imported_stream_effect:
  "let lc = build_one_lifecycle opk baseline ts cooldown_end pred; s = import_stream rfc3339 run_id lc in
     stream_effect_kind s =
       (if sl_was_withdrawn lc then (if fl_restored (sl_flags lc) then TemporaryStreamAbsence else RouteWithdrawal)
        else case sl_category lc of
            PrependOnly \<Rightarrow> PrependChange
          | PathChangedStillViaTransit \<Rightarrow> effect_kind.PathReplacement
          | _ \<Rightarrow> if sl_transitions lc = [] then NoRouteStateChange else effect_kind.PathReplacement)
     \<and> stream_effect_kind s \<notin> {NamedPlaneDeparture, NamedPlaneReturn}
     \<and> stream_changed s = (\<not> (sl_transitions lc = [] \<and> sl_category lc = Unchanged))"
  by (simp add: Let_def imported_effect split: stream_category.split)

end
